(* ===== verification/Prelude.thy ===== *)
theory Prelude
  imports Main "HOL-Library.Word" "HOL-Library.Monad_Syntax"
begin

text \<open>
  Shared vocabulary of the development: machine integers at their C width, the error
  numbers of \<^verbatim>\<open>src/src/include/errno.h\<close>, the address-space constants of
  \<^verbatim>\<open>platform/mmap.h\<close>, and the generic facts on words, pages, lists and options that the
  component theories use. A function that spins or loops forever in C is a value \<open>None\<close>
  of an option type; a C \<open>int\<close> that carries a negative error number is an \<open>int\<close>.
\<close>

unbundle bit_operations_syntax

type_synonym u8 = "8 word"
type_synonym u16 = "16 word"
type_synonym u32 = "32 word"
type_synonym u64 = "64 word"
type_synonym ptr = nat

named_theorems errno_defs
named_theorems layout_defs
named_theorems page_simps

section \<open>Error numbers\<close>

definition EADDRNOTAVAIL :: int where [errno_defs]: "EADDRNOTAVAIL = 4"
definition EAFNOSUPPORT :: int where [errno_defs]: "EAFNOSUPPORT = 5"
definition EAGAIN :: int where [errno_defs]: "EAGAIN = 6"
definition EBADF :: int where [errno_defs]: "EBADF = 8"
definition ECHILD :: int where [errno_defs]: "ECHILD = 12"
definition ECONNREFUSED :: int where [errno_defs]: "ECONNREFUSED = 14"
definition EDESTADDRREQ :: int where [errno_defs]: "EDESTADDRREQ = 17"
definition EINPROGRESS :: int where [errno_defs]: "EINPROGRESS = 26"
definition EINVAL :: int where [errno_defs]: "EINVAL = 28"
definition EIO :: int where [errno_defs]: "EIO = 29"
definition EISCONN :: int where [errno_defs]: "EISCONN = 30"
definition EMFILE :: int where [errno_defs]: "EMFILE = 33"
definition ENAMETOOLONG :: int where [errno_defs]: "ENAMETOOLONG = 37"
definition ENFILE :: int where [errno_defs]: "ENFILE = 41"
definition ENOBUFS :: int where [errno_defs]: "ENOBUFS = 42"
definition ENODEV :: int where [errno_defs]: "ENODEV = 43"
definition ENOMEM :: int where [errno_defs]: "ENOMEM = 48"
definition ENOTCONN :: int where [errno_defs]: "ENOTCONN = 53"
definition ENOTSOCK :: int where [errno_defs]: "ENOTSOCK = 57"
definition EPERM :: int where [errno_defs]: "EPERM = 63"
definition ERANGE :: int where [errno_defs]: "ERANGE = 68"
definition ESRCH :: int where [errno_defs]: "ESRCH = 71"
definition EWOULDBLOCK :: int where [errno_defs]: "EWOULDBLOCK = 75"

section \<open>Address-space layout\<close>

definition PAGE_SIZE :: u64 where [layout_defs]: "PAGE_SIZE = 4096"
definition KERNEL_BASE_ADDRESS :: u64 where [layout_defs]: "KERNEL_BASE_ADDRESS = 0xFFFF800000000000"
definition KERNEL_BASE_MAPPED :: u64 where [layout_defs]: "KERNEL_BASE_MAPPED = 16"
definition KERNEL_MMIO_BASE :: u64 where [layout_defs]: "KERNEL_MMIO_BASE = KERNEL_BASE_ADDRESS"
definition KERNEL_MMIO_LIMIT :: u64 where [layout_defs]: "KERNEL_MMIO_LIMIT = push_bit 30 KERNEL_BASE_MAPPED"
definition KERNEL_BASE_END :: u64 where
  [layout_defs]: "KERNEL_BASE_END = KERNEL_BASE_ADDRESS - KERNEL_MMIO_LIMIT - 1"
definition KERNEL_HEAP_BASE :: u64 where [layout_defs]: "KERNEL_HEAP_BASE = 0xFFFF8F0000000000"
definition KERNEL_HEAP_LIMIT :: u64 where [layout_defs]: "KERNEL_HEAP_LIMIT = 0xFFFF8FFFFFFFFFFF"
definition USER_BASE_ADDRESS :: u64 where [layout_defs]: "USER_BASE_ADDRESS = 0x400000"
definition USER_HEAP_BASE :: u64 where [layout_defs]: "USER_HEAP_BASE = 0x00006FFF80000000"
definition USER_HEAP_LIMIT :: u64 where [layout_defs]: "USER_HEAP_LIMIT = 0x00006FFFFFFFFFFF"
definition USER_MMIO_BASE :: u64 where [layout_defs]: "USER_MMIO_BASE = 0x0000700000000000"
definition USER_LIMIT_ADDRESS :: u64 where [layout_defs]: "USER_LIMIT_ADDRESS = KERNEL_BASE_ADDRESS - 1"

section \<open>Words and pages\<close>

text \<open>\<open>x & ~(PAGE_SIZE-1)\<close>, which the C code writes out at every use.\<close>

definition pageBase :: "u64 \<Rightarrow> u64" where
  "pageBase x = x AND NOT (PAGE_SIZE - 1)"

lemma and_push_bit_1_iff: "b AND push_bit n (1::'a::len word) \<noteq> 0 \<longleftrightarrow> bit b n"
  by (metis and_exp_eq_0_iff_not_bit push_bit_of_1)

lemma and_exp_iff: "b AND (2::'a::len word) ^ n \<noteq> 0 \<longleftrightarrow> bit b n"
  by (simp add: and_exp_eq_0_iff_not_bit)

lemma drop_bit_and_1_iff: "drop_bit n b AND (1::'a::len word) \<noteq> 0 \<longleftrightarrow> bit b n"
  by (metis and_push_bit_1_iff bit_drop_bit_eq comp_apply add_0_right push_bit_0_id id_apply)

lemma unat_div_word: "unat (a div b) = unat a div unat (b::'a::len word)"
  by (rule unat_div)

lemma unat_mod_word: "unat (a mod b) = unat a mod unat (b::'a::len word)"
  by (rule unat_mod)

lemma u64_bound: "unat (x::u64) < 18446744073709551616"
  using unsigned_less [of x, where ?'a = nat] by simp

lemma mask12: "(4095::u64) = mask 12"
  by (simp add: mask_eq_exp_minus_1)

lemma mask8: "(255::u8) = mask 8"
  by (simp add: mask_eq_exp_minus_1)

lemma pageBase_eq_push: "pageBase x = push_bit 12 (drop_bit 12 x)"
  unfolding pageBase_def layout_defs
  by (rule bit_word_eqI) (auto simp: mask12 bit_simps)

lemma pageBase_eq_div: "pageBase x = x div 4096 * 4096"
  by (simp add: pageBase_eq_push push_bit_eq_mult drop_bit_eq_div)

lemma unat_pageBase [page_simps]: "unat (pageBase x) = unat x div 4096 * 4096"
proof -
  have "unat x div 4096 * 4096 \<le> unat x" by simp
  also have "\<dots> < 2 ^ 64" using unsigned_less [of x] by simp
  finally show ?thesis
    by (simp add: pageBase_eq_div unat_word_ariths unat_div)
qed

lemma pageBase_idem [simp]: "pageBase (pageBase x) = pageBase x"
  by (rule bit_word_eqI) (auto simp: pageBase_eq_push bit_simps)

end
