(* ===== verification/Physical.thy ===== *)
theory Physical
  imports Prelude
begin

text \<open>
  The physical memory manager, \<^verbatim>\<open>src/src/memory/physical.c\<close>. The state is the file's static
  variables: the status structure, the bitmap (the bytes found at \<open>pmmBitmap\<close>, by their
  offset) and its size. The spin lock is taken and released within every call on every path,
  so a call is one atomic step of the model. The scans step through addresses modulo
  \<open>2 ^ 64\<close> and are \<^theory_text>\<open>partial_function (option)\<close>: \<open>None\<close> is a scan that never
  ends, and the theorems say when they end.
\<close>

section \<open>Data\<close>

record PhysicalMemoryStatus =
  highestPhysicalAddress :: u64
  lowestUsableAddress :: u64
  highestUsableAddress :: u64
  highestPage :: u64
  usablePages :: u64
  usedPages :: u64
  reservedPages :: u64

record pmm =
  pmmStat :: PhysicalMemoryStatus
  pmmBitmap :: "u64 \<Rightarrow> u8"
  pmmBitmapSize :: u64

record MemoryMap =
  mm_base :: u64
  mm_len :: u64
  mm_type :: u32
  mm_acpiAttributes :: u32

record KernelBootInfo =
  boot_highestPhysicalAddress :: u64
  boot_memoryMap :: "MemoryMap list"
  boot_lowestFreeMemory :: u64

definition MEMORY_TYPE_USABLE :: u32 where "MEMORY_TYPE_USABLE = 1"
definition MEMORY_TYPE_BAD :: u32 where "MEMORY_TYPE_BAD = 5"
definition MEMORY_ATTRIBUTES_VALID :: u32 where "MEMORY_ATTRIBUTES_VALID = 1"
definition PMM_CONTIGUOUS_LOW :: u32 where "PMM_CONTIGUOUS_LOW = 1"

section \<open>Operations\<close>

definition set_bit_of :: "pmm \<Rightarrow> u64 \<Rightarrow> nat \<Rightarrow> pmm" where
  "set_bit_of s byte b = s\<lparr>pmmBitmap := (pmmBitmap s)(byte := pmmBitmap s byte OR push_bit b 1)\<rparr>"

definition clear_bit_of :: "pmm \<Rightarrow> u64 \<Rightarrow> nat \<Rightarrow> pmm" where
  "clear_bit_of s byte b = s\<lparr>pmmBitmap := (pmmBitmap s)(byte := pmmBitmap s byte AND NOT (push_bit b 1))\<rparr>"

definition add_usedPages :: "u64 \<Rightarrow> pmm \<Rightarrow> pmm" where
  "add_usedPages d s = s\<lparr>pmmStat := (pmmStat s)\<lparr>usedPages := usedPages (pmmStat s) + d\<rparr>\<rparr>"

definition pmmMark :: "pmm \<Rightarrow> u64 \<Rightarrow> bool \<Rightarrow> int \<times> pmm" where
  "pmmMark s phys use =
     (let page = phys div PAGE_SIZE; byte = page div 8; b = unat (page mod 8) in
      if use then
        (if pmmBitmap s byte AND push_bit b 1 \<noteq> 0 then (-1, s)
         else (0, add_usedPages 1 (set_bit_of s byte b)))
      else
        (if \<not> (pmmBitmap s byte AND push_bit b 1 \<noteq> 0) then (-1, s)
         else (0, add_usedPages (-1) (clear_bit_of s byte b))))"

text \<open>The loop counter \<open>i < count\<close> runs over the natural number \<open>count\<close>.\<close>

fun pmmMarkContiguous_loop :: "nat \<Rightarrow> int \<Rightarrow> pmm \<Rightarrow> u64 \<Rightarrow> bool \<Rightarrow> int \<times> pmm" where
  "pmmMarkContiguous_loop 0 st s phys use = (st, s)"
| "pmmMarkContiguous_loop (Suc n) st s phys use =
     (let (r, s') = pmmMark s phys use
      in pmmMarkContiguous_loop n (st OR r) s' (phys + PAGE_SIZE) use)"

definition pmmMarkContiguous :: "pmm \<Rightarrow> u64 \<Rightarrow> u64 \<Rightarrow> bool \<Rightarrow> int \<times> pmm" where
  "pmmMarkContiguous s phys count use = pmmMarkContiguous_loop (unat count) 0 s phys use"

definition pmmInitMark :: "pmm \<Rightarrow> u64 \<Rightarrow> bool \<Rightarrow> pmm" where
  "pmmInitMark s phys use =
     (let page = phys div PAGE_SIZE; byte = page div 8; b = unat (page mod 8) in
      if use then
        (set_bit_of s byte b)\<lparr>pmmStat := (pmmStat s)\<lparr>reservedPages := reservedPages (pmmStat s) + 1\<rparr>\<rparr>
      else
        (clear_bit_of s byte b)\<lparr>pmmStat := (pmmStat s)\<lparr>usablePages := usablePages (pmmStat s) + 1\<rparr>\<rparr>)"

fun pmmInitMarkContiguous_loop :: "nat \<Rightarrow> pmm \<Rightarrow> u64 \<Rightarrow> bool \<Rightarrow> pmm" where
  "pmmInitMarkContiguous_loop 0 s phys use = s"
| "pmmInitMarkContiguous_loop (Suc n) s phys use =
     pmmInitMarkContiguous_loop n (pmmInitMark s phys use) (phys + PAGE_SIZE) use"

definition pmmInitMarkContiguous :: "pmm \<Rightarrow> u64 \<Rightarrow> u64 \<Rightarrow> bool \<Rightarrow> pmm" where
  "pmmInitMarkContiguous s phys count use = pmmInitMarkContiguous_loop (unat count) s phys use"

text \<open>The body of the loop over the boot loader's memory map.\<close>

definition pmmInitEntry :: "MemoryMap \<Rightarrow> pmm \<Rightarrow> pmm" where
  "pmmInitEntry m s =
     (if mm_acpiAttributes m AND MEMORY_ATTRIBUTES_VALID \<noteq> 0 then
        (if mm_type m = MEMORY_TYPE_USABLE then
           (let s' = pmmInitMarkContiguous s (mm_base m) (mm_len m div PAGE_SIZE) False in
            if mm_base m + mm_len m > highestUsableAddress (pmmStat s')
            then s'\<lparr>pmmStat := (pmmStat s')\<lparr>highestUsableAddress := mm_base m + mm_len m - 1\<rparr>\<rparr>
            else s')
         else pmmInitMarkContiguous s (mm_base m) ((mm_len m + PAGE_SIZE - 1) div PAGE_SIZE) True)
      else s)"

text \<open>
  The name that the debug line of the same loop reads from its table of five: \<open>None\<close> is a
  read outside the table.
\<close>

definition memTypes :: "string list" where
  "memTypes = [''RAM'', ''reserved'', ''ACPI reclaimable'', ''ACPI NVS'', ''bad memory'']"

definition memTypeName :: "u32 \<Rightarrow> string option" where
  "memTypeName ty =
     (if ty \<le> MEMORY_TYPE_BAD
      then (let i = unat (ty mod 5 - 1) in if i < length memTypes then Some (memTypes ! i) else None)
      else Some ''undefined'')"

text \<open>
  \<open>mem\<close> is the memory found at \<open>pmmBitmap\<close> before the call, as bytes by offset: the
  \<open>memset\<close> to \<open>0xFF\<close> covers its first \<open>pmmBitmapSize\<close> bytes.
\<close>

definition bootHighestPage :: "KernelBootInfo \<Rightarrow> u64" where
  "bootHighestPage boot = (boot_highestPhysicalAddress boot + PAGE_SIZE - 1) div PAGE_SIZE"

definition bootBitmapSize :: "KernelBootInfo \<Rightarrow> u64" where
  "bootBitmapSize boot = (bootHighestPage boot + 7) div 8"

definition bootKernelPages :: "KernelBootInfo \<Rightarrow> u64" where
  "bootKernelPages boot = (boot_lowestFreeMemory boot + bootBitmapSize boot + PAGE_SIZE - 1) div PAGE_SIZE"

definition pmmInit :: "(u64 \<Rightarrow> u8) \<Rightarrow> KernelBootInfo \<Rightarrow> pmm" where
  "pmmInit mem boot =
     (let s0 = \<lparr>pmmStat = \<lparr>highestPhysicalAddress = boot_highestPhysicalAddress boot,
                  lowestUsableAddress = 0, highestUsableAddress = 0,
                  highestPage = bootHighestPage boot,
                  usablePages = 0, usedPages = 0, reservedPages = 0\<rparr>,
                pmmBitmap = (\<lambda>i. if i < bootBitmapSize boot then 0xFF else mem i),
                pmmBitmapSize = bootBitmapSize boot\<rparr>;
          s1 = fold pmmInitEntry (boot_memoryMap boot) s0;
          s2 = snd (pmmMarkContiguous s1 0 (bootKernelPages boot) True)
      in s2\<lparr>pmmStat := (pmmStat s2)\<lparr>lowestUsableAddress := bootKernelPages boot * PAGE_SIZE\<rparr>\<rparr>)"

definition pmmStatus :: "pmm \<Rightarrow> PhysicalMemoryStatus" where
  "pmmStatus s = pmmStat s"

definition pmmIsUsed :: "pmm \<Rightarrow> u64 \<Rightarrow> bool" where
  "pmmIsUsed s phys =
     (if phys \<ge> highestUsableAddress (pmmStat s) then True
      else let page = phys div PAGE_SIZE; byte = page div 8; b = unat (page mod 8)
           in drop_bit b (pmmBitmap s byte) AND 1 \<noteq> 0)"

partial_function (option) pmmAllocate_scan :: "pmm \<Rightarrow> u64 \<Rightarrow> (u64 \<times> pmm) option" where
  "pmmAllocate_scan s addr =
     (if addr < highestUsableAddress (pmmStat s) then
        (if \<not> pmmIsUsed s addr then Some (addr, snd (pmmMark s addr True))
         else pmmAllocate_scan s (addr + PAGE_SIZE))
      else Some (0, s))"

definition pmmAllocate :: "pmm \<Rightarrow> (u64 \<times> pmm) option" where
  "pmmAllocate s = pmmAllocate_scan s (lowestUsableAddress (pmmStat s))"

definition pmmFree :: "pmm \<Rightarrow> u64 \<Rightarrow> int \<times> pmm" where
  "pmmFree s phys =
     (if phys \<le> lowestUsableAddress (pmmStat s) \<or> phys \<ge> highestUsableAddress (pmmStat s) then (-1, s)
      else pmmMark s phys False)"

text \<open>
  The inner loop returns the address at which it stopped; the outer loop is the
  \<open>do ... while(start < end)\<close>.
\<close>

partial_function (option) contiguous_probe :: "pmm \<Rightarrow> u64 \<Rightarrow> u64 \<Rightarrow> u64 option" where
  "contiguous_probe s addr stop =
     (if addr < stop then
        (if pmmIsUsed s addr then Some addr else contiguous_probe s (addr + PAGE_SIZE) stop)
      else Some addr)"

partial_function (option) contiguous_scan :: "pmm \<Rightarrow> u64 \<Rightarrow> u64 \<Rightarrow> u64 \<Rightarrow> (u64 \<times> pmm) option" where
  "contiguous_scan s start end count =
     do { addr \<leftarrow> contiguous_probe s start (start + count * PAGE_SIZE);
          if addr \<ge> start + count * PAGE_SIZE then
            (let (r, s') = pmmMarkContiguous s start count True
             in if r = 0 then Some (start, s') else Some (0, s'))
          else if start + PAGE_SIZE < end then contiguous_scan s (start + PAGE_SIZE) end count
          else Some (0, s) }"

definition pmmAllocateContiguous :: "pmm \<Rightarrow> u64 \<Rightarrow> u32 \<Rightarrow> (u64 \<times> pmm) option" where
  "pmmAllocateContiguous s count flags =
     (let start = lowestUsableAddress (pmmStat s);
          end = (if flags AND PMM_CONTIGUOUS_LOW \<noteq> 0 \<and> highestUsableAddress (pmmStat s) > 0xFFFFFFFF
                 then 0xFFFFF000
                 else highestUsableAddress (pmmStat s) - count * PAGE_SIZE)
      in contiguous_scan s start end count)"

fun pmmFreeContiguous_loop :: "nat \<Rightarrow> int \<Rightarrow> pmm \<Rightarrow> u64 \<Rightarrow> int \<times> pmm" where
  "pmmFreeContiguous_loop 0 st s phys = (st, s)"
| "pmmFreeContiguous_loop (Suc n) st s phys =
     (let (r, s') = pmmFree s phys
      in pmmFreeContiguous_loop n (st OR r) s' (phys + PAGE_SIZE))"

definition pmmFreeContiguous :: "pmm \<Rightarrow> u64 \<Rightarrow> u64 \<Rightarrow> int \<times> pmm" where
  "pmmFreeContiguous s phys count = pmmFreeContiguous_loop (unat count) 0 s phys"

section \<open>Specification vocabulary\<close>

text \<open>The abstract view of the bitmap: the set of page numbers in use, and its two updates.\<close>

definition page_used :: "pmm \<Rightarrow> u64 \<Rightarrow> bool" where
  "page_used s pg = bit (pmmBitmap s (pg div 8)) (unat (pg mod 8))"

definition mark_used :: "pmm \<Rightarrow> u64 \<Rightarrow> pmm" where
  "mark_used s pg = add_usedPages 1 (set_bit_of s (pg div 8) (unat (pg mod 8)))"

definition mark_free :: "pmm \<Rightarrow> u64 \<Rightarrow> pmm" where
  "mark_free s pg = add_usedPages (-1) (clear_bit_of s (pg div 8) (unat (pg mod 8)))"

text \<open>
  The standing condition on the status structure: page zero is never handed out, the first
  usable address is page-aligned, and the last usable address leaves room for one more page
  step below \<open>2 ^ 64\<close>.
\<close>

definition pmm_inv :: "pmm \<Rightarrow> bool" where
  "pmm_inv s \<longleftrightarrow> 0 < lowestUsableAddress (pmmStat s) \<and>
     unat (lowestUsableAddress (pmmStat s)) mod 4096 = 0 \<and>
     unat (highestUsableAddress (pmmStat s)) + 4096 \<le> 2 ^ 64"

text \<open>The page-aligned addresses a scan from \<open>a\<close> up to \<open>h\<close> visits.\<close>

definition page_steps :: "u64 \<Rightarrow> u64 \<Rightarrow> u64 list" where
  "page_steps a h = map (\<lambda>k. a + of_nat k * PAGE_SIZE) [0..<(unat h - unat a + 4095) div 4096]"

text \<open>The counter \<open>usedPages\<close> relative to the number of set bits.\<close>

definition pmm_balance :: "pmm \<Rightarrow> u64" where
  "pmm_balance s = usedPages (pmmStat s) - of_nat (card {p. page_used s p})"

text \<open>The page numbers of a block of \<open>n\<close> pages, and the state with a block marked.\<close>

fun page_run :: "u64 \<Rightarrow> nat \<Rightarrow> u64 list" where
  "page_run a 0 = []"
| "page_run a (Suc n) = a div PAGE_SIZE # page_run (a + PAGE_SIZE) n"

fun mark_run :: "u64 list \<Rightarrow> pmm \<Rightarrow> pmm" where
  "mark_run [] s = s"
| "mark_run (p # ps) s = mark_run ps (if page_used s p then s else mark_used s p)"

definition run_free :: "pmm \<Rightarrow> u64 \<Rightarrow> nat \<Rightarrow> bool" where
  "run_free s st n \<longleftrightarrow> (\<forall>x \<in> set (page_steps st (st + of_nat n * PAGE_SIZE)). \<not> pmmIsUsed s x)"

text \<open>The list of start addresses the outer loop tries.\<close>

definition contiguous_end :: "pmm \<Rightarrow> u64 \<Rightarrow> u32 \<Rightarrow> u64" where
  "contiguous_end s count flags =
     (if flags AND PMM_CONTIGUOUS_LOW \<noteq> 0 \<and> highestUsableAddress (pmmStat s) > 0xFFFFFFFF
      then 0xFFFFF000 else highestUsableAddress (pmmStat s) - count * PAGE_SIZE)"

text \<open>Every page below the first usable address (kernel, modules, bitmap) is marked used.\<close>

definition kernel_reserved :: "pmm \<Rightarrow> bool" where
  "kernel_reserved s \<longleftrightarrow> (\<forall>p. unat p < unat (lowestUsableAddress (pmmStat s)) div 4096 \<longrightarrow> page_used s p)"

text \<open>What every call of the allocator keeps of a state.\<close>

definition pmm_kept :: "pmm \<Rightarrow> pmm \<Rightarrow> bool" where
  "pmm_kept s s' \<longleftrightarrow> pmm_balance s' = pmm_balance s \<and> pmm_inv s' = pmm_inv s \<and>
     lowestUsableAddress (pmmStat s') = lowestUsableAddress (pmmStat s) \<and>
     highestUsableAddress (pmmStat s') = highestUsableAddress (pmmStat s) \<and>
     (kernel_reserved s \<longrightarrow> kernel_reserved s')"

text \<open>One call of the allocator's interface, for histories of calls.\<close>

inductive pmm_step :: "pmm \<Rightarrow> pmm \<Rightarrow> bool" where
  allocate: "pmmAllocate s = Some (a, s') \<Longrightarrow> pmm_step s s'"
| free: "pmm_step s (snd (pmmFree s a))"
| allocate_contiguous: "pmmAllocateContiguous s count flags = Some (a, s') \<Longrightarrow> pmm_step s s'"
| free_contiguous: "pmm_step s (snd (pmmFreeContiguous s a count))"

text \<open>\<open>n\<close> successive allocations with any allocator.\<close>

fun allocate_many :: "('s \<Rightarrow> (u64 \<times> 's) option) \<Rightarrow> nat \<Rightarrow> 's \<Rightarrow> (u64 list \<times> 's) option" where
  "allocate_many al 0 s = Some ([], s)"
| "allocate_many al (Suc n) s =
     do { (a, s') \<leftarrow> al s; (as, s'') \<leftarrow> allocate_many al n s'; Some (a # as, s'') }"

text \<open>A page that an entry of the boot memory map declares usable.\<close>

definition usable_ram :: "MemoryMap \<Rightarrow> u64 \<Rightarrow> bool" where
  "usable_ram m p \<longleftrightarrow> mm_acpiAttributes m AND MEMORY_ATTRIBUTES_VALID \<noteq> 0 \<and>
     mm_type m = MEMORY_TYPE_USABLE \<and> p \<in> set (page_run (mm_base m) (unat (mm_len m div PAGE_SIZE)))"

text \<open>A small concrete state: four usable pages from \<open>0x1000\<close>, of which the first is in use.\<close>

definition pmm_ex :: pmm where
  "pmm_ex = \<lparr>pmmStat = \<lparr>highestPhysicalAddress = 0x5000, lowestUsableAddress = 0x1000,
     highestUsableAddress = 0x4FFF, highestPage = 5, usablePages = 4, usedPages = 1,
     reservedPages = 0\<rparr>, pmmBitmap = (\<lambda>i. if i = 0 then 3 else 0), pmmBitmapSize = 1\<rparr>"

text \<open>Two free pages on each side of the 4 GiB line.\<close>

definition pmm_line_ex :: pmm where
  "pmm_line_ex = \<lparr>pmmStat = \<lparr>highestPhysicalAddress = 0x100002000, lowestUsableAddress = 0xFFFFE000,
     highestUsableAddress = 0x100001FFF, highestPage = 0x100002, usablePages = 4, usedPages = 0,
     reservedPages = 0\<rparr>, pmmBitmap = (\<lambda>i. 0), pmmBitmapSize = 0x20001\<rparr>"


section \<open>Marking pages\<close>

lemma pmmMark_use: "pmmMark s phys True =
    (if page_used s (phys div PAGE_SIZE) then (-1, s) else (0, mark_used s (phys div PAGE_SIZE)))"
  by (simp add: pmmMark_def Let_def and_exp_iff page_used_def mark_used_def)

lemma pmmMark_free: "pmmMark s phys False =
    (if page_used s (phys div PAGE_SIZE) then (0, mark_free s (phys div PAGE_SIZE)) else (-1, s))"
  by (simp add: pmmMark_def Let_def and_exp_iff page_used_def mark_free_def)

lemma pmmIsUsed_iff: "pmmIsUsed s phys \<longleftrightarrow>
    phys \<ge> highestUsableAddress (pmmStat s) \<or> page_used s (phys div PAGE_SIZE)"
  by (simp add: pmmIsUsed_def Let_def drop_bit_and_1_iff page_used_def)

lemma word_div_mod_8_cancel: "(p::u64) div 8 = q div 8 \<Longrightarrow> unat (p mod 8) = unat (q mod 8) \<Longrightarrow> p = q"
  by (metis word_mod_div_equality word_unat_eq_iff)

lemma unat_mod_8: "unat ((p::u64) mod 8) < 8"
  by (simp add: unat_mod_word)

lemma page_used_mark_used [simp]: "page_used (mark_used s p) q \<longleftrightarrow> q = p \<or> page_used s q"
  using unat_mod_8 [of p] unat_mod_8 [of q]
  by (auto simp: page_used_def mark_used_def add_usedPages_def set_bit_of_def bit_simps
      dest: word_div_mod_8_cancel)

lemma page_used_mark_free [simp]: "page_used (mark_free s p) q \<longleftrightarrow> q \<noteq> p \<and> page_used s q"
  using unat_mod_8 [of p] unat_mod_8 [of q]
  by (auto simp: page_used_def mark_free_def add_usedPages_def clear_bit_of_def bit_simps
      dest: word_div_mod_8_cancel)

lemma mark_free_used: "\<not> page_used s p \<Longrightarrow> mark_free (mark_used s p) p = s"
proof -
  assume free: "\<not> page_used s p"
  let ?B = "pmmBitmap s (p div 8)" and ?n = "unat (p mod 8)"
  have "(?B OR push_bit ?n 1) AND NOT (push_bit ?n 1) = ?B"
    by (rule bit_word_eqI) (use free in \<open>auto simp: page_used_def bit_simps\<close>)
  then show ?thesis
    by (simp add: mark_free_def mark_used_def add_usedPages_def set_bit_of_def clear_bit_of_def)
qed

lemma mark_layout [simp]:
  "lowestUsableAddress (pmmStat (mark_used s p)) = lowestUsableAddress (pmmStat s)"
  "highestUsableAddress (pmmStat (mark_used s p)) = highestUsableAddress (pmmStat s)"
  "usedPages (pmmStat (mark_used s p)) = usedPages (pmmStat s) + 1"
  "lowestUsableAddress (pmmStat (mark_free s p)) = lowestUsableAddress (pmmStat s)"
  "highestUsableAddress (pmmStat (mark_free s p)) = highestUsableAddress (pmmStat s)"
  "usedPages (pmmStat (mark_free s p)) = usedPages (pmmStat s) - 1"
  by (simp_all add: mark_used_def mark_free_def add_usedPages_def set_bit_of_def clear_bit_of_def)

section \<open>First fit\<close>

lemma page_steps_empty: "\<not> a < h \<Longrightarrow> page_steps a h = []"
  by (simp add: page_steps_def word_less_nat_alt)

lemma unat_add_page: "unat (a::u64) + 4096 < 2 ^ 64 \<Longrightarrow> unat (a + PAGE_SIZE) = unat a + 4096"
  by (simp add: layout_defs unat_word_ariths)

lemma page_steps_cons:
  assumes "a < h" and h: "unat h + 4096 \<le> 2 ^ 64"
  shows "page_steps a h = a # page_steps (a + PAGE_SIZE) h"
proof -
  have lt: "unat a < unat h" using assms by (simp add: word_less_nat_alt)
  have u: "unat (a + PAGE_SIZE) = unat a + 4096" using lt h by (intro unat_add_page) simp
  have n: "(unat h - unat a + 4095) div 4096 = Suc ((unat h - unat (a + PAGE_SIZE) + 4095) div 4096)"
    unfolding u using lt by (cases "unat h \<ge> unat a + 4096") (auto simp: div_if [of _ 4096])
  show ?thesis
    unfolding page_steps_def n upt_conv_Cons [OF zero_less_Suc]
    unfolding map_Suc_upt [symmetric] by (simp add: algebra_simps)
qed

lemma pmmAllocate_scan_find:
  assumes "unat (highestUsableAddress (pmmStat s)) + 4096 \<le> 2 ^ 64"
  shows "pmmAllocate_scan s addr =
    (case find (\<lambda>a. \<not> page_used s (a div PAGE_SIZE)) (page_steps addr (highestUsableAddress (pmmStat s))) of
       None \<Rightarrow> Some (0, s) | Some a \<Rightarrow> Some (a, mark_used s (a div PAGE_SIZE)))"
proof (induction "unat (highestUsableAddress (pmmStat s)) - unat addr" arbitrary: addr rule: less_induct)
  case less
  let ?h = "highestUsableAddress (pmmStat s)"
  show ?case
  proof (cases "addr < ?h")
    case False
    then show ?thesis by (simp add: pmmAllocate_scan.simps [of s addr] page_steps_empty)
  next
    case True
    then have u: "unat (addr + PAGE_SIZE) = unat addr + 4096"
      using assms by (intro unat_add_page) (simp add: word_less_nat_alt)
    have "unat ?h - unat (addr + PAGE_SIZE) < unat ?h - unat addr"
      using True u by (simp add: word_less_nat_alt)
    from less.hyps [OF this] True show ?thesis
      by (simp add: pmmAllocate_scan.simps [of s addr] page_steps_cons [OF True assms] pmmIsUsed_iff
          pmmMark_use not_le)
  qed
qed

lemma pmmAllocate_find:
  assumes "pmm_inv s"
  shows "pmmAllocate s =
    (case find (\<lambda>a. \<not> page_used s (a div PAGE_SIZE))
       (page_steps (lowestUsableAddress (pmmStat s)) (highestUsableAddress (pmmStat s))) of
       None \<Rightarrow> Some (0, s) | Some a \<Rightarrow> Some (a, mark_used s (a div PAGE_SIZE)))"
  using assms by (simp add: pmmAllocate_def pmmAllocate_scan_find pmm_inv_def)

lemma page_steps_mem:
  assumes "x \<in> set (page_steps a h)" and h: "unat h + 4096 \<le> 2 ^ 64"
  shows "a \<le> x \<and> x < h \<and> (\<exists>k. unat x = unat a + k * 4096)"
proof -
  from assms(1) have "x \<in> (\<lambda>k. a + of_nat k * PAGE_SIZE) ` {0..<(unat h - unat a + 4095) div 4096}"
    by (simp add: page_steps_def)
  then obtain k where "k \<in> {0..<(unat h - unat a + 4095) div 4096}"
    and x: "x = a + of_nat k * PAGE_SIZE" by blast
  then have k: "k < (unat h - unat a + 4095) div 4096" by simp
  have le: "k * 4096 < unat h - unat a" using k by (simp add: less_eq_div_iff_mult_less_eq Suc_le_eq [symmetric])
  then have b: "unat a + k * 4096 < 2 ^ 64" using h by linarith
  have "unat (of_nat k * PAGE_SIZE :: u64) = k * 4096"
    using b by (simp add: layout_defs unat_word_ariths unat_of_nat mod_mult_left_eq)
  then have "unat x = unat a + k * 4096"
    unfolding x using b by (simp add: unat_word_ariths)
  with le show ?thesis by (auto simp: word_le_nat_alt word_less_nat_alt)
qed

lemma pmmAllocate_cases:
  assumes "pmm_inv s" and "pmmAllocate s = Some (a, s')"
  shows "(a = 0 \<and> s' = s) \<or>
    (a \<noteq> 0 \<and> lowestUsableAddress (pmmStat s) \<le> a \<and> a < highestUsableAddress (pmmStat s) \<and>
     unat a mod 4096 = 0 \<and> \<not> page_used s (a div PAGE_SIZE) \<and> s' = mark_used s (a div PAGE_SIZE))"
proof -
  let ?L = "lowestUsableAddress (pmmStat s)" and ?H = "highestUsableAddress (pmmStat s)"
  show ?thesis
  proof (cases "find (\<lambda>a. \<not> page_used s (a div PAGE_SIZE)) (page_steps ?L ?H)")
    case None
    with assms show ?thesis by (simp add: pmmAllocate_find)
  next
    case (Some x)
    with assms have eq: "a = x" "s' = mark_used s (x div PAGE_SIZE)"
      by (auto simp: pmmAllocate_find)
    from Some have "x \<in> set (page_steps ?L ?H)" "\<not> page_used s (x div PAGE_SIZE)"
      by (auto simp: find_Some_iff in_set_conv_nth)
    with page_steps_mem [of x ?L ?H] assms(1) eq show ?thesis
      by (auto simp: pmm_inv_def)
  qed
qed

lemma page_of_aligned: "unat (a::u64) mod 4096 = 0 \<Longrightarrow> a div PAGE_SIZE * PAGE_SIZE = a"
proof -
  assume "unat a mod 4096 = 0"
  then have "unat (pageBase a) = unat a" by (simp add: page_simps minus_mod_eq_div_mult [symmetric])
  then have "pageBase a = a" by (simp add: word_unat_eq_iff)
  then show ?thesis by (simp add: pageBase_eq_div layout_defs)
qed

lemma pmmAllocate_total: "pmm_inv s \<Longrightarrow> \<exists>a s'. pmmAllocate s = Some (a, s')"
  by (auto simp: pmmAllocate_find split: option.splits)

lemma pmm_inv_mark [simp]: "pmm_inv (mark_used s p) = pmm_inv s" "pmm_inv (mark_free s p) = pmm_inv s"
  by (simp_all add: pmm_inv_def)

section \<open>Accounting and runs of pages\<close>

lemma pmm_balance_mark_used: "\<not> page_used s p \<Longrightarrow> pmm_balance (mark_used s p) = pmm_balance s"
proof -
  assume "\<not> page_used s p"
  moreover have "{q. page_used (mark_used s p) q} = insert p {q. page_used s q}" by auto
  ultimately show ?thesis by (simp add: pmm_balance_def)
qed

lemma pmm_balance_mark_free: "page_used s p \<Longrightarrow> pmm_balance (mark_free s p) = pmm_balance s"
proof -
  assume u: "page_used s p"
  then have "{q. page_used s q} = insert p {q. page_used (mark_free s p) q}" by auto
  then have "card {q. page_used s q} = Suc (card {q. page_used (mark_free s p) q})" by simp
  then show ?thesis by (simp add: pmm_balance_def)
qed

lemma page_used_mark_run [simp]: "page_used (mark_run ps s) q \<longleftrightarrow> q \<in> set ps \<or> page_used s q"
  by (induction ps arbitrary: s) auto

lemma mark_run_layout [simp]:
  "lowestUsableAddress (pmmStat (mark_run ps s)) = lowestUsableAddress (pmmStat s)"
  "highestUsableAddress (pmmStat (mark_run ps s)) = highestUsableAddress (pmmStat s)"
  "pmm_balance (mark_run ps s) = pmm_balance s"
  "pmm_inv (mark_run ps s) = pmm_inv s"
  by (induction ps arbitrary: s) (auto simp: pmm_balance_mark_used)

lemma or_status: "(st OR r = (0::int)) \<longleftrightarrow> st = 0 \<and> r = 0"
  by (simp add: or_eq_0_iff)

lemma pmmMarkContiguous_loop_run:
  "pmmMarkContiguous_loop n st s a True = (r, s') \<Longrightarrow>
     s' = mark_run (page_run a n) s \<and>
     (r = 0 \<longleftrightarrow> st = 0 \<and> distinct (page_run a n) \<and> (\<forall>p \<in> set (page_run a n). \<not> page_used s p))"
proof (induction n arbitrary: st s a)
  case 0
  then show ?case by auto
next
  case (Suc n)
  show ?case
  proof (cases "page_used s (a div PAGE_SIZE)")
    case True
    with Suc.prems have "pmmMarkContiguous_loop n (st OR -1) s (a + PAGE_SIZE) True = (r, s')"
      by (simp add: pmmMark_use)
    from Suc.IH [OF this] True show ?thesis by (auto simp: or_status)
  next
    case False
    with Suc.prems have
      "pmmMarkContiguous_loop n (st OR 0) (mark_used s (a div PAGE_SIZE)) (a + PAGE_SIZE) True = (r, s')"
      by (simp add: pmmMark_use)
    from Suc.IH [OF this] False show ?thesis by (auto simp: or_status)
  qed
qed

lemma page_steps_run:
  assumes "unat a + n * 4096 + 4096 \<le> 2 ^ 64"
  shows "map (\<lambda>x. x div PAGE_SIZE) (page_steps a (a + of_nat n * PAGE_SIZE)) = page_run a n"
  using assms
proof (induction n arbitrary: a)
  case 0
  then show ?case by (simp add: page_steps_empty)
next
  case (Suc n)
  have n: "unat (of_nat (Suc n) * PAGE_SIZE :: u64) = Suc n * 4096"
    using Suc.prems by (simp add: layout_defs unat_word_ariths unat_of_nat mod_mult_left_eq del: of_nat_Suc)
  have u: "unat (a + PAGE_SIZE) = unat a + 4096" using Suc.prems by (intro unat_add_page) simp
  have s: "unat (a + of_nat (Suc n) * PAGE_SIZE) = unat a + Suc n * 4096"
    using Suc.prems n by (simp add: unat_word_ariths del: of_nat_Suc)
  have lt: "a < a + of_nat (Suc n) * PAGE_SIZE" by (simp only: word_less_nat_alt s) simp
  have e: "a + of_nat (Suc n) * PAGE_SIZE = (a + PAGE_SIZE) + of_nat n * PAGE_SIZE"
    by (simp add: algebra_simps)
  have "unat (a + of_nat (Suc n) * PAGE_SIZE) + 4096 \<le> 2 ^ 64" using Suc.prems unfolding s by simp
  note cons = page_steps_cons [OF lt this]
  have "unat (a + PAGE_SIZE) + n * 4096 + 4096 \<le> 2 ^ 64" using Suc.prems u by simp
  from Suc.IH [OF this] show ?case unfolding cons by (simp add: e del: of_nat_Suc)
qed

lemma page_run_unat:
  assumes "unat a + n * 4096 \<le> 2 ^ 64"
  shows "map unat (page_run a n) = map (\<lambda>k. unat a div 4096 + k) [0..<n]"
  using assms
proof (induction n arbitrary: a)
  case 0
  then show ?case by simp
next
  case (Suc n)
  show ?case
  proof (cases n)
    case 0
    then show ?thesis by (simp add: unat_div layout_defs)
  next
    case (Suc m)
    then have u: "unat (a + PAGE_SIZE) = unat a + 4096" using Suc.prems by (intro unat_add_page) simp
    have "[0..<Suc n] = 0 # map Suc [0..<n]" by (simp add: upt_conv_Cons map_Suc_upt del: upt_Suc)
    moreover have "(unat a + 4096) div 4096 = Suc (unat a div 4096)" by simp
    ultimately show ?thesis
      using Suc.IH [of "a + PAGE_SIZE"] Suc.prems u by (simp add: unat_div layout_defs del: upt_Suc)
  qed
qed

lemma distinct_page_run: "unat a + n * 4096 \<le> 2 ^ 64 \<Longrightarrow> distinct (page_run a n)"
proof -
  assume "unat a + n * 4096 \<le> 2 ^ 64"
  then have "distinct (map unat (page_run a n))"
    by (simp add: page_run_unat distinct_map inj_on_def)
  then show ?thesis by (simp add: distinct_map)
qed

lemma contiguous_probe_all:
  assumes "unat stop + 4096 \<le> 2 ^ 64"
  shows "\<exists>b. contiguous_probe s a stop = Some b \<and>
    (b \<ge> stop \<longleftrightarrow> (\<forall>x \<in> set (page_steps a stop). \<not> pmmIsUsed s x))"
proof (induction "unat stop - unat a" arbitrary: a rule: less_induct)
  case less
  show ?case
  proof (cases "a < stop")
    case False
    then show ?thesis by (simp add: contiguous_probe.simps [of s a] page_steps_empty)
  next
    case True
    then have u: "unat (a + PAGE_SIZE) = unat a + 4096"
      using assms by (intro unat_add_page) (simp add: word_less_nat_alt)
    then have "unat stop - unat (a + PAGE_SIZE) < unat stop - unat a"
      using True by (simp add: word_less_nat_alt)
    from less.hyps [OF this] True show ?thesis
      by (auto simp: contiguous_probe.simps [of s a] page_steps_cons [OF True assms])
  qed
qed

lemma run_free_mark:
  assumes "run_free s st (unat count)" and "unat st + unat count * 4096 + 4096 \<le> 2 ^ 64"
  shows "pmmMarkContiguous s st count True = (0, mark_run (page_run st (unat count)) s)"
proof -
  obtain r s' where rs: "pmmMarkContiguous_loop (unat count) 0 s st True = (r, s')" by fastforce
  have "\<forall>p \<in> set (page_run st (unat count)). \<not> page_used s p"
    using assms(1) unfolding page_steps_run [OF assms(2), symmetric] run_free_def
    by (auto simp: pmmIsUsed_iff)
  moreover have "distinct (page_run st (unat count))" using assms(2) by (intro distinct_page_run) simp
  ultimately show ?thesis
    using pmmMarkContiguous_loop_run [OF rs] rs by (simp add: pmmMarkContiguous_def)
qed

lemma contiguous_scan_find:
  assumes "unat start + unat count * 4096 + 4096 \<le> 2 ^ 64"
    and "unat end + unat count * 4096 + 4096 \<le> 2 ^ 64"
  shows "contiguous_scan s start end count =
    Some (case find (\<lambda>st. run_free s st (unat count)) (start # page_steps (start + PAGE_SIZE) end) of
       None \<Rightarrow> (0, s) | Some st \<Rightarrow> (st, mark_run (page_run st (unat count)) s))"
  using assms(1)
proof (induction "unat end - unat start" arbitrary: start rule: less_induct)
  case less
  let ?stop = "start + count * PAGE_SIZE"
  have c: "unat (count * PAGE_SIZE) = unat count * 4096"
    using less.prems by (simp add: layout_defs unat_word_ariths)
  have stop: "unat ?stop = unat start + unat count * 4096"
    using less.prems c by (simp add: unat_word_ariths)
  then have "unat ?stop + 4096 \<le> 2 ^ 64" using less.prems by simp
  from contiguous_probe_all [OF this, of s start] obtain b where
    b: "contiguous_probe s start ?stop = Some b" "b \<ge> ?stop \<longleftrightarrow> run_free s start (unat count)"
    by (auto simp: run_free_def)
  show ?case
  proof (cases "run_free s start (unat count)")
    case True
    then show ?thesis
      using b run_free_mark [OF True less.prems] by (simp add: contiguous_scan.simps [of s start])
  next
    case nofree: False
    have "unat count \<noteq> 0"
    proof
      assume "unat count = 0"
      with nofree show False by (simp add: run_free_def page_steps_empty)
    qed
    then have u: "unat (start + PAGE_SIZE) = unat start + 4096"
      using less.prems by (intro unat_add_page) linarith
    show ?thesis
    proof (cases "start + PAGE_SIZE < end")
      case True
      then have lt: "unat (start + PAGE_SIZE) < unat end" by (simp add: word_less_nat_alt)
      then have "unat end - unat (start + PAGE_SIZE) < unat end - unat start" using u by simp
      moreover have "unat (start + PAGE_SIZE) + unat count * 4096 + 4096 \<le> 2 ^ 64" using lt assms(2) by simp
      ultimately have "contiguous_scan s (start + PAGE_SIZE) end count =
          Some (case find (\<lambda>st. run_free s st (unat count))
              ((start + PAGE_SIZE) # page_steps (start + PAGE_SIZE + PAGE_SIZE) end) of
            None \<Rightarrow> (0, s) | Some st \<Rightarrow> (st, mark_run (page_run st (unat count)) s))"
        by (rule less.hyps)
      moreover have "unat end + 4096 \<le> 2 ^ 64" using assms(2) by simp
      ultimately show ?thesis
        using True nofree b by (simp add: contiguous_scan.simps [of s start] page_steps_cons)
    next
      case False
      with nofree b show ?thesis by (simp add: contiguous_scan.simps [of s start] page_steps_empty)
    qed
  qed
qed

lemma contiguous_scan_result:
  assumes "contiguous_scan s start end count = Some (a, s')"
  shows "(\<exists>ps. s' = mark_run ps s) \<and>
    (a \<noteq> 0 \<longrightarrow> s' = mark_run (page_run a (unat count)) s \<and> distinct (page_run a (unat count)) \<and>
       (\<forall>p \<in> set (page_run a (unat count)). \<not> page_used s p))"
proof (rule contiguous_scan.raw_induct [where P = "\<lambda>s start end count r. case r of (a, s') \<Rightarrow>
    (\<exists>ps. s' = mark_run ps s) \<and> (a \<noteq> 0 \<longrightarrow> s' = mark_run (page_run a (unat count)) s \<and>
      distinct (page_run a (unat count)) \<and> (\<forall>p \<in> set (page_run a (unat count)). \<not> page_used s p))",
    OF _ assms, simplified split], goal_cases)
  case (1 f s start "end" count r)
  from 1(2) obtain b where b: "contiguous_probe s start (start + count * PAGE_SIZE) = Some b"
    by (auto split: bind_splits)
  obtain st s2 where m: "pmmMarkContiguous_loop (unat count) 0 s start True = (st, s2)" by fastforce
  have "\<exists>ps. s = mark_run ps s" by (rule exI [of _ "[]"]) simp
  with 1(2) 1(1) b m pmmMarkContiguous_loop_run [OF m] show ?case
    by (auto simp: pmmMarkContiguous_def split: if_splits)
qed

section \<open>What every call keeps\<close>

lemma page_below_lowest:
  "lowestUsableAddress (pmmStat s) < a \<Longrightarrow> unat p < unat (lowestUsableAddress (pmmStat s)) div 4096 \<Longrightarrow>
     p \<noteq> a div PAGE_SIZE"
  using div_le_mono [of "unat (lowestUsableAddress (pmmStat s))" "unat a" 4096]
  by (auto simp: unat_div layout_defs word_less_nat_alt)

lemma pmm_kept_refl [simp]: "pmm_kept s s"
  by (simp add: pmm_kept_def)

lemma pmm_kept_trans: "pmm_kept s t \<Longrightarrow> pmm_kept t u \<Longrightarrow> pmm_kept s u"
  by (simp add: pmm_kept_def)

lemma pmm_kept_mark_run [simp]: "pmm_kept s (mark_run ps s)"
  by (simp add: pmm_kept_def kernel_reserved_def)

lemma pmm_kept_mark_used [simp]: "\<not> page_used s p \<Longrightarrow> pmm_kept s (mark_used s p)"
  by (simp add: pmm_kept_def kernel_reserved_def pmm_balance_mark_used)

lemma pmm_kept_free: "pmm_kept s (snd (pmmFree s a))"
  by (auto simp: pmmFree_def pmmMark_free pmm_kept_def kernel_reserved_def pmm_balance_mark_free not_le
      dest: page_below_lowest)

lemma pmm_kept_free_loop: "pmm_kept s (snd (pmmFreeContiguous_loop n st s a))"
proof (induction n arbitrary: st s a)
  case 0
  show ?case by simp
next
  case (Suc n)
  show ?case
    using pmm_kept_trans [OF pmm_kept_free Suc.IH] by (simp add: case_prod_beta)
qed

lemma pmm_step_kept: "pmm_step s t \<Longrightarrow> pmm_inv s \<Longrightarrow> pmm_kept s t"
proof (induction rule: pmm_step.induct)
  case (allocate s a s')
  then show ?case using pmmAllocate_cases [of s a s'] by auto
next
  case (free s a)
  show ?case by (rule pmm_kept_free)
next
  case (allocate_contiguous s count flags a s')
  from this(1) have "\<exists>ps. s' = mark_run ps s"
    unfolding pmmAllocateContiguous_def Let_def by (rule contiguous_scan_result [THEN conjunct1])
  then show ?case by auto
next
  case (free_contiguous s a count)
  show ?case unfolding pmmFreeContiguous_def by (rule pmm_kept_free_loop)
qed

section \<open>The interface to the page allocator\<close>

text \<open>
  What the clients (paging structures, page-fault handler) rely on: an allocation returns, is
  page-aligned, and hands out a page that was not in use and is from then on.
\<close>

locale page_pool =
  fixes alloc :: "'s \<Rightarrow> (u64 \<times> 's) option"
    and used :: "'s \<Rightarrow> u64 \<Rightarrow> bool"
    and inv :: "'s \<Rightarrow> bool"
  assumes alloc_returns: "inv s \<Longrightarrow> \<exists>a s'. alloc s = Some (a, s')"
    and alloc_inv: "inv s \<Longrightarrow> alloc s = Some (a, s') \<Longrightarrow> inv s'"
    and alloc_none: "inv s \<Longrightarrow> alloc s = Some (0, s') \<Longrightarrow> s' = s"
    and alloc_aligned: "inv s \<Longrightarrow> alloc s = Some (a, s') \<Longrightarrow> unat a mod 4096 = 0"
    and alloc_fresh: "inv s \<Longrightarrow> alloc s = Some (a, s') \<Longrightarrow> a \<noteq> 0 \<Longrightarrow> \<not> used s (a div PAGE_SIZE)"
    and alloc_used: "inv s \<Longrightarrow> alloc s = Some (a, s') \<Longrightarrow> a \<noteq> 0 \<Longrightarrow>
      used s' q \<longleftrightarrow> q = a div PAGE_SIZE \<or> used s q"
begin

lemma alloc_used_mono: "inv s \<Longrightarrow> alloc s = Some (a, s') \<Longrightarrow> used s q \<Longrightarrow> used s' q"
  using alloc_none [of s s'] alloc_used [of s a s' q] by (cases "a = 0") auto

lemma allocate_many_returns: "inv s \<Longrightarrow> \<exists>as s'. allocate_many alloc n s = Some (as, s') \<and> length as = n"
proof (induction n arbitrary: s)
  case 0
  show ?case by simp
next
  case (Suc n)
  obtain a s1 where a: "alloc s = Some (a, s1)" using alloc_returns [OF Suc.prems] by auto
  with Suc.IH [OF alloc_inv [OF Suc.prems a]] show ?case by auto
qed

lemma allocate_many_fresh:
  "inv s \<Longrightarrow> allocate_many alloc n s = Some (as, s') \<Longrightarrow>
     (\<forall>a \<in> set as. a \<noteq> 0 \<longrightarrow> \<not> used s (a div PAGE_SIZE)) \<and> distinct (filter (\<lambda>a. a \<noteq> 0) as)"
proof (induction n arbitrary: s as)
  case 0
  then show ?case by simp
next
  case (Suc n)
  then obtain a s1 as1 where a: "alloc s = Some (a, s1)"
    and as1: "allocate_many alloc n s1 = Some (as1, s')" and [simp]: "as = a # as1"
    by (auto split: bind_splits)
  have IH: "\<forall>b \<in> set as1. b \<noteq> 0 \<longrightarrow> \<not> used s1 (b div PAGE_SIZE)" "distinct (filter (\<lambda>a. a \<noteq> 0) as1)"
    using Suc.IH [OF alloc_inv [OF Suc.prems(1) a] as1] by auto
  have "a \<noteq> 0 \<Longrightarrow> used s1 (a div PAGE_SIZE)" using alloc_used [OF Suc.prems(1) a] by simp
  with IH alloc_used_mono [OF Suc.prems(1) a] alloc_fresh [OF Suc.prems(1) a] show ?case by auto
qed
end

interpretation pool: page_pool pmmAllocate page_used pmm_inv
proof unfold_locales
  fix s a s'
  assume inv: "pmm_inv s" and al: "pmmAllocate s = Some (a, s')"
  show "pmm_inv s'" using pmmAllocate_cases [OF inv al] inv by auto
  show "unat a mod 4096 = 0" using pmmAllocate_cases [OF inv al] by auto
  show "a \<noteq> 0 \<Longrightarrow> \<not> page_used s (a div PAGE_SIZE)" using pmmAllocate_cases [OF inv al] by auto
  show "a \<noteq> 0 \<Longrightarrow> page_used s' q \<longleftrightarrow> q = a div PAGE_SIZE \<or> page_used s q" for q
    using pmmAllocate_cases [OF inv al] by auto
next
  fix s s' assume "pmm_inv s" "pmmAllocate s = Some (0, s')"
  then show "s' = s" using pmmAllocate_cases by blast
qed (rule pmmAllocate_total)

section \<open>Start-up\<close>

lemma page_run_mem:
  assumes "unat a + n * 4096 \<le> 2 ^ 64"
  shows "p \<in> set (page_run a n) \<longleftrightarrow> unat a div 4096 \<le> unat p \<and> unat p < unat a div 4096 + n"
proof -
  have "unat ` set (page_run a n) = {unat a div 4096 ..< unat a div 4096 + n}"
    using arg_cong [OF page_run_unat [OF assms], of set] by (simp add: image_image [symmetric] add.commute)
  moreover have "p \<in> set (page_run a n) \<longleftrightarrow> unat p \<in> unat ` set (page_run a n)"
    by (rule inj_image_mem_iff [symmetric]) (simp add: inj_def word_unat_eq_iff)
  ultimately show ?thesis by simp
qed

lemma page_used_status [simp]: "page_used (s\<lparr>pmmStat := x\<rparr>) p = page_used s p"
  by (simp add: page_used_def)

lemma page_used_pmmInitMark: "page_used (pmmInitMark s a u) p \<longleftrightarrow>
    (if u then p = a div PAGE_SIZE \<or> page_used s p else p \<noteq> a div PAGE_SIZE \<and> page_used s p)"
  using page_used_mark_used [of s "a div PAGE_SIZE" p] page_used_mark_free [of s "a div PAGE_SIZE" p]
  by (simp add: pmmInitMark_def Let_def mark_used_def mark_free_def add_usedPages_def)

lemma page_used_pmmInitMarkContiguous: "page_used (pmmInitMarkContiguous_loop n s a u) p \<longleftrightarrow>
    (if u then p \<in> set (page_run a n) \<or> page_used s p else p \<notin> set (page_run a n) \<and> page_used s p)"
  by (induction n arbitrary: s a) (auto simp: page_used_pmmInitMark)

lemma pmmInitEntry_free: "\<not> page_used (pmmInitEntry m s) p \<Longrightarrow> page_used s p \<Longrightarrow> usable_ram m p"
  by (auto simp: pmmInitEntry_def pmmInitMarkContiguous_def Let_def page_used_pmmInitMarkContiguous
      usable_ram_def split: if_splits)

lemma fold_pmmInitEntry_free:
  "\<not> page_used (fold pmmInitEntry ms s) p \<Longrightarrow> page_used s p \<Longrightarrow> \<exists>m \<in> set ms. usable_ram m p"
  by (induction ms arbitrary: s) (auto dest: pmmInitEntry_free)

lemma pmmMarkContiguous_snd: "snd (pmmMarkContiguous s a c True) = mark_run (page_run a (unat c)) s"
  using pmmMarkContiguous_loop_run [of "unat c" 0 s a] by (metis pmmMarkContiguous_def surjective_pairing)

lemma bootKernelPages_bound: "unat (bootKernelPages boot) * 4096 < 2 ^ 64"
proof -
  let ?x = "boot_lowestFreeMemory boot + bootBitmapSize boot + PAGE_SIZE - 1"
  have "unat ?x div 4096 * 4096 \<le> unat ?x" by simp
  also have "\<dots> < 2 ^ 64" using unsigned_less [of ?x] by simp
  finally show ?thesis unfolding bootKernelPages_def unat_div by (simp add: layout_defs)
qed

lemma unat_lowest_pmmInit:
  "unat (lowestUsableAddress (pmmStat (pmmInit mem boot))) = unat (bootKernelPages boot) * 4096"
  using bootKernelPages_bound [of boot]
  by (simp add: pmmInit_def Let_def unat_word_ariths) (simp add: layout_defs)

section \<open>Properties\<close>

text \<open>
  C5: \<open>pmmAllocate()\<close> is a first-fit search: it always returns, with the lowest free page of
  the usable range marked used and nothing else changed, or with zero and an unchanged state
  when every page is in use.
\<close>

theorem pmmAllocate_first_fit:
  assumes "pmm_inv s"
  shows "pmmAllocate s =
    (case find (\<lambda>a. \<not> page_used s (a div PAGE_SIZE))
       (page_steps (lowestUsableAddress (pmmStat s)) (highestUsableAddress (pmmStat s))) of
       None \<Rightarrow> Some (0, s) | Some a \<Rightarrow> Some (a, mark_used s (a div PAGE_SIZE)))"
  using assms by (rule pmmAllocate_find)

theorem pmmAllocate_first_fit_witness:
  "pmm_inv pmm_ex \<and> pmmAllocate pmm_ex = Some (0x2000, mark_used pmm_ex 2)"
proof -
  have inv: "pmm_inv pmm_ex" by (simp add: pmm_inv_def pmm_ex_def)
  have "page_steps 0x1000 0x4FFF = [0x1000, 0x2000, 0x3000, 0x4000]"
    by (simp add: page_steps_def layout_defs upt_rec)
  with pmmAllocate_first_fit [OF inv] inv show ?thesis
    by (simp add: pmm_ex_def page_used_def layout_defs)
qed



text \<open>
  freeing a page that was just allocated restores the previous state exactly, except for
  the page at the lowest usable address: \<open>pmmFree()\<close> refuses it and it stays in use.
\<close>

theorem pmmAllocate_then_free:
  assumes "pmm_inv s" and "pmmAllocate s = Some (a, s')" and "a \<noteq> 0"
  shows "pmmFree s' a = (if a = lowestUsableAddress (pmmStat s) then (-1, s') else (0, s))"
  using pmmAllocate_cases [OF assms(1,2)] assms(3)
  by (auto simp: pmmFree_def pmmMark_free mark_free_used)

theorem pmmAllocate_then_free_witness:
  "pmmAllocate pmm_ex = Some (0x2000, mark_used pmm_ex 2) \<and>
   pmmFree (mark_used pmm_ex 2) 0x2000 = (0, pmm_ex)"
proof -
  have inv: "pmm_inv pmm_ex" by (simp add: pmm_inv_def pmm_ex_def)
  have "page_steps 0x1000 0x4FFF = [0x1000, 0x2000, 0x3000, 0x4000]"
    by (simp add: page_steps_def layout_defs upt_rec)
  with pmmAllocate_find [OF inv] have al: "pmmAllocate pmm_ex = Some (0x2000, mark_used pmm_ex 2)"
    by (simp add: pmm_ex_def page_used_def layout_defs)
  with pmmAllocate_then_free [OF inv al] show ?thesis by (simp add: pmm_ex_def)
qed

text \<open>
  C14: any history of allocations and frees, single or contiguous, keeps the counter
  \<open>usedPages\<close> in step with the bitmap and never frees a page below the first usable address.
\<close>

theorem pmm_history_kept:
  assumes "pmm_step\<^sup>*\<^sup>* s t" and "pmm_inv s"
  shows "pmm_inv t \<and> pmm_balance t = pmm_balance s \<and> (kernel_reserved s \<longrightarrow> kernel_reserved t)"
proof -
  from assms have "pmm_kept s t"
  proof (induction rule: rtranclp_induct)
    case base
    show ?case by simp
  next
    case (step t u)
    then have "pmm_inv t" by (simp add: pmm_kept_def)
    with step show ?case by (blast intro: pmm_kept_trans pmm_step_kept)
  qed
  with assms(2) show ?thesis by (simp add: pmm_kept_def)
qed

theorem pmm_history_kept_witness:
  "\<exists>t. pmm_step\<^sup>*\<^sup>* pmm_ex t \<and> t \<noteq> pmm_ex \<and> pmm_inv t \<and> pmm_balance t = pmm_balance pmm_ex"
proof -
  have inv: "pmm_inv pmm_ex" by (simp add: pmm_inv_def pmm_ex_def)
  obtain a t where al: "pmmAllocate pmm_ex = Some (a, t)" using pmmAllocate_total [OF inv] by blast
  have "page_steps 0x1000 0x4FFF = [0x1000, 0x2000, 0x3000, 0x4000]"
    by (simp add: page_steps_def layout_defs upt_rec)
  with pmmAllocate_find [OF inv] al have "t = mark_used pmm_ex 2"
    by (simp add: pmm_ex_def page_used_def layout_defs)
  then have "t \<noteq> pmm_ex"
    by (metis page_used_mark_free page_used_mark_used mark_layout(3) add.right_neutral add_left_cancel zero_neq_one)
  moreover have "pmm_step\<^sup>*\<^sup>* pmm_ex t" using al by (blast intro: pmm_step.allocate)
  ultimately show ?thesis using pmm_history_kept [of pmm_ex t] inv by blast
qed

text \<open>
  C15: after \<open>pmmInit()\<close> every page below the first usable address is reserved, and a page
  under the highest physical address is free only if some valid entry of the boot memory map
  declares it usable RAM.
\<close>

theorem pmmInit_safe:
  "kernel_reserved (pmmInit mem boot) \<and>
   (\<forall>p < bootHighestPage boot. \<not> page_used (pmmInit mem boot) p \<longrightarrow>
      (\<exists>m \<in> set (boot_memoryMap boot). usable_ram m p))"
proof
  show "kernel_reserved (pmmInit mem boot)"
    unfolding kernel_reserved_def unat_lowest_pmmInit using bootKernelPages_bound [of boot]
    by (auto simp: pmmInit_def Let_def pmmMarkContiguous_snd page_run_mem)
next
  have hp: "unat (bootHighestPage boot) < 2 ^ 52"
  proof -
    have "unat (boot_highestPhysicalAddress boot + PAGE_SIZE - 1) < 2 ^ 64"
      using unsigned_less [of "boot_highestPhysicalAddress boot + PAGE_SIZE - 1"] by simp
    then have "unat (boot_highestPhysicalAddress boot + PAGE_SIZE - 1) div 4096 < 2 ^ 52"
      by (simp add: div_less_iff_less_mult)
    then show ?thesis unfolding bootHighestPage_def unat_div by (simp add: layout_defs)
  qed
  show "\<forall>p < bootHighestPage boot. \<not> page_used (pmmInit mem boot) p \<longrightarrow>
      (\<exists>m \<in> set (boot_memoryMap boot). usable_ram m p)"
  proof (intro allI impI)
    fix p assume p: "p < bootHighestPage boot" and free: "\<not> page_used (pmmInit mem boot) p"
    let ?s0 = "\<lparr>pmmStat = \<lparr>highestPhysicalAddress = boot_highestPhysicalAddress boot,
        lowestUsableAddress = 0, highestUsableAddress = 0, highestPage = bootHighestPage boot,
        usablePages = 0, usedPages = 0, reservedPages = 0\<rparr>,
      pmmBitmap = (\<lambda>i. if i < bootBitmapSize boot then 0xFF else mem i),
      pmmBitmapSize = bootBitmapSize boot\<rparr>"
    have "unat (bootHighestPage boot + 7) = unat (bootHighestPage boot) + 7"
      using hp by (simp add: unat_word_ariths)
    then have "p div 8 < bootBitmapSize boot"
      using p by (simp add: bootBitmapSize_def word_less_nat_alt unat_div) 
    moreover have "bit (0xFF::u8) (unat (p mod 8))"
      using unat_mod_8 [of p] by (simp add: mask8 bit_simps)
    ultimately have "page_used ?s0 p" by (simp add: page_used_def)
    moreover have "\<not> page_used (fold pmmInitEntry (boot_memoryMap boot) ?s0) p"
      using free by (auto simp: pmmInit_def Let_def pmmMarkContiguous_snd)
    ultimately show "\<exists>m \<in> set (boot_memoryMap boot). usable_ram m p"
      by (blast dest: fold_pmmInitEntry_free)
  qed
qed

theorem pmmInit_safe_witness:
  "kernel_reserved (pmmInit (\<lambda>_. 0) \<lparr>boot_highestPhysicalAddress = 0x5000,
     boot_memoryMap = [\<lparr>mm_base = 0, mm_len = 0x5000, mm_type = 1, mm_acpiAttributes = 1\<rparr>],
     boot_lowestFreeMemory = 0x1000\<rparr>)"
  using pmmInit_safe by blast

text \<open>
  successive allocations never hand out the same page twice, nor a page that was in use
  before.
\<close>

theorem pmmAllocate_many_distinct:
  assumes "pmm_inv s" and "allocate_many pmmAllocate n s = Some (as, s')"
  shows "distinct (filter (\<lambda>a. a \<noteq> 0) as) \<and> (\<forall>a \<in> set as. a \<noteq> 0 \<longrightarrow> \<not> page_used s (a div PAGE_SIZE))"
  using pool.allocate_many_fresh [OF assms] by blast

theorem pmmAllocate_many_distinct_witness:
  "\<exists>as s'. allocate_many pmmAllocate 3 pmm_ex = Some (as, s') \<and> length as = 3 \<and>
     distinct (filter (\<lambda>a. a \<noteq> 0) as)"
proof -
  have inv: "pmm_inv pmm_ex" by (simp add: pmm_inv_def pmm_ex_def)
  from pool.allocate_many_returns [OF inv, of 3] show ?thesis
    using pmmAllocate_many_distinct [OF inv] by blast
qed

text \<open>
  the flag that asks for memory below the 4 GiB line bounds only the start of the block:
  with free pages on both sides of the line the returned block crosses it.
\<close>

theorem pmmAllocateContiguous_low_crosses:
  "\<exists>s'. pmmAllocateContiguous pmm_line_ex 4 PMM_CONTIGUOUS_LOW = Some (0xFFFFE000, s') \<and>
     unat (0xFFFFE000 :: u64) + 4 * 4096 > 2 ^ 32"
proof -
  have e: "contiguous_end pmm_line_ex 4 PMM_CONTIGUOUS_LOW = 0xFFFFF000"
    by (simp add: contiguous_end_def pmm_line_ex_def PMM_CONTIGUOUS_LOW_def)
  have l: "lowestUsableAddress (pmmStat pmm_line_ex) = 0xFFFFE000" by (simp add: pmm_line_ex_def)
  have st: "page_steps 0xFFFFE000 0x100002000 = [0xFFFFE000, 0xFFFFF000, 0x100000000, 0x100001000]"
    by (simp add: page_steps_def layout_defs upt_rec)
  have "run_free pmm_line_ex 0xFFFFE000 4"
    using st by (simp add: run_free_def layout_defs pmmIsUsed_iff pmm_line_ex_def page_used_def)
  then have "contiguous_scan pmm_line_ex 0xFFFFE000 0xFFFFF000 4 =
      Some (0xFFFFE000, mark_run (page_run 0xFFFFE000 4) pmm_line_ex)"
    by (subst contiguous_scan_find) simp_all
  then show ?thesis
    using e l by (simp add: pmmAllocateContiguous_def contiguous_end_def Let_def)
qed

text \<open>
  the debug line of \<open>pmmInit()\<close> reads outside its table of type names for an entry of
  type 5 (bad memory) or 0, and only for those.
\<close>

theorem memTypeName_out_of_table: "memTypeName ty = None \<longleftrightarrow> ty = 0 \<or> ty = 5"
proof (cases "ty \<le> 5")
  case True
  then have "unat ty \<le> 5" by (simp add: word_le_nat_alt)
  then have "unat ty \<in> {0, 1, 2, 3, 4, 5}" by auto
  then have "ty \<in> {0, 1, 2, 3, 4, 5}" by (auto simp: word_unat_eq_iff)
  then show ?thesis by (auto simp: memTypeName_def memTypes_def MEMORY_TYPE_BAD_def Let_def unsigned_minus_1_eq_mask mask_eq_exp_minus_1)
next
  case False
  then show ?thesis by (auto simp: memTypeName_def MEMORY_TYPE_BAD_def)
qed

end
