(* ===== verification/Paging.thy ===== *)
theory Paging
  imports Physical
begin

text \<open>
  The x86-64 page tables, \<^verbatim>\<open>src/src/platform/x86_64/cpu/paging.c\<close>, with \<open>vmmMMIO()\<close> of
  \<^verbatim>\<open>src/src/memory/virtual.c\<close> through which they are reached. Physical memory is a function
  from byte addresses to the 64-bit word stored there; \<open>cr3\<close> is the paging root of the
  current address space. Every table pointer is a result of \<open>vmmMMIO()\<close>, whose null pointer
  (physical memory above the mapped window) makes a dereference \<open>None\<close>, the fault.
\<close>

section \<open>Data\<close>

record vm =
  vm_pmm :: pmm
  vm_mem :: "u64 \<Rightarrow> u64"
  vm_cr3 :: u64

definition PLATFORM_PAGE_PRESENT :: u32 where "PLATFORM_PAGE_PRESENT = 0x0001"
definition PLATFORM_PAGE_SWAP :: u32 where "PLATFORM_PAGE_SWAP = 0x0002"
definition PLATFORM_PAGE_USER :: u32 where "PLATFORM_PAGE_USER = 0x0004"
definition PLATFORM_PAGE_EXEC :: u32 where "PLATFORM_PAGE_EXEC = 0x0008"
definition PLATFORM_PAGE_WRITE :: u32 where "PLATFORM_PAGE_WRITE = 0x0010"
definition PLATFORM_PAGE_NO_CACHE :: u32 where "PLATFORM_PAGE_NO_CACHE = 0x0020"
definition PLATFORM_PAGE_ERROR :: u32 where "PLATFORM_PAGE_ERROR = 0x8000"

definition PT_PAGE_PRESENT :: u64 where "PT_PAGE_PRESENT = 0x0001"
definition PT_PAGE_RW :: u64 where "PT_PAGE_RW = 0x0002"
definition PT_PAGE_USER :: u64 where "PT_PAGE_USER = 0x0004"
definition PT_PAGE_WRITE_THROUGH :: u64 where "PT_PAGE_WRITE_THROUGH = 0x0008"
definition PT_PAGE_NO_CACHE :: u64 where "PT_PAGE_NO_CACHE = 0x0010"
definition PT_PAGE_NXE :: u64 where "PT_PAGE_NXE = 0x8000000000000000"

lemmas platform_flags = PLATFORM_PAGE_PRESENT_def PLATFORM_PAGE_SWAP_def PLATFORM_PAGE_USER_def
  PLATFORM_PAGE_EXEC_def PLATFORM_PAGE_WRITE_def PLATFORM_PAGE_NO_CACHE_def PLATFORM_PAGE_ERROR_def

lemmas pt_flags = PT_PAGE_PRESENT_def PT_PAGE_RW_def PT_PAGE_USER_def PT_PAGE_WRITE_THROUGH_def
  PT_PAGE_NO_CACHE_def PT_PAGE_NXE_def

section \<open>Operations\<close>

definition vmmMMIO :: "u64 \<Rightarrow> bool \<Rightarrow> u64" where
  "vmmMMIO phys cache =
     (if cache \<and> phys < KERNEL_MMIO_LIMIT then phys + KERNEL_MMIO_BASE else 0)"

text \<open>\<open>p[i]\<close> and \<open>p[i] = x\<close> for a table pointer \<open>p\<close>, and \<open>memset(p, 0, PAGE_SIZE)\<close>.\<close>

definition load :: "vm \<Rightarrow> u64 \<Rightarrow> u64 \<Rightarrow> u64 option" where
  "load v p i = (if p = 0 then None else Some (vm_mem v (p - KERNEL_MMIO_BASE + 8 * i)))"

definition store :: "vm \<Rightarrow> u64 \<Rightarrow> u64 \<Rightarrow> u64 \<Rightarrow> vm option" where
  "store v p i x =
     (if p = 0 then None
      else Some (v\<lparr>vm_mem := (vm_mem v)(p - KERNEL_MMIO_BASE + 8 * i := x)\<rparr>))"

definition clearPage :: "vm \<Rightarrow> u64 \<Rightarrow> vm option" where
  "clearPage v p =
     (if p = 0 then None
      else Some (v\<lparr>vm_mem := (\<lambda>a. if a - (p - KERNEL_MMIO_BASE) < PAGE_SIZE then 0 else vm_mem v a)\<rparr>))"

definition pml4Index :: "u64 \<Rightarrow> u64" where "pml4Index addr = drop_bit 39 addr AND 511"
definition pdpIndex :: "u64 \<Rightarrow> u64" where "pdpIndex addr = drop_bit 30 addr AND 511"
definition pdIndex :: "u64 \<Rightarrow> u64" where "pdIndex addr = drop_bit 21 addr AND 511"
definition ptIndex :: "u64 \<Rightarrow> u64" where "ptIndex addr = drop_bit 12 addr AND 511"

definition flagsOfEntry :: "u64 \<Rightarrow> u32" where
  "flagsOfEntry ptEntry =
     (if ptEntry AND PT_PAGE_PRESENT \<noteq> 0 then PLATFORM_PAGE_PRESENT
      else if ptEntry \<noteq> 0 then PLATFORM_PAGE_SWAP else 0) OR
     (if ptEntry AND PT_PAGE_RW \<noteq> 0 then PLATFORM_PAGE_WRITE else 0) OR
     (if ptEntry AND PT_PAGE_USER \<noteq> 0 then PLATFORM_PAGE_USER else 0) OR
     (if ptEntry AND PT_PAGE_NXE = 0 then PLATFORM_PAGE_EXEC else 0) OR
     (if ptEntry AND PT_PAGE_NO_CACHE \<noteq> 0 then PLATFORM_PAGE_NO_CACHE else 0)"

text \<open>The result pairs the returned physical address with the flags stored through the pointer.\<close>

definition platformGetPage :: "vm \<Rightarrow> u64 \<Rightarrow> (u64 \<times> u32) option" where
  "platformGetPage v addr =
     (if addr \<ge> KERNEL_BASE_ADDRESS \<and> addr \<le> KERNEL_BASE_END
      then Some (addr - KERNEL_BASE_ADDRESS,
                 PLATFORM_PAGE_PRESENT OR PLATFORM_PAGE_WRITE OR PLATFORM_PAGE_EXEC)
      else do {
        pml4Entry \<leftarrow> load v (vmmMMIO (pageBase (vm_cr3 v)) True) (pml4Index addr);
        if pml4Entry AND PT_PAGE_PRESENT = 0 then Some (0, 0) else do {
        pdpEntry \<leftarrow> load v (vmmMMIO (pageBase pml4Entry) True) (pdpIndex addr);
        if pdpEntry AND PT_PAGE_PRESENT = 0 then Some (0, 0) else do {
        pdEntry \<leftarrow> load v (vmmMMIO (pageBase pdpEntry) True) (pdIndex addr);
        if pdEntry AND PT_PAGE_PRESENT = 0 then Some (0, 0) else do {
        ptEntry \<leftarrow> load v (vmmMMIO (pageBase pdEntry) True) (ptIndex addr);
        Some ((pageBase ptEntry AND NOT PT_PAGE_NXE) OR (addr AND (PAGE_SIZE - 1)),
              flagsOfEntry ptEntry) }}}})"

text \<open>
  The block that \<open>platformMapPage()\<close> repeats for each upper level. \<open>!entry & PT_PAGE_PRESENT\<close>
  parses as \<open>(!entry) & 1\<close>: the entry is zero. The result is the entry the next level is
  reached through, zero when no page could be allocated for it.
\<close>

definition ensureTable :: "vm \<Rightarrow> u64 \<Rightarrow> u64 \<Rightarrow> (u64 \<times> vm) option" where
  "ensureTable v table i =
     do { entry \<leftarrow> load v table i;
          if entry = 0 then do {
            (a, pm) \<leftarrow> pmmAllocate (vm_pmm v);
            if a = 0 then Some (0, v\<lparr>vm_pmm := pm\<rparr>)
            else do {
              v1 \<leftarrow> clearPage (v\<lparr>vm_pmm := pm\<rparr>) (vmmMMIO a True);
              v2 \<leftarrow> store v1 table i (a OR PT_PAGE_PRESENT OR PT_PAGE_RW OR PT_PAGE_USER);
              Some (a, v2) } }
          else Some (entry, v) }"

definition entryFlags :: "u32 \<Rightarrow> u64" where
  "entryFlags flags =
     (if flags AND PLATFORM_PAGE_PRESENT \<noteq> 0 then PT_PAGE_PRESENT else 0) OR
     (if flags AND PLATFORM_PAGE_WRITE \<noteq> 0 then PT_PAGE_RW else 0) OR
     (if flags AND PLATFORM_PAGE_USER \<noteq> 0 then PT_PAGE_USER else 0) OR
     (if flags AND PLATFORM_PAGE_EXEC = 0 then PT_PAGE_NXE else 0) OR
     (if flags AND PLATFORM_PAGE_NO_CACHE \<noteq> 0 then PT_PAGE_NO_CACHE OR PT_PAGE_WRITE_THROUGH else 0)"

definition canonical :: "u64 \<Rightarrow> u64" where
  "canonical logical =
     (if logical AND push_bit 47 1 \<noteq> 0 then logical OR 0xFFF0000000000000 else logical)"

definition platformMapPage :: "vm \<Rightarrow> u64 \<Rightarrow> u64 \<Rightarrow> u32 \<Rightarrow> (u64 \<times> vm) option" where
  "platformMapPage v l p flags =
     (let logical = pageBase l; physical = pageBase p in
      do { (pml4Entry, v1) \<leftarrow> ensureTable v (vmmMMIO (vm_cr3 v) True) (pml4Index logical);
           if pml4Entry = 0 then Some (0, v1) else do {
           (pdpEntry, v2) \<leftarrow> ensureTable v1 (vmmMMIO (pageBase pml4Entry) True) (pdpIndex logical);
           if pdpEntry = 0 then Some (0, v2) else do {
           (pdEntry, v3) \<leftarrow> ensureTable v2 (vmmMMIO (pageBase pdpEntry) True) (pdIndex logical);
           if pdEntry = 0 then Some (0, v3) else do {
           v4 \<leftarrow> store v3 (vmmMMIO (pageBase pdEntry) True) (ptIndex logical)
                   (physical OR entryFlags flags);
           Some (canonical logical, v4) }}}})"

definition platformUnmapPage :: "vm \<Rightarrow> u64 \<Rightarrow> (int \<times> vm) option" where
  "platformUnmapPage v a =
     (let addr = pageBase a in
      do { (r, v') \<leftarrow> platformMapPage v addr 0 0; Some (if r = addr then 0 else 1, v') })"

definition PT_PAGE_SIZE_EXTENSION :: u64 where "PT_PAGE_SIZE_EXTENSION = 0x0080"
definition PT_PAGE_LOW_FLAGS :: u64 where 
  "PT_PAGE_LOW_FLAGS = PT_PAGE_PRESENT OR PT_PAGE_RW OR PT_PAGE_USER OR PT_PAGE_NO_CACHE"

text \<open>Start-up runs on identity-mapped memory, so a table pointer is the physical address.\<close>

definition putEntry :: "u64 \<Rightarrow> u64 \<Rightarrow> u64 \<Rightarrow> vm \<Rightarrow> vm" where
  "putEntry T i x v = v\<lparr>vm_mem := (vm_mem v)(T + 8 * i := x)\<rparr>"

definition zeroPage :: "u64 \<Rightarrow> vm \<Rightarrow> vm" where
  "zeroPage p v = v\<lparr>vm_mem := (\<lambda>a. if a - p < PAGE_SIZE then 0 else vm_mem v a)\<rparr>"

fun fillDirectory :: "nat \<Rightarrow> nat \<Rightarrow> u64 \<Rightarrow> u64 \<Rightarrow> vm \<Rightarrow> vm" where
  "fillDirectory 0 j pd addr v = v"
| "fillDirectory (Suc n) j pd addr v =
     fillDirectory n (Suc j) pd (addr + 0x200000)
       (putEntry pd (of_nat j) (addr OR PT_PAGE_PRESENT OR PT_PAGE_RW OR PT_PAGE_SIZE_EXTENSION) v)"

fun setupDirectories :: "nat \<Rightarrow> nat \<Rightarrow> u64 \<Rightarrow> u64 \<Rightarrow> vm \<Rightarrow> (bool \<times> vm) option" where
  "setupDirectories 0 i pdp addr v = Some (True, v)"
| "setupDirectories (Suc n) i pdp addr v =
     do { (pd, pm) \<leftarrow> pmmAllocate (vm_pmm v);
          if pd = 0 then Some (False, v\<lparr>vm_pmm := pm\<rparr>)
          else setupDirectories n (Suc i) pdp (addr + 512 * 0x200000)
                 (fillDirectory 512 0 pd addr
                   (putEntry pdp (of_nat i) (pd OR PT_PAGE_PRESENT OR PT_PAGE_RW OR PT_PAGE_USER)
                     (v\<lparr>vm_pmm := pm\<rparr>))) }"

text \<open>\<open>nx\<close> is the NX bit of CPUID; without it the code loops forever.\<close>

definition platformPagingSetup :: "bool \<Rightarrow> vm \<Rightarrow> (int \<times> vm) option" where
  "platformPagingSetup nx v =
     (if \<not> nx then None else
      do { (pml4, pm1) \<leftarrow> pmmAllocate (vm_pmm v);
           (pdp, pm2) \<leftarrow> pmmAllocate pm1;
           if pml4 = 0 \<or> pdp = 0 then Some (-1, v\<lparr>vm_pmm := pm2\<rparr>)
           else do {
             (ok, v') \<leftarrow> setupDirectories (unat KERNEL_BASE_MAPPED) 0 pdp 0
               (putEntry pml4 256 (pdp OR PT_PAGE_PRESENT OR PT_PAGE_RW)
                 (zeroPage pdp (zeroPage pml4 (v\<lparr>vm_pmm := pm2\<rparr>))));
             if ok then Some (0, v'\<lparr>vm_cr3 := pml4\<rparr>) else Some (-1, v') } })"

definition copyPage :: "vm \<Rightarrow> u64 \<Rightarrow> u64 \<Rightarrow> vm option" where
  "copyPage v dst src =
     (if dst = 0 \<or> src = 0 then None
      else Some (v\<lparr>vm_mem := (\<lambda>a. if a - (dst - KERNEL_MMIO_BASE) < PAGE_SIZE
        then vm_mem v (a - (dst - KERNEL_MMIO_BASE) + (src - KERNEL_MMIO_BASE)) else vm_mem v a)\<rparr>))"

definition platformCloneKernelSpace :: "u64 \<Rightarrow> vm \<Rightarrow> (u64 \<times> vm) option" where
  "platformCloneKernelSpace kernelPagingRoot v =
     do { (ptr, pm) \<leftarrow> pmmAllocate (vm_pmm v);
          if ptr = 0 then Some (0, v\<lparr>vm_pmm := pm\<rparr>)
          else do {
            v' \<leftarrow> copyPage (v\<lparr>vm_pmm := pm\<rparr>) (vmmMMIO ptr True) (vmmMMIO kernelPagingRoot True);
            Some (vmmMMIO ptr True, v') } }"

text \<open>
  The loop of \<open>clonePagingLayer()\<close> over the 512 entries: \<open>step\<close> makes the clone of a present
  entry, \<open>None\<close> as its value being the early \<open>return 0\<close>.
\<close>

fun cloneEntries :: "(u64 \<Rightarrow> vm \<Rightarrow> (u64 option \<times> vm) option) \<Rightarrow> u64 \<Rightarrow> u64 \<Rightarrow> nat list \<Rightarrow> vm
    \<Rightarrow> (bool \<times> vm) option" where
  "cloneEntries step parent clone [] v = Some (True, v)"
| "cloneEntries step parent clone (i # is) v =
     do { e \<leftarrow> load v parent (of_nat i);
          if e AND PT_PAGE_PRESENT \<noteq> 0 then do {
            (r, v1) \<leftarrow> step e v;
            case r of None \<Rightarrow> Some (False, v1)
            | Some e' \<Rightarrow> do { v2 \<leftarrow> store v1 clone (of_nat i) e'; cloneEntries step parent clone is v2 } }
          else do { v1 \<leftarrow> store v clone (of_nat i) 0; cloneEntries step parent clone is v1 } }"

definition clonePage :: "u64 \<Rightarrow> vm \<Rightarrow> (u64 option \<times> vm) option" where
  "clonePage e v =
     do { (newPhys, pm) \<leftarrow> pmmAllocate (vm_pmm v);
          if newPhys = 0 then Some (None, v\<lparr>vm_pmm := pm\<rparr>) else do {
          v1 \<leftarrow> copyPage (v\<lparr>vm_pmm := pm\<rparr>) (vmmMMIO newPhys True)
                 (vmmMMIO (e AND NOT ((PAGE_SIZE - 1) OR PT_PAGE_NXE)) True);
          Some (Some (newPhys OR (e AND (PT_PAGE_LOW_FLAGS OR PT_PAGE_NXE))), v1) } }"

text \<open>The recursion runs on \<open>depth = 2 - layer\<close>: 2 for a PDP, 1 for a PD, 0 for a PT.\<close>

fun clonePagingLayer :: "nat \<Rightarrow> u64 \<Rightarrow> vm \<Rightarrow> (u64 \<times> vm) option" where
  "clonePagingLayer depth ptr v =
     (if ptr = 0 then Some (0, v) else
      do { (cloneBase, pm) \<leftarrow> pmmAllocate (vm_pmm v);
           if cloneBase = 0 then Some (0, v\<lparr>vm_pmm := pm\<rparr>) else do {
           (ok, v1) \<leftarrow> cloneEntries
             (case depth of
                0 \<Rightarrow> clonePage
              | Suc d \<Rightarrow> (\<lambda>e v. do {
                  (newPhys, pm) \<leftarrow> pmmAllocate (vm_pmm v);
                  if newPhys = 0 then Some (None, v\<lparr>vm_pmm := pm\<rparr>) else do {
                  (c, v1) \<leftarrow> clonePagingLayer d (pageBase e) (v\<lparr>vm_pmm := pm\<rparr>);
                  Some (Some (c OR (e AND PT_PAGE_LOW_FLAGS)), v1) } }))
             (vmmMMIO (pageBase ptr) True) (vmmMMIO cloneBase True) [0..<512] (v\<lparr>vm_pmm := pm\<rparr>);
           Some (if ok then cloneBase else 0, v1) } })"

definition cloneRootEntry :: "u64 \<Rightarrow> u64 \<Rightarrow> nat \<Rightarrow> vm \<Rightarrow> vm option" where
  "cloneRootEntry old new i v =
     do { e \<leftarrow> load v old (of_nat i);
          if i < 256 then
            (let ptr = pageBase e; flags = e AND PT_PAGE_LOW_FLAGS in
             if flags AND PT_PAGE_PRESENT \<noteq> 0 \<and> ptr \<noteq> 0 then do {
               (c, v1) \<leftarrow> clonePagingLayer 2 ptr v; store v1 new (of_nat i) (c OR flags) }
             else store v new (of_nat i) 0)
          else store v new (of_nat i) e }"

fun cloneRoot :: "u64 \<Rightarrow> u64 \<Rightarrow> nat list \<Rightarrow> vm \<Rightarrow> vm option" where
  "cloneRoot old new [] v = Some v"
| "cloneRoot old new (i # is) v = do { v1 \<leftarrow> cloneRootEntry old new i v; cloneRoot old new is v1 }"

definition platformCloneUserSpace :: "u64 \<Rightarrow> vm \<Rightarrow> (u64 \<times> vm) option" where
  "platformCloneUserSpace parent v =
     do { (base, pm) \<leftarrow> pmmAllocate (vm_pmm v);
          if base = 0 then Some (0, v\<lparr>vm_pmm := pm\<rparr>) else do {
          v1 \<leftarrow> cloneRoot (vmmMMIO (pageBase parent) True) (vmmMMIO base True) [0..<512] (v\<lparr>vm_pmm := pm\<rparr>);
          Some (base, v1) } }"

section \<open>Specification vocabulary\<close>

text \<open>
  A typing of the physical pages that hold tables: \<open>lv T = Some k\<close> says that the page at
  \<open>T\<close> is a table of the current address space with \<open>k\<close> levels below it (3 is the root, 0 a
  leaf table). Slot 256 of the root holds the kernel's window onto physical memory, mapped by
  2 MiB pages, and is left out.
\<close>

type_synonym levels = "u64 \<Rightarrow> nat option"

definition tableIndex :: "nat \<Rightarrow> u64 \<Rightarrow> u64" where
  "tableIndex k x = drop_bit (12 + 9 * k) x AND 511"

definition slot :: "u64 \<Rightarrow> u64 \<Rightarrow> u64" where
  "slot T i = T + 8 * i"

definition table_slot :: "levels \<Rightarrow> u64 \<Rightarrow> nat \<Rightarrow> u64 \<Rightarrow> bool" where
  "table_slot lv T k i \<longleftrightarrow> lv T = Some k \<and> i < 512 \<and> (k = 3 \<longrightarrow> i \<noteq> 256)"

definition paging_inv :: "vm \<Rightarrow> levels \<Rightarrow> bool" where
  "paging_inv v lv \<longleftrightarrow>
     pmm_inv (vm_pmm v) \<and> highestUsableAddress (pmmStat (vm_pmm v)) \<le> KERNEL_MMIO_LIMIT \<and>
     lv (vm_cr3 v) = Some 3 \<and>
     (\<forall>T k. lv T = Some k \<longrightarrow> T \<noteq> 0 \<and> pageBase T = T \<and> T < KERNEL_MMIO_LIMIT \<and>
        page_used (vm_pmm v) (T div PAGE_SIZE)) \<and>
     (\<forall>T k i. table_slot lv T (Suc k) i \<longrightarrow> vm_mem v (slot T i) \<noteq> 0 \<longrightarrow>
        vm_mem v (slot T i) AND PT_PAGE_PRESENT \<noteq> 0 \<and> lv (pageBase (vm_mem v (slot T i))) = Some k) \<and>
     (\<forall>T T' k i i'. table_slot lv T (Suc k) i \<longrightarrow> table_slot lv T' (Suc k) i' \<longrightarrow>
        vm_mem v (slot T i) \<noteq> 0 \<longrightarrow> vm_mem v (slot T' i') \<noteq> 0 \<longrightarrow>
        pageBase (vm_mem v (slot T i)) = pageBase (vm_mem v (slot T' i')) \<longrightarrow> T = T' \<and> i = i')"

text \<open>The leaf slot of a page, and its entry: the abstract page map of the address space.\<close>

fun reach :: "vm \<Rightarrow> nat \<Rightarrow> u64 \<Rightarrow> u64 \<Rightarrow> (u64 \<times> u64) option" where
  "reach v 0 T x = Some (T, tableIndex 0 x)"
| "reach v (Suc n) T x =
     (let e = vm_mem v (slot T (tableIndex (Suc n) x))
      in if e = 0 then None else reach v n (pageBase e) x)"

definition pte :: "vm \<Rightarrow> u64 \<Rightarrow> u64" where
  "pte v x = (case reach v 3 (vm_cr3 v) x of None \<Rightarrow> 0 | Some (T, i) \<Rightarrow> vm_mem v (slot T i))"

definition mappable :: "u64 \<Rightarrow> bool" where
  "mappable x \<longleftrightarrow> pml4Index x \<noteq> 256"

definition page_path :: "u64 \<Rightarrow> u64 list" where
  "page_path x = map (\<lambda>k. tableIndex k x) [0, 1, 2, 3]"

text \<open>One state extends another: more tables, the same mappings.\<close>

definition extends :: "vm \<Rightarrow> levels \<Rightarrow> vm \<Rightarrow> levels \<Rightarrow> bool" where
  "extends v lv v' lv' \<longleftrightarrow> paging_inv v' lv' \<and> vm_cr3 v' = vm_cr3 v \<and> lv \<subseteq>\<^sub>m lv' \<and>
     (\<forall>T k i. table_slot lv T k i \<longrightarrow> vm_mem v (slot T i) \<noteq> 0 \<longrightarrow>
        vm_mem v' (slot T i) = vm_mem v (slot T i)) \<and>
     (\<forall>x. mappable x \<longrightarrow> pte v' x = pte v x)"

text \<open>Linking a fresh zeroed page \<open>a\<close> into the empty slot \<open>(T, i)\<close>.\<close>

definition link :: "vm \<Rightarrow> pmm \<Rightarrow> u64 \<Rightarrow> u64 \<Rightarrow> u64 \<Rightarrow> vm" where
  "link v pm T i a = v\<lparr>vm_pmm := pm, vm_mem := (\<lambda>x. if x - a < PAGE_SIZE then 0 else vm_mem v x)
     (slot T i := a OR PT_PAGE_PRESENT OR PT_PAGE_RW OR PT_PAGE_USER)\<rparr>"

text \<open>Writing a leaf entry.\<close>

definition set_leaf :: "vm \<Rightarrow> u64 \<Rightarrow> u64 \<Rightarrow> u64 \<Rightarrow> vm" where
  "set_leaf v L i e = v\<lparr>vm_mem := (vm_mem v)(slot L i := e)\<rparr>"

text \<open>What a successful or failed \<open>platformMapPage()\<close> does to the page map.\<close>

definition maps_page :: "vm \<Rightarrow> levels \<Rightarrow> u64 \<Rightarrow> u64 \<Rightarrow> vm \<Rightarrow> bool" where
  "maps_page v lv l e v' \<longleftrightarrow> (\<exists>lv'. paging_inv v' lv' \<and> lv \<subseteq>\<^sub>m lv') \<and> vm_cr3 v' = vm_cr3 v \<and>
     (\<forall>x. mappable x \<longrightarrow> pte v' x = (if page_path x = page_path l then e else pte v x))"

definition keeps_pages :: "vm \<Rightarrow> levels \<Rightarrow> vm \<Rightarrow> bool" where
  "keeps_pages v lv v' \<longleftrightarrow> (\<exists>lv'. paging_inv v' lv' \<and> lv \<subseteq>\<^sub>m lv') \<and> vm_cr3 v' = vm_cr3 v \<and>
     (\<forall>x. mappable x \<longrightarrow> pte v' x = pte v x)"

text \<open>
  The state while the window is being built: the root and the level below are distinct
  allocated pages, the root is empty but for slot 256, and the first \<open>n\<close> directories map
  physical memory from zero by 2 MiB pages.
\<close>

definition table_page :: "vm \<Rightarrow> u64 \<Rightarrow> bool" where
  "table_page v T \<longleftrightarrow> T \<noteq> 0 \<and> pageBase T = T \<and> T < KERNEL_MMIO_LIMIT \<and>
     page_used (vm_pmm v) (T div PAGE_SIZE)"

definition window_entry :: "vm \<Rightarrow> u64 \<Rightarrow> nat \<Rightarrow> u64 \<Rightarrow> bool" where
  "window_entry v d i e \<longleftrightarrow> table_page v d \<and>
     e = d OR PT_PAGE_PRESENT OR PT_PAGE_RW OR PT_PAGE_USER \<and>
     (\<forall>j < 512. vm_mem v (slot d j) = (of_nat i * 0x40000000 + j * 0x200000) OR
        PT_PAGE_PRESENT OR PT_PAGE_RW OR PT_PAGE_SIZE_EXTENSION)"

definition setup_inv :: "vm \<Rightarrow> u64 \<Rightarrow> u64 \<Rightarrow> nat \<Rightarrow> bool" where
  "setup_inv v P D n \<longleftrightarrow> pmm_inv (vm_pmm v) \<and>
     highestUsableAddress (pmmStat (vm_pmm v)) \<le> KERNEL_MMIO_LIMIT \<and>
     table_page v P \<and> table_page v D \<and> P \<noteq> D \<and>
     (\<forall>i < 512. vm_mem v (slot P i) = (if i = 256 then D OR PT_PAGE_PRESENT OR PT_PAGE_RW else 0)) \<and>
     (\<forall>i < n. \<exists>d. d \<noteq> P \<and> d \<noteq> D \<and> window_entry v d i (vm_mem v (slot D (of_nat i))))"

definition vm_ex :: vm where
  "vm_ex = \<lparr>vm_pmm = pmm_ex, vm_mem = (\<lambda>_. 0), vm_cr3 = 0x1000\<rparr>"

section \<open>Addresses of table slots\<close>

lemma index_simps:
  "pml4Index x = tableIndex 3 x" "pdpIndex x = tableIndex 2 x"
  "pdIndex x = tableIndex 1 x" "ptIndex x = tableIndex 0 x"
  by (simp_all add: pml4Index_def pdpIndex_def pdIndex_def ptIndex_def tableIndex_def)

lemma mask9: "(511::u64) = mask 9"
  by (simp add: mask_eq_exp_minus_1)

lemma tableIndex_less [simp]: "tableIndex k x < 512"
proof -
  have "tableIndex k x \<le> 511" unfolding tableIndex_def by (rule word_and_le1)
  then show ?thesis by (simp add: word_le_nat_alt word_less_nat_alt)
qed

lemma tableIndex_pageBase [simp]: "tableIndex k (pageBase x) = tableIndex k x"
  by (rule bit_word_eqI)
    (auto simp: tableIndex_def pageBase_eq_push mask9 bit_simps add.assoc dest: bit_imp_le_length)

lemma mmio_limit: "unat KERNEL_MMIO_LIMIT = 2 ^ 34"
  by (simp add: layout_defs)

lemma aligned_unat: "pageBase T = T \<Longrightarrow> \<exists>t. unat T = t * 4096"
  using unat_pageBase [of T] by auto

lemma unat_slot:
  assumes "T < KERNEL_MMIO_LIMIT" and "i < 512"
  shows "unat (slot T i) = unat T + 8 * unat i"
proof -
  have "unat T < 2 ^ 34" "unat i < 512"
    using assms mmio_limit by (simp_all add: word_less_nat_alt)
  then show ?thesis by (simp add: slot_def unat_word_ariths)
qed

lemma slot_inject:
  assumes "pageBase T = T" "pageBase T' = T'" "T < KERNEL_MMIO_LIMIT" "T' < KERNEL_MMIO_LIMIT"
    and "i < 512" "i' < 512"
  shows "slot T i = slot T' i' \<longleftrightarrow> T = T' \<and> i = i'"
proof
  assume eq: "slot T i = slot T' i'"
  obtain t t' where t: "unat T = t * 4096" "unat T' = t' * 4096" using assms aligned_unat by metis
  have "t * 4096 + 8 * unat i = t' * 4096 + 8 * unat i'"
    using eq unat_slot [OF assms(3,5)] unat_slot [OF assms(4,6)] t by (metis)
  moreover have "unat i < 512" "unat i' < 512" using assms by (simp_all add: word_less_nat_alt)
  ultimately have "t \<le> t'" "t' \<le> t" by linarith+
  with \<open>t * 4096 + 8 * unat i = _\<close> have "t = t' \<and> unat i = unat i'" by simp
  with t show "T = T' \<and> i = i'" by (simp add: word_unat_eq_iff)
qed simp

lemma slot_in_page:
  assumes "pageBase T = T" "pageBase a = a" "T < KERNEL_MMIO_LIMIT" "a < KERNEL_MMIO_LIMIT" "i < 512"
  shows "slot T i - a < PAGE_SIZE \<longleftrightarrow> T = a"
proof -
  obtain t t' where t: "unat T = t * 4096" "unat a = t' * 4096" using assms aligned_unat by metis
  have s: "unat (slot T i) = t * 4096 + 8 * unat i" using unat_slot [OF assms(3,5)] t by simp
  have i: "unat i < 512" using assms by (simp add: word_less_nat_alt)
  have a34: "unat a < 2 ^ 34" using assms(4) mmio_limit by (simp add: word_less_nat_alt)
  show ?thesis
  proof (cases "a \<le> slot T i")
    case True
    then have "unat (slot T i - a) = t * 4096 + 8 * unat i - t' * 4096"
      using s t by (simp add: unat_sub word_le_nat_alt)
    moreover have "t' * 4096 \<le> t * 4096 + 8 * unat i" using True s t by (simp add: word_le_nat_alt)
    ultimately have "slot T i - a < PAGE_SIZE \<longleftrightarrow> t * 4096 + 8 * unat i - t' * 4096 < 4096"
      by (simp add: word_less_nat_alt layout_defs)
    also have "\<dots> \<longleftrightarrow> t = t'"
    proof
      assume "t * 4096 + 8 * unat i - t' * 4096 < 4096"
      with \<open>t' * 4096 \<le> _\<close> i have "t \<le> t'" "t' \<le> t" by linarith+
      then show "t = t'" by simp
    qed (use i in simp)
    finally show ?thesis using t by (simp add: word_unat_eq_iff)
  next
    case False
    then have lt: "unat (slot T i) < unat a" by (simp add: word_le_nat_alt)
    then have "unat (slot T i - a) = 2 ^ 64 + unat (slot T i) - unat a"
      by (subst unat_sub_if') (simp add: not_le)
    with lt a34 have "\<not> slot T i - a < PAGE_SIZE" by (simp add: word_less_nat_alt layout_defs)
    moreover have "T \<noteq> a" using lt s t i by auto
    ultimately show ?thesis by simp
  qed
qed

lemma mmio_pointer:
  assumes "T < KERNEL_MMIO_LIMIT"
  shows "vmmMMIO T True \<noteq> 0" "vmmMMIO T True - KERNEL_MMIO_BASE = T"
proof -
  have "unat T < 2 ^ 34" using assms mmio_limit by (simp add: word_less_nat_alt)
  then have "unat (T + KERNEL_MMIO_BASE) = unat T + 0xFFFF800000000000"
    by (simp add: layout_defs unat_word_ariths)
  then have "T + KERNEL_MMIO_BASE \<noteq> 0" by (metis add_is_0 unat_0 zero_neq_numeral)
  with assms show "vmmMMIO T True \<noteq> 0" "vmmMMIO T True - KERNEL_MMIO_BASE = T"
    by (simp_all add: vmmMMIO_def)
qed

lemma mmio_access:
  assumes "T < KERNEL_MMIO_LIMIT"
  shows "load v (vmmMMIO T True) i = Some (vm_mem v (slot T i))"
    and "store v (vmmMMIO T True) i x = Some (v\<lparr>vm_mem := (vm_mem v)(slot T i := x)\<rparr>)"
    and "clearPage v (vmmMMIO T True) =
      Some (v\<lparr>vm_mem := (\<lambda>a. if a - T < PAGE_SIZE then 0 else vm_mem v a)\<rparr>)"
  using mmio_pointer [OF assms] by (simp_all add: load_def store_def clearPage_def slot_def)

section \<open>Walking the tables\<close>

lemma paging_invD:
  assumes "paging_inv v lv"
  shows "pmm_inv (vm_pmm v)" "lv (vm_cr3 v) = Some 3"
    "highestUsableAddress (pmmStat (vm_pmm v)) \<le> KERNEL_MMIO_LIMIT"
    "lv T = Some k \<Longrightarrow> T \<noteq> 0" "lv T = Some k \<Longrightarrow> pageBase T = T" "lv T = Some k \<Longrightarrow> T < KERNEL_MMIO_LIMIT"
    "lv T = Some k \<Longrightarrow> page_used (vm_pmm v) (T div PAGE_SIZE)"
    "table_slot lv T (Suc n) i \<Longrightarrow> vm_mem v (slot T i) \<noteq> 0 \<Longrightarrow> vm_mem v (slot T i) AND PT_PAGE_PRESENT \<noteq> 0"
    "table_slot lv T (Suc n) i \<Longrightarrow> vm_mem v (slot T i) \<noteq> 0 \<Longrightarrow> lv (pageBase (vm_mem v (slot T i))) = Some n"
    "table_slot lv T (Suc n) i \<Longrightarrow> table_slot lv T' (Suc n) i' \<Longrightarrow> vm_mem v (slot T i) \<noteq> 0 \<Longrightarrow>
       vm_mem v (slot T' i') \<noteq> 0 \<Longrightarrow>
       pageBase (vm_mem v (slot T i)) = pageBase (vm_mem v (slot T' i')) \<Longrightarrow> T = T' \<and> i = i'"
  using assms unfolding paging_inv_def by blast+

text \<open>A page whose walk from level \<open>k\<close> does not go through the excluded root slot.\<close>

lemma table_slotI: "lv T = Some k \<Longrightarrow> (k = 3 \<longrightarrow> mappable x) \<Longrightarrow> table_slot lv T k (tableIndex k x)"
  by (auto simp: table_slot_def mappable_def index_simps)

lemma reach_typed:
  assumes "paging_inv v lv"
  shows "lv T = Some n \<Longrightarrow> (n = 3 \<longrightarrow> mappable x) \<Longrightarrow> n \<le> 3 \<Longrightarrow> reach v n T x = Some (L, i) \<Longrightarrow>
    lv L = Some 0 \<and> i = tableIndex 0 x"
proof (induction n arbitrary: T)
  case 0
  then show ?case by simp
next
  case (Suc n)
  let ?e = "vm_mem v (slot T (tableIndex (Suc n) x))"
  from Suc.prems have ts: "table_slot lv T (Suc n) (tableIndex (Suc n) x)" by (intro table_slotI) auto
  from Suc.prems have e: "?e \<noteq> 0" and r: "reach v n (pageBase ?e) x = Some (L, i)"
    by (auto simp: Let_def split: if_splits)
  show ?case
    using Suc.IH [OF paging_invD(9) [OF assms ts e] _ _ r] Suc.prems(3) by simp
qed

lemma reach_inject:
  assumes inv: "paging_inv v lv"
  shows "lv T = Some n \<Longrightarrow> lv T' = Some n \<Longrightarrow> (n = 3 \<longrightarrow> mappable x \<and> mappable x') \<Longrightarrow> n \<le> 3 \<Longrightarrow>
    reach v n T x = Some r \<Longrightarrow> reach v n T' x' = Some r \<Longrightarrow>
    T = T' \<and> (\<forall>k \<le> n. tableIndex k x = tableIndex k x')"
proof (induction n arbitrary: T T')
  case 0
  then show ?case by auto
next
  case (Suc n)
  let ?e = "vm_mem v (slot T (tableIndex (Suc n) x))"
  let ?e' = "vm_mem v (slot T' (tableIndex (Suc n) x'))"
  from Suc.prems have ts: "table_slot lv T (Suc n) (tableIndex (Suc n) x)"
    "table_slot lv T' (Suc n) (tableIndex (Suc n) x')" by (auto intro!: table_slotI)
  from Suc.prems have e: "?e \<noteq> 0" "?e' \<noteq> 0" and r: "reach v n (pageBase ?e) x = Some r"
    "reach v n (pageBase ?e') x' = Some r"
    by (auto simp: Let_def split: if_splits)
  have "pageBase ?e = pageBase ?e' \<and> (\<forall>k \<le> n. tableIndex k x = tableIndex k x')"
    using Suc.IH [OF paging_invD(9) [OF inv ts(1) e(1)] paging_invD(9) [OF inv ts(2) e(2)] _ _ r]
      Suc.prems(4) by simp
  with paging_invD(10) [OF inv ts e] show ?case by (auto simp: le_Suc_eq)
qed

lemma fast_path_dead: "(KERNEL_BASE_ADDRESS \<le> x \<and> x \<le> KERNEL_BASE_END) = False"
  by (auto simp: layout_defs word_le_nat_alt)

lemma platformGetPage_pte:
  assumes inv: "paging_inv v lv" and x: "mappable x"
  shows "\<exists>r. platformGetPage v x = Some r \<and>
    (r = ((pageBase (pte v x) AND NOT PT_PAGE_NXE) OR (x AND (PAGE_SIZE - 1)), flagsOfEntry (pte v x)) \<or>
     r = (0, 0) \<and> pte v x = 0)"
proof -
  note gp = platformGetPage_def [of v x, unfolded fast_path_dead if_False]
  note lim = paging_invD(6) [OF inv] and tgt = paging_invD(9) [OF inv] and pres = paging_invD(8) [OF inv]
  let ?T3 = "vm_cr3 v" let ?e3 = "vm_mem v (slot ?T3 (tableIndex 3 x))"
  let ?T2 = "pageBase ?e3" let ?e2 = "vm_mem v (slot ?T2 (tableIndex 2 x))"
  let ?T1 = "pageBase ?e2" let ?e1 = "vm_mem v (slot ?T1 (tableIndex 1 x))"
  let ?T0 = "pageBase ?e1"
  have pte: "pte v x = (if ?e3 = 0 then 0 else if ?e2 = 0 then 0 else if ?e1 = 0 then 0
      else vm_mem v (slot ?T0 (tableIndex 0 x)))"
    by (simp add: pte_def eval_nat_numeral Let_def)
  have l3: "lv ?T3 = Some 3" by (rule paging_invD(2) [OF inv])
  have s3: "table_slot lv ?T3 (Suc 2) (tableIndex 3 x)" using l3 x by (simp add: table_slot_def mappable_def index_simps)
  have c: "pageBase ?T3 = ?T3" "?T3 < KERNEL_MMIO_LIMIT" using paging_invD(5,6) [OF inv l3] by auto
  show ?thesis
  proof (cases "?e3 = 0")
    case True
    then show ?thesis using c by (simp add: gp mmio_access index_simps pte)
  next
    case e3: False
    have l2: "lv ?T2 = Some 2" using tgt [OF s3 e3] by simp
    have s2: "table_slot lv ?T2 (Suc 1) (tableIndex 2 x)" using l2 by (simp add: table_slot_def)
    show ?thesis
    proof (cases "?e2 = 0")
      case True
      then show ?thesis using c e3 pres [OF s3 e3] lim [OF l2]
        by (simp add: gp mmio_access index_simps pte)
    next
      case e2: False
      have l1: "lv ?T1 = Some 1" using tgt [OF s2 e2] by simp
      have s1: "table_slot lv ?T1 (Suc 0) (tableIndex 1 x)" using l1 by (simp add: table_slot_def)
      show ?thesis
      proof (cases "?e1 = 0")
        case True
        then show ?thesis using c e3 e2 pres [OF s3 e3] pres [OF s2 e2] lim [OF l2] lim [OF l1]
          by (simp add: gp mmio_access index_simps pte)
      next
        case e1: False
        have l0: "lv ?T0 = Some 0" using tgt [OF s1 e1] by simp
        show ?thesis
          using c e3 e2 e1 pres [OF s3 e3] pres [OF s2 e2] pres [OF s1 e1]
            lim [OF l2] lim [OF l1] lim [OF l0]
          by (simp add: gp mmio_access index_simps pte)
      qed
    qed
  qed
qed

section \<open>Adding a table\<close>

lemma reach_zero_table:
  assumes "\<forall>i < 512. vm_mem v (slot a i) = 0"
  shows "reach v n a x = None \<or> (\<exists>i. reach v n a x = Some (a, i) \<and> vm_mem v (slot a i) = 0)"
  using assms by (cases n) (auto simp: Let_def)

lemma reach_extend:
  assumes inv: "paging_inv v lv"
    and old: "\<And>T k i. table_slot lv T k i \<Longrightarrow> vm_mem v (slot T i) \<noteq> 0 \<Longrightarrow> vm_mem v' (slot T i) = vm_mem v (slot T i)"
    and new: "\<And>T k i. table_slot lv T k i \<Longrightarrow> vm_mem v (slot T i) = 0 \<Longrightarrow> vm_mem v' (slot T i) \<noteq> 0 \<Longrightarrow>
      \<forall>j < 512. vm_mem v' (slot (pageBase (vm_mem v' (slot T i))) j) = 0"
  shows "lv T = Some n \<Longrightarrow> (n = 3 \<longrightarrow> mappable x) \<Longrightarrow> n \<le> 3 \<Longrightarrow>
    (\<forall>r. reach v n T x = Some r \<longrightarrow> reach v' n T x = Some r) \<and>
    (reach v n T x = None \<longrightarrow> (\<forall>L i. reach v' n T x = Some (L, i) \<longrightarrow> vm_mem v' (slot L i) = 0))"
proof (induction n arbitrary: T)
  case 0
  then show ?case by simp
next
  case (Suc n)
  let ?e = "vm_mem v (slot T (tableIndex (Suc n) x))"
  from Suc.prems have ts: "table_slot lv T (Suc n) (tableIndex (Suc n) x)" by (intro table_slotI) auto
  show ?case
  proof (cases "?e = 0")
    case True
    with new [OF ts] reach_zero_table [of v' _ n x] show ?thesis
      by (force simp: Let_def)
  next
    case False
    with Suc.IH [OF paging_invD(9) [OF inv ts False]] Suc.prems old [OF ts] show ?thesis
      by (simp add: Let_def)
  qed
qed

lemma pte_extend:
  assumes inv: "paging_inv v lv" and cr3: "vm_cr3 v' = vm_cr3 v"
    and old: "\<And>T k i. table_slot lv T k i \<Longrightarrow> vm_mem v (slot T i) \<noteq> 0 \<Longrightarrow> vm_mem v' (slot T i) = vm_mem v (slot T i)"
    and leaf: "\<And>T i. lv T = Some 0 \<Longrightarrow> i < 512 \<Longrightarrow> vm_mem v' (slot T i) = vm_mem v (slot T i)"
    and new: "\<And>T k i. table_slot lv T k i \<Longrightarrow> vm_mem v (slot T i) = 0 \<Longrightarrow> vm_mem v' (slot T i) \<noteq> 0 \<Longrightarrow>
      \<forall>j < 512. vm_mem v' (slot (pageBase (vm_mem v' (slot T i))) j) = 0"
    and x: "mappable x"
  shows "pte v' x = pte v x"
proof -
  have l3: "lv (vm_cr3 v) = Some 3" by (rule paging_invD(2) [OF inv])
  have ext: "(\<forall>r. reach v 3 (vm_cr3 v) x = Some r \<longrightarrow> reach v' 3 (vm_cr3 v) x = Some r) \<and>
    (reach v 3 (vm_cr3 v) x = None \<longrightarrow>
      (\<forall>L i. reach v' 3 (vm_cr3 v) x = Some (L, i) \<longrightarrow> vm_mem v' (slot L i) = 0))"
    by (rule reach_extend [OF inv]) (fact old, fact new, use l3 x in simp_all)
  show ?thesis
  proof (cases "reach v 3 (vm_cr3 v) x")
    case None
    then have "\<forall>L i. reach v' 3 (vm_cr3 v) x = Some (L, i) \<longrightarrow> vm_mem v' (slot L i) = 0"
      using ext x by blast
    then have "pte v' x = 0" by (auto simp: pte_def cr3 split: option.split)
    with None show ?thesis by (simp add: pte_def)
  next
    case (Some r)
    obtain L i where r: "r = (L, i)" by fastforce
    from Some r have "reach v' 3 (vm_cr3 v) x = Some (L, i)" using ext x by blast
    moreover have "lv L = Some 0 \<and> i = tableIndex 0 x"
      using reach_typed [OF inv l3 _ _ Some [unfolded r]] x by simp
    ultimately show ?thesis using Some r leaf [of L i] by (simp add: pte_def cr3)
  qed
qed

lemma map_le_upd_fresh: "lv a = None \<Longrightarrow> lv \<subseteq>\<^sub>m lv(a \<mapsto> k)"
  by (auto simp: map_le_def)

text \<open>The table entry that points to a fresh page: present, and pointing to that page.\<close>

lemma fresh_entry:
  assumes "pageBase a = a" "a \<noteq> 0"
  shows "a OR PT_PAGE_PRESENT OR PT_PAGE_RW OR PT_PAGE_USER \<noteq> 0"
    and "(a OR PT_PAGE_PRESENT OR PT_PAGE_RW OR PT_PAGE_USER) AND PT_PAGE_PRESENT \<noteq> 0"
    and "pageBase (a OR PT_PAGE_PRESENT OR PT_PAGE_RW OR PT_PAGE_USER) = a"
proof -
  have seven: "PT_PAGE_PRESENT OR PT_PAGE_RW OR PT_PAGE_USER = mask 3"
    by (simp add: pt_flags mask_eq_exp_minus_1)
  show p: "(a OR PT_PAGE_PRESENT OR PT_PAGE_RW OR PT_PAGE_USER) AND PT_PAGE_PRESENT \<noteq> 0"
  proof -
    have "bit ((a OR mask 3) AND (1::u64)) 0" by (simp add: bit_simps)
    then show ?thesis unfolding or.assoc seven by (metis PT_PAGE_PRESENT_def bit_0_eq bot_apply bot_bool_def)
  qed
  show "a OR PT_PAGE_PRESENT OR PT_PAGE_RW OR PT_PAGE_USER \<noteq> 0" using p by auto
  have "pageBase (a OR mask 3) = pageBase a"
    by (rule bit_word_eqI) (auto simp: pageBase_eq_push bit_simps)
  then show "pageBase (a OR PT_PAGE_PRESENT OR PT_PAGE_RW OR PT_PAGE_USER) = a"
    using assms unfolding or.assoc seven by simp
qed

lemma aligned_pageBase: "unat a mod 4096 = 0 \<Longrightarrow> pageBase a = a"
  using page_of_aligned by (simp add: pageBase_eq_div layout_defs)

lemma page_of_inject: "pageBase a = a \<Longrightarrow> pageBase b = b \<Longrightarrow> a div PAGE_SIZE = b div PAGE_SIZE \<Longrightarrow> a = b"
  by (metis pageBase_eq_div PAGE_SIZE_def)

lemma link_slot:
  assumes inv: "paging_inv v lv" and ts: "table_slot lv T (Suc n) i" and a: "lv a = None"
    "pageBase a = a" "a < KERNEL_MMIO_LIMIT" and j: "j < 512"
  shows "lv T' = Some k \<Longrightarrow> vm_mem (link v pm T i a) (slot T' j) =
      (if T' = T \<and> j = i then a OR PT_PAGE_PRESENT OR PT_PAGE_RW OR PT_PAGE_USER else vm_mem v (slot T' j))"
    and "vm_mem (link v pm T i a) (slot a j) = 0"
proof -
  have T: "pageBase T = T" "T < KERNEL_MMIO_LIMIT" "i < 512" "T \<noteq> a"
    using ts a(1) paging_invD(5,6) [OF inv, of T] by (auto simp: table_slot_def)
  show "vm_mem (link v pm T i a) (slot T' j) =
      (if T' = T \<and> j = i then a OR PT_PAGE_PRESENT OR PT_PAGE_RW OR PT_PAGE_USER else vm_mem v (slot T' j))"
    if "lv T' = Some k"
  proof -
    have T': "pageBase T' = T'" "T' < KERNEL_MMIO_LIMIT" "T' \<noteq> a"
      using that a(1) paging_invD(5,6) [OF inv, of T'] by auto
    show ?thesis
      using slot_inject [OF T'(1) T(1) T'(2) T(2) j T(3)] slot_in_page [OF T'(1) a(2) T'(2) a(3) j] T'(3)
      by (auto simp: link_def)
  qed
  show "vm_mem (link v pm T i a) (slot a j) = 0"
    using slot_inject [OF a(2) T(1) a(3) T(2) j T(3)] slot_in_page [OF a(2) a(2) a(3) a(3) j] T(4)
    by (auto simp: link_def)
qed

lemma link_inv:
  assumes inv: "paging_inv v lv" and ts: "table_slot lv T (Suc n) i" and zero: "vm_mem v (slot T i) = 0"
    and a: "lv a = None" "a \<noteq> 0" "pageBase a = a" "a < KERNEL_MMIO_LIMIT"
    and pm: "pmm_inv pm" "highestUsableAddress (pmmStat pm) \<le> KERNEL_MMIO_LIMIT"
      "\<And>q. page_used pm q \<longleftrightarrow> q = a div PAGE_SIZE \<or> page_used (vm_pmm v) q"
  shows "paging_inv (link v pm T i a) (lv(a \<mapsto> n))"
proof -
  let ?v = "link v pm T i a" and ?lv = "lv(a \<mapsto> n)"
  note ls = link_slot [OF inv ts a(1,3,4), where pm = pm] and fe = fresh_entry [OF a(3,2)]
  have T: "lv T = Some (Suc n)" "T \<noteq> a" using ts a(1) by (auto simp: table_slot_def)
  have cr3: "vm_cr3 ?v = vm_cr3 v" "vm_pmm ?v = pm" by (simp_all add: link_def)
  have ca: "vm_cr3 v \<noteq> a" using paging_invD(2) [OF inv] a(1) by auto
  have old: "lv T' = Some k" if "table_slot ?lv T' k j" "vm_mem ?v (slot T' j) \<noteq> 0" for T' k j
    using that ls(2) [of j] by (auto simp: table_slot_def split: if_splits)
  have entry: "vm_mem ?v (slot T' j) AND PT_PAGE_PRESENT \<noteq> 0 \<and> ?lv (pageBase (vm_mem ?v (slot T' j))) = Some k"
    if s: "table_slot ?lv T' (Suc k) j" and nz: "vm_mem ?v (slot T' j) \<noteq> 0" for T' k j
  proof -
    have l: "lv T' = Some (Suc k)" by (rule old [OF s nz])
    have j: "j < 512" and ts': "table_slot lv T' (Suc k) j" using s l by (auto simp: table_slot_def)
    show ?thesis
    proof (cases "T' = T \<and> j = i")
      case True
      then show ?thesis using ls(1) [OF j l] fe T l by simp
    next
      case False
      then have m: "vm_mem ?v (slot T' j) = vm_mem v (slot T' j)" using ls(1) [OF j l] by auto
      then show ?thesis
        using nz paging_invD(8,9) [OF inv ts'] a(1) by auto
    qed
  qed
  have inj: "T' = T'' \<and> j = j''"
    if s: "table_slot ?lv T' (Suc k) j" "table_slot ?lv T'' (Suc k) j''"
      and nz: "vm_mem ?v (slot T' j) \<noteq> 0" "vm_mem ?v (slot T'' j'') \<noteq> 0"
      and eq: "pageBase (vm_mem ?v (slot T' j)) = pageBase (vm_mem ?v (slot T'' j''))" for T' T'' k j j''
  proof -
    have l: "lv T' = Some (Suc k)" "lv T'' = Some (Suc k)" using old s nz by blast+
    have j: "j < 512" "j'' < 512" and ts': "table_slot lv T' (Suc k) j" "table_slot lv T'' (Suc k) j''"
      using s l by (auto simp: table_slot_def)
    note m = ls(1) [OF j(1) l(1)] ls(1) [OF j(2) l(2)]
    have na: "vm_mem v (slot T' j) \<noteq> 0 \<Longrightarrow> pageBase (vm_mem v (slot T' j)) \<noteq> a"
      "vm_mem v (slot T'' j'') \<noteq> 0 \<Longrightarrow> pageBase (vm_mem v (slot T'' j'')) \<noteq> a"
      using paging_invD(9) [OF inv ts'(1)] paging_invD(9) [OF inv ts'(2)] a(1) by auto
    show ?thesis
      using paging_invD(10) [OF inv ts'] nz eq m fe na by (auto split: if_splits)
  qed
  have tys: "T' \<noteq> 0 \<and> pageBase T' = T' \<and> T' < KERNEL_MMIO_LIMIT \<and> page_used pm (T' div PAGE_SIZE)"
    if "?lv T' = Some k" for T' k
    using that a pm(3) paging_invD(4-7) [OF inv, of T'] by (auto split: if_splits)
  show ?thesis
    unfolding paging_inv_def cr3
  proof (intro conjI)
    show "?lv (vm_cr3 v) = Some 3" using ca paging_invD(2) [OF inv] by simp
    show "\<forall>T k. ?lv T = Some k \<longrightarrow> T \<noteq> 0 \<and> pageBase T = T \<and> T < KERNEL_MMIO_LIMIT \<and>
        page_used pm (T div PAGE_SIZE)"
      by (intro allI impI) (rule tys)
    show "\<forall>T k i. table_slot ?lv T (Suc k) i \<longrightarrow> vm_mem ?v (slot T i) \<noteq> 0 \<longrightarrow>
        vm_mem ?v (slot T i) AND PT_PAGE_PRESENT \<noteq> 0 \<and> ?lv (pageBase (vm_mem ?v (slot T i))) = Some k"
      by (intro allI impI) (rule entry)
    show "\<forall>T T' k i i'. table_slot ?lv T (Suc k) i \<longrightarrow> table_slot ?lv T' (Suc k) i' \<longrightarrow>
        vm_mem ?v (slot T i) \<noteq> 0 \<longrightarrow> vm_mem ?v (slot T' i') \<noteq> 0 \<longrightarrow>
        pageBase (vm_mem ?v (slot T i)) = pageBase (vm_mem ?v (slot T' i')) \<longrightarrow> T = T' \<and> i = i'"
      by (intro allI impI) (rule inj)
  qed (fact pm)+
qed

lemma link_extends:
  assumes inv: "paging_inv v lv" and ts: "table_slot lv T (Suc n) i" and zero: "vm_mem v (slot T i) = 0"
    and a: "lv a = None" "a \<noteq> 0" "pageBase a = a" "a < KERNEL_MMIO_LIMIT"
    and pm: "pmm_inv pm" "highestUsableAddress (pmmStat pm) \<le> KERNEL_MMIO_LIMIT"
      "\<And>q. page_used pm q \<longleftrightarrow> q = a div PAGE_SIZE \<or> page_used (vm_pmm v) q"
  shows "extends v lv (link v pm T i a) (lv(a \<mapsto> n))"
proof -
  let ?v = "link v pm T i a"
  note ls = link_slot [OF inv ts a(1,3,4), where pm = pm] and fe = fresh_entry [OF a(3,2)]
  have cr3: "vm_cr3 ?v = vm_cr3 v" by (simp add: link_def)
  have old: "vm_mem ?v (slot T' j) = vm_mem v (slot T' j)"
    if "table_slot lv T' k j" "vm_mem v (slot T' j) \<noteq> 0" for T' k j
    using that zero ls(1) [of j T' k] by (auto simp: table_slot_def)
  have leaf: "vm_mem ?v (slot T' j) = vm_mem v (slot T' j)" if "lv T' = Some 0" "j < 512" for T' j
    using that ts ls(1) [of j T' 0] by (auto simp: table_slot_def)
  have new: "\<forall>j' < 512. vm_mem ?v (slot (pageBase (vm_mem ?v (slot T' j))) j') = 0"
    if "table_slot lv T' k j" "vm_mem v (slot T' j) = 0" "vm_mem ?v (slot T' j) \<noteq> 0" for T' k j
    using that ls fe by (auto simp: table_slot_def split: if_splits)
  have "pte ?v x = pte v x" if "mappable x" for x
    by (rule pte_extend [OF inv cr3]) (fact old, fact leaf, fact new, fact that)
  with link_inv [OF assms] cr3 old show ?thesis
    unfolding extends_def using map_le_upd_fresh [of lv a n, OF a(1)] by blast
qed

lemma extends_refl: "paging_inv v lv \<Longrightarrow> extends v lv v lv"
  by (simp add: extends_def)

lemma table_slot_mono: "lv \<subseteq>\<^sub>m lv' \<Longrightarrow> table_slot lv T k i \<Longrightarrow> table_slot lv' T k i"
  by (auto simp: table_slot_def map_le_def dom_def)

lemma extends_trans:
  assumes "extends v lv v1 lv1" and "extends v1 lv1 v2 lv2"
  shows "extends v lv v2 lv2"
proof -
  have "lv \<subseteq>\<^sub>m lv2" using assms map_le_trans unfolding extends_def by blast
  moreover have "vm_mem v2 (slot T i) = vm_mem v (slot T i)"
    if "table_slot lv T k i" "vm_mem v (slot T i) \<noteq> 0" for T k i
    using that assms table_slot_mono [of lv lv1 T k i] unfolding extends_def by metis
  ultimately show ?thesis using assms unfolding extends_def by (auto simp: mappable_def)
qed

lemma ensureTable_spec:
  assumes inv: "paging_inv v lv" and ts: "table_slot lv T (Suc n) i"
  shows "\<exists>e v'. ensureTable v (vmmMMIO T True) i = Some (e, v') \<and> (e = 0 \<longrightarrow> v' = v) \<and>
    (e \<noteq> 0 \<longrightarrow> (\<exists>lv'. extends v lv v' lv' \<and> lv' (pageBase e) = Some n \<and>
       vm_mem v' (slot T i) \<noteq> 0 \<and> pageBase (vm_mem v' (slot T i)) = pageBase e))"
proof -
  have T: "lv T = Some (Suc n)" "T < KERNEL_MMIO_LIMIT" "i < 512"
    using ts paging_invD(6) [OF inv] by (auto simp: table_slot_def)
  have pinv: "pmm_inv (vm_pmm v)" and hi: "highestUsableAddress (pmmStat (vm_pmm v)) \<le> KERNEL_MMIO_LIMIT"
    using paging_invD(1,3) [OF inv] by auto
  show ?thesis
  proof (cases "vm_mem v (slot T i) = 0")
    case False
    then show ?thesis
      using paging_invD(9) [OF inv ts False] extends_refl [OF inv] T(2)
      by (auto simp: ensureTable_def mmio_access)
  next
    case zero: True
    obtain a pm where al: "pmmAllocate (vm_pmm v) = Some (a, pm)" using pool.alloc_returns [OF pinv] by blast
    show ?thesis
    proof (cases "a = 0")
      case True
      then have "pm = vm_pmm v" using pool.alloc_none [OF pinv] al by blast
      with True al zero T(2) show ?thesis by (simp add: ensureTable_def mmio_access)
    next
      case False
      note cases = pmmAllocate_cases [OF pinv al]
      have a: "pageBase a = a" "a < KERNEL_MMIO_LIMIT" "highestUsableAddress (pmmStat pm) \<le> KERNEL_MMIO_LIMIT"
        using cases False hi by (auto intro: aligned_pageBase)
      have un: "lv a = None"
        using paging_invD(7) [OF inv, of a] pool.alloc_fresh [OF pinv al False] by (cases "lv a") auto
      have ext: "extends v lv (link v pm T i a) (lv(a \<mapsto> n))"
        by (rule link_extends [OF inv ts zero un False a(1,2) pool.alloc_inv [OF pinv al] a(3)])
          (rule pool.alloc_used [OF pinv al False])
      have "ensureTable v (vmmMMIO T True) i = Some (a, link v pm T i a)"
        using al zero False T(2) a(2) by (simp add: ensureTable_def mmio_access link_def cong: if_cong)
      moreover have "vm_mem (link v pm T i a) (slot T i) = a OR PT_PAGE_PRESENT OR PT_PAGE_RW OR PT_PAGE_USER"
        by (simp add: link_def)
      ultimately show ?thesis
        using False ext fresh_entry [OF a(1) False] a(1) by fastforce
    qed
  qed
qed

section \<open>Writing a leaf entry\<close>

lemma set_leaf_slot:
  assumes inv: "paging_inv v lv" and "lv L = Some 0" "i < 512" "lv T = Some k" "j < 512"
  shows "vm_mem (set_leaf v L i e) (slot T j) = (if T = L \<and> j = i then e else vm_mem v (slot T j))"
  using slot_inject [of T L j i] paging_invD(5,6) [OF inv] assms(2-5) by (auto simp: set_leaf_def)

lemma set_leaf_upper:
  assumes inv: "paging_inv v lv" and "lv L = Some 0" "i < 512" "table_slot lv T (Suc k) j"
  shows "vm_mem (set_leaf v L i e) (slot T j) = vm_mem v (slot T j)"
  using set_leaf_slot [OF assms(1-3), of T "Suc k" j] assms(2,4) by (auto simp: table_slot_def)

lemma set_leaf_inv:
  assumes inv: "paging_inv v lv" and L: "lv L = Some 0" "i < 512"
  shows "paging_inv (set_leaf v L i e) lv"
proof -
  note up = set_leaf_upper [OF inv L, of _ _ _ e]
  have same: "vm_pmm (set_leaf v L i e) = vm_pmm v" "vm_cr3 (set_leaf v L i e) = vm_cr3 v"
    by (simp_all add: set_leaf_def)
  show ?thesis
    using inv unfolding paging_inv_def same by (simp add: up cong: imp_cong conj_cong)
qed

lemma set_leaf_reach:
  assumes inv: "paging_inv v lv" and L: "lv L = Some 0" "i < 512"
  shows "lv T = Some n \<Longrightarrow> (n = 3 \<longrightarrow> mappable x) \<Longrightarrow> n \<le> 3 \<Longrightarrow>
    reach (set_leaf v L i e) n T x = reach v n T x"
proof (induction n arbitrary: T)
  case 0
  then show ?case by simp
next
  case (Suc n)
  from Suc.prems have ts: "table_slot lv T (Suc n) (tableIndex (Suc n) x)" by (intro table_slotI) auto
  show ?case
  proof (cases "vm_mem v (slot T (tableIndex (Suc n) x)) = 0")
    case True
    then show ?thesis by (simp add: set_leaf_upper [OF inv L ts] Let_def)
  next
    case False
    with Suc.IH [OF paging_invD(9) [OF inv ts False]] Suc.prems show ?thesis
      by (simp add: set_leaf_upper [OF inv L ts] Let_def)
  qed
qed

lemma page_path_eq: "page_path x = page_path y \<longleftrightarrow> (\<forall>k \<le> 3. tableIndex k x = tableIndex k y)"
  by (auto simp: page_path_def le_Suc_eq numeral_3_eq_3 numeral_2_eq_2)

lemma reach_path:
  assumes "\<And>k. k \<le> n \<Longrightarrow> tableIndex k x = tableIndex k y"
  shows "reach v n T x = reach v n T y"
  using assms by (induction n arbitrary: T) (auto simp: Let_def)

lemma set_leaf_pte:
  assumes inv: "paging_inv v lv" and l: "mappable l" "reach v 3 (vm_cr3 v) l = Some (L, i)"
    and x: "mappable x"
  shows "pte (set_leaf v L i e) x = (if page_path x = page_path l then e else pte v x)"
proof -
  have l3: "lv (vm_cr3 v) = Some 3" by (rule paging_invD(2) [OF inv])
  have L: "lv L = Some 0" "i < 512" using reach_typed [OF inv l3 _ _ l(2)] l(1) by auto
  have r: "reach (set_leaf v L i e) 3 (vm_cr3 v) x = reach v 3 (vm_cr3 v) x"
    using set_leaf_reach [OF inv L l3] x by simp
  have cr3: "vm_cr3 (set_leaf v L i e) = vm_cr3 v" by (simp add: set_leaf_def)
  show ?thesis
  proof (cases "page_path x = page_path l")
    case True
    then have "reach v 3 (vm_cr3 v) x = Some (L, i)"
      using reach_path [of 3 x l v "vm_cr3 v"] l(2) by (simp add: page_path_eq)
    then show ?thesis using True r set_leaf_slot [OF inv L L] by (simp add: pte_def cr3)
  next
    case False
    show ?thesis
    proof (cases "reach v 3 (vm_cr3 v) x")
      case None
      then show ?thesis using False r by (simp add: pte_def cr3)
    next
      case (Some q)
      obtain L' i' where q: "q = (L', i')" by fastforce
      have L': "lv L' = Some 0" "i' < 512" using reach_typed [OF inv l3 _ _ Some [unfolded q]] x by auto
      have "(L', i') \<noteq> (L, i)"
        using reach_inject [OF inv l3 l3 _ _ Some [unfolded q]] l x False by (auto simp: page_path_eq)
      then show ?thesis
        using False r Some q set_leaf_slot [OF inv L L', of e] by (auto simp: pte_def cr3)
    qed
  qed
qed

lemma reach_3: "reach v 3 T x =
    (let e3 = vm_mem v (slot T (tableIndex 3 x)) in if e3 = 0 then None else
     let e2 = vm_mem v (slot (pageBase e3) (tableIndex 2 x)) in if e2 = 0 then None else
     let e1 = vm_mem v (slot (pageBase e2) (tableIndex 1 x)) in if e1 = 0 then None else
     Some (pageBase e1, tableIndex 0 x))"
  by (simp add: eval_nat_numeral Let_def)

lemma extends_keeps: "extends v lv v' lv' \<Longrightarrow> keeps_pages v lv v'"
  by (auto simp: extends_def keeps_pages_def)

lemma extendsD: "extends v lv v' lv' \<Longrightarrow> paging_inv v' lv'" "extends v lv v' lv' \<Longrightarrow> vm_cr3 v' = vm_cr3 v"
  "extends v lv v' lv' \<Longrightarrow> lv \<subseteq>\<^sub>m lv'"
  "extends v lv v' lv' \<Longrightarrow> table_slot lv T k i \<Longrightarrow> vm_mem v (slot T i) \<noteq> 0 \<Longrightarrow>
     vm_mem v' (slot T i) = vm_mem v (slot T i)"
  by (auto simp: extends_def)

lemma platformMapPage_spec:
  assumes inv: "paging_inv v lv" and l: "mappable l"
  shows "(\<exists>v'. platformMapPage v l p f = Some (canonical (pageBase l), v') \<and>
       maps_page v lv l (pageBase p OR entryFlags f) v') \<or>
    (\<exists>v'. platformMapPage v l p f = Some (0, v') \<and> keeps_pages v lv v')"
proof -
  let ?I = "\<lambda>k. tableIndex k l"
  have ix: "pml4Index (pageBase l) = ?I 3" "pdpIndex (pageBase l) = ?I 2"
    "pdIndex (pageBase l) = ?I 1" "ptIndex (pageBase l) = ?I 0" by (simp_all add: index_simps)
  note mp = platformMapPage_def [of v l p f, unfolded Let_def ix]
  let ?T3 = "vm_cr3 v"
  have s3: "table_slot lv ?T3 (Suc 2) (?I 3)"
    using paging_invD(2) [OF inv] l by (simp add: table_slot_def mappable_def index_simps)
  from ensureTable_spec [OF inv s3] obtain e3 v1 where
    E3: "ensureTable v (vmmMMIO ?T3 True) (?I 3) = Some (e3, v1)" and z3: "e3 = 0 \<longrightarrow> v1 = v"
    and n3: "e3 \<noteq> 0 \<longrightarrow> (\<exists>lv'. extends v lv v1 lv' \<and> lv' (pageBase e3) = Some 2 \<and>
       vm_mem v1 (slot ?T3 (?I 3)) \<noteq> 0 \<and> pageBase (vm_mem v1 (slot ?T3 (?I 3))) = pageBase e3)" by blast
  show ?thesis
  proof (cases "e3 = 0")
    case True
    then show ?thesis using E3 z3 extends_keeps [OF extends_refl [OF inv]] by (simp add: mp)
  next
    case f3: False
    with n3 obtain lv1 where x1: "extends v lv v1 lv1" and t2: "lv1 (pageBase e3) = Some 2"
      and m3: "vm_mem v1 (slot ?T3 (?I 3)) \<noteq> 0" "pageBase (vm_mem v1 (slot ?T3 (?I 3))) = pageBase e3" by blast
    note inv1 = extendsD(1) [OF x1]
    have s2: "table_slot lv1 (pageBase e3) (Suc 1) (?I 2)" using t2 by (simp add: table_slot_def)
    from ensureTable_spec [OF inv1 s2] obtain e2 v2 where
      E2: "ensureTable v1 (vmmMMIO (pageBase e3) True) (?I 2) = Some (e2, v2)" and z2: "e2 = 0 \<longrightarrow> v2 = v1"
      and n2: "e2 \<noteq> 0 \<longrightarrow> (\<exists>lv'. extends v1 lv1 v2 lv' \<and> lv' (pageBase e2) = Some 1 \<and>
        vm_mem v2 (slot (pageBase e3) (?I 2)) \<noteq> 0 \<and>
        pageBase (vm_mem v2 (slot (pageBase e3) (?I 2))) = pageBase e2)" by blast
    show ?thesis
    proof (cases "e2 = 0")
      case True
      then show ?thesis using E3 E2 f3 z2 extends_keeps [OF x1] by (simp add: mp)
    next
      case f2: False
      with n2 obtain lv2 where x2: "extends v1 lv1 v2 lv2" and t1: "lv2 (pageBase e2) = Some 1"
        and m2: "vm_mem v2 (slot (pageBase e3) (?I 2)) \<noteq> 0"
          "pageBase (vm_mem v2 (slot (pageBase e3) (?I 2))) = pageBase e2" by blast
      note inv2 = extendsD(1) [OF x2] and x02 = extends_trans [OF x1 x2]
      have s1: "table_slot lv2 (pageBase e2) (Suc 0) (?I 1)" using t1 by (simp add: table_slot_def)
      from ensureTable_spec [OF inv2 s1] obtain e1 v3 where
        E1: "ensureTable v2 (vmmMMIO (pageBase e2) True) (?I 1) = Some (e1, v3)" and z1: "e1 = 0 \<longrightarrow> v3 = v2"
        and n1: "e1 \<noteq> 0 \<longrightarrow> (\<exists>lv'. extends v2 lv2 v3 lv' \<and> lv' (pageBase e1) = Some 0 \<and>
          vm_mem v3 (slot (pageBase e2) (?I 1)) \<noteq> 0 \<and>
          pageBase (vm_mem v3 (slot (pageBase e2) (?I 1))) = pageBase e1)" by blast
      show ?thesis
      proof (cases "e1 = 0")
        case True
        then show ?thesis using E3 E2 E1 f3 f2 z1 extends_keeps [OF x02] by (simp add: mp)
      next
        case f1: False
        with n1 obtain lv3 where x3: "extends v2 lv2 v3 lv3" and t0: "lv3 (pageBase e1) = Some 0"
          and m1: "vm_mem v3 (slot (pageBase e2) (?I 1)) \<noteq> 0"
            "pageBase (vm_mem v3 (slot (pageBase e2) (?I 1))) = pageBase e1" by blast
        note inv3 = extendsD(1) [OF x3] and x03 = extends_trans [OF x02 x3]
        let ?v4 = "set_leaf v3 (pageBase e1) (?I 0) (pageBase p OR entryFlags f)"
        have "platformMapPage v l p f = Some (canonical (pageBase l), ?v4)"
          using E3 E2 E1 f3 f2 f1 paging_invD(6) [OF inv3 t0]
          by (simp add: mp mmio_access set_leaf_def)
        moreover have "reach v3 3 (vm_cr3 v3) l = Some (pageBase e1, ?I 0)"
        proof -
          have "vm_mem v3 (slot ?T3 (?I 3)) = vm_mem v1 (slot ?T3 (?I 3))"
            using extendsD(4) [OF x2, OF table_slot_mono [OF extendsD(3) [OF x1] s3]]
              extendsD(4) [OF x3, OF table_slot_mono [OF extendsD(3) [OF x02] s3]] m3(1) by metis
          moreover have "vm_mem v3 (slot (pageBase e3) (?I 2)) = vm_mem v2 (slot (pageBase e3) (?I 2))"
            using extendsD(4) [OF x3, OF table_slot_mono [OF extendsD(3) [OF x2] s2]] m2(1) by metis
          ultimately show ?thesis
            using m3 m2 m1 extendsD(2) [OF x03] by (simp add: reach_3 Let_def)
        qed
        then have "maps_page v lv l (pageBase p OR entryFlags f) ?v4"
          using set_leaf_inv [OF inv3 t0 tableIndex_less] set_leaf_pte [OF inv3 l]
            extendsD(2,3) [OF x03] x03
          unfolding maps_page_def extends_def by (auto simp: set_leaf_def)
        ultimately show ?thesis by blast
      qed
    qed
  qed
qed

section \<open>Flags through the entry\<close>

lemma pt_bits:
  "e AND PT_PAGE_PRESENT \<noteq> 0 \<longleftrightarrow> bit e 0" "e AND PT_PAGE_RW \<noteq> 0 \<longleftrightarrow> bit e 1"
  "e AND PT_PAGE_USER \<noteq> 0 \<longleftrightarrow> bit e 2" "e AND PT_PAGE_NO_CACHE \<noteq> 0 \<longleftrightarrow> bit e 4"
  "e AND PT_PAGE_NXE \<noteq> 0 \<longleftrightarrow> bit e 63"
  using and_exp_iff [of e 0] and_exp_iff [of e 1] and_exp_iff [of e 2] and_exp_iff [of e 4]
    and_exp_iff [of e 63] by (simp_all add: pt_flags)

lemma platform_bits:
  "f AND PLATFORM_PAGE_PRESENT \<noteq> 0 \<longleftrightarrow> bit f 0" "f AND PLATFORM_PAGE_SWAP \<noteq> 0 \<longleftrightarrow> bit f 1"
  "f AND PLATFORM_PAGE_USER \<noteq> 0 \<longleftrightarrow> bit f 2" "f AND PLATFORM_PAGE_EXEC \<noteq> 0 \<longleftrightarrow> bit f 3"
  "f AND PLATFORM_PAGE_WRITE \<noteq> 0 \<longleftrightarrow> bit f 4" "f AND PLATFORM_PAGE_NO_CACHE \<noteq> 0 \<longleftrightarrow> bit f 5"
  "f AND PLATFORM_PAGE_ERROR \<noteq> 0 \<longleftrightarrow> bit f 15"
  using and_exp_iff [of f 0] and_exp_iff [of f 1] and_exp_iff [of f 2] and_exp_iff [of f 3]
    and_exp_iff [of f 4] and_exp_iff [of f 5] and_exp_iff [of f 15] by (simp_all add: platform_flags)

lemma pt_pow:
  "PT_PAGE_PRESENT = 2 ^ 0" "PT_PAGE_RW = 2 ^ 1" "PT_PAGE_USER = 2 ^ 2" "PT_PAGE_WRITE_THROUGH = 2 ^ 3"
  "PT_PAGE_NO_CACHE = 2 ^ 4" "PT_PAGE_NXE = 2 ^ 63"
  by (simp_all add: pt_flags)

lemma platform_pow:
  "PLATFORM_PAGE_PRESENT = 2 ^ 0" "PLATFORM_PAGE_SWAP = 2 ^ 1" "PLATFORM_PAGE_USER = 2 ^ 2"
  "PLATFORM_PAGE_EXEC = 2 ^ 3" "PLATFORM_PAGE_WRITE = 2 ^ 4" "PLATFORM_PAGE_NO_CACHE = 2 ^ 5"
  by (simp_all add: platform_flags)

lemma bit_flag: "bit (if c then 2 ^ k else (0::'a::len word)) n \<longleftrightarrow> c \<and> n = k \<and> k < LENGTH('a)"
  by (auto simp: bit_exp_iff)

lemma bit_flag_or: "bit (if c then 2 ^ k OR 2 ^ m else (0::'a::len word)) n \<longleftrightarrow>
    c \<and> (n = k \<and> k < LENGTH('a) \<or> n = m \<and> m < LENGTH('a))"
  by (auto simp: bit_exp_iff bit_or_iff)

lemma bit_flag_else: "bit (if c then 2 ^ k else if d then 2 ^ m else (0::'a::len word)) n \<longleftrightarrow>
    c \<and> n = k \<and> k < LENGTH('a) \<or> \<not> c \<and> d \<and> n = m \<and> m < LENGTH('a)"
  by (auto simp: bit_exp_iff)

lemma bit_entryFlags:
  "bit (entryFlags f) n \<longleftrightarrow> n = 0 \<and> bit f 0 \<or> n = 1 \<and> bit f 4 \<or> n = 2 \<and> bit f 2 \<or>
     n = 63 \<and> \<not> bit f 3 \<or> (n = 3 \<or> n = 4) \<and> bit f 5"
proof -
  have nx: "f AND PLATFORM_PAGE_EXEC = 0 \<longleftrightarrow> \<not> bit f 3" using platform_bits(4) by blast
  show ?thesis
    unfolding entryFlags_def platform_bits nx pt_pow bit_or_iff bit_flag bit_flag_or
    by (auto simp del: bit_0_eq)
qed

lemma bit_pageBase: "bit (pageBase x) n \<longleftrightarrow> 12 \<le> n \<and> bit x n"
  by (auto simp: pageBase_eq_push bit_simps dest: bit_imp_le_length)

lemma bit_flagsOfEntry:
  "bit (flagsOfEntry e) n \<longleftrightarrow> n = 0 \<and> bit e 0 \<or> n = 1 \<and> \<not> bit e 0 \<and> e \<noteq> 0 \<or> n = 4 \<and> bit e 1 \<or>
     n = 2 \<and> bit e 2 \<or> n = 3 \<and> \<not> bit e 63 \<or> n = 5 \<and> bit e 4"
proof -
  have nx: "e AND PT_PAGE_NXE = 0 \<longleftrightarrow> \<not> bit e 63" using pt_bits(5) by blast
  show ?thesis
    unfolding flagsOfEntry_def pt_bits nx platform_pow bit_or_iff bit_flag bit_flag_else
    by (auto simp del: bit_0_eq)
qed

lemma bit_3D: "bit (0x3D :: u32) n \<longleftrightarrow> n \<in> {0, 2, 3, 4, 5}"
proof -
  have "(0x3D :: u32) = 2 ^ 0 OR 2 ^ 2 OR 2 ^ 3 OR 2 ^ 4 OR 2 ^ 5" by simp
  then show ?thesis by (simp only: bit_or_iff bit_exp_iff) auto
qed

lemma mapped_flags:
  assumes "bit f 0" "\<not> bit p 63"
  shows "flagsOfEntry (pageBase p OR entryFlags f) = f AND 0x3D"
proof (rule bit_word_eqI)
  fix n
  show "bit (flagsOfEntry (pageBase p OR entryFlags f)) n = bit (f AND 0x3D) n"
    unfolding bit_flagsOfEntry bit_or_iff bit_and_iff bit_pageBase bit_entryFlags bit_3D
    using assms by (auto simp del: bit_0_eq)
qed

lemma mapped_frame:
  assumes "\<not> bit p 63"
  shows "pageBase (pageBase p OR entryFlags f) AND NOT PT_PAGE_NXE = pageBase p"
proof (rule bit_word_eqI)
  fix n assume "n < LENGTH(64)"
  then show "bit (pageBase (pageBase p OR entryFlags f) AND NOT PT_PAGE_NXE) n = bit (pageBase p) n"
    unfolding pt_pow bit_and_iff bit_not_iff bit_exp_iff bit_pageBase bit_or_iff bit_entryFlags
    using assms by (auto simp del: bit_0_eq)
qed

lemma entry_nonzero: "bit f 0 \<or> \<not> bit f 3 \<Longrightarrow> pageBase p OR entryFlags f \<noteq> 0"
  using bit_entryFlags [of f 0] bit_entryFlags [of f 63] bit_or_iff [of "pageBase p" "entryFlags f"]
  by (metis bit_0_eq bot_apply bot_bool_def)

lemma platformGetPage_mapped:
  assumes "paging_inv v lv" "mappable x" "pte v x \<noteq> 0"
  shows "platformGetPage v x =
    Some ((pageBase (pte v x) AND NOT PT_PAGE_NXE) OR (x AND (PAGE_SIZE - 1)), flagsOfEntry (pte v x))"
  using platformGetPage_pte [OF assms(1,2)] assms(3) by auto

lemma maps_pageD:
  assumes "maps_page v lv l e v'"
  obtains lv' where "paging_inv v' lv'" "lv \<subseteq>\<^sub>m lv'" "vm_cr3 v' = vm_cr3 v"
    "\<And>x. mappable x \<Longrightarrow> pte v' x = (if page_path x = page_path l then e else pte v x)"
  using assms unfolding maps_page_def by blast

lemma keeps_pagesD:
  assumes "keeps_pages v lv v'"
  obtains lv' where "paging_inv v' lv'" "lv \<subseteq>\<^sub>m lv'" "vm_cr3 v' = vm_cr3 v"
    "\<And>x. mappable x \<Longrightarrow> pte v' x = pte v x"
  using assms unfolding keeps_pages_def by blast


lemma putEntry_slot:
  assumes "pageBase T = T" "pageBase T' = T'" "T < KERNEL_MMIO_LIMIT" "T' < KERNEL_MMIO_LIMIT"
    "i < 512" "j < 512"
  shows "vm_mem (putEntry T i x v) (slot T' j) = (if T' = T \<and> j = i then x else vm_mem v (slot T' j))"
  using slot_inject [OF assms(2,1,4,3,6,5)] by (auto simp: putEntry_def slot_def)

lemma putEntry_other [simp]:
  "vm_pmm (putEntry T i x v) = vm_pmm v" "vm_cr3 (putEntry T i x v) = vm_cr3 v"
  by (simp_all add: putEntry_def)

lemma fillDirectory_other [simp]:
  "vm_pmm (fillDirectory n j pd addr v) = vm_pmm v" "vm_cr3 (fillDirectory n j pd addr v) = vm_cr3 v"
  by (induction n arbitrary: j addr v) (simp_all add: putEntry_def)

lemma of_nat_512: "j < 512 \<Longrightarrow> (of_nat j :: u64) < 512"
  by (simp add: word_less_nat_alt unat_of_nat take_bit_eq_mod)

lemma fillDirectory_slot:
  assumes pd: "pageBase pd = pd" "pd < KERNEL_MMIO_LIMIT" and T: "pageBase T = T" "T < KERNEL_MMIO_LIMIT"
    and i: "i < 512"
  shows "j + n \<le> 512 \<Longrightarrow> vm_mem (fillDirectory n j pd addr v) (slot T i) =
    (if T = pd \<and> j \<le> unat i \<and> unat i < j + n
     then (addr + of_nat (unat i - j) * 0x200000) OR PT_PAGE_PRESENT OR PT_PAGE_RW OR PT_PAGE_SIZE_EXTENSION
     else vm_mem v (slot T i))"
proof (induction n arbitrary: j addr v)
  case 0
  then show ?case by auto
next
  case (Suc n)
  have j: "j < 512" using Suc.prems by simp
  have ij: "i = of_nat j \<longleftrightarrow> unat i = j"
    using j by (auto simp: unat_of_nat take_bit_eq_mod)
  note p = putEntry_slot [OF pd(1) T(1) pd(2) T(2) of_nat_512 [OF j] i]
  consider "T \<noteq> pd" | "unat i < j" | "unat i = j" | "j < unat i" by linarith
  then show ?case
  proof cases
    case 4
    then obtain d where d: "unat i = Suc j + d" by (metis less_imp_Suc_add add_Suc)
    have "addr + 0x200000 + of_nat d * 0x200000 = addr + of_nat (Suc d) * (0x200000 :: u64)"
      by (simp add: algebra_simps)
    with Suc.IH [of "Suc j" "addr + 0x200000"] Suc.prems d show ?thesis
      by (simp add: p ij algebra_simps)
  qed (use Suc.IH [of "Suc j" "addr + 0x200000"] Suc.prems in \<open>auto simp: p ij\<close>)
qed

lemma alloc_table_page:
  assumes inv: "pmm_inv (vm_pmm v)" and hi: "highestUsableAddress (pmmStat (vm_pmm v)) \<le> KERNEL_MMIO_LIMIT"
    and al: "pmmAllocate (vm_pmm v) = Some (a, pm)" and a: "a \<noteq> 0"
  shows "table_page (v\<lparr>vm_pmm := pm\<rparr>) a" "pmm_inv pm" "highestUsableAddress (pmmStat pm) \<le> KERNEL_MMIO_LIMIT"
    "\<And>T. table_page v T \<Longrightarrow> table_page (v\<lparr>vm_pmm := pm\<rparr>) T \<and> T \<noteq> a"
proof -
  note cases = pmmAllocate_cases [OF inv al]
  show "table_page (v\<lparr>vm_pmm := pm\<rparr>) a"
    using cases a hi pool.alloc_used [OF inv al a] by (auto simp: table_page_def intro: aligned_pageBase)
  show "pmm_inv pm" by (rule pool.alloc_inv [OF inv al])
  show "highestUsableAddress (pmmStat pm) \<le> KERNEL_MMIO_LIMIT" using cases hi a by auto
  show "table_page (v\<lparr>vm_pmm := pm\<rparr>) T \<and> T \<noteq> a" if "table_page v T" for T
    using that pool.alloc_used [OF inv al a] pool.alloc_fresh [OF inv al a] by (auto simp: table_page_def)
qed

lemma table_page_cong: "vm_pmm v' = vm_pmm v \<Longrightarrow> table_page v' T = table_page v T"
  by (simp add: table_page_def)

lemma setup_step:
  assumes I: "setup_inv v P D n" and n: "n < 512" and al: "pmmAllocate (vm_pmm v) = Some (pd, pm)" "pd \<noteq> 0"
  shows "setup_inv (fillDirectory 512 0 pd (of_nat n * 0x40000000)
      (putEntry D (of_nat n) (pd OR PT_PAGE_PRESENT OR PT_PAGE_RW OR PT_PAGE_USER) (v\<lparr>vm_pmm := pm\<rparr>))) P D (Suc n)"
    (is "setup_inv ?v P D (Suc n)")
proof -
  have inv: "pmm_inv (vm_pmm v)" and hi: "highestUsableAddress (pmmStat (vm_pmm v)) \<le> KERNEL_MMIO_LIMIT"
    and P: "table_page v P" and D: "table_page v D" and PD: "P \<noteq> D"
    using I by (auto simp: setup_inv_def)
  note at = alloc_table_page [OF inv hi al]
  have pmm: "vm_pmm ?v = pm" by (simp only: fillDirectory_other putEntry_other) simp
  have tp: "table_page ?v T \<longleftrightarrow> table_page (v\<lparr>vm_pmm := pm\<rparr>) T" for T
    by (rule table_page_cong) (simp add: pmm)
  have nw: "(of_nat n :: u64) < 512" by (rule of_nat_512 [OF n])
  have mem: "vm_mem ?v (slot T i) = (if T = pd
      then (of_nat n * 0x40000000 + i * 0x200000) OR PT_PAGE_PRESENT OR PT_PAGE_RW OR PT_PAGE_SIZE_EXTENSION
      else if T = D \<and> i = of_nat n then pd OR PT_PAGE_PRESENT OR PT_PAGE_RW OR PT_PAGE_USER
      else vm_mem v (slot T i))" if "T = pd \<or> table_page v T" "i < 512" for T i
  proof -
    have T: "pageBase T = T" "T < KERNEL_MMIO_LIMIT" "pageBase pd = pd" "pd < KERNEL_MMIO_LIMIT"
      "pageBase D = D" "D < KERNEL_MMIO_LIMIT"
      using that(1) at(1) D by (auto simp: table_page_def)
    have "unat i < 512" using that(2) by (simp add: word_less_nat_alt)
    then show ?thesis
      using fillDirectory_slot [OF T(3,4,1,2) that(2), of 0 512] putEntry_slot [OF T(5,1,6,2) nw that(2)]
      by simp
  qed
  have dirs: "\<exists>d. d \<noteq> P \<and> d \<noteq> D \<and> window_entry ?v d i (vm_mem ?v (slot D (of_nat i)))" if i: "i < Suc n" for i
  proof (cases "i = n")
    case True
    have "window_entry ?v pd n (vm_mem ?v (slot D (of_nat n)))"
      using at(1,4) D mem [of D "of_nat n"] mem [of pd] nw by (auto simp: window_entry_def tp)
    with True at(4) [OF P] at(4) [OF D] show ?thesis by auto
  next
    case False
    then have "i < n" using i by simp
    with I obtain d where d: "d \<noteq> P" "d \<noteq> D" "window_entry v d i (vm_mem v (slot D (of_nat i)))"
      unfolding setup_inv_def by blast
    have i512: "(of_nat i :: u64) < 512" by (rule of_nat_512) (use i n in simp)
    have ne: "(of_nat i :: u64) \<noteq> of_nat n"
      using False i n by (simp add: word_unat_eq_iff unat_of_nat take_bit_eq_mod)
    have "table_page v d" using d by (simp add: window_entry_def)
    then have "window_entry ?v d i (vm_mem ?v (slot D (of_nat i)))"
      using d at(4) [of d] at(4) [OF D] mem [of D "of_nat i"] mem [of d] i512 ne D by (auto simp: window_entry_def tp)
    with d show ?thesis by blast
  qed
  have "vm_mem ?v (slot P i) = (if i = 256 then D OR PT_PAGE_PRESENT OR PT_PAGE_RW else 0)" if "i < 512" for i
    using mem [of P i] P at(4) [OF P] PD that I by (auto simp: setup_inv_def)
  with at P D PD dirs show ?thesis unfolding setup_inv_def by (auto simp: tp pmm)
qed

lemma setupDirectories_inv:
  "setup_inv v P D i \<Longrightarrow> i + n \<le> 512 \<Longrightarrow>
   \<exists>ok v'. setupDirectories n i D (of_nat i * 0x40000000) v = Some (ok, v') \<and>
     (ok \<longrightarrow> setup_inv v' P D (i + n))"
proof (induction n arbitrary: i v)
  case 0
  then show ?case by (intro exI [of _ True] exI [of _ v]) simp
next
  case (Suc n)
  from Suc.prems obtain pd pm where al: "pmmAllocate (vm_pmm v) = Some (pd, pm)"
    using pool.alloc_returns by (metis setup_inv_def)
  have ar: "of_nat i * 0x40000000 + 0x40000000 = (of_nat (Suc i) * 0x40000000 :: u64)"
    by (simp add: algebra_simps)
  show ?case
  proof (cases "pd = 0")
    case True
    with al show ?thesis by (intro exI [of _ False]) simp
  next
    case False
    have i: "i < 512" using Suc.prems by simp
    from Suc.IH [OF setup_step [OF Suc.prems(1) i al False]] Suc.prems(2) al False ar show ?thesis
      by (simp del: of_nat_Suc)
  qed
qed

lemma zeroPage_other [simp]:
  "vm_pmm (zeroPage p v) = vm_pmm v" "vm_cr3 (zeroPage p v) = vm_cr3 v"
  by (simp_all add: zeroPage_def)

lemma zeroPage_slot:
  assumes "pageBase T = T" "pageBase p = p" "T < KERNEL_MMIO_LIMIT" "p < KERNEL_MMIO_LIMIT" "i < 512"
  shows "vm_mem (zeroPage p v) (slot T i) = (if T = p then 0 else vm_mem v (slot T i))"
  using slot_in_page [OF assms(1-5)] by (simp add: zeroPage_def)

lemma platformPagingSetup_cases:
  assumes inv: "pmm_inv (vm_pmm v)" and hi: "highestUsableAddress (pmmStat (vm_pmm v)) \<le> KERNEL_MMIO_LIMIT"
  shows "\<exists>r v'. platformPagingSetup True v = Some (r, v') \<and>
    (r = 0 \<and> (\<exists>D. setup_inv v' (vm_cr3 v') D 16) \<or> r = -1)"
proof -
  obtain P pm1 where a1: "pmmAllocate (vm_pmm v) = Some (P, pm1)" using pool.alloc_returns [OF inv] by auto
  have inv1: "pmm_inv pm1" by (rule pool.alloc_inv [OF inv a1])
  obtain D pm2 where a2: "pmmAllocate pm1 = Some (D, pm2)" using pool.alloc_returns [OF inv1] by auto
  show ?thesis
  proof (cases "P = 0 \<or> D = 0")
    case True
    then show ?thesis using a1 a2 by (auto simp: platformPagingSetup_def)
  next
    case False
    let ?v1 = "v\<lparr>vm_pmm := pm1\<rparr>" and ?v2 = "v\<lparr>vm_pmm := pm2\<rparr>"
    let ?w = "putEntry P 256 (D OR PT_PAGE_PRESENT OR PT_PAGE_RW) (zeroPage D (zeroPage P ?v2))"
    have t1: "table_page ?v1 P" "highestUsableAddress (pmmStat pm1) \<le> KERNEL_MMIO_LIMIT"
      using alloc_table_page [OF inv hi a1] False by auto
    have t2: "table_page ?v2 D" "pmm_inv pm2" "highestUsableAddress (pmmStat pm2) \<le> KERNEL_MMIO_LIMIT"
        "table_page ?v2 P" "P \<noteq> D"
      using alloc_table_page [of ?v1 D pm2] inv1 t1 a2 False by auto
    have tw: "table_page ?w T = table_page ?v2 T" for T by (rule table_page_cong) simp
    have "vm_mem ?w (slot P i) = (if i = 256 then D OR PT_PAGE_PRESENT OR PT_PAGE_RW else 0)" if "i < 512" for i
      using t2 that by (simp add: table_page_def putEntry_slot zeroPage_slot)
    then have I: "setup_inv ?w P D 0" using t2 by (simp add: setup_inv_def tw)
    from setupDirectories_inv [OF I, of 16] obtain ok w where
      s: "setupDirectories 16 0 D 0 ?w = Some (ok, w)" and ok: "ok \<Longrightarrow> setup_inv w P D 16" by auto
    have "setup_inv (w\<lparr>vm_cr3 := P\<rparr>) P D 16" if ok
      using ok [OF that] by (simp add: setup_inv_def table_page_def window_entry_def)
    moreover have m: "unat KERNEL_BASE_MAPPED = 16" by (simp add: layout_defs)
    ultimately show ?thesis
      using a1 a2 False s by (cases ok) (auto simp: platformPagingSetup_def)
  qed
qed

lemma setup_paging_inv:
  assumes "setup_inv v (vm_cr3 v) D n"
  shows "paging_inv v [vm_cr3 v \<mapsto> 3]"
  using assms
  by (auto simp: setup_inv_def paging_inv_def table_page_def table_slot_def split: if_splits)


lemma vm_ex_inv: "paging_inv vm_ex [0x1000 \<mapsto> 3]"
proof -
  have "pmm_inv pmm_ex" by (simp add: pmm_inv_def pmm_ex_def)
  moreover have "highestUsableAddress (pmmStat pmm_ex) \<le> KERNEL_MMIO_LIMIT"
    by (simp add: pmm_ex_def layout_defs)
  moreover have "pageBase 0x1000 = 0x1000" "(0x1000 :: u64) < KERNEL_MMIO_LIMIT"
    "page_used pmm_ex (0x1000 div PAGE_SIZE)"
    by (simp_all add: pageBase_def layout_defs pmm_ex_def page_used_def)
  moreover have "([0x1000 \<mapsto> (3::nat)]) T = Some k \<longleftrightarrow> T = 0x1000 \<and> k = 3" for T :: u64 and k
    by auto
  ultimately show ?thesis unfolding paging_inv_def by (simp add: vm_ex_def)
qed

lemma mappable_400000: "mappable 0x400000"
  by (simp add: mappable_def pml4Index_def drop_bit_eq_div)

lemma copyPage_slot:
  assumes "pageBase d = d" "d < KERNEL_MMIO_LIMIT" "s < KERNEL_MMIO_LIMIT"
    "pageBase T = T" "T < KERNEL_MMIO_LIMIT" "i < 512"
  shows "\<exists>v'. copyPage v (vmmMMIO d True) (vmmMMIO s True) = Some v' \<and> vm_pmm v' = vm_pmm v \<and>
    vm_cr3 v' = vm_cr3 v \<and>
    vm_mem v' (slot T i) = (if T = d then vm_mem v (slot s i) else vm_mem v (slot T i))"
  using slot_in_page [OF assms(4,1,5,2,6)] mmio_pointer [OF assms(2)] mmio_pointer [OF assms(3)]
  by (auto simp: copyPage_def slot_def add.commute)

lemma copyPage_page:
  assumes "pageBase d = d" "d < KERNEL_MMIO_LIMIT" "s < KERNEL_MMIO_LIMIT"
  shows "\<exists>v'. copyPage v (vmmMMIO d True) (vmmMMIO s True) = Some v' \<and> vm_pmm v' = vm_pmm v \<and>
    vm_cr3 v' = vm_cr3 v \<and> (\<forall>i < 512. vm_mem v' (slot d i) = vm_mem v (slot s i)) \<and>
    (\<forall>T i. pageBase T = T \<longrightarrow> T < KERNEL_MMIO_LIMIT \<longrightarrow> i < 512 \<longrightarrow> T \<noteq> d \<longrightarrow>
       vm_mem v' (slot T i) = vm_mem v (slot T i))"
proof -
  obtain v' where c: "copyPage v (vmmMMIO d True) (vmmMMIO s True) = Some v'"
    and same: "vm_pmm v' = vm_pmm v" "vm_cr3 v' = vm_cr3 v"
    using copyPage_slot [OF assms assms(1,2), of 0 v] by auto
  have "vm_mem v' (slot T i) = (if T = d then vm_mem v (slot s i) else vm_mem v (slot T i))"
    if "pageBase T = T" "T < KERNEL_MMIO_LIMIT" "i < 512" for T i
    using copyPage_slot [OF assms that, of v] c by simp
  with c same assms show ?thesis by simp
qed

text \<open>
  cloning the kernel's address space returns. When a page is free it gives the pointer to a
  fresh page that holds the 512 root entries of the kernel, leaves every other table alone and
  keeps the current address space well formed; otherwise it gives the null pointer and nothing
  changed.
\<close>

theorem platformCloneKernelSpace_copies:
  assumes inv: "paging_inv v lv" and root: "root < KERNEL_MMIO_LIMIT"
  shows "\<exists>r v'. platformCloneKernelSpace root v = Some (r, v') \<and>
    (r = 0 \<and> v' = v \<or>
     (\<exists>a. r = a + KERNEL_MMIO_BASE \<and> \<not> page_used (vm_pmm v) (a div PAGE_SIZE) \<and> paging_inv v' lv \<and>
        (\<forall>i < 512. vm_mem v' (slot a i) = vm_mem v (slot root i)) \<and>
        (\<forall>T k i. table_slot lv T k i \<longrightarrow> vm_mem v' (slot T i) = vm_mem v (slot T i))))"
proof -
  note pinv = paging_invD(1) [OF inv] and hi = paging_invD(3) [OF inv]
  obtain a pm where al: "pmmAllocate (vm_pmm v) = Some (a, pm)" using pool.alloc_returns [OF pinv] by blast
  show ?thesis
  proof (cases "a = 0")
    case True
    then show ?thesis using al pool.alloc_none [OF pinv] by (simp add: platformCloneKernelSpace_def)
  next
    case False
    note at = alloc_table_page [OF pinv hi al False]
    have a: "pageBase a = a" "a < KERNEL_MMIO_LIMIT" using at(1) by (auto simp: table_page_def)
    obtain v' where c: "copyPage (v\<lparr>vm_pmm := pm\<rparr>) (vmmMMIO a True) (vmmMMIO root True) = Some v'"
      and e: "vm_pmm v' = pm" "vm_cr3 v' = vm_cr3 v" "\<forall>i < 512. vm_mem v' (slot a i) = vm_mem v (slot root i)"
      and o: "\<forall>T i. pageBase T = T \<longrightarrow> T < KERNEL_MMIO_LIMIT \<longrightarrow> i < 512 \<longrightarrow> T \<noteq> a \<longrightarrow>
         vm_mem v' (slot T i) = vm_mem v (slot T i)"
      using copyPage_page [OF a root, of "v\<lparr>vm_pmm := pm\<rparr>"] by auto
    have same: "vm_mem v' (slot T i) = vm_mem v (slot T i)" if "table_slot lv T k i" for T k i
    proof -
      have T: "table_page v T" "i < 512"
        using that paging_invD(4-7) [OF inv, of T k] by (auto simp: table_slot_def table_page_def)
      then show ?thesis using at(4) [OF T(1)] o by (auto simp: table_page_def)
    qed
    have used: "page_used pm (T div PAGE_SIZE)" if "lv T = Some k" for T k
      using paging_invD(7) [OF inv that] pool.alloc_used [OF pinv al False] by blast
    have "paging_inv v' lv"
      using inv at(2,3) used unfolding paging_inv_def e(1,2) by (simp add: same cong: imp_cong conj_cong)
    with c e(3) same False al a show ?thesis
      using pool.alloc_fresh [OF pinv al False]
      by (auto simp: platformCloneKernelSpace_def vmmMMIO_def)
  qed
qed

text \<open>
  unmapping. After \<open>platformUnmapPage()\<close> succeeds the page table entry is not zero but the
  no-execute bit, so \<open>platformGetPage()\<close> still reports the page as absent but swappable: a
  page that was mapped once never reads as unused again, against the comment in the code.
\<close>

theorem platformUnmapPage_leaves_swap:
  assumes inv: "paging_inv v lv" and l: "mappable l"
    and c: "canonical (pageBase l) = pageBase l" "pageBase l \<noteq> 0"
  shows "\<exists>r v'. platformUnmapPage v l = Some (r, v') \<and>
    (r = 0 \<and> (\<forall>x. mappable x \<and> page_path x = page_path l \<longrightarrow>
       pte v' x = PT_PAGE_NXE \<and> platformGetPage v' x = Some (x AND (PAGE_SIZE - 1), PLATFORM_PAGE_SWAP)) \<or>
     r = 1 \<and> (\<forall>x. mappable x \<longrightarrow> pte v' x = pte v x))"
proof -
  have ml: "mappable (pageBase l)" using l by (simp add: mappable_def index_simps)
  have pp: "page_path (pageBase l) = page_path l" by (simp add: page_path_def)
  have e: "pageBase 0 OR entryFlags 0 = PT_PAGE_NXE" by (simp add: entryFlags_def pageBase_def)
  have f: "flagsOfEntry PT_PAGE_NXE = PLATFORM_PAGE_SWAP" "pageBase PT_PAGE_NXE AND NOT PT_PAGE_NXE = 0"
    by (simp_all add: flagsOfEntry_def pt_flags platform_flags pageBase_def layout_defs)
  from platformMapPage_spec [OF inv ml, of 0 0] show ?thesis
  proof (elim disjE exE conjE)
    fix v' assume m: "platformMapPage v (pageBase l) 0 0 = Some (canonical (pageBase (pageBase l)), v')"
      "maps_page v lv (pageBase l) (pageBase 0 OR entryFlags 0) v'"
    have "pte v' x = PT_PAGE_NXE \<and> platformGetPage v' x = Some (x AND (PAGE_SIZE - 1), PLATFORM_PAGE_SWAP)"
      if x: "mappable x" "page_path x = page_path l" for x
    proof -
      obtain lv' where inv': "paging_inv v' lv'" and p: "pte v' x = PT_PAGE_NXE"
        using m(2) x unfolding e by (elim maps_pageD) (auto simp: pp)
      with platformGetPage_mapped [OF inv' x(1)] show ?thesis
        by (simp only: p f) (simp add: pt_flags)
    qed
    with m(1) c(1) show ?thesis by (simp add: platformUnmapPage_def)
  next
    fix v' assume m: "platformMapPage v (pageBase l) 0 0 = Some (0, v')" "keeps_pages v lv v'"
    then have "\<forall>x. mappable x \<longrightarrow> pte v' x = pte v x" by (elim keeps_pagesD) blast
    with m(1) c(2) show ?thesis by (simp add: platformUnmapPage_def)
  qed
qed

theorem platformUnmapPage_leaves_swap_witness:
  "\<exists>r v'. platformUnmapPage vm_ex 0x400000 = Some (r, v') \<and>
    (r = 0 \<and> platformGetPage v' 0x400000 = Some (0, PLATFORM_PAGE_SWAP) \<or> r = 1)"
proof -
  have "canonical (pageBase 0x400000) = pageBase 0x400000" "pageBase 0x400000 \<noteq> 0"
    by (simp_all add: canonical_def pageBase_def layout_defs)
  with platformUnmapPage_leaves_swap [OF vm_ex_inv mappable_400000] mappable_400000
  obtain r v' where "platformUnmapPage vm_ex 0x400000 = Some (r, v')"
    "r = 0 \<and> platformGetPage v' 0x400000 = Some (0x400000 AND (PAGE_SIZE - 1), PLATFORM_PAGE_SWAP) \<or> r = 1"
    by metis
  then show ?thesis by (simp add: layout_defs)
qed


theorem platformCloneKernelSpace_copies_witness:
  "\<exists>r v'. platformCloneKernelSpace 0x1000 vm_ex = Some (r, v')"
proof -
  have "(0x1000 :: u64) < KERNEL_MMIO_LIMIT" by (simp add: layout_defs)
  from platformCloneKernelSpace_copies [OF vm_ex_inv this] show ?thesis by blast
qed


end
