(* ===== verification/Virtual.thy ===== *)
theory Virtual
  imports Paging
begin

text \<open>
  The virtual memory manager, \<^verbatim>\<open>src/src/memory/virtual.c\<close>, over the page tables of the current
  address space. Pages are allocated lazily: \<open>vmmAllocate()\<close> writes a not-present entry with the
  marker \<open>VMM_PAGE_ALLOCATE\<close> and \<open>vmmPageFault()\<close> supplies the frame.
\<close>

section \<open>Data\<close>

definition VMM_USER :: u32 where "VMM_USER = 0x01"
definition VMM_EXEC :: u32 where "VMM_EXEC = 0x02"
definition VMM_WRITE :: u32 where "VMM_WRITE = 0x04"
definition VMM_NO_CACHE :: u32 where "VMM_NO_CACHE = 0x08"

definition VMM_PAGE_FAULT_PRESENT :: u32 where "VMM_PAGE_FAULT_PRESENT = 0x01"
definition VMM_PAGE_FAULT_USER :: u32 where "VMM_PAGE_FAULT_USER = 0x02"
definition VMM_PAGE_FAULT_WRITE :: u32 where "VMM_PAGE_FAULT_WRITE = 0x04"
definition VMM_PAGE_FAULT_FETCH :: u32 where "VMM_PAGE_FAULT_FETCH = 0x08"

definition VMM_PAGE_SWAP_MASK :: u64 where "VMM_PAGE_SWAP_MASK = 0xE00000"
definition VMM_PAGE_SWAP :: u64 where "VMM_PAGE_SWAP = 0x200000"
definition VMM_PAGE_ALLOCATE :: u64 where "VMM_PAGE_ALLOCATE = 0x400000"

lemmas vmm_flags = VMM_USER_def VMM_EXEC_def VMM_WRITE_def VMM_NO_CACHE_def
lemmas fault_flags = VMM_PAGE_FAULT_PRESENT_def VMM_PAGE_FAULT_USER_def VMM_PAGE_FAULT_WRITE_def
  VMM_PAGE_FAULT_FETCH_def
lemmas swap_marks = VMM_PAGE_SWAP_MASK_def VMM_PAGE_SWAP_def VMM_PAGE_ALLOCATE_def

section \<open>Operations\<close>

definition vmmPageStatus :: "vm \<Rightarrow> u64 \<Rightarrow> (u32 \<times> u64) option" where
  "vmmPageStatus v logical = do { (p, s) \<leftarrow> platformGetPage v logical; Some (s, p) }"

definition vmmIsUsed :: "vm \<Rightarrow> u64 \<Rightarrow> bool option" where
  "vmmIsUsed v addr =
     do { (s, _) \<leftarrow> vmmPageStatus v addr;
          Some (s AND PLATFORM_PAGE_PRESENT \<noteq> 0 \<or> s AND PLATFORM_PAGE_SWAP \<noteq> 0) }"

definition lazyFlags :: "u32 \<Rightarrow> u32" where
  "lazyFlags flags =
     (if flags AND VMM_USER \<noteq> 0 then PLATFORM_PAGE_USER else 0) OR
     (if flags AND VMM_WRITE \<noteq> 0 then PLATFORM_PAGE_WRITE else 0) OR
     (if flags AND VMM_EXEC \<noteq> 0 then PLATFORM_PAGE_EXEC else 0) OR
     (if flags AND VMM_NO_CACHE \<noteq> 0 then PLATFORM_PAGE_NO_CACHE else 0)"

text \<open>The inner search loop, the mapping loop and the outer \<open>do ... while\<close> of \<open>vmmAllocate()\<close>.\<close>

partial_function (option) vmm_probe :: "vm \<Rightarrow> u64 \<Rightarrow> u64 \<Rightarrow> u64 option" where
  "vmm_probe v addr stop =
     (if addr < stop then
        do { u \<leftarrow> vmmIsUsed v addr; if u then Some addr else vmm_probe v (addr + PAGE_SIZE) stop }
      else Some addr)"

fun vmm_map :: "nat \<Rightarrow> vm \<Rightarrow> u64 \<Rightarrow> u32 \<Rightarrow> (bool \<times> vm) option" where
  "vmm_map 0 v a f = Some (True, v)"
| "vmm_map (Suc n) v a f =
     do { (r, v') \<leftarrow> platformMapPage v a VMM_PAGE_ALLOCATE f;
          if r = 0 then Some (False, v') else vmm_map n v' (a + PAGE_SIZE) f }"

partial_function (option) vmm_scan :: "vm \<Rightarrow> u64 \<Rightarrow> u64 \<Rightarrow> u64 \<Rightarrow> u32 \<Rightarrow> (u64 \<times> vm) option" where
  "vmm_scan v start end count f =
     do { addr \<leftarrow> vmm_probe v start (start + count * PAGE_SIZE);
          if addr \<ge> start + count * PAGE_SIZE then
            do { (ok, v') \<leftarrow> vmm_map (unat count) v start f; Some (if ok then start else 0, v') }
          else if start + PAGE_SIZE < end then vmm_scan v (start + PAGE_SIZE) end count f
          else Some (0, v) }"

definition vmmAllocate :: "vm \<Rightarrow> u64 \<Rightarrow> u64 \<Rightarrow> u64 \<Rightarrow> u32 \<Rightarrow> (u64 \<times> vm) option" where
  "vmmAllocate v base limit count flags =
     vmm_scan v (pageBase base) (pageBase limit - count * PAGE_SIZE) count (lazyFlags flags)"

fun vmmFree_loop :: "nat \<Rightarrow> int \<Rightarrow> vm \<Rightarrow> u64 \<Rightarrow> (int \<times> vm) option" where
  "vmmFree_loop 0 st v a = Some (st, v)"
| "vmmFree_loop (Suc n) st v a =
     do { (pageStatus, phys) \<leftarrow> vmmPageStatus v a;
          let (st1, v1) =
            (if pageStatus AND PLATFORM_PAGE_ERROR \<noteq> 0 then (st OR 1, v)
             else if pageStatus AND PLATFORM_PAGE_PRESENT \<noteq> 0 then
               (let (r, pm) = pmmFree (vm_pmm v) phys in (st OR r, v\<lparr>vm_pmm := pm\<rparr>))
             else (st, v));
          (r, v2) \<leftarrow> platformUnmapPage v1 a;
          vmmFree_loop n (st1 OR r) v2 (a + PAGE_SIZE) }"

definition vmmFree :: "vm \<Rightarrow> u64 \<Rightarrow> u64 \<Rightarrow> (int \<times> vm) option" where
  "vmmFree v addr count = vmmFree_loop (unat count) 0 v (pageBase addr)"

text \<open>The case \<open>VMM_PAGE_ALLOCATE\<close> of the switch in \<open>vmmPageFault()\<close>.\<close>

definition vmmServeFault :: "vm \<Rightarrow> u64 \<Rightarrow> u32 \<Rightarrow> (int \<times> vm) option" where
  "vmmServeFault v page flags =
     do { (frame, pm) \<leftarrow> pmmAllocate (vm_pmm v);
          if frame = 0 then Some (-1, v\<lparr>vm_pmm := pm\<rparr>)
          else do { (r, v') \<leftarrow> platformMapPage (v\<lparr>vm_pmm := pm\<rparr>) page frame flags;
                    Some (if r = 0 then -1 else 0, v') } }"

definition vmmPageFault :: "vm \<Rightarrow> u64 \<Rightarrow> u32 \<Rightarrow> (int \<times> vm) option" where
  "vmmPageFault v addr access =
     (if access AND VMM_PAGE_FAULT_PRESENT \<noteq> 0 then Some (-1, v) else
      do { (status, phys) \<leftarrow> vmmPageStatus v (pageBase addr);
           if status AND PLATFORM_PAGE_ERROR \<noteq> 0 then Some (-1, v)
           else if status AND PLATFORM_PAGE_EXEC = 0 \<and> access AND VMM_PAGE_FAULT_FETCH \<noteq> 0 then Some (-1, v)
           else if status AND PLATFORM_PAGE_USER = 0 \<and> access AND VMM_PAGE_FAULT_USER \<noteq> 0 then Some (-1, v)
           else if status AND PLATFORM_PAGE_WRITE = 0 \<and> access AND VMM_PAGE_FAULT_WRITE \<noteq> 0 then Some (-1, v)
           else if status AND PLATFORM_PAGE_SWAP \<noteq> 0 then
             (if phys AND VMM_PAGE_SWAP_MASK = VMM_PAGE_ALLOCATE then
                vmmServeFault v (pageBase addr) (status OR PLATFORM_PAGE_PRESENT)
              else Some (-1, v))
           else Some (-1, v) })"

fun vmmSetFlags_loop :: "nat \<Rightarrow> vm \<Rightarrow> u64 \<Rightarrow> u32 \<Rightarrow> vm option" where
  "vmmSetFlags_loop 0 v a f = Some v"
| "vmmSetFlags_loop (Suc n) v a f =
     do { (s, phys) \<leftarrow> vmmPageStatus v a;
          if s AND PLATFORM_PAGE_PRESENT \<noteq> 0
          then do { (_, v') \<leftarrow> platformMapPage v a phys f; vmmSetFlags_loop n v' (a + PAGE_SIZE) f }
          else vmmSetFlags_loop n v (a + PAGE_SIZE) f }"

definition vmmSetFlags :: "vm \<Rightarrow> u64 \<Rightarrow> u64 \<Rightarrow> u32 \<Rightarrow> (u64 \<times> vm) option" where
  "vmmSetFlags v base count flags =
     do { v' \<leftarrow> vmmSetFlags_loop (unat count) v base
            (PLATFORM_PAGE_PRESENT OR
             (if flags AND VMM_EXEC \<noteq> 0 then PLATFORM_PAGE_EXEC else 0) OR
             (if flags AND VMM_USER \<noteq> 0 then PLATFORM_PAGE_USER else 0) OR
             (if flags AND VMM_WRITE \<noteq> 0 then PLATFORM_PAGE_WRITE else 0));
          Some (base, v') }"

section \<open>Specification vocabulary\<close>

text \<open>The pages of a block, and a region whose pages can all be mapped.\<close>

fun block_pages :: "nat \<Rightarrow> u64 \<Rightarrow> u64 list" where
  "block_pages 0 a = []"
| "block_pages (Suc n) a = a # block_pages n (a + PAGE_SIZE)"

definition region :: "u64 \<Rightarrow> u64 \<Rightarrow> bool" where
  "region base limit \<longleftrightarrow> 4096 \<le> base \<and> (\<forall>x. base \<le> x \<longrightarrow> x \<le> limit \<longrightarrow> mappable x)"

definition block_free :: "vm \<Rightarrow> nat \<Rightarrow> u64 \<Rightarrow> bool" where
  "block_free v n a \<longleftrightarrow> (\<forall>x \<in> set (block_pages n a). pte v x = 0)"

definition lazy_entry :: "u32 \<Rightarrow> u64" where
  "lazy_entry flags = pageBase VMM_PAGE_ALLOCATE OR entryFlags (lazyFlags flags)"

definition maps_block :: "vm \<Rightarrow> levels \<Rightarrow> u64 list \<Rightarrow> u64 \<Rightarrow> vm \<Rightarrow> bool" where
  "maps_block v lv xs e v' \<longleftrightarrow> (\<exists>lv'. paging_inv v' lv' \<and> lv \<subseteq>\<^sub>m lv') \<and> vm_cr3 v' = vm_cr3 v \<and>
     (\<forall>x. mappable x \<longrightarrow> pte v' x = (if page_path x \<in> page_path ` set xs then e else pte v x))"

definition alloc_outcome :: "vm \<Rightarrow> levels \<Rightarrow> nat \<Rightarrow> u64 \<Rightarrow> u64 option \<Rightarrow> u64 \<Rightarrow> vm \<Rightarrow> bool" where
  "alloc_outcome v lv n e found r v' \<longleftrightarrow>
     (case found of
        None \<Rightarrow> r = 0 \<and> v' = v
      | Some st \<Rightarrow> r = st \<and> maps_block v lv (block_pages n st) e v' \<or>
                   r = 0 \<and> (\<exists>k < n. maps_block v lv (block_pages k st) e v'))"

text \<open>The condition under which a fault on an entry is served: a lazy page and a permitted access.\<close>

definition fault_allowed :: "u32 \<Rightarrow> u64 \<Rightarrow> bool" where
  "fault_allowed access e \<longleftrightarrow> e \<noteq> 0 \<and> \<not> bit e 0 \<and> \<not> bit access 0 \<and>
     (bit access 1 \<longrightarrow> bit e 2) \<and> (bit access 2 \<longrightarrow> bit e 1) \<and> (bit access 3 \<longrightarrow> \<not> bit e 63) \<and>
     (pageBase e AND NOT PT_PAGE_NXE) AND VMM_PAGE_SWAP_MASK = VMM_PAGE_ALLOCATE"

text \<open>An address space with the one lazily allocated page \<open>0x400000\<close>.\<close>

definition vm_page_ex :: vm where
  "vm_page_ex = \<lparr>vm_pmm = mark_run [1, 2, 3, 4] pmm_ex,
     vm_mem = (\<lambda>_. 0)(slot 0x1000 0 := 0x2007, slot 0x2000 0 := 0x3007, slot 0x3000 2 := 0x4007,
       slot 0x4000 0 := lazy_entry 5),
     vm_cr3 = 0x1000\<rparr>"

definition lv_page_ex :: levels where
  "lv_page_ex = [0x1000 \<mapsto> 3, 0x2000 \<mapsto> 2, 0x3000 \<mapsto> 1, 0x4000 \<mapsto> 0]"

section \<open>Page status\<close>

lemma vmmPageStatus_pte:
  assumes "paging_inv v lv" "mappable x"
  shows "\<exists>s p. vmmPageStatus v x = Some (s, p) \<and>
    (s = flagsOfEntry (pte v x) \<and> p = (pageBase (pte v x) AND NOT PT_PAGE_NXE) OR (x AND (PAGE_SIZE - 1)) \<or>
     s = 0 \<and> p = 0 \<and> pte v x = 0)"
  using platformGetPage_pte [OF assms] by (auto simp: vmmPageStatus_def)

lemma vmmPageStatus_mapped:
  assumes "paging_inv v lv" "mappable x" "pte v x \<noteq> 0"
  shows "vmmPageStatus v x =
    Some (flagsOfEntry (pte v x), (pageBase (pte v x) AND NOT PT_PAGE_NXE) OR (x AND (PAGE_SIZE - 1)))"
  using platformGetPage_mapped [OF assms] by (simp add: vmmPageStatus_def)

lemma vmmIsUsed_iff:
  assumes "paging_inv v lv" "mappable x"
  shows "vmmIsUsed v x = Some (pte v x \<noteq> 0)"
proof -
  obtain s p where s: "vmmPageStatus v x = Some (s, p)"
    "s = flagsOfEntry (pte v x) \<or> s = 0 \<and> pte v x = 0" using vmmPageStatus_pte [OF assms] by blast
  have "bit (flagsOfEntry (pte v x)) 0 \<or> bit (flagsOfEntry (pte v x)) 1 \<longleftrightarrow> pte v x \<noteq> 0"
    using bit_flagsOfEntry [of "pte v x" 0] bit_flagsOfEntry [of "pte v x" 1] bit_0_eq [where ?'a = u64]
    by auto
  with s show ?thesis unfolding vmmIsUsed_def by (auto simp: platform_bits)
qed

section \<open>Blocks of pages\<close>

lemma region_block:
  assumes r: "region base limit" and "base \<le> a" "unat a + n * 4096 \<le> unat limit"
  shows "x \<in> set (block_pages n a) \<Longrightarrow> mappable x \<and> 4096 \<le> x \<and> a \<le> x"
  using assms(2,3)
proof (induction n arbitrary: a)
  case 0
  then show ?case by simp
next
  case (Suc n)
  have u: "unat (a + PAGE_SIZE) = unat a + 4096"
    using Suc.prems(3) u64_bound [of limit] by (intro unat_add_page) simp
  then have le: "a \<le> a + PAGE_SIZE" by (simp add: word_le_nat_alt)
  have "a \<le> limit" using Suc.prems(3) by (simp add: word_le_nat_alt)
  moreover have "4096 \<le> a" using r Suc.prems(2) by (auto simp: region_def)
  ultimately show ?case
    using Suc.IH [of "a + PAGE_SIZE"] Suc.prems r u le by (fastforce simp: region_def)
qed

lemma vmm_probe_block:
  assumes inv: "paging_inv v lv"
  shows "unat a + n * 4096 + 4096 \<le> 2 ^ 64 \<Longrightarrow> (\<And>x. x \<in> set (block_pages n a) \<Longrightarrow> mappable x) \<Longrightarrow>
    unat stop = unat a + n * 4096 \<Longrightarrow>
    \<exists>b. vmm_probe v a stop = Some b \<and> (b \<ge> stop \<longleftrightarrow> block_free v n a)"
proof (induction n arbitrary: a)
  case 0
  then have "a = stop" by (simp add: word_unat_eq_iff)
  then show ?case by (simp add: vmm_probe.simps [of v stop] block_free_def)
next
  case (Suc n)
  have lt: "a < stop" using Suc.prems by (simp add: word_less_nat_alt)
  have u: "unat (a + PAGE_SIZE) = unat a + 4096" using Suc.prems by (intro unat_add_page) simp
  have "vmmIsUsed v a = Some (pte v a \<noteq> 0)" using Suc.prems by (intro vmmIsUsed_iff [OF inv]) simp
  with lt show ?case
    using Suc.IH [of "a + PAGE_SIZE"] Suc.prems u
    by (auto simp: vmm_probe.simps [of v a] block_free_def)
qed

lemma maps_block_nil: "maps_block v lv [] e v' \<longleftrightarrow> keeps_pages v lv v'"
  by (simp add: maps_block_def keeps_pages_def)

lemma keeps_refl: "paging_inv v lv \<Longrightarrow> keeps_pages v lv v"
  by (auto simp: keeps_pages_def)

lemma canonical_nonzero: "x \<noteq> 0 \<Longrightarrow> canonical x \<noteq> 0"
  by (auto simp: canonical_def or_eq_0_iff)

lemma pageBase_nonzero: "4096 \<le> x \<Longrightarrow> pageBase x \<noteq> 0"
  using unat_pageBase [of x] by (auto simp: word_le_nat_alt)

text \<open>
  A run of \<open>vmm_map\<close> maps a prefix of the block, all of it exactly when it reports success.
\<close>

lemma vmm_map_block:
  assumes "paging_inv v lv" and "\<And>x. x \<in> set (block_pages n a) \<Longrightarrow> mappable x \<and> 4096 \<le> x"
  shows "\<exists>ok v' k. vmm_map n v a f = Some (ok, v') \<and> k \<le> n \<and> (ok \<longleftrightarrow> k = n) \<and>
    maps_block v lv (block_pages k a) (pageBase VMM_PAGE_ALLOCATE OR entryFlags f) v'"
  using assms
proof (induction n arbitrary: v lv a)
  case 0
  then show ?case by (intro exI [of _ True] exI [of _ v] exI [of _ 0]) (simp add: maps_block_nil keeps_refl)
next
  case (Suc n)
  let ?e = "pageBase VMM_PAGE_ALLOCATE OR entryFlags f"
  have a: "mappable a" "canonical (pageBase a) \<noteq> 0"
    using Suc.prems(2) [of a] canonical_nonzero pageBase_nonzero by auto
  from platformMapPage_spec [OF Suc.prems(1) a(1), of VMM_PAGE_ALLOCATE f] show ?case
  proof (elim disjE exE conjE)
    fix v1 assume m: "platformMapPage v a VMM_PAGE_ALLOCATE f = Some (canonical (pageBase a), v1)"
      "maps_page v lv a ?e v1"
    obtain lv1 where lv1: "paging_inv v1 lv1" "lv \<subseteq>\<^sub>m lv1" "vm_cr3 v1 = vm_cr3 v"
      "\<And>x. mappable x \<Longrightarrow> pte v1 x = (if page_path x = page_path a then ?e else pte v x)"
      using maps_pageD [OF m(2)] by metis
    from Suc.IH [OF lv1(1), of "a + PAGE_SIZE"] Suc.prems(2) obtain ok v2 k where
      k: "vmm_map n v1 (a + PAGE_SIZE) f = Some (ok, v2)" "k \<le> n" "ok \<longleftrightarrow> k = n"
        "maps_block v1 lv1 (block_pages k (a + PAGE_SIZE)) ?e v2" by fastforce
    then have "maps_block v lv (block_pages (Suc k) a) ?e v2"
      using lv1 map_le_trans [OF lv1(2)] unfolding maps_block_def by auto
    with m(1) a(2) k(1-3) show ?thesis
      by (intro exI [of _ ok] exI [of _ v2] exI [of _ "Suc k"]) simp
  next
    fix v1 assume m: "platformMapPage v a VMM_PAGE_ALLOCATE f = Some (0, v1)" "keeps_pages v lv v1"
    then show ?thesis
      by (intro exI [of _ False] exI [of _ v1] exI [of _ 0]) (simp add: maps_block_nil)
  qed
qed

lemma unat_block_end:
  assumes "unat a + unat c * 4096 \<le> unat (l::u64)"
  shows "unat (a + c * PAGE_SIZE) = unat a + unat c * 4096"
proof -
  have "unat (c * PAGE_SIZE) = unat c * 4096"
    using assms u64_bound [of l] by (simp add: layout_defs unat_word_ariths)
  then show ?thesis using assms u64_bound [of l] by (simp add: unat_word_ariths)
qed

lemma vmm_scan_find:
  assumes inv: "paging_inv v lv" and r: "region base limit" and lim: "unat limit + 4096 \<le> 2 ^ 64"
    and e: "unat end + unat count * 4096 \<le> unat limit"
  shows "base \<le> start \<Longrightarrow> unat start + unat count * 4096 \<le> unat limit \<Longrightarrow>
    \<exists>x v'. vmm_scan v start end count f = Some (x, v') \<and>
      alloc_outcome v lv (unat count) (pageBase VMM_PAGE_ALLOCATE OR entryFlags f)
        (find (block_free v (unat count)) (start # page_steps (start + PAGE_SIZE) end)) x v'"
proof (induction "unat end - unat start" arbitrary: start rule: less_induct)
  case less
  let ?n = "unat count" and ?stop = "start + count * PAGE_SIZE"
  note pages = region_block [OF r less.prems]
  have stop: "unat ?stop = unat start + ?n * 4096" by (rule unat_block_end [OF less.prems(2)])
  obtain b where b: "vmm_probe v start ?stop = Some b" "b \<ge> ?stop \<longleftrightarrow> block_free v ?n start"
    using vmm_probe_block [OF inv _ _ stop] pages less.prems(2) lim by fastforce
  show ?case
  proof (cases "block_free v ?n start")
    case True
    obtain ok v' k where k: "vmm_map ?n v start f = Some (ok, v')" "k \<le> ?n" "ok \<longleftrightarrow> k = ?n"
      "maps_block v lv (block_pages k start) (pageBase VMM_PAGE_ALLOCATE OR entryFlags f) v'"
      using vmm_map_block [OF inv, of ?n start f] pages by blast
    then have "alloc_outcome v lv ?n (pageBase VMM_PAGE_ALLOCATE OR entryFlags f) (Some start)
        (if ok then start else 0) v'"
      unfolding alloc_outcome_def by (auto simp: le_less)
    with True b k(1) show ?thesis by (simp add: vmm_scan.simps [of v start])
  next
    case nofree: False
    show ?thesis
    proof (cases "start + PAGE_SIZE < end")
      case True
      have u: "unat (start + PAGE_SIZE) = unat start + 4096"
        using less.prems(2) lim True nofree by (intro unat_add_page) (cases "?n", simp_all add: block_free_def)
      have "\<exists>x v'. vmm_scan v (start + PAGE_SIZE) end count f = Some (x, v') \<and>
        alloc_outcome v lv ?n (pageBase VMM_PAGE_ALLOCATE OR entryFlags f)
          (find (block_free v ?n) ((start + PAGE_SIZE) # page_steps (start + PAGE_SIZE + PAGE_SIZE) end)) x v'"
      proof (rule less.hyps)
        show "unat end - unat (start + PAGE_SIZE) < unat end - unat start"
          using True u by (simp add: word_less_nat_alt)
        show "base \<le> start + PAGE_SIZE" using less.prems(1) u by (simp add: word_le_nat_alt)
        show "unat (start + PAGE_SIZE) + ?n * 4096 \<le> unat limit"
          using True e by (simp add: word_less_nat_alt)
      qed
      moreover have "unat end + 4096 \<le> 2 ^ 64" using e lim by simp
      ultimately show ?thesis
        using True nofree b by (simp add: vmm_scan.simps [of v start] page_steps_cons)
    next
      case False
      with nofree b show ?thesis
        by (simp add: vmm_scan.simps [of v start] page_steps_empty alloc_outcome_def)
    qed
  qed
qed

lemma pageBase_room: "unat (pageBase x) + 4096 \<le> 2 ^ 64"
  using u64_bound [of x] unat_pageBase [of x] by simp

lemma vmmAllocate_find:
  assumes inv: "paging_inv v lv" and r: "region (pageBase base) (pageBase limit)"
    and fit: "unat (pageBase base) + unat count * 4096 \<le> unat (pageBase limit)"
  shows "\<exists>a v'. vmmAllocate v base limit count flags = Some (a, v') \<and>
    alloc_outcome v lv (unat count) (lazy_entry flags)
      (find (block_free v (unat count))
        (pageBase base # page_steps (pageBase base + PAGE_SIZE) (pageBase limit - count * PAGE_SIZE))) a v'"
proof -
  have "unat (count * PAGE_SIZE) = unat count * 4096"
    using fit u64_bound [of "pageBase limit"] by (simp add: layout_defs unat_word_ariths)
  then have "unat (pageBase limit - count * PAGE_SIZE) + unat count * 4096 \<le> unat (pageBase limit)"
    using fit by (simp add: unat_sub word_le_nat_alt)
  from vmm_scan_find [OF inv r pageBase_room this _ fit] show ?thesis
    by (simp add: vmmAllocate_def lazy_entry_def)
qed

lemma maps_blockD:
  assumes "maps_block v lv xs e v'"
  shows "\<exists>lv'. paging_inv v' lv' \<and> lv \<subseteq>\<^sub>m lv'" "vm_cr3 v' = vm_cr3 v"
    "mappable x \<Longrightarrow> pte v' x = (if page_path x \<in> page_path ` set xs then e else pte v x)"
  using assms unfolding maps_block_def by auto

section \<open>Page faults\<close>

lemma reach_pmm [simp]: "reach (v\<lparr>vm_pmm := pm\<rparr>) n T x = reach v n T x"
  by (induction n arbitrary: T) (simp_all add: Let_def)

lemma pte_pmm [simp]: "pte (v\<lparr>vm_pmm := pm\<rparr>) x = pte v x"
  by (simp add: pte_def split: option.split)

lemma paging_inv_pmm:
  assumes "paging_inv v lv" "pmm_inv pm" "highestUsableAddress (pmmStat pm) \<le> KERNEL_MMIO_LIMIT"
    and "\<And>T k. lv T = Some k \<Longrightarrow> page_used pm (T div PAGE_SIZE)"
  shows "paging_inv (v\<lparr>vm_pmm := pm\<rparr>) lv"
  using assms unfolding paging_inv_def by simp

lemma paging_inv_alloc:
  assumes inv: "paging_inv v lv" and al: "pmmAllocate (vm_pmm v) = Some (a, pm)" "a \<noteq> 0"
  shows "paging_inv (v\<lparr>vm_pmm := pm\<rparr>) lv"
proof (rule paging_inv_pmm [OF inv])
  note at = alloc_table_page [OF paging_invD(1,3) [OF inv] al]
  show "pmm_inv pm" "highestUsableAddress (pmmStat pm) \<le> KERNEL_MMIO_LIMIT" using at by auto
  show "page_used pm (T div PAGE_SIZE)" if "lv T = Some k" for T k
    using paging_invD(7) [OF inv that] pool.alloc_used [OF paging_invD(1) [OF inv] al] by blast
qed

text \<open>A page that has an entry already is remapped without any allocation.\<close>

lemma platformMapPage_mapped:
  assumes inv: "paging_inv v lv" and l: "mappable l" "pte v l \<noteq> 0"
  shows "\<exists>v'. platformMapPage v l p f = Some (canonical (pageBase l), v') \<and> vm_pmm v' = vm_pmm v \<and>
    maps_page v lv l (pageBase p OR entryFlags f) v'"
proof -
  obtain L i where r: "reach v 3 (vm_cr3 v) l = Some (L, i)"
    using l(2) by (fastforce simp: pte_def split: option.splits)
  note l3 = paging_invD(2) [OF inv]
  have L: "lv L = Some 0" "i = tableIndex 0 l" using reach_typed [OF inv l3 _ _ r] l(1) by auto
  let ?e3 = "vm_mem v (slot (vm_cr3 v) (tableIndex 3 l))"
  let ?e2 = "vm_mem v (slot (pageBase ?e3) (tableIndex 2 l))"
  let ?e1 = "vm_mem v (slot (pageBase ?e2) (tableIndex 1 l))"
  from r have e: "?e3 \<noteq> 0" "?e2 \<noteq> 0" "?e1 \<noteq> 0" "L = pageBase ?e1"
    by (auto simp: reach_3 Let_def split: if_splits)
  have s3: "table_slot lv (vm_cr3 v) (Suc 2) (tableIndex 3 l)"
    using l3 l(1) by (simp add: table_slot_def mappable_def index_simps)
  have t2: "lv (pageBase ?e3) = Some 2" using paging_invD(9) [OF inv s3 e(1)] by simp
  then have s2: "table_slot lv (pageBase ?e3) (Suc 1) (tableIndex 2 l)" by (simp add: table_slot_def)
  have t1: "lv (pageBase ?e2) = Some 1" using paging_invD(9) [OF inv s2 e(2)] by simp
  have "platformMapPage v l p f =
      Some (canonical (pageBase l), set_leaf v L i (pageBase p OR entryFlags f))"
    using e paging_invD(6) [OF inv] l3 t2 t1 L
    by (simp add: platformMapPage_def Let_def index_simps ensureTable_def mmio_access set_leaf_def)
  moreover have "maps_page v lv l (pageBase p OR entryFlags f) (set_leaf v L i (pageBase p OR entryFlags f))"
    unfolding maps_page_def
  proof (intro conjI exI)
    show "paging_inv (set_leaf v L i (pageBase p OR entryFlags f)) lv"
      by (rule set_leaf_inv [OF inv L(1)]) (simp add: L(2))
  qed (use set_leaf_pte [OF inv l(1) r] in \<open>auto simp: set_leaf_def\<close>)
  ultimately show ?thesis by (simp add: set_leaf_def)
qed

lemma fault_bits:
  "a AND VMM_PAGE_FAULT_PRESENT \<noteq> 0 \<longleftrightarrow> bit a 0" "a AND VMM_PAGE_FAULT_USER \<noteq> 0 \<longleftrightarrow> bit a 1"
  "a AND VMM_PAGE_FAULT_WRITE \<noteq> 0 \<longleftrightarrow> bit a 2" "a AND VMM_PAGE_FAULT_FETCH \<noteq> 0 \<longleftrightarrow> bit a 3"
  using and_exp_iff [of a 0] and_exp_iff [of a 1] and_exp_iff [of a 2] and_exp_iff [of a 3]
  by (simp_all add: fault_flags)

lemma pageBase_offset: "pageBase x AND (PAGE_SIZE - 1) = 0"
  by (rule bit_word_eqI) (auto simp: pageBase_def layout_defs bit_simps)

lemma page_path_pageBase [simp]: "page_path (pageBase x) = page_path x"
  by (simp add: page_path_def)

lemma mappable_pageBase [simp]: "mappable (pageBase x) = mappable x"
  by (simp add: mappable_def index_simps)

lemma pte_path: "page_path x = page_path y \<Longrightarrow> pte v x = pte v y"
proof -
  assume "page_path x = page_path y"
  then have "reach v 3 (vm_cr3 v) x = reach v 3 (vm_cr3 v) y"
    unfolding page_path_eq by (intro reach_path) blast
  then show ?thesis by (simp only: pte_def)
qed

lemma vmmPageFault_eq:
  assumes inv: "paging_inv v lv" and x: "mappable addr"
  shows "vmmPageFault v addr access =
    (if fault_allowed access (pte v addr) then
       vmmServeFault v (pageBase addr) (flagsOfEntry (pte v addr) OR PLATFORM_PAGE_PRESENT)
     else Some (-1, v))"
proof -
  let ?e = "pte v addr" and ?s = "flagsOfEntry (pte v addr)"
  let ?p = "pageBase ?e AND NOT PT_PAGE_NXE"
  have pe: "pte v (pageBase addr) = ?e" by (rule pte_path) simp
  obtain s p where st: "vmmPageStatus v (pageBase addr) = Some (s, p)"
    and c: "s = ?s \<and> p = ?p \<or> s = 0 \<and> p = 0 \<and> ?e = 0"
    using vmmPageStatus_pte [OF inv, of "pageBase addr"] x
    by (auto simp: pe pageBase_offset)
  have zero: "f AND PLATFORM_PAGE_EXEC = 0 \<longleftrightarrow> \<not> bit f 3" "f AND PLATFORM_PAGE_USER = 0 \<longleftrightarrow> \<not> bit f 2"
    "f AND PLATFORM_PAGE_WRITE = 0 \<longleftrightarrow> \<not> bit f 4" for f
    using platform_bits [of f] by blast+
  from c show ?thesis
  proof
    assume sp: "s = ?s \<and> p = ?p"
    have "\<not> bit ?s 15" "bit ?s 3 \<longleftrightarrow> \<not> bit ?e 63" "bit ?s 2 \<longleftrightarrow> bit ?e 2" "bit ?s 4 \<longleftrightarrow> bit ?e 1"
      "bit ?s 1 \<longleftrightarrow> \<not> bit ?e 0 \<and> ?e \<noteq> 0" by (auto simp: bit_flagsOfEntry simp del: bit_0_eq)
    with sp st show ?thesis
      unfolding vmmPageFault_def fault_allowed_def zero platform_bits fault_bits
      by (cases "?e = 0") (simp_all del: bit_0_eq bit_0)
  next
    assume "s = 0 \<and> p = 0 \<and> ?e = 0"
    with st show ?thesis by (simp add: vmmPageFault_def fault_allowed_def)
  qed
qed

lemma served_flags:
  assumes "\<not> bit e 0"
  shows "(flagsOfEntry e OR PLATFORM_PAGE_PRESENT) AND 0x3D = flagsOfEntry e AND NOT PLATFORM_PAGE_SWAP OR PLATFORM_PAGE_PRESENT"
proof (rule bit_word_eqI)
  fix n assume "n < LENGTH(32)"
  then show "bit ((flagsOfEntry e OR PLATFORM_PAGE_PRESENT) AND 0x3D) n =
    bit (flagsOfEntry e AND NOT PLATFORM_PAGE_SWAP OR PLATFORM_PAGE_PRESENT) n"
    unfolding bit_or_iff bit_and_iff bit_not_iff bit_3D platform_pow bit_exp_iff bit_flagsOfEntry
    by (auto simp del: bit_0_eq)
qed

lemma vmmServeFault_mapped:
  assumes inv: "paging_inv v lv" and x: "mappable addr" "4096 \<le> addr" and e: "pte v addr \<noteq> 0"
  shows "\<exists>r v'. vmmServeFault v (pageBase addr) f = Some (r, v') \<and>
    (r = -1 \<and> v' = v \<or>
     r = 0 \<and> (\<exists>frame. frame \<noteq> 0 \<and> pageBase frame = frame \<and> frame < KERNEL_MMIO_LIMIT \<and>
       \<not> page_used (vm_pmm v) (frame div PAGE_SIZE) \<and>
       (\<forall>q. page_used (vm_pmm v') q \<longleftrightarrow> q = frame div PAGE_SIZE \<or> page_used (vm_pmm v) q) \<and>
       maps_page v lv addr (frame OR entryFlags f) v'))"
proof -
  note pinv = paging_invD(1) [OF inv]
  obtain a pm where al: "pmmAllocate (vm_pmm v) = Some (a, pm)" using pool.alloc_returns [OF pinv] by blast
  show ?thesis
  proof (cases "a = 0")
    case True
    then show ?thesis using al pool.alloc_none [OF pinv] by (simp add: vmmServeFault_def)
  next
    case False
    let ?v = "v\<lparr>vm_pmm := pm\<rparr>"
    have a: "pageBase a = a" "a < KERNEL_MMIO_LIMIT"
      using alloc_table_page(1) [OF paging_invD(1,3) [OF inv] al False] by (auto simp: table_page_def)
    have "pte ?v (pageBase addr) \<noteq> 0" using e pte_path [of "pageBase addr" addr v] by simp
    from platformMapPage_mapped [OF paging_inv_alloc [OF inv al False] _ this, of a f] x(1) obtain v' where
      m: "platformMapPage ?v (pageBase addr) a f = Some (canonical (pageBase addr), v')" "vm_pmm v' = pm"
        "maps_page ?v lv (pageBase addr) (a OR entryFlags f) v'"
      by (auto simp: a)
    then have "maps_page v lv addr (a OR entryFlags f) v'" by (simp add: maps_page_def)
    with m al False a x(2) show ?thesis
      using pool.alloc_fresh [OF pinv al False] pool.alloc_used [OF pinv al False]
        canonical_nonzero [OF pageBase_nonzero [OF x(2)]]
      by (auto simp: vmmServeFault_def)
  qed
qed

lemma frame_bit63: "frame < KERNEL_MMIO_LIMIT \<Longrightarrow> \<not> bit frame 63"
proof
  assume f: "frame < KERNEL_MMIO_LIMIT" and b: "bit frame 63"
  have "unat frame < 2 ^ 34" using f mmio_limit by (simp add: word_less_nat_alt)
  then have "take_bit 34 (unat frame) = unat frame" by (simp only: take_bit_nat_eq_self)
  moreover have "bit (unat frame) 63" using b by (simp add: bit_unsigned_iff)
  moreover have "\<not> bit (take_bit 34 (unat frame)) 63" by (simp add: bit_take_bit_iff)
  ultimately show False by simp
qed

text \<open>
  C8: a page fault is served exactly when it hits a lazily allocated page with an access its
  entry permits and a frame is free. Then the page is backed by a frame that was free, with the
  permissions it was allocated with, and nothing else changes; in every other case the handler
  fails and changes nothing.
\<close>

theorem vmmPageFault_serves:
  assumes inv: "paging_inv v lv" and x: "mappable addr" "4096 \<le> addr"
  shows "\<exists>r v'. vmmPageFault v addr access = Some (r, v') \<and>
    (r = -1 \<and> v' = v \<or>
     r = 0 \<and> fault_allowed access (pte v addr) \<and> (\<exists>lv'. paging_inv v' lv' \<and> lv \<subseteq>\<^sub>m lv') \<and>
     (\<exists>frame. \<not> page_used (vm_pmm v) (frame div PAGE_SIZE) \<and>
       (\<forall>q. page_used (vm_pmm v') q \<longleftrightarrow> q = frame div PAGE_SIZE \<or> page_used (vm_pmm v) q) \<and>
       (\<forall>y. mappable y \<and> page_path y = page_path addr \<longrightarrow> vmmPageStatus v' y =
          Some (flagsOfEntry (pte v addr) AND NOT PLATFORM_PAGE_SWAP OR PLATFORM_PAGE_PRESENT,
                frame OR (y AND (PAGE_SIZE - 1)))) \<and>
       (\<forall>y. mappable y \<and> page_path y \<noteq> page_path addr \<longrightarrow> pte v' y = pte v y)))"
proof (cases "fault_allowed access (pte v addr)")
  case False
  then show ?thesis by (simp add: vmmPageFault_eq [OF inv x(1)])
next
  case True
  let ?f = "flagsOfEntry (pte v addr) OR PLATFORM_PAGE_PRESENT"
  have e: "pte v addr \<noteq> 0" "\<not> bit (pte v addr) 0" using True by (auto simp: fault_allowed_def simp del: bit_0)
  have f0: "bit ?f 0" by (simp add: bit_or_iff platform_flags)
  from vmmServeFault_mapped [OF inv x e(1), of ?f] obtain r v' where
    s: "vmmServeFault v (pageBase addr) ?f = Some (r, v')" and
    c: "r = -1 \<and> v' = v \<or>
     r = 0 \<and> (\<exists>frame. frame \<noteq> 0 \<and> pageBase frame = frame \<and> frame < KERNEL_MMIO_LIMIT \<and>
       \<not> page_used (vm_pmm v) (frame div PAGE_SIZE) \<and>
       (\<forall>q. page_used (vm_pmm v') q \<longleftrightarrow> q = frame div PAGE_SIZE \<or> page_used (vm_pmm v) q) \<and>
       maps_page v lv addr (frame OR entryFlags ?f) v')" by blast
  have stat: "vmmPageStatus v' y = Some (flagsOfEntry (pte v addr) AND NOT PLATFORM_PAGE_SWAP OR PLATFORM_PAGE_PRESENT,
      frame OR (y AND (PAGE_SIZE - 1)))"
    if fr: "pageBase frame = frame" "frame < KERNEL_MMIO_LIMIT" and m: "maps_page v lv addr (frame OR entryFlags ?f) v'"
      and y: "mappable y" "page_path y = page_path addr" for frame y
  proof -
    obtain lv' where inv': "paging_inv v' lv'" and p: "pte v' y = pageBase frame OR entryFlags ?f"
      using m y fr(1) by (elim maps_pageD) auto
    have "pte v' y \<noteq> 0" unfolding p by (rule entry_nonzero) (use f0 in blast)
    from vmmPageStatus_mapped [OF inv' y(1) this] show ?thesis
      unfolding p mapped_flags [OF f0 frame_bit63 [OF fr(2)]] mapped_frame [OF frame_bit63 [OF fr(2)]]
        served_flags [OF e(2)] by (simp only: fr(1))
  qed
  have pf: "vmmPageFault v addr access = Some (r, v')" using True s by (simp add: vmmPageFault_eq [OF inv x(1)])
  from c show ?thesis
  proof (elim disjE conjE exE)
    fix frame assume r0: "r = 0" and fr: "pageBase frame = frame" "frame < KERNEL_MMIO_LIMIT"
      and u: "\<not> page_used (vm_pmm v) (frame div PAGE_SIZE)"
        "\<forall>q. page_used (vm_pmm v') q \<longleftrightarrow> q = frame div PAGE_SIZE \<or> page_used (vm_pmm v) q"
      and m: "maps_page v lv addr (frame OR entryFlags ?f) v'"
    obtain lv' where lv': "paging_inv v' lv'" "lv \<subseteq>\<^sub>m lv'"
      "\<And>y. mappable y \<Longrightarrow> page_path y \<noteq> page_path addr \<Longrightarrow> pte v' y = pte v y"
      using m by (elim maps_pageD) auto
    show ?thesis using pf r0 True lv' u stat [OF fr m] by blast
  qed (use pf in blast)
qed

text \<open>
  C7: \<open>vmmAllocate()\<close> returns the first block of unused pages in scan order, with every page of
  the block set to the lazy entry for the requested permissions and no other page touched. With
  no such block it returns zero and changes nothing; when memory for page tables runs out it
  returns zero having mapped a proper prefix of the block, which stays mapped.
\<close>

theorem vmmAllocate_first_fit:
  assumes inv: "paging_inv v lv" and r: "region (pageBase base) (pageBase limit)"
    and fit: "unat (pageBase base) + unat count * 4096 \<le> unat (pageBase limit)"
  shows "\<exists>a v'. vmmAllocate v base limit count flags = Some (a, v') \<and>
    (case find (block_free v (unat count))
        (pageBase base # page_steps (pageBase base + PAGE_SIZE) (pageBase limit - count * PAGE_SIZE)) of
       None \<Rightarrow> a = 0 \<and> v' = v
     | Some st \<Rightarrow> (\<exists>lv'. paging_inv v' lv' \<and> lv \<subseteq>\<^sub>m lv') \<and>
         (\<exists>k. (a = st \<and> k = unat count \<or> a = 0 \<and> k < unat count) \<and>
            (\<forall>x. mappable x \<longrightarrow> pte v' x =
               (if page_path x \<in> page_path ` set (block_pages k st) then lazy_entry flags else pte v x))))"
  using vmmAllocate_find [OF assms, of flags] maps_blockD
  unfolding alloc_outcome_def by (fastforce split: option.splits)

lemma mappable_low: "unat x < 2 ^ 47 \<Longrightarrow> mappable x"
proof -
  assume x: "unat x < 2 ^ 47"
  have "unat (pml4Index x) \<le> unat (drop_bit 39 x)"
    unfolding pml4Index_def by (metis word_and_le2 word_le_nat_alt)
  also have "\<dots> < 256" using x by (simp add: drop_bit_eq_div unat_div)
  finally show ?thesis by (auto simp: mappable_def)
qed

lemma pte_ex [simp]: "pte vm_ex x = 0"
  by (simp add: pte_def reach_3 vm_ex_def)

theorem vmmAllocate_first_fit_witness:
  "\<exists>a v'. vmmAllocate vm_ex 0x400000 0x600000 1 7 = Some (a, v') \<and>
     (a = 0x400000 \<and> pte v' 0x400000 = lazy_entry 7 \<or> a = 0)"
proof -
  have b: "pageBase 0x400000 = 0x400000" "pageBase 0x600000 = 0x600000"
    by (simp_all add: pageBase_def layout_defs)
  have "region 0x400000 0x600000"
    by (auto simp: region_def word_le_nat_alt intro!: mappable_low)
  with vmmAllocate_first_fit [OF vm_ex_inv, of "0x400000" "0x600000" 1 7] mappable_400000
  show ?thesis unfolding b by (auto simp: block_free_def)
qed

section \<open>Freeing\<close>

lemma pmmFree_paging_inv:
  assumes inv: "paging_inv v lv" and a: "lv (pageBase a) = None"
  shows "paging_inv (v\<lparr>vm_pmm := snd (pmmFree (vm_pmm v) a)\<rparr>) lv"
proof (rule paging_inv_pmm [OF inv])
  show "pmm_inv (snd (pmmFree (vm_pmm v) a))" "highestUsableAddress (pmmStat (snd (pmmFree (vm_pmm v) a))) \<le> KERNEL_MMIO_LIMIT"
    using paging_invD(1,3) [OF inv] by (auto simp: pmmFree_def pmmMark_free)
  show "page_used (snd (pmmFree (vm_pmm v) a)) (T div PAGE_SIZE)" if T: "lv T = Some k" for T k
  proof -
    have "a div PAGE_SIZE \<noteq> T div PAGE_SIZE"
    proof
      assume "a div PAGE_SIZE = T div PAGE_SIZE"
      then have "pageBase a = pageBase T" by (simp add: pageBase_eq_div layout_defs)
      with a T paging_invD(5) [OF inv T] show False by simp
    qed
    then show ?thesis using paging_invD(7) [OF inv T] by (auto simp: pmmFree_def pmmMark_free)
  qed
qed

lemma frame_offset:
  "pageBase ((pageBase e AND NOT PT_PAGE_NXE) OR (x AND (PAGE_SIZE - 1))) = pageBase e AND NOT PT_PAGE_NXE"
  by (rule bit_word_eqI) (auto simp: bit_pageBase bit_simps layout_defs mask12 pt_pow)

text \<open>The page of a block of one, after \<open>vmmFree()\<close>.\<close>

lemma platformUnmapPage_result:
  assumes inv: "paging_inv v lv" and l: "mappable l" "pageBase l = l" and c: "canonical l = l" "l \<noteq> 0"
    and e: "pte v l \<noteq> 0"
  shows "\<exists>v'. platformUnmapPage v l = Some (0, v') \<and> vm_pmm v' = vm_pmm v \<and> maps_page v lv l PT_PAGE_NXE v'"
proof -
  have ef: "pageBase 0 OR entryFlags 0 = PT_PAGE_NXE" by (simp add: entryFlags_def pageBase_def)
  from platformMapPage_mapped [OF inv l(1) e, of 0 0] show ?thesis
    unfolding ef by (auto simp: platformUnmapPage_def l(2) c)
qed

text \<open>
  freeing a mapped page. \<open>vmmFree()\<close> of one page always returns; the frame of a present page
  goes back to the physical allocator and the entry becomes the bare no-execute bit. The page
  therefore still counts as used, so \<open>vmmAllocate()\<close> never hands it out again.
\<close>

theorem vmmFree_page_stays_used:
  assumes inv: "paging_inv v lv" and l: "mappable l" "pageBase l = l" and c: "canonical l = l" "l \<noteq> 0"
    and e: "pte v l \<noteq> 0" and f: "lv (pageBase (pte v l) AND NOT PT_PAGE_NXE) = None"
  shows "\<exists>r v' lv'. vmmFree v l 1 = Some (r, v') \<and> paging_inv v' lv' \<and>
    (bit (pte v l) 0 \<longrightarrow> (r, vm_pmm v') = pmmFree (vm_pmm v) (pageBase (pte v l) AND NOT PT_PAGE_NXE)) \<and>
    (\<not> bit (pte v l) 0 \<longrightarrow> r = 0 \<and> vm_pmm v' = vm_pmm v) \<and>
    (\<forall>x. mappable x \<longrightarrow> vmmIsUsed v' x = vmmIsUsed v x)"
proof -
  let ?e = "pte v l" and ?p = "pageBase (pte v l) AND NOT PT_PAGE_NXE"
  define w where "w = (if bit ?e 0 then v\<lparr>vm_pmm := snd (pmmFree (vm_pmm v) ?p)\<rparr> else v)"
  define r where "r = (if bit ?e 0 then fst (pmmFree (vm_pmm v) ?p) else 0)"
  have off: "l AND (PAGE_SIZE - 1) = 0" using pageBase_offset [of l] l(2) by simp
  have pp: "pageBase ?p = ?p" using frame_offset [of ?e 0] by simp
  have winv: "paging_inv w lv" unfolding w_def using inv pmmFree_paging_inv [OF inv, of ?p] f pp by auto
  have wp: "pte w x = pte v x" for x by (simp add: w_def)
  obtain v' where u: "platformUnmapPage w l = Some (0, v')" "vm_pmm v' = vm_pmm w" "maps_page w lv l PT_PAGE_NXE v'"
    using platformUnmapPage_result [OF winv l c] e wp by metis
  have "\<not> bit (flagsOfEntry ?e) 15" "bit (flagsOfEntry ?e) 0 \<longleftrightarrow> bit ?e 0"
    by (auto simp: bit_flagsOfEntry simp del: bit_0_eq bit_0)
  then have "vmmFree v l 1 = Some (r, v')"
    using vmmPageStatus_mapped [OF inv l(1) e] u(1) off
    by (simp add: vmmFree_def l(2) platform_bits w_def r_def case_prod_beta del: bit_0 split: if_splits)
  moreover obtain lv' where lv': "paging_inv v' lv'" "\<And>x. mappable x \<Longrightarrow>
      pte v' x = (if page_path x = page_path l then PT_PAGE_NXE else pte w x)"
    using u(3) by (elim maps_pageD) blast
  moreover have "vmmIsUsed v' x = vmmIsUsed v x" if x: "mappable x" for x
  proof -
    have "PT_PAGE_NXE \<noteq> 0" by (simp add: pt_flags)
    then show ?thesis
      using vmmIsUsed_iff [OF inv x] vmmIsUsed_iff [OF lv'(1) x] lv'(2) [OF x] wp e pte_path [of x l v] by auto
  qed
  ultimately show ?thesis using u(2) by (fastforce simp: r_def w_def simp del: bit_0)
qed

lemma lv_page_ex_iff: "lv_page_ex T = Some k \<longleftrightarrow>
    (T, k) \<in> {(0x1000, 3), (0x2000, 2), (0x3000, 1), (0x4000, 0)}"
  by (auto simp: lv_page_ex_def)

lemma vm_page_ex_mem:
  assumes "lv_page_ex T = Some k" "i < 512"
  shows "vm_mem vm_page_ex (slot T i) = (if T = 0x4000 \<and> i = 0 then lazy_entry 5
    else if T = 0x3000 \<and> i = 2 then 0x4007 else if T = 0x2000 \<and> i = 0 then 0x3007
    else if T = 0x1000 \<and> i = 0 then 0x2007 else 0)"
proof -
  have tab: "pageBase T = T" "T < KERNEL_MMIO_LIMIT" if "T \<in> {0x1000, 0x2000, 0x3000, 0x4000}" for T
    using that by (auto simp: pageBase_def layout_defs)
  have T: "T \<in> {0x1000, 0x2000, 0x3000, 0x4000}" using assms(1) by (auto simp: lv_page_ex_iff)
  have "slot T i = slot T' j \<longleftrightarrow> T = T' \<and> i = j" if "T' \<in> {0x1000, 0x2000, 0x3000, 0x4000}" "j < 512" for T' j
    using slot_inject [OF tab(1) [OF T] tab(1) [OF that(1)] tab(2) [OF T] tab(2) [OF that(1)] assms(2) that(2)] .
  moreover have "slot 0x1000 0 = 0x1000" "slot 0x2000 0 = 0x2000" "slot 0x3000 2 = 0x3010" "slot 0x4000 0 = 0x4000"
    by (simp_all add: slot_def)
  ultimately show ?thesis unfolding vm_page_ex_def by auto
qed

lemma vm_page_ex_inv: "paging_inv vm_page_ex lv_page_ex"
  unfolding paging_inv_def
proof (intro conjI allI impI)
  show "pmm_inv (vm_pmm vm_page_ex)" by (simp add: vm_page_ex_def pmm_inv_def pmm_ex_def)
  show "highestUsableAddress (pmmStat (vm_pmm vm_page_ex)) \<le> KERNEL_MMIO_LIMIT"
    by (simp add: vm_page_ex_def pmm_ex_def layout_defs)
  show "lv_page_ex (vm_cr3 vm_page_ex) = Some 3" by (simp add: vm_page_ex_def lv_page_ex_def)
next
  fix T k assume T: "lv_page_ex T = Some k"
  then show "T \<noteq> 0" "pageBase T = T" "T < KERNEL_MMIO_LIMIT" "page_used (vm_pmm vm_page_ex) (T div PAGE_SIZE)"
    by (auto simp: lv_page_ex_iff vm_page_ex_def pageBase_def layout_defs)
next
  fix T k i assume "table_slot lv_page_ex T (Suc k) i" "vm_mem vm_page_ex (slot T i) \<noteq> 0"
  then show "vm_mem vm_page_ex (slot T i) AND PT_PAGE_PRESENT \<noteq> 0"
    "lv_page_ex (pageBase (vm_mem vm_page_ex (slot T i))) = Some k"
    by (auto simp: table_slot_def vm_page_ex_mem lv_page_ex_iff pt_flags pageBase_def layout_defs split: if_splits)
next
  fix T T' k i i' assume "table_slot lv_page_ex T (Suc k) i" "table_slot lv_page_ex T' (Suc k) i'"
    "vm_mem vm_page_ex (slot T i) \<noteq> 0" "vm_mem vm_page_ex (slot T' i') \<noteq> 0"
  then show "T = T'" "i = i'"
    by (auto simp: table_slot_def vm_page_ex_mem lv_page_ex_iff split: if_splits)
qed

lemma vm_page_ex_pte: "pte vm_page_ex 0x400000 = lazy_entry 5"
proof -
  have ix: "tableIndex 3 0x400000 = 0" "tableIndex 2 0x400000 = 0" "tableIndex (Suc 0) 0x400000 = 2" "tableIndex 0 0x400000 = 0"
    by (simp_all add: tableIndex_def drop_bit_eq_div)
  have l: "lv_page_ex 0x1000 = Some 3" "lv_page_ex 0x2000 = Some 2" "lv_page_ex 0x3000 = Some 1" "lv_page_ex 0x4000 = Some 0"
    by (simp_all add: lv_page_ex_def)
  have "vm_cr3 vm_page_ex = 0x1000" by (simp add: vm_page_ex_def)
  then show ?thesis
    by (simp add: pte_def reach_3 ix Let_def vm_page_ex_mem [OF l(1)] vm_page_ex_mem [OF l(2)]
        vm_page_ex_mem [OF l(3)] vm_page_ex_mem [OF l(4)] pageBase_def layout_defs)
qed

lemma lazy_entry_5: "lazy_entry 5 = 0x8000000000400006"
  by (simp add: lazy_entry_def lazyFlags_def entryFlags_def pageBase_def layout_defs swap_marks vmm_flags
      platform_flags pt_flags)

theorem vmmFree_page_stays_used_witness:
  "\<exists>v'. vmmFree vm_page_ex 0x400000 1 = Some (0, v') \<and> vmmIsUsed v' 0x400000 = Some True"
proof -
  have p: "pageBase 0x400000 = 0x400000" by (simp add: pageBase_def layout_defs)
  have e: "pte vm_page_ex 0x400000 \<noteq> 0" "\<not> bit (pte vm_page_ex 0x400000) 0"
    by (simp_all add: vm_page_ex_pte lazy_entry_5)
  have c: "canonical 0x400000 = 0x400000" by (simp add: canonical_def)
  have f: "lv_page_ex (pageBase (pte vm_page_ex 0x400000) AND NOT PT_PAGE_NXE) = None"
    by (simp add: vm_page_ex_pte lazy_entry_5 pageBase_def layout_defs pt_flags lv_page_ex_def)
  have z: "(0x400000 :: u64) \<noteq> 0" by simp
  obtain r v' where v': "vmmFree vm_page_ex 0x400000 1 = Some (r, v')" "r = 0"
    "\<forall>x. mappable x \<longrightarrow> vmmIsUsed v' x = vmmIsUsed vm_page_ex x"
    using vmmFree_page_stays_used [OF vm_page_ex_inv mappable_400000 p c z e(1) f] e(2) by blast
  then show ?thesis
    using vmmIsUsed_iff [OF vm_page_ex_inv mappable_400000] mappable_400000 e(1) by simp
qed

theorem vmmPageFault_serves_witness:
  "fault_allowed 6 (pte vm_page_ex 0x400000) \<and>
   (\<exists>r v'. vmmPageFault vm_page_ex 0x400000 6 = Some (r, v') \<and>
      (r = -1 \<and> v' = vm_page_ex \<or> r = 0 \<and> (\<exists>frame. vmmPageStatus v' 0x400000 = Some (0x15, frame))))"
proof -
  have a: "fault_allowed 6 (pte vm_page_ex 0x400000)"
  proof -
    have b: "bit (6::u32) 1" "bit (6::u32) 2" "\<not> bit (6::u32) 0" "\<not> bit (6::u32) 3" 
      using and_exp_iff [of "6::u32" 1] and_exp_iff [of "6::u32" 2] and_exp_iff [of "6::u32" 0] and_exp_iff [of "6::u32" 3] by simp_all
    have c: "bit (0x8000000000400006::u64) 1" "bit (0x8000000000400006::u64) 2" "\<not> bit (0x8000000000400006::u64) 0"
      using and_exp_iff [of "0x8000000000400006::u64" 1] and_exp_iff [of "0x8000000000400006::u64" 2]
        and_exp_iff [of "0x8000000000400006::u64" 0] by simp_all
    show ?thesis unfolding fault_allowed_def vm_page_ex_pte lazy_entry_5
      using b c by (simp add: pageBase_def layout_defs pt_flags swap_marks del: bit_0)
  qed
  have s: "flagsOfEntry (pte vm_page_ex 0x400000) AND NOT PLATFORM_PAGE_SWAP OR PLATFORM_PAGE_PRESENT = 0x15"
    by (simp add: vm_page_ex_pte lazy_entry_5 flagsOfEntry_def pt_flags platform_flags)
  have "(4096 :: u64) \<le> 0x400000" by simp
  from vmmPageFault_serves [OF vm_page_ex_inv mappable_400000 this, of 6] a show ?thesis
    unfolding s using mappable_400000 by blast
qed

end
