(* ===== verification/Apic.thy ===== *)
theory Apic
  imports Prelude
begin

text \<open>
  Interrupt hardware of x86-64 and its discovery: the I/O APIC driver \<^verbatim>\<open>platform/x86_64/apic/ioapic.c\<close>,
  interrupt overrides \<^verbatim>\<open>override.c\<close>, non-maskable interrupts \<^verbatim>\<open>nmi.c\<close>, the scan of the ACPI MADT table and
  local APIC access of \<^verbatim>\<open>apic.c\<close>, the processor list of \<^verbatim>\<open>smp.c\<close> and \<open>installInterrupt()\<close> of
  \<^verbatim>\<open>cpu/interrupt.c\<close>. The linked lists of the source are lists in order of registration and their
  counters are the lengths. An I/O APIC carries the registers of its device, the local APIC is an
  array of registers, and the interrupt descriptor table is an array of entries. \<open>None\<close> is a loop that
  never ends or a read outside the table. Allocations during start-up are taken to succeed.
\<close>

section \<open>State\<close>

record PlatformCPU =
  cpu_procID :: u8
  cpu_apicID :: u8
  cpu_bootCPU :: bool
  cpu_running :: bool

record IOAPIC =
  ap_version :: u8
  ap_apicID :: u8
  ap_mmio :: u64
  ap_gsi :: u8
  ap_count :: u8
  ap_regs :: "u32 \<Rightarrow> u32"

record IRQOverride =
  ov_bus :: u8
  ov_source :: u8
  ov_gsi :: u8
  ov_level :: int
  ov_low :: int

record LocalNMI =
  nm_procID :: u8
  nm_level :: int
  nm_low :: int
  nm_lint :: u8

record IDTEntry =
  idt_offset_lo :: u16
  idt_segment :: u16
  idt_flags :: u16
  idt_offset_mi :: u16
  idt_offset_hi :: u32
  idt_reserved :: u32

record apic =
  ac_cpus :: "PlatformCPU list"
  ac_bootCPUIndex :: nat
  ac_ioapics :: "IOAPIC list"
  ac_max :: int
  ac_overrides :: "IRQOverride list"
  ac_lnmis :: "LocalNMI list"
  ac_localAPICBase :: u64
  ac_lapic :: "u32 \<Rightarrow> u32"
  ac_idt :: "nat \<Rightarrow> IDTEntry"

definition apic0 :: apic where
  "apic0 = \<lparr>ac_cpus = [\<lparr>cpu_procID = 0, cpu_apicID = 0, cpu_bootCPU = True, cpu_running = True\<rparr>], ac_bootCPUIndex = 0,
     ac_ioapics = [], ac_max = 0, ac_overrides = [], ac_lnmis = [], ac_localAPICBase = 0xFEE00000, ac_lapic = \<lambda>_. 0,
     ac_idt = \<lambda>_. \<lparr>idt_offset_lo = 0, idt_segment = 0, idt_flags = 0, idt_offset_mi = 0, idt_offset_hi = 0, idt_reserved = 0\<rparr>\<rparr>"

section \<open>Interrupt descriptors\<close>

definition IDT_FLAGS_VALID :: u16 where "IDT_FLAGS_VALID = 0x8000"
definition IDT_FLAGS_TYPE_SHIFT :: nat where "IDT_FLAGS_TYPE_SHIFT = 8"
definition IDT_FLAGS_DPL_SHIFT :: nat where "IDT_FLAGS_DPL_SHIFT = 13"
definition PRIVILEGE_KERNEL :: u16 where "PRIVILEGE_KERNEL = 0"
definition INTERRUPT_TYPE_INT :: u16 where "INTERRUPT_TYPE_INT = 0x0E"
definition INTERRUPT_TYPE_TRAP :: u16 where "INTERRUPT_TYPE_TRAP = 0x0F"

definition installInterrupt :: "u64 \<Rightarrow> u16 \<Rightarrow> u16 \<Rightarrow> u16 \<Rightarrow> nat \<Rightarrow> apic \<Rightarrow> apic" where
  "installInterrupt handler segment privilege kind i a =
     (if i > 0xFF then a
      else a\<lparr>ac_idt := (ac_idt a)(i :=
        \<lparr>idt_offset_lo = ucast handler, idt_segment = push_bit 3 segment OR (privilege AND 3),
         idt_flags = push_bit IDT_FLAGS_DPL_SHIFT (privilege AND 3) OR push_bit IDT_FLAGS_TYPE_SHIFT (kind AND 0x0F)
           OR IDT_FLAGS_VALID,
         idt_offset_mi = ucast (drop_bit 16 handler), idt_offset_hi = ucast (drop_bit 32 handler), idt_reserved = 0\<rparr>)\<rparr>)"

section \<open>Processors\<close>

definition platformRegisterCPU :: "PlatformCPU \<Rightarrow> apic \<Rightarrow> nat \<times> apic" where
  "platformRegisterCPU c a =
     (length (ac_cpus a), a\<lparr>ac_bootCPUIndex := (if cpu_bootCPU c then length (ac_cpus a) else ac_bootCPUIndex a),
        ac_cpus := ac_cpus a @ [c]\<rparr>)"

definition platformCountCPU :: "apic \<Rightarrow> nat" where
  "platformCountCPU a = length (ac_cpus a)"

definition platformGetCPU :: "nat \<Rightarrow> apic \<Rightarrow> PlatformCPU option" where
  "platformGetCPU n a = (if n \<ge> length (ac_cpus a) then None else Some (ac_cpus a ! n))"

definition findCPUACPI :: "u8 \<Rightarrow> apic \<Rightarrow> PlatformCPU option" where
  "findCPUACPI i a = find (\<lambda>c. cpu_procID c = i) (ac_cpus a)"

definition findCPUAPIC :: "u8 \<Rightarrow> apic \<Rightarrow> PlatformCPU option" where
  "findCPUAPIC i a = find (\<lambda>c. cpu_apicID c = i) (ac_cpus a)"

section \<open>Local APIC and non-maskable interrupts\<close>

definition LAPIC_EOI :: u32 where "LAPIC_EOI = 0x0B0"
definition LAPIC_LVT_LINT0 :: u32 where "LAPIC_LVT_LINT0 = 0x350"
definition LAPIC_LVT_LINT1 :: u32 where "LAPIC_LVT_LINT1 = 0x360"
definition LAPIC_LVT_LOW :: u32 where "LAPIC_LVT_LOW = 0x2000"
definition LAPIC_LVT_NMI :: u32 where "LAPIC_LVT_NMI = 0x400"

definition lapicWrite :: "u32 \<Rightarrow> u32 \<Rightarrow> apic \<Rightarrow> apic" where
  "lapicWrite reg val a = a\<lparr>ac_lapic := (ac_lapic a)(reg := val)\<rparr>"

definition lapicRead :: "u32 \<Rightarrow> apic \<Rightarrow> u32" where
  "lapicRead reg a = ac_lapic a reg"

definition platformAcknowledgeIRQ :: "apic \<Rightarrow> apic" where
  "platformAcknowledgeIRQ = lapicWrite LAPIC_EOI 0"

definition lnmiRegister :: "LocalNMI \<Rightarrow> apic \<Rightarrow> nat \<times> apic" where
  "lnmiRegister n a = (length (ac_lnmis a), a\<lparr>ac_lnmis := ac_lnmis a @ [n]\<rparr>)"

definition lnmiCount :: "apic \<Rightarrow> nat" where
  "lnmiCount a = length (ac_lnmis a)"

text \<open>The loop of \<open>lnmiConfigure()\<close> on the processor with ACPI number \<open>acpiID\<close>.\<close>

fun lnmi_loop :: "u8 \<Rightarrow> LocalNMI list \<Rightarrow> nat \<Rightarrow> apic \<Rightarrow> nat \<times> apic" where
  "lnmi_loop acpiID [] n a = (n, a)"
| "lnmi_loop acpiID (l # ls) n a =
     (if nm_procID l = acpiID \<or> nm_procID l = 0xFF then
        lnmi_loop acpiID ls (Suc n)
          (lapicWrite (if nm_lint l AND 1 \<noteq> 0 then LAPIC_LVT_LINT1 else LAPIC_LVT_LINT0)
             (if nm_low l \<noteq> 0 then LAPIC_LVT_NMI OR LAPIC_LVT_LOW else LAPIC_LVT_NMI) a)
      else lnmi_loop acpiID ls n a)"

definition lnmiConfigure :: "u8 \<Rightarrow> apic \<Rightarrow> nat \<times> apic" where
  "lnmiConfigure acpiID a = lnmi_loop acpiID (ac_lnmis a) 0 a"

section \<open>Interrupt overrides\<close>

definition overrideIRQRegister :: "IRQOverride \<Rightarrow> apic \<Rightarrow> nat \<times> apic" where
  "overrideIRQRegister r a = (length (ac_overrides a), a\<lparr>ac_overrides := ac_overrides a @ [r]\<rparr>)"

definition overrideIRQCount :: "apic \<Rightarrow> nat" where
  "overrideIRQCount a = length (ac_overrides a)"

definition findOverrideIRQ :: "u64 \<Rightarrow> apic \<Rightarrow> IRQOverride option" where
  "findOverrideIRQ pin a = find (\<lambda>r. ucast (ov_gsi r) = pin) (ac_overrides a)"

section \<open>I/O APICs\<close>

definition MAX_IRQS :: int where "MAX_IRQS = 63"
definition IOAPIC_VER :: u32 where "IOAPIC_VER = 0x01"
definition IOAPIC_REDIRECTION :: u32 where "IOAPIC_REDIRECTION = 0x10"
definition IOAPIC_RED_ACTIVE_LOW :: u32 where "IOAPIC_RED_ACTIVE_LOW = 0x2000"
definition IOAPIC_RED_LEVEL :: u32 where "IOAPIC_RED_LEVEL = 0x8000"
definition IOAPIC_RED_MASK :: u32 where "IOAPIC_RED_MASK = 0x10000"
definition IOAPIC_INT_BASE :: nat where "IOAPIC_INT_BASE = 0x20"

definition ioapicRegister :: "IOAPIC \<Rightarrow> apic \<Rightarrow> nat \<times> apic" where
  "ioapicRegister d a = (length (ac_ioapics a), a\<lparr>ac_ioapics := ac_ioapics a @ [d]\<rparr>)"

definition ioapicCount :: "apic \<Rightarrow> nat" where
  "ioapicCount a = length (ac_ioapics a)"

text \<open>The results of the searches are positions in the list; no position is the null pointer.\<close>

definition ioapicFindIndex :: "nat \<Rightarrow> apic \<Rightarrow> nat option" where
  "ioapicFindIndex i a = (if i \<ge> length (ac_ioapics a) then None else Some i)"

definition serves :: "IOAPIC \<Rightarrow> int \<Rightarrow> bool" where
  "serves d irq \<longleftrightarrow> uint (ap_gsi d) \<le> irq \<and> irq < uint (ap_gsi d) + uint (ap_count d)"

definition ioapicFindIRQ :: "int \<Rightarrow> apic \<Rightarrow> nat option" where
  "ioapicFindIRQ irq a = find (\<lambda>i. serves (ac_ioapics a ! i) irq) [0..<length (ac_ioapics a)]"

definition ioapicWrite :: "nat \<Rightarrow> u32 \<Rightarrow> u32 \<Rightarrow> apic \<Rightarrow> apic" where
  "ioapicWrite i idx val a =
     a\<lparr>ac_ioapics := (ac_ioapics a)[i := (ac_ioapics a ! i)\<lparr>ap_regs := (ap_regs (ac_ioapics a ! i))(idx := val)\<rparr>]\<rparr>"

definition ioapicRead :: "nat \<Rightarrow> u32 \<Rightarrow> apic \<Rightarrow> u32" where
  "ioapicRead i idx a = ap_regs (ac_ioapics a ! i) idx"

definition ioapicMask :: "int \<Rightarrow> bool \<Rightarrow> apic \<Rightarrow> int \<times> apic" where
  "ioapicMask irq m a =
     (case ioapicFindIRQ irq a of
        None \<Rightarrow> (-1, a)
      | Some i \<Rightarrow>
          (let idx = IOAPIC_REDIRECTION + of_int (irq * 2); v = ioapicRead i idx a
           in (0, ioapicWrite i idx (if m then v OR IOAPIC_RED_MASK else v AND NOT IOAPIC_RED_MASK) a)))"

fun maskAll :: "int list \<Rightarrow> apic \<Rightarrow> apic" where
  "maskAll [] a = a"
| "maskAll (j # js) a = maskAll js (snd (ioapicMask j True a))"

text \<open>One I/O APIC of \<open>ioapicInit()\<close>: version, number of lines, the highest line so far, and all lines masked.\<close>

definition ioapicSetup :: "nat \<Rightarrow> apic \<Rightarrow> apic" where
  "ioapicSetup i a =
     (let val = ioapicRead i IOAPIC_VER a;
          d = (ac_ioapics a ! i)\<lparr>ap_version := ucast val, ap_count := ucast (drop_bit 16 val AND 0xFF) + 1\<rparr>;
          top = uint (ap_gsi d) + uint (ap_count d) - 1;
          a1 = a\<lparr>ac_ioapics := (ac_ioapics a)[i := d], ac_max := (if top > ac_max a then top else ac_max a)\<rparr>
      in maskAll [uint (ap_gsi d) .. top] a1)"

fun setupAll :: "nat list \<Rightarrow> apic \<Rightarrow> apic" where
  "setupAll [] a = a"
| "setupAll (i # is) a = setupAll is (ioapicSetup i a)"

fun installStubs :: "nat list \<Rightarrow> (nat \<Rightarrow> u64) \<Rightarrow> apic \<Rightarrow> apic" where
  "installStubs [] stubs a = a"
| "installStubs (i # is) stubs a =
     installStubs is stubs (installInterrupt (stubs i) 1 PRIVILEGE_KERNEL INTERRUPT_TYPE_INT (i + IOAPIC_INT_BASE) a)"

text \<open>\<open>stubs\<close> is \<open>dispatchIRQTable\<close>, the entry points in assembly code.\<close>

definition ioapicInit :: "(nat \<Rightarrow> u64) \<Rightarrow> apic \<Rightarrow> (nat \<times> apic) option" where
  "ioapicInit stubs a =
     (if ac_ioapics a = [] then None
      else (let a1 = setupAll [0..<length (ac_ioapics a)] a;
                a2 = (if ac_max a1 > MAX_IRQS then a1\<lparr>ac_max := MAX_IRQS\<rparr> else a1)
            in Some (length (ac_ioapics a), installStubs [0..<nat (ac_max a2)] stubs a2)))"

definition platformGetMaxIRQ :: "apic \<Rightarrow> int" where
  "platformGetMaxIRQ a = ac_max a"

text \<open>\<open>level\<close> and \<open>high\<close> are the trigger mode of the handler.\<close>

definition platformConfigureIRQ :: "int \<Rightarrow> int \<Rightarrow> int \<Rightarrow> apic \<Rightarrow> (int \<times> apic) option" where
  "platformConfigureIRQ pin level high a =
     (let (mode, pin') = (case findOverrideIRQ (of_int pin) a of
         Some r \<Rightarrow> ((if ov_level r \<noteq> 0 then IOAPIC_RED_LEVEL else 0) OR (if ov_low r \<noteq> 0 then IOAPIC_RED_ACTIVE_LOW else 0),
                    uint (ov_gsi r))
       | None \<Rightarrow> ((if level \<noteq> 0 then IOAPIC_RED_LEVEL else 0) OR (if high = 0 then IOAPIC_RED_ACTIVE_LOW else 0), pin))
      in case ioapicFindIRQ pin' a of
           None \<Rightarrow> Some (- EIO, a)
         | Some i \<Rightarrow> do {
             let line = pin' - uint (ap_gsi (ac_ioapics a ! i));
             let low = mode OR of_int (pin' + int IOAPIC_INT_BASE);
             if ac_cpus a = [] then None else do {
             cpu \<leftarrow> platformGetCPU (nat (pin' mod int (platformCountCPU a))) a;
             let dest = (push_bit 24 (ucast (cpu_apicID cpu AND 0x0F)) :: u32);
             Some (pin', ioapicWrite i (IOAPIC_REDIRECTION + of_int (line * 2)) low
               (ioapicWrite i (IOAPIC_REDIRECTION + of_int (line * 2) + 1) dest a)) } })"

section \<open>The MADT table\<close>

definition MADT_TYPE_LOCAL_APIC :: u8 where "MADT_TYPE_LOCAL_APIC = 0"
definition MADT_TYPE_IOAPIC :: u8 where "MADT_TYPE_IOAPIC = 1"
definition MADT_TYPE_INTERRUPT_OVERRIDE :: u8 where "MADT_TYPE_INTERRUPT_OVERRIDE = 2"
definition MADT_TYPE_LOCAL_NMI :: u8 where "MADT_TYPE_LOCAL_NMI = 4"
definition MADT_LOCAL_APIC_ENABLED :: u8 where "MADT_LOCAL_APIC_ENABLED = 0x01"
definition MADT_INTERRUPT_LOW :: u8 where "MADT_INTERRUPT_LOW = 0x02"
definition MADT_INTERRUPT_LEVEL :: u8 where "MADT_INTERRUPT_LEVEL = 0x08"

text \<open>
  The entries of the table as bytes; only the low bytes of the flags, the interrupt numbers and the
  address matter where they are stored in bytes. Registers of a new device are the parameter \<open>hw\<close>, by its address.
\<close>

definition byteAt :: "u8 list \<Rightarrow> nat \<Rightarrow> u8 option" where
  "byteAt tbl i = (if i < length tbl then Some (tbl ! i) else None)"

definition at32 :: "u8 list \<Rightarrow> nat \<Rightarrow> u64 option" where
  "at32 tbl i =
     do { b0 \<leftarrow> byteAt tbl i; b1 \<leftarrow> byteAt tbl (i + 1); b2 \<leftarrow> byteAt tbl (i + 2); b3 \<leftarrow> byteAt tbl (i + 3);
          Some (ucast b0 OR push_bit 8 (ucast b1) OR push_bit 16 (ucast b2) OR push_bit 24 (ucast b3)) }"

definition madtFlag :: "u8 \<Rightarrow> u8 \<Rightarrow> int" where
  "madtFlag flags m = (if flags AND m \<noteq> 0 then 1 else 0)"

definition madtEntry :: "(u64 \<Rightarrow> u32 \<Rightarrow> u32) \<Rightarrow> u8 \<Rightarrow> u8 list \<Rightarrow> nat \<Rightarrow> apic \<Rightarrow> apic option" where
  "madtEntry hw bspID tbl n a =
     do { kind \<leftarrow> byteAt tbl n;
          if kind = MADT_TYPE_LOCAL_APIC then do {
            proc \<leftarrow> byteAt tbl (n + 2); apicID \<leftarrow> byteAt tbl (n + 3); flags \<leftarrow> byteAt tbl (n + 4);
            Some (if flags AND MADT_LOCAL_APIC_ENABLED \<noteq> 0
              then snd (platformRegisterCPU \<lparr>cpu_procID = proc, cpu_apicID = apicID, cpu_bootCPU = (apicID = bspID),
                          cpu_running = (apicID = bspID)\<rparr> a)
              else a) }
          else if kind = MADT_TYPE_IOAPIC then do {
            apicID \<leftarrow> byteAt tbl (n + 2); mmio \<leftarrow> at32 tbl (n + 4); gsi \<leftarrow> byteAt tbl (n + 8);
            Some (snd (ioapicRegister \<lparr>ap_version = 0, ap_apicID = apicID, ap_mmio = mmio, ap_gsi = gsi, ap_count = 0,
                         ap_regs = hw mmio\<rparr> a)) }
          else if kind = MADT_TYPE_INTERRUPT_OVERRIDE then do {
            bus \<leftarrow> byteAt tbl (n + 2); source \<leftarrow> byteAt tbl (n + 3); gsi \<leftarrow> byteAt tbl (n + 4); flags \<leftarrow> byteAt tbl (n + 8);
            Some (snd (overrideIRQRegister \<lparr>ov_bus = bus, ov_source = source, ov_gsi = gsi,
                         ov_level = madtFlag flags MADT_INTERRUPT_LEVEL, ov_low = madtFlag flags MADT_INTERRUPT_LOW\<rparr> a)) }
          else if kind = MADT_TYPE_LOCAL_NMI then do {
            proc \<leftarrow> byteAt tbl (n + 2); flags \<leftarrow> byteAt tbl (n + 3); lint \<leftarrow> byteAt tbl (n + 5);
            Some (snd (lnmiRegister \<lparr>nm_procID = proc, nm_level = madtFlag flags MADT_INTERRUPT_LEVEL,
                         nm_low = madtFlag flags MADT_INTERRUPT_LOW, nm_lint = lint\<rparr> a)) }
          else Some a }"

text \<open>The scan: \<open>n\<close> is the offset in the table; the length byte of each entry leads to the next one.\<close>

partial_function (option) madtScan :: "(u64 \<Rightarrow> u32 \<Rightarrow> u32) \<Rightarrow> u8 \<Rightarrow> u8 list \<Rightarrow> nat \<Rightarrow> apic \<Rightarrow> apic option" where
  "madtScan hw bspID tbl n a =
     (if n < length tbl then do {
        a1 \<leftarrow> madtEntry hw bspID tbl n a;
        len \<leftarrow> byteAt tbl (n + 1);
        madtScan hw bspID tbl (n + unat len) a1 }
      else Some a)"

section \<open>Specification vocabulary\<close>

text \<open>The entries of a MADT table, their encoding, and what the kernel notes for each.\<close>

datatype madt_entry =
    LocalApic u8 u8 bool
  | IoApic u8 "u8 \<times> u8 \<times> u8 \<times> u8" u8
  | Override u8 u8 u8 u8
  | Nmi u8 u8 u8
  | Other u8 "u8 list"

fun madt_bytes :: "madt_entry \<Rightarrow> u8 list" where
  "madt_bytes (LocalApic proc apicID enabled) = [0, 8, proc, apicID, if enabled then 1 else 0, 0, 0, 0]"
| "madt_bytes (IoApic apicID (b0, b1, b2, b3) gsi) = [1, 12, apicID, 0, b0, b1, b2, b3, gsi, 0, 0, 0]"
| "madt_bytes (Override bus source gsi flags) = [2, 10, bus, source, gsi, 0, 0, 0, flags, 0]"
| "madt_bytes (Nmi proc flags lint) = [4, 6, proc, flags, 0, lint]"
| "madt_bytes (Other kind bs) = kind # of_nat (length bs + 2) # bs"

fun madt_valid :: "madt_entry \<Rightarrow> bool" where
  "madt_valid (Other kind bs) \<longleftrightarrow> kind \<notin> {0, 1, 2, 4} \<and> length bs < 254"
| "madt_valid _ \<longleftrightarrow> True"

fun madt_note :: "(u64 \<Rightarrow> u32 \<Rightarrow> u32) \<Rightarrow> u8 \<Rightarrow> madt_entry \<Rightarrow> apic \<Rightarrow> apic" where
  "madt_note hw bsp (LocalApic proc i enabled) a =
     (if enabled then snd (platformRegisterCPU \<lparr>cpu_procID = proc, cpu_apicID = i, cpu_bootCPU = (i = bsp), cpu_running = (i = bsp)\<rparr> a) else a)"
| "madt_note hw bsp (IoApic i (b0, b1, b2, b3) gsi) a =
     (let base = ucast b0 OR push_bit 8 (ucast b1) OR push_bit 16 (ucast b2) OR push_bit 24 (ucast b3)
      in snd (ioapicRegister \<lparr>ap_version = 0, ap_apicID = i, ap_mmio = base, ap_gsi = gsi, ap_count = 0, ap_regs = hw base\<rparr> a))"
| "madt_note hw bsp (Override bus source gsi flags) a =
     snd (overrideIRQRegister \<lparr>ov_bus = bus, ov_source = source, ov_gsi = gsi, ov_level = madtFlag flags MADT_INTERRUPT_LEVEL,
       ov_low = madtFlag flags MADT_INTERRUPT_LOW\<rparr> a)"
| "madt_note hw bsp (Nmi proc flags lint) a =
     snd (lnmiRegister \<lparr>nm_procID = proc, nm_level = madtFlag flags MADT_INTERRUPT_LEVEL, nm_low = madtFlag flags MADT_INTERRUPT_LOW,
       nm_lint = lint\<rparr> a)"
| "madt_note hw bsp (Other kind bs) a = a"

definition apic_ex :: apic where
  "apic_ex = apic0\<lparr>ac_max := 47, ac_overrides := [\<lparr>ov_bus = 0, ov_source = 0, ov_gsi = 2, ov_level = 0, ov_low = 0\<rparr>],
     ac_ioapics := [\<lparr>ap_version = 0x20, ap_apicID = 2, ap_mmio = 0xFEC00000, ap_gsi = 24, ap_count = 24, ap_regs = \<lambda>_. 0\<rparr>]\<rparr>"

section \<open>Scanning the table\<close>

lemmas madt_types = MADT_TYPE_LOCAL_APIC_def MADT_TYPE_IOAPIC_def MADT_TYPE_INTERRUPT_OVERRIDE_def
  MADT_TYPE_LOCAL_NMI_def MADT_LOCAL_APIC_ENABLED_def

lemma byteAt_simps [simp]:
  "length pre \<le> n \<Longrightarrow> byteAt (pre @ xs) n = byteAt xs (n - length pre)"
  "byteAt (x # xs) 0 = Some x" "byteAt (x # xs) (Suc i) = byteAt xs i" "byteAt (x # xs) (numeral k) = byteAt xs (pred_numeral k)"
  by (auto simp: byteAt_def nth_append numeral_eq_Suc)

lemma madtEntry_note:
  assumes "madt_valid e"
  shows "madtEntry hw bsp (pre @ madt_bytes e @ post) (length pre) a = Some (madt_note hw bsp e a)"
  using assms
proof (cases e)
  case (IoApic i base gsi)
  then show ?thesis
    by (cases base) (simp add: madtEntry_def at32_def add.assoc madt_types Let_def)
qed (auto simp: madtEntry_def add.assoc madt_types)

lemma madt_length:
  assumes "madt_valid e"
  shows "byteAt (pre @ madt_bytes e @ post) (Suc (length pre)) = Some (of_nat (length (madt_bytes e)))"
    and "unat (of_nat (length (madt_bytes e)) :: u8) = length (madt_bytes e)" and "0 < length (madt_bytes e)"
proof -
  show "byteAt (pre @ madt_bytes e @ post) (Suc (length pre)) = Some (of_nat (length (madt_bytes e)))"
  proof (cases e)
    case (IoApic i base gsi)
    then show ?thesis by (cases base) simp
  qed (simp_all add: algebra_simps)
  have "length (madt_bytes e) < 256" "0 < length (madt_bytes e)"
    using assms by (cases e; auto)+
  then show "unat (of_nat (length (madt_bytes e)) :: u8) = length (madt_bytes e)" "0 < length (madt_bytes e)"
    by (simp_all add: unat_of_nat)
qed

lemma madtScan_entries:
  "list_all madt_valid es \<Longrightarrow>
   madtScan hw bsp (pre @ concat (map madt_bytes es)) (length pre) a = Some (foldl (\<lambda>a e. madt_note hw bsp e a) a es)"
proof (induction es arbitrary: pre a)
  case Nil
  then show ?case by (simp add: madtScan.simps)
next
  case (Cons e es)
  let ?rest = "concat (map madt_bytes es)"
  have e: "madt_valid e" and es: "list_all madt_valid es" using Cons.prems by simp_all
  have "madtScan hw bsp (pre @ madt_bytes e @ ?rest) (length pre) a =
      madtScan hw bsp ((pre @ madt_bytes e) @ ?rest) (length (pre @ madt_bytes e)) (madt_note hw bsp e a)"
    using madt_length [OF e] madtEntry_note [OF e]
    by (subst madtScan.simps) simp
  also have "\<dots> = Some (foldl (\<lambda>a e. madt_note hw bsp e a) (madt_note hw bsp e a) es)" by (rule Cons.IH [OF es])
  finally show ?case by simp
qed

lemma madtScan_zero:
  assumes z: "n < length tbl" "byteAt tbl (n + 1) = Some 0"
  shows "madtScan hw bsp tbl n a = None"
proof (cases "madtScan hw bsp tbl n a")
  case (Some y)
  have "n = m \<longrightarrow> tbl = t \<longrightarrow> False" if "madtScan h b t m c = Some r" for h b t m c r
    using that
    by (rule madtScan.raw_induct [rotated]) (use z in \<open>fastforce split: Option.bind_splits if_splits\<close>)
  from this [OF Some] show ?thesis by simp
qed simp


section \<open>Routing an interrupt\<close>

lemma ioapicFindIRQ_Some:
  "ioapicFindIRQ irq a = Some i \<Longrightarrow> i < length (ac_ioapics a) \<and> serves (ac_ioapics a ! i) irq"
  by (auto simp: ioapicFindIRQ_def find_Some_iff)

lemma configure_routes:
  assumes pin: "0 \<le> pin" "pin < 224" and f: "ioapicFindIRQ pin a = Some i" and c: "ac_cpus a \<noteq> []"
  shows "\<exists>a'. platformConfigureIRQ pin level high a = Some (pin, a') \<and>
    (let line = IOAPIC_REDIRECTION + 2 * of_int (pin - uint (ap_gsi (ac_ioapics a ! i)))
     in ioapicRead i line a' AND 0xFF = of_int pin + 0x20 \<and> ioapicRead i line a' AND IOAPIC_RED_MASK = 0 \<and>
        (\<forall>j r. (j, r) \<noteq> (i, line) \<longrightarrow> (j, r) \<noteq> (i, line + 1) \<longrightarrow> ioapicRead j r a' = ioapicRead j r a))"
proof -
  have i: "i < length (ac_ioapics a)" using ioapicFindIRQ_Some [OF f] by blast
  have o: "uint (ov_gsi r) = pin" if "findOverrideIRQ (of_int pin) a = Some r" for r
  proof -
    have "ucast (ov_gsi r) = (of_int pin :: u64)" using that by (auto simp: findOverrideIRQ_def find_Some_iff)
    then have "uint (ucast (ov_gsi r) :: u64) = uint (of_int pin :: u64)" by simp
    then show ?thesis using pin by (simp add: uint_up_ucast is_up unsigned_of_int take_bit_eq_mod)
  qed
  define mode where "mode = fst (case findOverrideIRQ (of_int pin) a of
       Some r \<Rightarrow> ((if ov_level r \<noteq> 0 then IOAPIC_RED_LEVEL else 0) OR (if ov_low r \<noteq> 0 then IOAPIC_RED_ACTIVE_LOW else 0), pin)
     | None \<Rightarrow> ((if level \<noteq> 0 then IOAPIC_RED_LEVEL else 0) OR (if high = 0 then IOAPIC_RED_ACTIVE_LOW else 0), pin))"
  have "mode \<in> {0, 0x8000, 0x2000, 0xA000}"
    by (auto simp: mode_def IOAPIC_RED_LEVEL_def IOAPIC_RED_ACTIVE_LOW_def split: option.splits)
  moreover define vec :: u32 where "vec = of_int (pin + int IOAPIC_INT_BASE)"
  moreover have "vec AND 0xFF = vec" "vec AND IOAPIC_RED_MASK = 0"
  proof -
    have "uint vec = pin + 32"
      using pin unfolding vec_def by (subst unsigned_of_int) (simp add: IOAPIC_INT_BASE_def take_bit_eq_mod)
    then have "take_bit 8 vec = vec" using pin
      by (simp only: word_uint_eq_iff unsigned_take_bit_eq) (simp add: take_bit_eq_mod)
    moreover have "(0xFF :: u32) = mask 8" by (simp add: mask_eq_decr_exp)
    ultimately show t: "vec AND 0xFF = vec" by (simp add: take_bit_eq_mask)
    have "vec AND IOAPIC_RED_MASK = vec AND (0xFF AND 0x10000)" unfolding IOAPIC_RED_MASK_def using t by (metis and.assoc)
    then show "vec AND IOAPIC_RED_MASK = 0" by simp
  qed
  ultimately have low: "(mode OR vec) AND 0xFF = of_int pin + 0x20" "(mode OR vec) AND IOAPIC_RED_MASK = 0"
    by (auto simp: bit.conj_disj_distrib2 IOAPIC_RED_MASK_def IOAPIC_INT_BASE_def)
  have n: "nat (pin mod int (platformCountCPU a)) < length (ac_cpus a)"
    using c pin by (simp add: platformCountCPU_def nat_less_iff)
  let ?d = "push_bit 24 (ucast (cpu_apicID (ac_cpus a ! nat (pin mod int (platformCountCPU a))) AND 0x0F)) :: u32"
  let ?line = "IOAPIC_REDIRECTION + of_int ((pin - uint (ap_gsi (ac_ioapics a ! i))) * 2)"
  have "platformConfigureIRQ pin level high a =
      Some (pin, ioapicWrite i ?line (mode OR vec) (ioapicWrite i (?line + 1) ?d a))"
    using o f c n
    by (cases "findOverrideIRQ (of_int pin) a")
      (simp_all add: platformConfigureIRQ_def mode_def vec_def platformGetCPU_def)
  moreover have "?line = IOAPIC_REDIRECTION + 2 * of_int (pin - uint (ap_gsi (ac_ioapics a ! i)))" by (simp add: algebra_simps)
  ultimately show ?thesis
    using low i by (auto simp: Let_def ioapicRead_def ioapicWrite_def nth_list_update)
qed

text \<open>
  Configuring an interrupt. For a pin that some I/O APIC serves, \<open>platformConfigureIRQ()\<close> succeeds and unmasks
  that pin's entry with the vector \<open>pin + 0x20\<close>, leaving every other register alone. It always returns the
  pin it was given: the search for an override compares the pin with the target of the override
  instead of its source, so that no interrupt is ever redirected.
\<close>

theorem platformConfigureIRQ_routes:
  assumes pin: "0 \<le> pin" "pin < 224" and f: "ioapicFindIRQ pin a = Some i" and c: "ac_cpus a \<noteq> []"
  shows "\<exists>a'. platformConfigureIRQ pin level high a = Some (pin, a') \<and>
    (let line = IOAPIC_REDIRECTION + 2 * of_int (pin - uint (ap_gsi (ac_ioapics a ! i)))
     in ioapicRead i line a' AND 0xFF = of_int pin + 0x20 \<and> ioapicRead i line a' AND IOAPIC_RED_MASK = 0 \<and>
        (\<forall>j r. (j, r) \<noteq> (i, line) \<longrightarrow> (j, r) \<noteq> (i, line + 1) \<longrightarrow> ioapicRead j r a' = ioapicRead j r a))"
  using assms by (rule configure_routes)

text \<open>
  Masking. \<open>ioapicMask()\<close> computes the register from the global number of the interrupt: on an I/O APIC
  whose first interrupt is not 0, the entry of the interrupt is not the one that gets masked.
\<close>

theorem ioapicMask_misses:
  assumes f: "ioapicFindIRQ irq a = Some i" and g: "ap_gsi (ac_ioapics a ! i) \<noteq> 0"
  shows "\<exists>a'. ioapicMask irq True a = (0, a') \<and>
    (let line = IOAPIC_REDIRECTION + 2 * of_int (irq - uint (ap_gsi (ac_ioapics a ! i)))
     in ioapicRead i line a' = ioapicRead i line a)"
proof -
  let ?g = "ap_gsi (ac_ioapics a ! i)"
  have i: "i < length (ac_ioapics a)" using ioapicFindIRQ_Some [OF f] by blast
  have "uint (2 * ucast ?g :: u32) = 2 * uint ?g"
    using uint_lt2p [of ?g] by (simp add: uint_word_ariths uint_up_ucast is_up)
  then have "(2 * ucast ?g :: u32) \<noteq> 0" using g by (auto simp: word_uint_eq_iff)
  then have "2 * of_int (irq - uint ?g) \<noteq> (of_int (irq * 2) :: u32)" by (simp add: algebra_simps)
  then show ?thesis
    using f i by (auto simp: ioapicMask_def Let_def ioapicRead_def ioapicWrite_def)
qed

section \<open>Witnesses\<close>

lemma apic_ex_find: "ioapicFindIRQ 30 apic_ex = Some 0" "ac_cpus apic_ex \<noteq> []" "ap_gsi (ac_ioapics apic_ex ! 0) \<noteq> 0"
  by (simp_all add: ioapicFindIRQ_def apic_ex_def apic0_def serves_def)


theorem platformConfigureIRQ_routes_witness: "\<exists>a'. platformConfigureIRQ 30 1 0 apic_ex = Some (30, a')"
  using platformConfigureIRQ_routes [OF _ _ apic_ex_find(1,2)] by fastforce

theorem ioapicMask_misses_witness: "\<exists>a'. ioapicMask 30 True apic_ex = (0, a') \<and> ioapicRead 0 28 a' = 0"
  using ioapicMask_misses [OF apic_ex_find(1,3)]
  by (auto simp: Let_def apic_ex_def IOAPIC_REDIRECTION_def ioapicRead_def)

end
