(* ===== verification/KState.thy ===== *)
theory KState
  imports Virtual Apic
begin

text \<open>
  The kernel's objects and the state the remaining components share: the structures of
  \<^verbatim>\<open>kernel/sched.h\<close>, \<^verbatim>\<open>kernel/io.h\<close>, \<^verbatim>\<open>kernel/socket.h\<close>, \<^verbatim>\<open>kernel/file.h\<close>, \<^verbatim>\<open>kernel/dirent.h\<close>,
  \<^verbatim>\<open>kernel/signal.h\<close>, \<^verbatim>\<open>kernel/syscalls.h\<close> and \<^verbatim>\<open>kernel/servers.h\<close> as records, kept in stores that
  map pointers to objects (address 0 is the null pointer; following a pointer that maps to
  nothing is \<open>None\<close>, the fault). Arrays that come with a count (\<open>threads\<close>, \<open>children\<close>, the
  inbound and backlog queues) are lists, and the process list linked through \<open>next\<close> is the list
  of its pointers. The request structure is part of its thread, so the thread's pointer also
  names the request. The scheduler and socket spin locks are flags: taking a held lock spins
  forever and is \<open>None\<close>. The memory of user programs is an array of bytes per address space,
  named by the root of its page tables. Two fields are readings of hardware: \<open>k_lapic\<close> the counts
  read from the local APIC timer, one after the other, and \<open>k_rtc\<close> the CMOS registers. Allocation from the kernel heap gives a fresh pointer or, whenever the
  predicate \<open>oom\<close> says so, null.
\<close>

section \<open>Limits and flags\<close>

definition MAX_PID :: int where "MAX_PID = 99999"
definition MAX_IO_DESCRIPTORS :: nat where "MAX_IO_DESCRIPTORS = 1024"
definition MAX_SOCKETS :: nat where "MAX_SOCKETS = 2 ^ 18"
definition SOCKET_DEFAULT_BACKLOG :: nat where "SOCKET_DEFAULT_BACKLOG = 1024"
definition SOCKET_IO_BACKLOG :: nat where "SOCKET_IO_BACKLOG = 64"
definition MAX_SIGNAL :: int where "MAX_SIGNAL = 27"
definition MAX_PATH :: nat where "MAX_PATH = 2048"
definition MAX_FILE_PATH :: nat where "MAX_FILE_PATH = 2048"

datatype thread_status = THREAD_QUEUED | THREAD_RUNNING | THREAD_BLOCKED | THREAD_ZOMBIE | THREAD_SLEEP

datatype io_kind = IO_NONE | IO_WAITING | IO_FILE | IO_SOCKET | IO_DIRECTORY

definition PRIORITY_NORMAL :: int where "PRIORITY_NORMAL = 1"
definition SCHED_TIME_SLICE :: int where "SCHED_TIME_SLICE = 1"
definition EXIT_NORMAL :: int where "EXIT_NORMAL = 0x100"
definition WNOHANG :: u64 where "WNOHANG = 2"

definition O_NONBLOCK :: u16 where "O_NONBLOCK = 0x0001"
definition O_CLOEXEC :: u16 where "O_CLOEXEC = 0x0002"
definition O_RDONLY :: u16 where "O_RDONLY = 0x0004"
definition O_WRONLY :: u16 where "O_WRONLY = 0x0008"
definition O_APPEND :: u16 where "O_APPEND = 0x0010"
definition O_DSYNC :: u16 where "O_DSYNC = 0x0040"
definition O_SYNC :: u16 where "O_SYNC = 0x0400"
definition O_CLOFORK :: u16 where "O_CLOFORK = 0x1000"

section \<open>Objects\<close>

record ThreadContext =
  cx_sse :: "u8 list"
  cx_cr3 :: u64
  cx_r15 :: u64
  cx_r14 :: u64
  cx_r13 :: u64
  cx_r12 :: u64
  cx_r11 :: u64
  cx_r10 :: u64
  cx_r9 :: u64
  cx_r8 :: u64
  cx_rbp :: u64
  cx_rdi :: u64
  cx_rsi :: u64
  cx_rdx :: u64
  cx_rcx :: u64
  cx_rbx :: u64
  cx_rax :: u64
  cx_rip :: u64
  cx_cs :: u64
  cx_rflags :: u64
  cx_rsp :: u64
  cx_ss :: u64
  cx_iopl :: bool
  cx_ioports :: "nat \<Rightarrow> u8"

record sigaction =
  sa_handler :: u64
  sa_mask :: u64
  sa_flags :: int

record SyscallRequest =
  rq_busy :: bool
  rq_queued :: bool
  rq_unblock :: bool
  rq_external :: bool
  rq_retry :: bool
  rq_requestID :: u16
  rq_function :: u64
  rq_params :: "u64 list"
  rq_ret :: u64
  rq_next :: ptr

record Thread =
  th_status :: thread_status
  th_cpu :: int
  th_priority :: int
  th_pid :: int
  th_tid :: int
  th_time :: u64
  th_normalExit :: bool
  th_clean :: bool
  th_handlingSignal :: bool
  th_signals :: "sigaction list option"
  th_signalMask :: u64
  th_signalQueue :: "(int \<times> ptr) list"
  th_signalTrampoline :: u64
  th_siginfo :: u64
  th_signalUserContext :: u64
  th_syscall :: SyscallRequest
  th_exitStatus :: int
  th_pages :: int
  th_next :: ptr
  th_context :: ThreadContext
  th_signalContext :: ThreadContext
  th_highest :: u64

record IODescriptor =
  io_valid :: bool
  io_type :: io_kind
  io_flags :: u16
  io_data :: ptr

record Process =
  pr_pid :: int
  pr_parent :: int
  pr_pgrp :: int
  pr_user :: int
  pr_group :: int
  pr_umask :: u32
  pr_orphan :: bool
  pr_zombie :: bool
  pr_command :: string
  pr_name :: string
  pr_io :: "IODescriptor list"
  pr_iodCount :: int
  pr_cwd :: string
  pr_pages :: int
  pr_threads :: "ptr list"
  pr_children :: "ptr list"

record sockaddr =
  sa_family :: u16
  sa_data :: string

record FileDescriptor =
  fd_process :: ptr
  fd_abspath :: string
  fd_device :: string
  fd_path :: string
  fd_position :: int
  fd_id :: u64
  fd_charDev :: bool
  fd_refCount :: int
  fd_sd :: int

record DirectoryDescriptor =
  dd_process :: ptr
  dd_path :: string
  dd_device :: string
  dd_position :: int
  dd_sd :: int

section \<open>Messages\<close>

text \<open>
  The commands exchanged with the servers, one record per structure; the character arrays that
  hold C strings are strings, and the fields a response fills in but the kernel does not read
  are left out. A message in a socket queue is a command of the kernel or of a server, or the
  raw bytes a user program sent, with the length it was sent with.
\<close>

record MessageHeader =
  mh_command :: u16
  mh_length :: u64
  mh_response :: bool
  mh_latency :: u64
  mh_status :: u64
  mh_requester :: int

record SyscallHeader = MessageHeader +
  sh_id :: u16

record MountCommand = SyscallHeader +
  mount_source :: string
  mount_target :: string
  mount_type :: string
  mount_flags :: int

record StatCommand = SyscallHeader +
  stat_path :: string
  stat_buffer :: "u8 list"

record FsyncCommand = SyscallHeader +
  fsync_path :: string
  fsync_device :: string
  fsync_id :: u64
  fsync_uid :: int
  fsync_gid :: int
  fsync_close :: bool

record OpenCommand = SyscallHeader +
  open_abspath :: string
  open_path :: string
  open_device :: string
  open_flags :: int
  open_mode :: u32
  open_umask :: u32
  open_uid :: int
  open_gid :: int
  open_id :: u64
  open_charDev :: bool

record RWCommand = SyscallHeader +
  rw_silent :: bool
  rw_path :: string
  rw_device :: string
  rw_id :: u64
  rw_flags :: u16
  rw_uid :: int
  rw_gid :: int
  rw_position :: int
  rw_length :: u64
  rw_data :: "u8 list"

record IOCTLCommand = SyscallHeader +
  ioctl_path :: string
  ioctl_device :: string
  ioctl_id :: u64
  ioctl_flags :: u16
  ioctl_uid :: int
  ioctl_gid :: int
  ioctl_opcode :: u64
  ioctl_parameter :: u64

record OpendirCommand = SyscallHeader +
  opendir_abspath :: string
  opendir_path :: string
  opendir_device :: string
  opendir_uid :: int
  opendir_gid :: int

record ReaddirCommand = SyscallHeader +
  readdir_path :: string
  readdir_device :: string
  readdir_position :: int
  readdir_end :: bool
  readdir_entry :: "u8 list"

record ChmodCommand = SyscallHeader +
  chmod_path :: string
  chmod_uid :: int
  chmod_gid :: int
  chmod_mode :: u32

record ChownCommand = SyscallHeader +
  chown_path :: string
  chown_uid :: int
  chown_gid :: int
  chown_newUid :: int
  chown_newGid :: int

record LinkCommand = SyscallHeader +
  link_oldPath :: string
  link_newPath :: string
  link_uid :: int
  link_gid :: int

record UnlinkCommand = SyscallHeader +
  unlink_path :: string
  unlink_uid :: int
  unlink_gid :: int

record ReadLinkCommand = SyscallHeader +
  readlink_path :: string
  readlink_uid :: int
  readlink_gid :: int

record MkdirCommand = SyscallHeader +
  mkdir_path :: string
  mkdir_uid :: int
  mkdir_gid :: int
  mkdir_mode :: u32
  mkdir_umask :: u32

record UtimeCommand = SyscallHeader +
  utime_path :: string
  utime_uid :: int
  utime_gid :: int
  utime_accessTime :: int
  utime_modifiedTime :: int

record ExecCommand = SyscallHeader +
  exec_path :: string
  exec_uid :: int
  exec_gid :: int
  exec_elf :: "u8 list"

record ChdirCommand = SyscallHeader +
  chdir_path :: string
  chdir_uid :: int
  chdir_gid :: int

record StatvfsCommand = SyscallHeader +
  statvfs_path :: string
  statvfs_buffer :: "u8 list"

record MmapCommand = SyscallHeader +
  mmap_path :: string
  mmap_device :: string
  mmap_id :: u64
  mmap_openFlags :: int
  mmap_uid :: int
  mmap_gid :: int
  mmap_position :: int
  mmap_addr :: u64
  mmap_len :: u64
  mmap_prot :: u32
  mmap_flags :: u32
  mmap_off :: int
  mmap_responseType :: int
  mmap_mmio :: u64
  mmap_data :: "u8 list"

record MsyncCommand = SyscallHeader +
  msync_path :: string
  msync_device :: string
  msync_id :: u64
  msync_uid :: int
  msync_gid :: int
  msync_len :: u64
  msync_off :: int
  msync_mapFlags :: u32
  msync_syncFlags :: u32
  msync_data :: "u8 list"

record LogCommand = MessageHeader +
  log_level :: int
  log_server :: string
  log_message :: string

record RandCommand = MessageHeader +
  rand_number :: u64

record SysInfoResponse = MessageHeader +
  si_uptime :: u64
  si_maxPid :: int
  si_maxSockets :: int
  si_maxFiles :: int
  si_processes :: int
  si_threads :: int
  si_pageSize :: int
  si_memorySize :: int
  si_memoryUsage :: int
  si_kernel :: string
  si_cpu :: string

record FramebufferResponse = MessageHeader +
  fb_buffer :: u64
  fb_bufferPhysical :: u64
  fb_w :: u16
  fb_h :: u16
  fb_pitch :: u16
  fb_bpp :: u16

record IRQCommand = MessageHeader +
  irq_pin :: u64

datatype payload =
    Raw "u8 list"
  | General MessageHeader
  | CMount MountCommand | CStat StatCommand | CFsync FsyncCommand | COpen OpenCommand
  | CRW RWCommand | CIoctl IOCTLCommand | COpendir OpendirCommand | CReaddir ReaddirCommand
  | CChmod ChmodCommand | CChown ChownCommand | CLink LinkCommand | CUnlink UnlinkCommand
  | CReadLink ReadLinkCommand | CMkdir MkdirCommand | CUtime UtimeCommand | CExec ExecCommand
  | CChdir ChdirCommand | CStatvfs StatvfsCommand | CMmap MmapCommand | CMsync MsyncCommand
  | CLog LogCommand | CRand RandCommand | CSysInfo SysInfoResponse | CFramebuffer FramebufferResponse | CIrq IRQCommand

section \<open>Sockets and the kernel state\<close>

record SocketDescriptor =
  so_process :: ptr
  so_address :: sockaddr
  so_addressLength :: u64
  so_listener :: bool
  so_globalIndex :: int
  so_type :: int
  so_protocol :: int
  so_backlogMax :: nat
  so_backlog :: "ptr list option"
  so_inboundMax :: nat
  so_inbound :: "(u64 \<times> payload) list option"
  so_peer :: ptr
  so_refCount :: int

text \<open>The handlers of one interrupt pin, in the order of installation (\<^verbatim>\<open>kernel/irq.h\<close>).\<close>

record IRQHandler =
  ih_name :: string
  ih_driver :: string
  ih_kernel :: int
  ih_khandler :: u64
  ih_level :: int
  ih_high :: int

text \<open>
  The part of the console's state that describes the frame buffer (\<^verbatim>\<open>kernel/tty.h\<close>).
\<close>

record KTTY =
  tty_w :: u16
  tty_h :: u16
  tty_bpp :: u8
  tty_pitch :: u32
  tty_fbhw :: u64

record kernel =
  k_scheduling :: bool
  k_processes :: int
  k_threads :: int
  k_lock :: bool
  k_pidBitmap :: "nat \<Rightarrow> u8"
  k_list :: "ptr list"
  k_lumen :: int
  k_kernel :: int
  k_curProcess :: ptr
  k_curThread :: ptr
  k_pagingRoot :: u64
  k_localSched :: bool
  k_sleeping :: "ptr list"
  k_requests :: ptr
  k_socketLock :: bool
  k_sockets :: "nat \<Rightarrow> ptr"
  k_socketCount :: int
  k_lumenSocket :: int
  k_proc :: "ptr \<Rightarrow> Process option"
  k_thread :: "ptr \<Rightarrow> Thread option"
  k_sock :: "ptr \<Rightarrow> SocketDescriptor option"
  k_file :: "ptr \<Rightarrow> FileDescriptor option"
  k_dir :: "ptr \<Rightarrow> DirectoryDescriptor option"
  k_fresh :: ptr
  k_oom :: "ptr \<Rightarrow> bool"
  k_vm :: vm
  k_kthread :: ptr
  k_tss :: "nat \<Rightarrow> u8"
  k_user :: "u64 \<Rightarrow> u64 \<Rightarrow> u8"
  k_kernelSocket :: int
  k_connections :: "(int \<times> string) list"
  k_lumenConnected :: bool
  k_seed :: u64
  k_lapic :: "nat \<Rightarrow> u32"
  k_reads :: nat
  k_uptime :: u64
  k_rtc :: "u8 \<Rightarrow> u8"
  k_cmosLock :: bool
  k_initialTimestamp :: int
  k_initialUptime :: u64
  k_irqs :: "IRQHandler list list option"
  k_irqLock :: bool
  k_ramdisk :: "u8 list"
  k_apic :: apic
  k_tty :: KTTY
  k_log :: "string list"
  k_verbose :: bool
  k_cpuModel :: string

text \<open>The zero-filled structures that \<open>calloc()\<close> returns, and a kernel with empty tables.\<close>

definition context0 :: ThreadContext where
  "context0 = \<lparr>cx_sse = replicate 512 0, cx_cr3 = 0, cx_r15 = 0, cx_r14 = 0, cx_r13 = 0, cx_r12 = 0, cx_r11 = 0, cx_r10 = 0, cx_r9 = 0, cx_r8 = 0, cx_rbp = 0,
     cx_rdi = 0, cx_rsi = 0, cx_rdx = 0, cx_rcx = 0, cx_rbx = 0, cx_rax = 0, cx_rip = 0, cx_cs = 0, cx_rflags = 0, cx_rsp = 0, cx_ss = 0,
     cx_iopl = False, cx_ioports = (\<lambda>_. 0)\<rparr>"

definition request0 :: SyscallRequest where
  "request0 = \<lparr>rq_busy = False, rq_queued = False, rq_unblock = False, rq_external = False,
     rq_retry = False, rq_requestID = 0, rq_function = 0, rq_params = [0, 0, 0, 0], rq_ret = 0, rq_next = 0\<rparr>"

definition thread0 :: Thread where
  "thread0 = \<lparr>th_status = THREAD_QUEUED, th_cpu = 0, th_priority = 0, th_pid = 0, th_tid = 0,
     th_time = 0, th_normalExit = False, th_clean = False, th_handlingSignal = False,
     th_signals = None, th_signalMask = 0, th_signalQueue = [], th_signalTrampoline = 0,
     th_siginfo = 0, th_signalUserContext = 0, th_syscall = request0, th_exitStatus = 0,
     th_pages = 0, th_next = 0, th_context = context0, th_signalContext = context0, th_highest = 0\<rparr>"

definition iod0 :: IODescriptor where
  "iod0 = \<lparr>io_valid = False, io_type = IO_NONE, io_flags = 0, io_data = 0\<rparr>"

definition process0 :: Process where
  "process0 = \<lparr>pr_pid = 0, pr_parent = 0, pr_pgrp = 0, pr_user = 0, pr_group = 0, pr_umask = 0,
     pr_orphan = False, pr_zombie = False, pr_command = [], pr_name = [],
     pr_io = replicate MAX_IO_DESCRIPTORS iod0, pr_iodCount = 0, pr_cwd = [], pr_pages = 0,
     pr_threads = [], pr_children = []\<rparr>"

definition socket0 :: SocketDescriptor where
  "socket0 = \<lparr>so_process = 0, so_address = \<lparr>sa_family = 0, sa_data = replicate 512 (CHR 0x00)\<rparr>,
     so_addressLength = 0, so_listener = False, so_globalIndex = 0, so_type = 0, so_protocol = 0,
     so_backlogMax = 0, so_backlog = None, so_inboundMax = 0, so_inbound = None, so_peer = 0,
     so_refCount = 0\<rparr>"

definition kernel0 :: kernel where
  "kernel0 = \<lparr>k_scheduling = False, k_processes = 0, k_threads = 0, k_lock = False,
     k_pidBitmap = (\<lambda>_. 0)(0 := 1), k_list = [], k_lumen = 0, k_kernel = 0, k_curProcess = 0,
     k_curThread = 0, k_pagingRoot = 0, k_localSched = False, k_sleeping = [], k_requests = 0,
     k_socketLock = False, k_sockets = (\<lambda>_. 0), k_socketCount = 0, k_lumenSocket = 0,
     k_proc = Map.empty, k_thread = Map.empty, k_sock = Map.empty, k_file = Map.empty,
     k_dir = Map.empty, k_fresh = 1, k_oom = (\<lambda>_. False), k_vm = vm_ex,
     k_kthread = 0, k_tss = (\<lambda>_. 0), k_user = (\<lambda>_ _. 0), k_kernelSocket = 0, k_connections = [], k_lumenConnected = False,
     k_seed = 0, k_lapic = (\<lambda>_. 0), k_reads = 0, k_uptime = 0, k_rtc = (\<lambda>_. 0), k_cmosLock = False,
     k_initialTimestamp = 0, k_initialUptime = 0, k_irqs = None, k_irqLock = False, k_ramdisk = [],
     k_apic = apic0,
     k_tty = \<lparr>tty_w = 0, tty_h = 0, tty_bpp = 0, tty_pitch = 0, tty_fbhw = 0\<rparr>, k_log = [], k_verbose = True, k_cpuModel = []\<rparr>"

section \<open>Store access, locks, allocation\<close>

definition upd_proc :: "ptr \<Rightarrow> (Process \<Rightarrow> Process) \<Rightarrow> kernel \<Rightarrow> kernel" where
  "upd_proc p f k = k\<lparr>k_proc := (k_proc k)(p := map_option f (k_proc k p))\<rparr>"

definition upd_thread :: "ptr \<Rightarrow> (Thread \<Rightarrow> Thread) \<Rightarrow> kernel \<Rightarrow> kernel" where
  "upd_thread t f k = k\<lparr>k_thread := (k_thread k)(t := map_option f (k_thread k t))\<rparr>"

definition upd_sock :: "ptr \<Rightarrow> (SocketDescriptor \<Rightarrow> SocketDescriptor) \<Rightarrow> kernel \<Rightarrow> kernel" where
  "upd_sock s f k = k\<lparr>k_sock := (k_sock k)(s := map_option f (k_sock k s))\<rparr>"

definition upd_file :: "ptr \<Rightarrow> (FileDescriptor \<Rightarrow> FileDescriptor) \<Rightarrow> kernel \<Rightarrow> kernel" where
  "upd_file s f k = k\<lparr>k_file := (k_file k)(s := map_option f (k_file k s))\<rparr>"

definition upd_dir :: "ptr \<Rightarrow> (DirectoryDescriptor \<Rightarrow> DirectoryDescriptor) \<Rightarrow> kernel \<Rightarrow> kernel" where
  "upd_dir s f k = k\<lparr>k_dir := (k_dir k)(s := map_option f (k_dir k s))\<rparr>"

definition upd_req :: "ptr \<Rightarrow> (SyscallRequest \<Rightarrow> SyscallRequest) \<Rightarrow> kernel \<Rightarrow> kernel" where
  "upd_req t f = upd_thread t (\<lambda>x. x\<lparr>th_syscall := f (th_syscall x)\<rparr>)"

text \<open>\<open>p->io[i]\<close> as an assignable place.\<close>

definition upd_io :: "ptr \<Rightarrow> nat \<Rightarrow> (IODescriptor \<Rightarrow> IODescriptor) \<Rightarrow> kernel \<Rightarrow> kernel" where
  "upd_io p i f = upd_proc p (\<lambda>x. x\<lparr>pr_io := (pr_io x)[i := f (pr_io x ! i)]\<rparr>)"

definition schedLock :: "kernel \<Rightarrow> kernel option" where
  "schedLock k = (if k_lock k then None else Some (k\<lparr>k_lock := True\<rparr>))"

definition schedRelease :: "kernel \<Rightarrow> kernel" where
  "schedRelease k = k\<lparr>k_lock := False\<rparr>"

definition socketLock :: "kernel \<Rightarrow> kernel option" where
  "socketLock k = (if k_socketLock k then None else Some (k\<lparr>k_socketLock := True\<rparr>))"

definition socketRelease :: "kernel \<Rightarrow> kernel" where
  "socketRelease k = k\<lparr>k_socketLock := False\<rparr>"

text \<open>\<open>malloc\<close>, \<open>calloc\<close> and \<open>realloc\<close> of the kernel heap: a pointer never used before, or null.\<close>

definition kalloc :: "kernel \<Rightarrow> ptr \<times> kernel" where
  "kalloc k = (if k_oom k (k_fresh k) then 0 else k_fresh k, k\<lparr>k_fresh := Suc (k_fresh k)\<rparr>)"

section \<open>User memory\<close>

definition bytesOf :: "u64 \<Rightarrow> u8 list" where
  "bytesOf x = map (\<lambda>i. ucast (drop_bit (8 * i) x)) [0..<8]"

definition fromBytes :: "u8 list \<Rightarrow> u64" where
  "fromBytes bs = foldr (\<lambda>b x. push_bit 8 x OR ucast b) bs 0"

definition user_get :: "kernel \<Rightarrow> u64 \<Rightarrow> u8" where
  "user_get k a = k_user k (vm_cr3 (k_vm k)) a"

definition user_read :: "kernel \<Rightarrow> u64 \<Rightarrow> nat \<Rightarrow> u8 list" where
  "user_read k a n = map (\<lambda>i. user_get k (a + of_nat i)) [0..<n]"

text \<open>\<open>memcpy()\<close> into user memory: byte \<open>i\<close> of the data at address \<open>a + i\<close>.\<close>

definition user_write :: "u64 \<Rightarrow> u8 list \<Rightarrow> kernel \<Rightarrow> kernel" where
  "user_write a bs k = k\<lparr>k_user := (k_user k)(vm_cr3 (k_vm k) := (\<lambda>x.
     if unat (x - a) < length bs then bs ! unat (x - a) else k_user k (vm_cr3 (k_vm k)) x))\<rparr>"

definition user_read64 :: "kernel \<Rightarrow> u64 \<Rightarrow> u64" where
  "user_read64 k a = fromBytes (user_read k a 8)"

definition stringBytes :: "string \<Rightarrow> u8 list" where
  "stringBytes s = map of_char s @ [0]"

lemmas store_defs = upd_proc_def upd_thread_def upd_sock_def upd_file_def upd_dir_def upd_req_def upd_io_def
lemmas lock_defs = schedLock_def schedRelease_def socketLock_def socketRelease_def

lemma store_same [simp]:
  "k_proc (upd_proc p f k) = (k_proc k)(p := map_option f (k_proc k p))"
  "k_thread (upd_thread t g k) = (k_thread k)(t := map_option g (k_thread k t))"
  "k_sock (upd_sock s h k) = (k_sock k)(s := map_option h (k_sock k s))"
  "k_file (upd_file s i k) = (k_file k)(s := map_option i (k_file k s))"
  "k_dir (upd_dir s j k) = (k_dir k)(s := map_option j (k_dir k s))"
  by (simp_all add: store_defs)

end
