(* ===== verification/Sched.thy ===== *)
theory Sched
  imports KState
begin

text \<open>
  The scheduler's tables, \<^verbatim>\<open>src/src/sched/sched.c\<close> apart from the switch itself, with the life
  cycle of threads and processes in \<^verbatim>\<open>exit.c\<close>, \<^verbatim>\<open>sleep.c\<close> and \<^verbatim>\<open>waitpid.c\<close>. Results of
  \<open>rand()\<close> are an argument, the list of values the generator yields; \<open>None\<close> is a panic, a
  fault, or a loop that has not ended.
\<close>

section \<open>Lookup\<close>

definition getPid :: "kernel \<Rightarrow> int" where
  "getPid k = (case k_proc k (k_curProcess k) of None \<Rightarrow> 0 | Some p \<Rightarrow> pr_pid p)"

definition getTid :: "kernel \<Rightarrow> int" where
  "getTid k = (case k_thread k (k_curThread k) of None \<Rightarrow> 0 | Some t \<Rightarrow> th_tid t)"

definition getProcessQueue :: "kernel \<Rightarrow> ptr" where
  "getProcessQueue k = (case k_list k of [] \<Rightarrow> 0 | p # _ \<Rightarrow> p)"

definition getLumenPID :: "kernel \<Rightarrow> int" where "getLumenPID k = k_lumen k"
definition getKernelPID :: "kernel \<Rightarrow> int" where "getKernelPID k = k_kernel k"
definition getKernelThread :: "kernel \<Rightarrow> ptr" where "getKernelThread k = k_kthread k"
definition platformGetProcess :: "kernel \<Rightarrow> ptr" where "platformGetProcess k = k_curProcess k"
definition platformGetThread :: "kernel \<Rightarrow> ptr" where "platformGetThread k = k_curThread k"

fun findProcess :: "kernel \<Rightarrow> ptr list \<Rightarrow> int \<Rightarrow> ptr option" where
  "findProcess k [] pid = Some 0"
| "findProcess k (p # ps) pid =
     do { x \<leftarrow> k_proc k p; if pr_pid x = pid then Some p else findProcess k ps pid }"

definition getProcess :: "kernel \<Rightarrow> int \<Rightarrow> ptr option" where
  "getProcess k pid = (if pid = 0 then Some 0 else findProcess k (k_list k) pid)"

fun findThread :: "kernel \<Rightarrow> ptr list \<Rightarrow> int \<Rightarrow> ptr option" where
  "findThread k [] tid = Some 0"
| "findThread k (t # ts) tid =
     (if t = 0 then findThread k ts tid
      else do { x \<leftarrow> k_thread k t; if th_tid x = tid then Some t else findThread k ts tid })"

fun findThreadIn :: "kernel \<Rightarrow> ptr list \<Rightarrow> int \<Rightarrow> ptr option" where
  "findThreadIn k [] tid = Some 0"
| "findThreadIn k (p # ps) tid =
     do { x \<leftarrow> k_proc k p;
          t \<leftarrow> findThread k (pr_threads x) tid;
          if t \<noteq> 0 then Some t else findThreadIn k ps tid }"

definition getThread :: "kernel \<Rightarrow> int \<Rightarrow> ptr option" where
  "getThread k tid = (if tid = 0 then Some 0 else findThreadIn k (k_list k) tid)"

section \<open>Process identifiers\<close>

definition pidIsUsed :: "kernel \<Rightarrow> int \<Rightarrow> bool" where
  "pidIsUsed k pid =
     (pid \<ge> MAX_PID \<or> drop_bit (nat pid mod 8) (k_pidBitmap k (nat pid div 8)) AND 1 \<noteq> 0)"

definition markPid :: "int \<Rightarrow> kernel \<Rightarrow> kernel" where
  "markPid pid k = k\<lparr>k_pidBitmap := (k_pidBitmap k)(nat pid div 8 :=
     k_pidBitmap k (nat pid div 8) OR push_bit (nat pid mod 8) 1)\<rparr>"

fun pickPid :: "int list \<Rightarrow> kernel \<Rightarrow> int option" where
  "pickPid [] k = None"
| "pickPid (r # rs) k = (if pidIsUsed k (r mod MAX_PID) then pickPid rs k else Some (r mod MAX_PID))"

definition allocatePid :: "int list \<Rightarrow> kernel \<Rightarrow> (int \<times> kernel) option" where
  "allocatePid rs k =
     (if k_processes k \<ge> MAX_PID \<or> k_threads k \<ge> MAX_PID then Some (0, k)
      else do { pid \<leftarrow> pickPid rs k; Some (pid, markPid pid k) })"

definition releasePid :: "int \<Rightarrow> kernel \<Rightarrow> kernel" where
  "releasePid pid k =
     (if pid \<ge> MAX_PID then k
      else k\<lparr>k_pidBitmap := (k_pidBitmap k)(nat pid div 8 :=
             k_pidBitmap k (nat pid div 8) AND NOT (push_bit (nat pid mod 8) 1))\<rparr>)"

section \<open>Time slices and queue states\<close>

definition schedTimeslice :: "ptr \<Rightarrow> int \<Rightarrow> kernel \<Rightarrow> u64 \<times> kernel" where
  "schedTimeslice t p k =
     (let p' = (if p = 0 then PRIORITY_NORMAL else p)
      in (of_int (p' * SCHED_TIME_SLICE), upd_thread t (\<lambda>x. x\<lparr>th_priority := p'\<rparr>) k))"

text \<open>The recurring assignment \<open>t->time = schedTimeslice(t, t->priority)\<close>.\<close>

definition resetTime :: "ptr \<Rightarrow> kernel \<Rightarrow> kernel option" where
  "resetTime t k =
     do { x \<leftarrow> k_thread k t;
          let (time, k') = schedTimeslice t (th_priority x) k in
          Some (upd_thread t (\<lambda>x. x\<lparr>th_time := time\<rparr>) k') }"

definition setStatus :: "ptr \<Rightarrow> thread_status \<Rightarrow> kernel \<Rightarrow> kernel" where
  "setStatus t s = upd_thread t (\<lambda>x. x\<lparr>th_status := s\<rparr>)"

definition blockThread :: "ptr \<Rightarrow> kernel \<Rightarrow> kernel option" where
  "blockThread t k = resetTime t (setStatus t THREAD_BLOCKED k)"

definition unblockThread :: "ptr \<Rightarrow> kernel \<Rightarrow> kernel option" where
  "unblockThread t k = do { _ \<leftarrow> k_thread k t; Some (setStatus t THREAD_QUEUED k) }"

definition yield :: "ptr \<Rightarrow> kernel \<Rightarrow> (int \<times> kernel) option" where
  "yield t k = do { k' \<leftarrow> resetTime t (setStatus t THREAD_QUEUED k); Some (0, k') }"

text \<open>The threads reached from \<open>t\<close> through \<open>next\<close>.\<close>

partial_function (option) threadChain :: "kernel \<Rightarrow> ptr \<Rightarrow> ptr list option" where
  "threadChain k t =
     (if t = 0 then Some []
      else do { x \<leftarrow> k_thread k t; ts \<leftarrow> threadChain k (th_next x); Some (t # ts) })"

fun anyQueued :: "kernel \<Rightarrow> ptr list \<Rightarrow> bool option" where
  "anyQueued k [] = Some False"
| "anyQueued k (t # ts) =
     do { x \<leftarrow> k_thread k t; if th_status x = THREAD_QUEUED then Some True else anyQueued k ts }"

fun schedBusy_loop :: "kernel \<Rightarrow> ptr list \<Rightarrow> bool option" where
  "schedBusy_loop k [] = Some False"
| "schedBusy_loop k (p # ps) =
     do { x \<leftarrow> k_proc k p;
          ts \<leftarrow> (case pr_threads x of [] \<Rightarrow> Some [] | t # _ \<Rightarrow> threadChain k t);
          q \<leftarrow> anyQueued k ts;
          if q then Some True else schedBusy_loop k ps }"

definition schedBusy :: "kernel \<Rightarrow> bool option" where
  "schedBusy k = schedBusy_loop k (k_list k)"

fun adjust_chain :: "ptr list \<Rightarrow> kernel \<Rightarrow> kernel option" where
  "adjust_chain [] k = Some k"
| "adjust_chain (t # ts) k =
     do { x \<leftarrow> k_thread k t;
          k1 \<leftarrow> (if th_status x = THREAD_QUEUED \<or> th_status x = THREAD_BLOCKED then resetTime t k else Some k);
          adjust_chain ts k1 }"

fun adjust_processes :: "ptr list \<Rightarrow> kernel \<Rightarrow> kernel option" where
  "adjust_processes [] k = Some k"
| "adjust_processes (p # ps) k =
     do { x \<leftarrow> k_proc k p;
          ts \<leftarrow> (case pr_threads x of [] \<Rightarrow> Some [] | t # _ \<Rightarrow> threadChain k t);
          k1 \<leftarrow> adjust_chain ts k;
          adjust_processes ps k1 }"

text \<open>\<open>first->threads[0]\<close> is read before the loop: with no process, or no thread in the first, it faults.\<close>

definition schedAdjustTimeslice :: "kernel \<Rightarrow> kernel option" where
  "schedAdjustTimeslice k =
     (case k_list k of
        [] \<Rightarrow> None
      | p # _ \<Rightarrow> do { x \<leftarrow> k_proc k p; if pr_threads x = [] then None else adjust_processes (k_list k) k })"

definition setScheduling :: "bool \<Rightarrow> kernel \<Rightarrow> kernel" where
  "setScheduling s k = k\<lparr>k_scheduling := s\<rparr>"

definition setLumenPID :: "int \<Rightarrow> kernel \<Rightarrow> kernel" where
  "setLumenPID pid k = k\<lparr>k_lumen := pid\<rparr>"

definition setKernelPID :: "int \<Rightarrow> kernel \<Rightarrow> kernel option" where
  "setKernelPID pid k = do { t \<leftarrow> getThread k pid; Some (k\<lparr>k_kernel := pid, k_kthread := t\<rparr>) }"

section \<open>Sleeping\<close>

definition PLATFORM_TIMER_FREQUENCY :: u64 where "PLATFORM_TIMER_FREQUENCY = 100"

text \<open>
  The loop of \<open>schedSleepTimer()\<close>: a woken thread is taken out of the array and the rest moves
  up, so each remaining entry is visited once.
\<close>

fun sleep_tick :: "ptr list \<Rightarrow> kernel \<Rightarrow> (ptr list \<times> kernel) option" where
  "sleep_tick [] k = Some ([], k)"
| "sleep_tick (t # ts) k =
     (if t = 0 then do { (rest, k') \<leftarrow> sleep_tick ts k; Some (t # rest, k') }
      else do { x \<leftarrow> k_thread k t;
        if th_status x = THREAD_SLEEP then
          (let k1 = upd_thread t (\<lambda>x. x\<lparr>th_time := th_time x - 1\<rparr>) k in
           if th_time x - 1 = 0 then
             do { k2 \<leftarrow> resetTime t (setStatus t THREAD_QUEUED k1); sleep_tick ts k2 }
           else do { (rest, k') \<leftarrow> sleep_tick ts k1; Some (t # rest, k') })
        else do { (rest, k') \<leftarrow> sleep_tick ts k; Some (t # rest, k') } })"

definition schedSleepTimer :: "kernel \<Rightarrow> kernel option" where
  "schedSleepTimer k =
     do { (rest, k') \<leftarrow> sleep_tick (k_sleeping k) k; Some (k'\<lparr>k_sleeping := rest\<rparr>) }"

definition msleep :: "ptr \<Rightarrow> u64 \<Rightarrow> kernel \<Rightarrow> (u64 \<times> kernel) option" where
  "msleep t msec0 k =
     (let msec = msec0 * (PLATFORM_TIMER_FREQUENCY div 1000) in
      if msec = 0 then Some (0, k)
      else do {
        k1 \<leftarrow> schedLock k;
        let k2 = upd_thread t (\<lambda>x. x\<lparr>th_status := THREAD_SLEEP, th_time := msec\<rparr>) k1;
        let (list, k3) = kalloc k2;
        if list = 0
        then do { k4 \<leftarrow> resetTime t (setStatus t THREAD_QUEUED k3); Some (0, schedRelease k4) }
        else Some (0, schedRelease (k3\<lparr>k_sleeping := k_sleeping k3 @ [t]\<rparr>)) })"

definition schedTimer :: "kernel \<Rightarrow> (u64 \<times> kernel) option" where
  "schedTimer k =
     (if \<not> k_scheduling k \<or> k_processes k = 0 \<or> k_threads k = 0 \<or> k_list k = [] then Some (1, k)
      else do {
        t \<leftarrow> getThread k (getTid k);
        (time, k1) \<leftarrow> (if t = 0 then Some (0, k)
          else do { x \<leftarrow> k_thread k t;
                    let time = (if th_time x \<noteq> 0 then th_time x - 1 else th_time x) in
                    Some (time, upd_thread t (\<lambda>x. x\<lparr>th_time := time\<rparr>) k) });
        k2 \<leftarrow> schedSleepTimer k1;
        Some (time, k2) })"

section \<open>Termination and waiting\<close>

fun scanZombies :: "kernel \<Rightarrow> ptr list \<Rightarrow> bool \<Rightarrow> bool option" where
  "scanZombies k [] z = Some z"
| "scanZombies k (t # ts) z =
     do { x \<leftarrow> k_thread k t; if th_status x = THREAD_ZOMBIE then scanZombies k ts True else Some False }"

fun orphanChildren :: "ptr list \<Rightarrow> kernel \<Rightarrow> kernel option" where
  "orphanChildren [] k = Some k"
| "orphanChildren (c # cs) k =
     (if c = 0 then orphanChildren cs k
      else do { _ \<leftarrow> k_proc k c;
                orphanChildren cs (upd_proc c (\<lambda>x. x\<lparr>pr_orphan := True, pr_parent := k_lumen k\<rparr>) k) })"

definition terminateThread :: "ptr \<Rightarrow> int \<Rightarrow> bool \<Rightarrow> kernel \<Rightarrow> kernel option" where
  "terminateThread t status0 normal k =
     do { x \<leftarrow> k_thread k t;
          let status = status0 AND 0xFF;
          let k1 = upd_thread t (\<lambda>x. x\<lparr>th_status := THREAD_ZOMBIE, th_normalExit := normal,
            th_exitStatus := (if normal then status OR EXIT_NORMAL else status)\<rparr>) k;
          if th_pid x = k_lumen k \<or> th_tid x = k_lumen k then None
          else do {
            p \<leftarrow> getProcess k1 (th_pid x);
            if p = 0 then Some k1
            else do {
              px \<leftarrow> k_proc k1 p;
              z \<leftarrow> scanZombies k1 (pr_threads px) (pr_zombie px);
              let k2 = upd_proc p (\<lambda>x. x\<lparr>pr_zombie := z\<rparr>) k1;
              if z then orphanChildren (pr_children px) k2 else Some k2 } } }"

definition exit :: "ptr \<Rightarrow> int \<Rightarrow> kernel \<Rightarrow> kernel option" where
  "exit t status k =
     do { k1 \<leftarrow> schedLock k; k2 \<leftarrow> terminateThread t status True k1; Some (schedRelease k2) }"

definition schedException :: "int \<Rightarrow> kernel \<Rightarrow> (int \<times> kernel) option" where
  "schedException tid k =
     do { t \<leftarrow> getThread k tid;
          if t = 0 then Some (1, k)
          else do { k' \<leftarrow> terminateThread t (-1) False k; Some (1, k') } }"

section \<open>Cleanup and waiting\<close>

text \<open>\<open>freePT(base, depth, maxdepth)\<close>, with \<open>n = maxdepth - depth\<close> (\<^verbatim>\<open>platform/x86_64/sched/context.c\<close>).\<close>

fun freeEntries :: "(u64 \<Rightarrow> vm \<Rightarrow> vm option) \<Rightarrow> u64 \<Rightarrow> u64 list \<Rightarrow> vm \<Rightarrow> vm option" where
  "freeEntries below base [] v = Some v"
| "freeEntries below base (i # is) v =
     do { entry \<leftarrow> load v base i;
          let phys = entry AND NOT ((PAGE_SIZE - 1) OR PT_PAGE_NXE);
          v1 \<leftarrow> (if entry AND PT_PAGE_PRESENT \<noteq> 0 \<and> phys \<noteq> 0 \<and> phys < highestUsableAddress (pmmStatus (vm_pmm v))
                  then do { v1 \<leftarrow> below phys v; Some (v1\<lparr>vm_pmm := snd (pmmFree (vm_pmm v1) phys)\<rparr>) }
                  else Some v);
          freeEntries below base is v1 }"

fun freePT :: "nat \<Rightarrow> u64 \<Rightarrow> vm \<Rightarrow> vm option" where
  "freePT 0 base = freeEntries (\<lambda>phys v. Some v) base (map of_nat [0..<512])"
| "freePT (Suc n) base = freeEntries (\<lambda>phys v. freePT n (vmmMMIO phys True) v) base (map of_nat [0..<512])"

fun cleanRoot :: "u64 \<Rightarrow> u64 list \<Rightarrow> vm \<Rightarrow> vm option" where
  "cleanRoot pml4 [] v = Some v"
| "cleanRoot pml4 (i # is) v =
     do { e \<leftarrow> load v pml4 i; v1 \<leftarrow> freePT 2 (vmmMMIO (pageBase e) True) v; cleanRoot pml4 is v1 }"

definition platformCleanThread :: "ThreadContext \<Rightarrow> u64 \<Rightarrow> vm \<Rightarrow> vm option" where
  "platformCleanThread c highest v =
     (if highest \<le> USER_BASE_ADDRESS + PAGE_SIZE \<or> cx_cr3 c = 0 then Some v
      else do { v1 \<leftarrow> cleanRoot (vmmMMIO (cx_cr3 c) True) (map of_nat [0..<256]) v;
                Some (v1\<lparr>vm_pmm := snd (pmmFree (vm_pmm v1) (cx_cr3 c))\<rparr>) })"

definition threadCleanup :: "ptr \<Rightarrow> kernel \<Rightarrow> kernel option" where
  "threadCleanup t k =
     do { x \<leftarrow> k_thread k t;
          v \<leftarrow> platformCleanThread (th_context x) (th_highest x) (k_vm k);
          Some (k\<lparr>k_vm := v\<rparr>) }"

text \<open>
  \<open>processStatus()\<close> and \<open>waitpid()\<close>: the value stored through the status pointer, if any, is
  the second component. \<open>threadCleanup()\<close> frees the thread's pages and leaves its structure.
\<close>

fun processStatus_loop :: "ptr list \<Rightarrow> kernel \<Rightarrow> (int \<times> int option \<times> kernel) option" where
  "processStatus_loop [] k = Some (0, None, k)"
| "processStatus_loop (t # ts) k =
     (if t = 0 then processStatus_loop ts k
      else do { x \<leftarrow> k_thread k t;
        if \<not> th_clean x \<and> th_status x = THREAD_ZOMBIE
        then do { k1 \<leftarrow> threadCleanup t (upd_thread t (\<lambda>x. x\<lparr>th_clean := True\<rparr>) k);
                  Some (th_tid x, Some (th_exitStatus x), k1) }
        else processStatus_loop ts k })"

definition processStatus :: "ptr \<Rightarrow> kernel \<Rightarrow> (int \<times> int option \<times> kernel) option" where
  "processStatus p k =
     (if p = 0 then Some (- ESRCH, None, k)
      else do { x \<leftarrow> k_proc k p; processStatus_loop (pr_threads x) k })"

fun waitChildren :: "ptr list \<Rightarrow> kernel \<Rightarrow> (int \<times> int option \<times> kernel) option" where
  "waitChildren [] k = Some (0, None, k)"
| "waitChildren (c # cs) k =
     (if c = 0 then waitChildren cs k
      else do { (pid, st, k') \<leftarrow> processStatus c k;
                if pid \<noteq> 0 then Some (pid, st, k') else waitChildren cs k' })"

definition waitpid :: "ptr \<Rightarrow> int \<Rightarrow> kernel \<Rightarrow> (int \<times> int option \<times> kernel) option" where
  "waitpid t pid k =
     do { x \<leftarrow> k_thread k t;
          p \<leftarrow> getProcess k (th_pid x);
          if p = 0 then Some (- ESRCH, None, k)
          else do {
            k1 \<leftarrow> schedLock k;
            if pid > 0 then do {
              q \<leftarrow> getProcess k1 pid;
              (r, st, k2) \<leftarrow> processStatus q k1;
              Some (r, st, schedRelease k2) }
            else do {
              q \<leftarrow> (if pid < -1 then getProcess k1 (- pid) else Some p);
              if q = 0 then Some (- ESRCH, None, schedRelease k1)
              else do {
                qx \<leftarrow> k_proc k1 q;
                if pr_children qx = [] then Some (- ECHILD, None, schedRelease k1)
                else do {
                  (r, st, k2) \<leftarrow> waitChildren (pr_children qx) k1;
                  Some (r, st, schedRelease k2) } } } } }"

section \<open>Specification vocabulary\<close>

text \<open>Every pointer reachable from the process list leads to an object.\<close>

definition kwf :: "kernel \<Rightarrow> bool" where
  "kwf k \<longleftrightarrow> k_proc k 0 = None \<and> k_thread k 0 = None \<and>
     (\<forall>p \<in> set (k_list k). \<exists>x. k_proc k p = Some x \<and>
        (\<forall>t \<in> set (pr_threads x). t \<noteq> 0 \<longrightarrow> k_thread k t \<noteq> None) \<and>
        (\<forall>c \<in> set (pr_children x). c \<noteq> 0 \<longrightarrow> k_proc k c \<noteq> None))"

definition with_slice :: "Thread \<Rightarrow> Thread" where
  "with_slice x =
     (let p = (if th_priority x = 0 then PRIORITY_NORMAL else th_priority x)
      in x\<lparr>th_priority := p, th_time := of_int (p * SCHED_TIME_SLICE)\<rparr>)"

definition tick :: "Thread \<Rightarrow> Thread" where
  "tick x =
     (if th_status x \<noteq> THREAD_SLEEP then x
      else if th_time x = 1 then with_slice (x\<lparr>th_status := THREAD_QUEUED\<rparr>)
      else x\<lparr>th_time := th_time x - 1\<rparr>)"

definition wakes :: "kernel \<Rightarrow> ptr \<Rightarrow> bool" where
  "wakes k t \<longleftrightarrow> (\<exists>x. k_thread k t = Some x \<and> th_status x = THREAD_SLEEP \<and> th_time x = 1)"

text \<open>The zombie threads of a process whose exit status has not been read.\<close>

definition unreaped :: "kernel \<Rightarrow> ptr list \<Rightarrow> ptr list" where
  "unreaped k ts = filter (\<lambda>t. \<exists>x. k_thread k t = Some x \<and> \<not> th_clean x \<and> th_status x = THREAD_ZOMBIE) ts"

fun ticks :: "nat \<Rightarrow> kernel \<Rightarrow> kernel option" where
  "ticks 0 k = Some k"
| "ticks (Suc n) k = do { k' \<leftarrow> schedSleepTimer k; ticks n k' }"

definition sleepers_ok :: "kernel \<Rightarrow> bool" where
  "sleepers_ok k \<longleftrightarrow> distinct (k_sleeping k) \<and> k_thread k 0 = None \<and>
     (\<forall>t \<in> set (k_sleeping k). t \<noteq> 0 \<longrightarrow> k_thread k t \<noteq> None)"

definition adopt :: "int \<Rightarrow> Process \<Rightarrow> Process" where
  "adopt lumen x = x\<lparr>pr_orphan := True, pr_parent := lumen\<rparr>"

definition zombie :: "int \<Rightarrow> bool \<Rightarrow> Thread \<Rightarrow> Thread" where
  "zombie status normal x = x\<lparr>th_status := THREAD_ZOMBIE, th_normalExit := normal,
     th_exitStatus := (if normal then status AND 0xFF OR EXIT_NORMAL else status AND 0xFF)\<rparr>"

text \<open>Reading the status of thread \<open>u\<close>: it is marked and its memory is released.\<close>

definition reap :: "ptr \<Rightarrow> kernel \<Rightarrow> (int \<times> int option \<times> kernel) option" where
  "reap u k =
     do { x \<leftarrow> k_thread k u;
          v \<leftarrow> platformCleanThread (th_context x) (th_highest x) (k_vm k);
          Some (th_tid x, Some (th_exitStatus x), (upd_thread u (\<lambda>x. x\<lparr>th_clean := True\<rparr>) k)\<lparr>k_vm := v\<rparr>) }"

text \<open>Two processes, lumen (1) and its child (2) with one thread each, for the examples.\<close>

definition kernel_ex :: kernel where
  "kernel_ex = kernel0\<lparr>k_list := [10, 20], k_lumen := 1, k_processes := 2, k_threads := 2,
     k_scheduling := True,
     k_proc := [10 \<mapsto> process0\<lparr>pr_pid := 1, pr_threads := [11], pr_children := [20]\<rparr>,
                20 \<mapsto> process0\<lparr>pr_pid := 2, pr_parent := 1, pr_threads := [21]\<rparr>],
     k_thread := [11 \<mapsto> thread0\<lparr>th_pid := 1, th_tid := 1\<rparr>, 21 \<mapsto> thread0\<lparr>th_pid := 2, th_tid := 2\<rparr>]\<rparr>"

section \<open>Process identifiers\<close>

lemma pidIsUsed_bit: "pidIsUsed k q \<longleftrightarrow> MAX_PID \<le> q \<or> bit (k_pidBitmap k (nat q div 8)) (nat q mod 8)"
  by (simp add: pidIsUsed_def drop_bit_and_1_iff)

lemma nat_byte_bit: "0 \<le> a \<Longrightarrow> 0 \<le> b \<Longrightarrow> nat a div 8 = nat b div 8 \<Longrightarrow> nat a mod 8 = nat b mod 8 \<Longrightarrow> a = b"
  by (metis div_mult_mod_eq int_nat_eq)

lemma pidIsUsed_mark:
  assumes "0 \<le> pid" "0 \<le> q" "pid < MAX_PID"
  shows "pidIsUsed (markPid pid k) q \<longleftrightarrow> q = pid \<or> pidIsUsed k q"
  using assms nat_byte_bit [of q pid]
  by (auto simp: pidIsUsed_bit markPid_def bit_simps)

lemma pidIsUsed_release:
  assumes "0 \<le> pid" "0 \<le> q" "pid < MAX_PID"
  shows "pidIsUsed (releasePid pid k) q \<longleftrightarrow> (q \<noteq> pid \<and> pidIsUsed k q)"
  using assms nat_byte_bit [of q pid]
  by (auto simp: pidIsUsed_bit releasePid_def bit_simps)

lemma pickPid_first:
  "pickPid rs k = find (\<lambda>pid. \<not> pidIsUsed k pid) (map (\<lambda>r. r mod MAX_PID) rs)"
  by (induction rs) auto

lemma find_some: "\<exists>x \<in> set xs. P x \<Longrightarrow> \<exists>x. find P xs = Some x \<and> P x \<and> x \<in> set xs"
  by (induction xs) auto

text \<open>
  as soon as the generator yields the number of an unused identifier, \<open>allocatePid()\<close>
  returns one: positive, below the limit, unused before; afterwards exactly that identifier is
  used in addition, and releasing it restores the set of used identifiers.
\<close>

theorem allocatePid_fresh:
  assumes "k_processes k < MAX_PID" "k_threads k < MAX_PID" "pidIsUsed k 0"
    and "\<exists>r \<in> set rs. \<not> pidIsUsed k (r mod MAX_PID)"
  shows "\<exists>pid k'. allocatePid rs k = Some (pid, k') \<and> 0 < pid \<and> pid < MAX_PID \<and> \<not> pidIsUsed k pid \<and>
    (\<forall>q \<ge> 0. (pidIsUsed k' q \<longleftrightarrow> q = pid \<or> pidIsUsed k q) \<and>
      (pidIsUsed (releasePid pid k') q \<longleftrightarrow> pidIsUsed k q))"
proof -
  obtain pid where p: "pickPid rs k = Some pid" "\<not> pidIsUsed k pid" "pid \<in> (\<lambda>r. r mod MAX_PID) ` set rs"
    using find_some [of "map (\<lambda>r. r mod MAX_PID) rs" "\<lambda>pid. \<not> pidIsUsed k pid"] assms(4)
    by (auto simp: pickPid_first)
  have "0 \<le> pid" "pid < MAX_PID" using p(3) by (auto simp: MAX_PID_def)
  moreover have "pid \<noteq> 0" using p(2) assms(3) by auto
  ultimately have "0 < pid" "pid < MAX_PID" by auto
  then show ?thesis
    using p(1,2) assms(1,2) pidIsUsed_mark [of pid _ k] pidIsUsed_release [of pid _ "markPid pid k"]
    by (auto simp: allocatePid_def)
qed

section \<open>Sleeping threads\<close>

lemma resetTime_ok:
  assumes "k_thread k t = Some x"
  shows "resetTime t k = Some (k\<lparr>k_thread := (k_thread k)(t \<mapsto> with_slice x)\<rparr>)"
  using assms by (simp add: resetTime_def schedTimeslice_def upd_thread_def Let_def with_slice_def)

lemma with_slice_time [simp]: "with_slice (x\<lparr>th_time := a, th_status := s\<rparr>) = with_slice (x\<lparr>th_status := s\<rparr>)"
  by (simp add: with_slice_def Let_def)

lemma with_slice_simps [simp]: "th_status (with_slice x) = th_status x" "th_pid (with_slice x) = th_pid x"
  "th_tid (with_slice x) = th_tid x" "th_next (with_slice x) = th_next x" "th_syscall (with_slice x) = th_syscall x"
  by (simp_all add: with_slice_def Let_def)

lemma sleep_tick_eq:
  "distinct ts \<Longrightarrow> (\<And>t. t \<in> set ts \<Longrightarrow> t \<noteq> 0 \<Longrightarrow> k_thread k t \<noteq> None) \<Longrightarrow> k_thread k 0 = None \<Longrightarrow>
   sleep_tick ts k = Some (filter (\<lambda>t. \<not> wakes k t) ts,
     k\<lparr>k_thread := (\<lambda>t. if t \<in> set ts then map_option tick (k_thread k t) else k_thread k t)\<rparr>)"
proof (induction ts arbitrary: k)
  case Nil
  then show ?case by simp
next
  case (Cons t ts)
  have upd: "sleep_tick ts (k\<lparr>k_thread := (k_thread k)(t \<mapsto> y)\<rparr>) =
      Some (filter (\<lambda>t. \<not> wakes k t) ts,
        k\<lparr>k_thread := (\<lambda>u. if u \<in> set ts then map_option tick (k_thread k u) else ((k_thread k)(t \<mapsto> y)) u)\<rparr>)"
    if "t \<noteq> 0" for y
  proof -
    have "filter (\<lambda>u. \<not> wakes (k\<lparr>k_thread := (k_thread k)(t \<mapsto> y)\<rparr>) u) ts = filter (\<lambda>u. \<not> wakes k u) ts"
      using Cons.prems(1) by (intro filter_cong) (auto simp: wakes_def)
    moreover have "(\<lambda>u. if u \<in> set ts then map_option tick (((k_thread k)(t \<mapsto> y)) u) else ((k_thread k)(t \<mapsto> y)) u) =
        (\<lambda>u. if u \<in> set ts then map_option tick (k_thread k u) else ((k_thread k)(t \<mapsto> y)) u)"
      using Cons.prems(1) by auto
    ultimately show ?thesis
      using Cons.IH [of "k\<lparr>k_thread := (k_thread k)(t \<mapsto> y)\<rparr>"] Cons.prems that by (simp cong: if_cong)
  qed
  show ?case
  proof (cases "t = 0")
    case True
    have "(\<lambda>u. if u \<in> set ts then map_option tick (k_thread k u) else k_thread k u) =
        (\<lambda>u. if u \<in> set (0 # ts) then map_option tick (k_thread k u) else k_thread k u)"
      using Cons.prems(3) by auto
    with True Cons.IH [of k] Cons.prems show ?thesis by (simp add: wakes_def)
  next
    case t0: False
    then obtain x where x: "k_thread k t = Some x" using Cons.prems(2) [of t] by auto
    have self: "k\<lparr>k_thread := (k_thread k)(t \<mapsto> x)\<rparr> = k" using x by (simp add: fun_upd_idem)
    have fn: "(\<lambda>u. if u \<in> set ts then map_option tick (k_thread k u) else ((k_thread k)(t \<mapsto> tick x)) u) =
       (\<lambda>u. if u \<in> set (t # ts) then map_option tick (k_thread k u) else k_thread k u)"
      using x Cons.prems(1) by (auto intro!: ext)
    show ?thesis
    proof (cases "th_status x = THREAD_SLEEP")
      case False
      then have tx: "tick x = x" by (simp add: tick_def)
      show ?thesis using upd [OF t0, of x] False x t0 unfolding fn [unfolded tx] self by (simp add: wakes_def)
    next
      case True
      show ?thesis
      proof (cases "th_time x = 1")
        case w: True
        with upd [OF t0, of "tick x"] fn True x t0 show ?thesis
          by (simp add: wakes_def tick_def setStatus_def upd_thread_def resetTime_ok Let_def)
      next
        case w: False
        then have "th_time x - 1 \<noteq> 0" by simp
        with upd [OF t0, of "tick x"] fn True x t0 w show ?thesis
          by (simp add: wakes_def tick_def upd_thread_def Let_def)
      qed
    qed
  qed
qed

lemma schedSleepTimer_eq:
  assumes "sleepers_ok k"
  shows "schedSleepTimer k = Some (k\<lparr>k_sleeping := filter (\<lambda>t. \<not> wakes k t) (k_sleeping k),
    k_thread := (\<lambda>t. if t \<in> set (k_sleeping k) then map_option tick (k_thread k t) else k_thread k t)\<rparr>)"
  using assms sleep_tick_eq [of "k_sleeping k" k] by (auto simp: schedSleepTimer_def sleepers_ok_def)

lemma sleepers_ok_tick:
  assumes "sleepers_ok k" "schedSleepTimer k = Some k'"
  shows "sleepers_ok k'"
  using assms(1) assms(2) [unfolded schedSleepTimer_eq [OF assms(1)]]
  by (auto simp: sleepers_ok_def)

text \<open>
  C20: a sleeping thread with \<open>n\<close> ticks left is still asleep, with its remaining time counted
  down, after every smaller number of timer ticks, and after exactly \<open>n\<close> ticks it is queued
  again and has left the list of sleepers.
\<close>

theorem sleeper_wakes_on_time:
  assumes "sleepers_ok k" "t \<in> set (k_sleeping k)" "k_thread k t = Some x" "th_status x = THREAD_SLEEP"
    and "th_time x = of_nat n" "0 < n" "n < 2 ^ 64" "m \<le> n"
  shows "\<exists>k'. ticks m k = Some k' \<and>
    (if m < n then t \<in> set (k_sleeping k') \<and> k_thread k' t = Some (x\<lparr>th_time := of_nat (n - m)\<rparr>)
     else t \<notin> set (k_sleeping k') \<and> map_option th_status (k_thread k' t) = Some THREAD_QUEUED)"
  using assms
proof (induction m arbitrary: k n x)
  case 0
  then show ?case by simp
next
  case (Suc m)
  let ?k = "k\<lparr>k_sleeping := filter (\<lambda>t. \<not> wakes k t) (k_sleeping k),
    k_thread := (\<lambda>t. if t \<in> set (k_sleeping k) then map_option tick (k_thread k t) else k_thread k t)\<rparr>"
  have tk: "schedSleepTimer k = Some ?k" by (rule schedSleepTimer_eq [OF Suc.prems(1)])
  note ok = sleepers_ok_tick [OF Suc.prems(1) tk]
  have one: "th_time x = 1 \<longleftrightarrow> n = 1"
  proof -
    have "unat (th_time x) = n" using Suc.prems(5,7) by (simp add: unat_of_nat take_bit_eq_mod)
    then show ?thesis by (auto simp: Suc.prems(5))
  qed
  show ?case
  proof (cases "n = 1")
    case True
    then have m: "m = 0" using Suc.prems(8) by simp
    have "t \<notin> set (k_sleeping ?k)" using one True Suc.prems by (auto simp: wakes_def)
    moreover have "map_option th_status (k_thread ?k t) = Some THREAD_QUEUED"
      using one True Suc.prems by (simp add: tick_def Let_def)
    ultimately show ?thesis using tk True m by simp
  next
    case False
    let ?x = "x\<lparr>th_time := of_nat (n - 1)\<rparr>"
    have "th_time x - 1 = of_nat (n - 1)" using Suc.prems(5,6) by (simp add: of_nat_diff)
    then have x': "k_thread ?k t = Some ?x" and s: "t \<in> set (k_sleeping ?k)"
      using one False Suc.prems by (auto simp: tick_def wakes_def)
    have "\<exists>k'. ticks m ?k = Some k' \<and>
      (if m < n - 1 then t \<in> set (k_sleeping k') \<and> k_thread k' t = Some (?x\<lparr>th_time := of_nat (n - 1 - m)\<rparr>)
       else t \<notin> set (k_sleeping k') \<and> map_option th_status (k_thread k' t) = Some THREAD_QUEUED)"
      by (rule Suc.IH [OF ok s x']) (use Suc.prems False in auto)
    then obtain k' where k': "ticks m ?k = Some k'"
      "if m < n - 1 then t \<in> set (k_sleeping k') \<and> k_thread k' t = Some (?x\<lparr>th_time := of_nat (n - 1 - m)\<rparr>)
       else t \<notin> set (k_sleeping k') \<and> map_option th_status (k_thread k' t) = Some THREAD_QUEUED" by blast
    have "n - 1 - m = n - Suc m" "m < n - 1 \<longleftrightarrow> Suc m < n" by auto
    then have "?x\<lparr>th_time := of_nat (n - 1 - m)\<rparr> = x\<lparr>th_time := of_nat (n - Suc m)\<rparr>" by (simp only:) simp
    with k' \<open>m < n - 1 \<longleftrightarrow> Suc m < n\<close> have "if Suc m < n then t \<in> set (k_sleeping k') \<and> k_thread k' t = Some (x\<lparr>th_time := of_nat (n - Suc m)\<rparr>)
       else t \<notin> set (k_sleeping k') \<and> map_option th_status (k_thread k' t) = Some THREAD_QUEUED" by (simp only:)
    moreover have "ticks (Suc m) k = Some k'" using tk k'(1) by simp
    ultimately show ?thesis by blast
  qed
qed

text \<open>
  \<open>msleep()\<close> converts milliseconds by the factor \<open>PLATFORM_TIMER_FREQUENCY / 1000\<close>, which is
  zero at 100 Hz: every request returns at once and the thread never sleeps.
\<close>

theorem msleep_never_sleeps: "msleep t msec k = Some (0, k)"
  by (simp add: msleep_def PLATFORM_TIMER_FREQUENCY_def)

section \<open>Reading exit statuses\<close>

lemma threadCleanup_mark:
  "k_thread k t = Some x \<Longrightarrow> threadCleanup t (upd_thread t (\<lambda>x. x\<lparr>th_clean := True\<rparr>) k) =
     map_option (\<lambda>v. (upd_thread t (\<lambda>x. x\<lparr>th_clean := True\<rparr>) k)\<lparr>k_vm := v\<rparr>)
       (platformCleanThread (th_context x) (th_highest x) (k_vm k))"
  by (cases "platformCleanThread (th_context x) (th_highest x) (k_vm k)")
     (simp_all add: threadCleanup_def upd_thread_def)

lemma processStatus_loop_eq:
  assumes "k_thread k 0 = None"
  shows "(\<And>t. t \<in> set ts \<Longrightarrow> t \<noteq> 0 \<Longrightarrow> k_thread k t \<noteq> None) \<Longrightarrow>
    processStatus_loop ts k = (case unreaped k ts of [] \<Rightarrow> Some (0, None, k) | t # _ \<Rightarrow> reap t k)"
proof (induction ts)
  case Nil
  then show ?case by (simp add: unreaped_def)
next
  case (Cons t ts)
  show ?case
  proof (cases "t = 0")
    case True
    with Cons assms show ?thesis by (simp add: unreaped_def)
  next
    case False
    then obtain x where x: "k_thread k t = Some x" using Cons.prems [of t] by auto
    show ?thesis
    proof (cases "\<not> th_clean x \<and> th_status x = THREAD_ZOMBIE")
      case True
      then have "unreaped k (t # ts) = t # unreaped k ts" using x by (simp add: unreaped_def)
      moreover have "processStatus_loop (t # ts) k = reap t k"
        using True False x threadCleanup_mark [OF x]
        by (cases "platformCleanThread (th_context x) (th_highest x) (k_vm k)") (simp_all add: reap_def)
      ultimately show ?thesis by simp
    next
      case no: False
      then have "unreaped k (t # ts) = unreaped k ts" using x by (simp add: unreaped_def)
      then show ?thesis using Cons no False x by auto
    qed
  qed
qed

lemma unreaped_clean:
  assumes "distinct ts" "unreaped k ts = t # us"
  shows "unreaped (upd_thread t (\<lambda>x. x\<lparr>th_clean := True\<rparr>) k) ts = us"
proof -
  have "t \<in> set (unreaped k ts)" using assms(2) by simp
  then obtain x where x: "k_thread k t = Some x" by (auto simp: unreaped_def)
  have "unreaped (upd_thread t (\<lambda>x. x\<lparr>th_clean := True\<rparr>) k) ts = filter (\<lambda>u. u \<noteq> t) (unreaped k ts)"
    using x unfolding unreaped_def filter_filter by (intro filter_cong) auto
  also have "\<dots> = us"
  proof -
    have "distinct (unreaped k ts)" using assms(1) by (simp add: unreaped_def)
    then have "distinct (t # us)" by (simp only: assms(2))
    then show ?thesis by (auto simp: assms(2) filter_id_conv)
  qed
  finally show ?thesis .
qed

lemma findProcess_wf:
  assumes "\<And>p. p \<in> set ps \<Longrightarrow> k_proc k p \<noteq> None"
  shows "findProcess k ps pid =
    Some (case find (\<lambda>p. map_option pr_pid (k_proc k p) = Some pid) ps of None \<Rightarrow> 0 | Some p \<Rightarrow> p)"
  using assms
proof (induction ps)
  case (Cons p ps)
  then obtain x where "k_proc k p = Some x" by (metis list.set_intros(1) option.exhaust)
  with Cons show ?case by simp
qed simp

lemma findProcess_cong: "k_proc k' = k_proc k \<Longrightarrow> findProcess k' ps i = findProcess k ps i"
proof (induction ps)
  case (Cons p ps)
  then show ?case by (cases "k_proc k p") simp_all
qed simp

lemma getProcess_cong: "k_proc k' = k_proc k \<Longrightarrow> k_list k' = k_list k \<Longrightarrow> getProcess k' i = getProcess k i"
  using findProcess_cong [of k' k "k_list k" i] by (simp add: getProcess_def)

lemma getProcess_wf:
  assumes "kwf k"
  shows "\<exists>p. getProcess k pid = Some p \<and> (p \<noteq> 0 \<longrightarrow> p \<in> set (k_list k) \<and> map_option pr_pid (k_proc k p) = Some pid)"
proof (cases "pid = 0")
  case False
  have "k_proc k p \<noteq> None" if "p \<in> set (k_list k)" for p using assms that by (auto simp: kwf_def)
  from findProcess_wf [OF this] False show ?thesis
    by (auto simp: getProcess_def find_Some_iff split: option.splits)
qed (simp add: getProcess_def)

lemma reap_unlock:
  assumes "\<not> k_lock k"
  shows "map_option (\<lambda>(r, st, k2). (r, st, schedRelease k2)) (reap u (k\<lparr>k_lock := True\<rparr>)) = reap u k"
proof (cases "k_thread k u")
  case (Some x)
  then show ?thesis using assms
    by (cases "platformCleanThread (th_context x) (th_highest x) (k_vm k)")
       (simp_all add: reap_def schedRelease_def upd_thread_def)
qed (simp add: reap_def)

lemma reap_shape:
  assumes "reap u k = Some (r, st, k')"
  shows "k_thread k' = k_thread (upd_thread u (\<lambda>x. x\<lparr>th_clean := True\<rparr>) k)"
  using assms by (auto simp: reap_def split: bind_splits)

text \<open>
  C19: waiting for one process. \<open>waitpid()\<close> returns the thread number and exit status of the first
  zombie thread of the process whose status was not read yet, marks exactly that one as read and
  releases its address space, so every status is delivered once and in order; with none left it
  returns zero and changes nothing. The scheduler lock is free afterwards.
\<close>

theorem waitpid_reaps_once:
  assumes wf: "kwf k" "\<not> k_lock k" and t: "k_thread k t = Some x" "getProcess k (th_pid x) = Some p" "p \<noteq> 0"
    and q: "0 < pid" "getProcess k pid = Some q" "q \<noteq> 0" "k_proc k q = Some qx" "distinct (pr_threads qx)"
  shows "waitpid t pid k = (case unreaped k (pr_threads qx) of [] \<Rightarrow> Some (0, None, k) | u # _ \<Rightarrow> reap u k) \<and>
    (\<forall>u us r st k'. unreaped k (pr_threads qx) = u # us \<longrightarrow> waitpid t pid k = Some (r, st, k') \<longrightarrow>
       unreaped k' (pr_threads qx) = us)"
proof -
  have mem: "q \<in> set (k_list k)" using getProcess_wf [OF wf(1), of pid] q(2,3) by auto
  let ?k = "k\<lparr>k_lock := True\<rparr>"
  have gp: "getProcess ?k i = getProcess k i" for i by (rule getProcess_cong) simp_all
  have un: "unreaped ?k ts = unreaped k ts" for ts by (simp add: unreaped_def)
  have "processStatus_loop (pr_threads qx) ?k =
      (case unreaped ?k (pr_threads qx) of [] \<Rightarrow> Some (0, None, ?k) | t # _ \<Rightarrow> reap t ?k)"
    by (rule processStatus_loop_eq) (use wf mem q(4) in \<open>auto simp: kwf_def\<close>)
  moreover have "schedRelease ?k = k" using wf(2) by (simp add: schedRelease_def)
  moreover have "waitpid t pid k = map_option (\<lambda>(r, st, k2). (r, st, schedRelease k2)) (processStatus_loop (pr_threads qx) ?k)"
    using t q wf(2) by (cases "processStatus_loop (pr_threads qx) ?k")
      (auto simp: waitpid_def schedLock_def gp processStatus_def)
  ultimately have w: "waitpid t pid k = (case unreaped k (pr_threads qx) of [] \<Rightarrow> Some (0, None, k) | u # _ \<Rightarrow> reap u k)"
    using reap_unlock [OF wf(2)] by (simp add: un split: list.splits)
  moreover have "unreaped k' (pr_threads qx) = us"
    if a: "unreaped k (pr_threads qx) = u # us" "waitpid t pid k = Some (r, st, k')" for u us r st k'
  proof -
    have "unreaped k' (pr_threads qx) = unreaped (upd_thread u (\<lambda>x. x\<lparr>th_clean := True\<rparr>) k) (pr_threads qx)"
      using reap_shape [of u k r st k'] a w by (simp add: unreaped_def)
    with unreaped_clean [OF q(5) a(1)] show ?thesis by simp
  qed
  ultimately show ?thesis by blast
qed

section \<open>Termination\<close>

lemma adopt_idem [simp]: "adopt l (adopt l x) = adopt l x"
  by (simp add: adopt_def)

lemma orphanChildren_eq:
  assumes "k_proc k 0 = None" and "\<And>c. c \<in> set cs \<Longrightarrow> c \<noteq> 0 \<Longrightarrow> k_proc k c \<noteq> None"
  shows "orphanChildren cs k =
    Some (k\<lparr>k_proc := (\<lambda>c. if c \<in> set cs then map_option (adopt (k_lumen k)) (k_proc k c) else k_proc k c)\<rparr>)"
  using assms
proof (induction cs arbitrary: k)
  case Nil
  then show ?case by simp
next
  case (Cons c cs)
  show ?case
  proof (cases "c = 0")
    case True
    have "(\<lambda>d. if d \<in> set cs then map_option (adopt (k_lumen k)) (k_proc k d) else k_proc k d) =
      (\<lambda>d. if d \<in> set (0 # cs) then map_option (adopt (k_lumen k)) (k_proc k d) else k_proc k d)"
      using Cons.prems(1) by auto
    with True Cons.IH [of k] Cons.prems show ?thesis by simp
  next
    case False
    then obtain x where x: "k_proc k c = Some x" using Cons.prems(2) [of c] by auto
    let ?k = "k\<lparr>k_proc := (k_proc k)(c \<mapsto> adopt (k_lumen k) x)\<rparr>"
    have up: "upd_proc c (\<lambda>x. x\<lparr>pr_orphan := True, pr_parent := k_lumen k\<rparr>) k = ?k"
      using x by (simp add: upd_proc_def adopt_def)
    have "orphanChildren cs ?k = Some (?k\<lparr>k_proc := (\<lambda>d. if d \<in> set cs
        then map_option (adopt (k_lumen ?k)) (k_proc ?k d) else k_proc ?k d)\<rparr>)"
      by (rule Cons.IH) (use Cons.prems False in auto)
    moreover have "(\<lambda>d. if d \<in> set cs then map_option (adopt (k_lumen k)) (k_proc ?k d) else k_proc ?k d) =
      (\<lambda>d. if d \<in> set (c # cs) then map_option (adopt (k_lumen k)) (k_proc k d) else k_proc k d)"
      using x by (auto intro!: ext)
    ultimately show ?thesis using False x up by (simp cong: if_cong)
  qed
qed

lemma scanZombies_eq:
  assumes "\<And>t. t \<in> set ts \<Longrightarrow> k_thread k t \<noteq> None"
  shows "ts \<noteq> [] \<Longrightarrow> scanZombies k ts z =
    Some (\<forall>t \<in> set ts. map_option th_status (k_thread k t) = Some THREAD_ZOMBIE)"
  using assms
proof (induction ts arbitrary: z)
  case (Cons t ts)
  then obtain x where x: "k_thread k t = Some x" by (metis list.set_intros(1) option.exhaust)
  show ?case
  proof (cases "ts = []")
    case True
    with x show ?thesis by simp
  next
    case False
    with x Cons.IH [of True] Cons.prems show ?thesis by simp
  qed
qed simp

lemma terminateThread_spec:
  assumes wf: "kwf k" and x: "k_thread k t = Some x" and lumen: "th_pid x \<noteq> k_lumen k" "th_tid x \<noteq> k_lumen k"
    and p: "getProcess k (th_pid x) = Some p" "p \<noteq> 0" "k_proc k p = Some px"
    and ts: "t \<in> set (pr_threads px)" "0 \<notin> set (pr_threads px)"
  shows "\<exists>k' z. terminateThread t status normal k = Some k' \<and>
    k_thread k' = (k_thread k)(t \<mapsto> zombie status normal x) \<and>
    z = (\<forall>u \<in> set (pr_threads px). map_option th_status (k_thread k' u) = Some THREAD_ZOMBIE) \<and>
    (\<forall>c. k_proc k' c =
       map_option (if z \<and> c \<in> set (pr_children px) then adopt (k_lumen k) else id)
         (((k_proc k)(p \<mapsto> px\<lparr>pr_zombie := z\<rparr>)) c))"
proof -
  let ?k1 = "k\<lparr>k_thread := (k_thread k)(t \<mapsto> zombie status normal x)\<rparr>"
  have mem: "p \<in> set (k_list k)" using getProcess_wf [OF wf, of "th_pid x"] p by auto
  have k1: "upd_thread t (\<lambda>x. x\<lparr>th_status := THREAD_ZOMBIE, th_normalExit := normal,
      th_exitStatus := (if normal then status AND 0xFF OR EXIT_NORMAL else status AND 0xFF)\<rparr>) k = ?k1"
    using x by (simp add: upd_thread_def zombie_def)
  have gp: "getProcess ?k1 (th_pid x) = Some p" using p(1) getProcess_cong [of ?k1 k "th_pid x"] by simp
  have th: "k_thread ?k1 u \<noteq> None" if "u \<in> set (pr_threads px)" for u
  proof -
    have "u \<noteq> 0" using that ts(2) by metis
    then show ?thesis using wf mem p(3) that by (auto simp: kwf_def)
  qed
  define z where "z \<longleftrightarrow> (\<forall>u \<in> set (pr_threads px). map_option th_status (k_thread ?k1 u) = Some THREAD_ZOMBIE)"
  have "pr_threads px \<noteq> []" using ts(1) by auto
  then have sc: "scanZombies ?k1 (pr_threads px) b = Some z" for b
    unfolding z_def by (intro scanZombies_eq) (use th in auto)
  let ?k2 = "?k1\<lparr>k_proc := (k_proc k)(p \<mapsto> px\<lparr>pr_zombie := z\<rparr>)\<rparr>"
  have k2: "upd_proc p (\<lambda>x. x\<lparr>pr_zombie := z\<rparr>) ?k1 = ?k2" using p(3) by (simp add: upd_proc_def)
  have ch: "k_proc ?k2 c \<noteq> None" if "c \<in> set (pr_children px)" "c \<noteq> 0" for c
    using wf mem p(3) that by (auto simp: kwf_def)
  have z0: "k_proc ?k2 0 = None" using wf p(2) by (simp add: kwf_def)
  have run: "terminateThread t status normal k =
      (if z then orphanChildren (pr_children px) ?k2 else Some ?k2)"
    using x lumen p(2,3) k1 gp sc k2 by (simp add: terminateThread_def)
  show ?thesis
  proof (cases z)
    case False
    then have "terminateThread t status normal k = Some ?k2" using run by simp
    moreover have "z = (\<forall>u \<in> set (pr_threads px). map_option th_status (k_thread ?k2 u) = Some THREAD_ZOMBIE)"
      by (simp add: z_def)
    moreover have "\<forall>c. k_proc ?k2 c =
       map_option (if z \<and> c \<in> set (pr_children px) then adopt (k_lumen k) else id)
         (((k_proc k)(p \<mapsto> px\<lparr>pr_zombie := z\<rparr>)) c)"
      using False by (simp add: option.map_id)
    moreover have "k_thread ?k2 = (k_thread k)(t \<mapsto> zombie status normal x)" by simp
    ultimately show ?thesis by blast
  next
    case True
    let ?k3 = "?k2\<lparr>k_proc := (\<lambda>c. if c \<in> set (pr_children px) then map_option (adopt (k_lumen ?k2)) (k_proc ?k2 c) else k_proc ?k2 c)\<rparr>"
    have "terminateThread t status normal k = Some ?k3"
      using run True orphanChildren_eq [OF z0, of "pr_children px"] ch by simp
    moreover have "\<forall>c. k_proc ?k3 c =
       map_option (if z \<and> c \<in> set (pr_children px) then adopt (k_lumen k) else id)
         (((k_proc k)(p \<mapsto> px\<lparr>pr_zombie := z\<rparr>)) c)"
      using True by (simp add: option.map_id)
    moreover have "z = (\<forall>u \<in> set (pr_threads px). map_option th_status (k_thread ?k3 u) = Some THREAD_ZOMBIE)"
      by (simp add: z_def)
    moreover have "k_thread ?k3 = (k_thread k)(t \<mapsto> zombie status normal x)" by simp
    ultimately show ?thesis by blast
  qed
qed

text \<open>
  C18: terminating a thread that is not lumen. The thread becomes a zombie with the low byte of
  its status, no other thread changes; its process becomes a zombie exactly when all of its
  threads are, and then, and only then, every child is marked an orphan and handed to lumen.
\<close>

theorem terminateThread_effect:
  assumes wf: "kwf k" and x: "k_thread k t = Some x" and lumen: "th_pid x \<noteq> k_lumen k" "th_tid x \<noteq> k_lumen k"
    and p: "getProcess k (th_pid x) = Some p" "p \<noteq> 0" "k_proc k p = Some px"
    and ts: "t \<in> set (pr_threads px)" "0 \<notin> set (pr_threads px)"
  shows "\<exists>k' z. terminateThread t status normal k = Some k' \<and>
    k_thread k' = (k_thread k)(t \<mapsto> zombie status normal x) \<and>
    z = (\<forall>u \<in> set (pr_threads px). map_option th_status (k_thread k' u) = Some THREAD_ZOMBIE) \<and>
    (\<forall>c. k_proc k' c =
       map_option (if z \<and> c \<in> set (pr_children px) then adopt (k_lumen k) else id)
         (((k_proc k)(p \<mapsto> px\<lparr>pr_zombie := z\<rparr>)) c))"
  using assms by (rule terminateThread_spec)

lemma kernel_ex_wf: "kwf kernel_ex"
  by (simp add: kwf_def kernel_ex_def process0_def)

theorem terminateThread_effect_witness:
  "\<exists>k'. terminateThread 21 7 True kernel_ex = Some k' \<and>
     map_option th_exitStatus (k_thread k' 21) = Some 0x107 \<and> map_option pr_zombie (k_proc k' 20) = Some True"
proof -
  have x: "k_thread kernel_ex 21 = Some (thread0\<lparr>th_pid := 2, th_tid := 2\<rparr>)"
    and p: "getProcess kernel_ex 2 = Some 20"
    and q: "k_proc kernel_ex 20 = Some (process0\<lparr>pr_pid := 2, pr_parent := 1, pr_threads := [21]\<rparr>)"
    by (simp_all add: kernel_ex_def getProcess_def process0_def)
  from terminateThread_effect [OF kernel_ex_wf x _ _ _ _ q, of 7 True] p
  show ?thesis by (auto simp: kernel_ex_def zombie_def EXIT_NORMAL_def process0_def)
qed

theorem allocatePid_fresh_witness:
  "\<exists>pid k'. allocatePid [0, 99999, 5] kernel0 = Some (pid, k') \<and> \<not> pidIsUsed kernel0 pid \<and> 0 < pid"
proof -
  have "pidIsUsed kernel0 0" "\<not> pidIsUsed kernel0 (5 mod MAX_PID)"
    by (simp_all add: pidIsUsed_bit kernel0_def MAX_PID_def)
  then show ?thesis
    using allocatePid_fresh [of kernel0 "[0, 99999, 5]"] by (auto simp: kernel0_def MAX_PID_def)
qed

theorem sleeper_wakes_on_time_witness:
  "\<exists>k'. ticks 2 (kernel_ex\<lparr>k_sleeping := [21],
      k_thread := (k_thread kernel_ex)(21 \<mapsto> thread0\<lparr>th_status := THREAD_SLEEP, th_time := 2\<rparr>)\<rparr>) = Some k' \<and>
    map_option th_status (k_thread k' 21) = Some THREAD_QUEUED"
  using sleeper_wakes_on_time [of "kernel_ex\<lparr>k_sleeping := [21],
      k_thread := (k_thread kernel_ex)(21 \<mapsto> thread0\<lparr>th_status := THREAD_SLEEP, th_time := 2\<rparr>)\<rparr>" 21 _ 2 2]
  by (auto simp: sleepers_ok_def kernel_ex_def)

theorem waitpid_reaps_once_witness:
  "\<exists>k'. waitpid 11 2 (upd_thread 21 (zombie 7 True) kernel_ex) = Some (2, Some 0x107, k') \<and> unreaped k' [21] = []"
proof -
  let ?k = "upd_thread 21 (zombie 7 True) kernel_ex"
  have wf: "kwf ?k" by (simp add: kwf_def kernel_ex_def process0_def upd_thread_def)
  have x: "k_thread ?k 11 = Some (thread0\<lparr>th_pid := 1, th_tid := 1\<rparr>)"
    and p: "getProcess ?k 1 = Some 10" "getProcess ?k 2 = Some 20"
    and q: "k_proc ?k 20 = Some (process0\<lparr>pr_pid := 2, pr_parent := 1, pr_threads := [21]\<rparr>)"
    and l: "\<not> k_lock ?k" and u: "unreaped ?k [21] = [21]"
    by (simp_all add: kernel_ex_def kernel0_def getProcess_def process0_def unreaped_def thread0_def zombie_def upd_thread_def)
  have r: "\<exists>k'. reap 21 ?k = Some (2, Some 0x107, k')"
    by (simp add: reap_def kernel_ex_def kernel0_def zombie_def thread0_def platformCleanThread_def EXIT_NORMAL_def
        upd_thread_def)
  from waitpid_reaps_once [OF wf l x _ _ _ p(2) _ q] p(1) u r show ?thesis by fastforce
qed

end
