(* ===== verification/Signal.thy ===== *)
theory Signal
  imports Sched
begin

text \<open>
  Signals, \<^verbatim>\<open>src/src/ipc/signal.c\<close> with the context switch of
  \<^verbatim>\<open>src/src/platform/x86_64/ipc/signal.c\<close>. A signal queue, linked through \<open>next\<close> in C, is the
  list of its entries. The writes of the dispatch into the user's memory (the information
  structure, the copied context, the trampoline on the stack) go to the bytes of the thread's address space; the page faults
  they may raise are left out.
\<close>

section \<open>Data\<close>

definition SIG_DFL :: u64 where "SIG_DFL = 0"
definition SIG_HOLD :: u64 where "SIG_HOLD = 2"
definition SIG_IGN :: u64 where "SIG_IGN = 3"

definition SIG_T :: int where "SIG_T = 1"
definition SIG_A :: int where "SIG_A = 2"
definition SIG_C :: int where "SIG_C = 3"
definition SIG_S :: int where "SIG_S = 4"
definition SIG_I :: int where "SIG_I = 5"

definition SIGABRT :: int where "SIGABRT = 1"
definition SIGFPE :: int where "SIGFPE = 2"
definition SIGILL :: int where "SIGILL = 3"
definition SIGINT :: int where "SIGINT = 4"
definition SIGSEGV :: int where "SIGSEGV = 5"
definition SIGTERM :: int where "SIGTERM = 6"
definition SIGALRM :: int where "SIGALRM = 7"
definition SIGBUS :: int where "SIGBUS = 8"
definition SIGCHLD :: int where "SIGCHLD = 9"
definition SIGCONT :: int where "SIGCONT = 10"
definition SIGHUP :: int where "SIGHUP = 11"
definition SIGKILL :: int where "SIGKILL = 12"
definition SIGPIPE :: int where "SIGPIPE = 13"
definition SIGQUIT :: int where "SIGQUIT = 14"
definition SIGSTOP :: int where "SIGSTOP = 15"
definition SIGUSR1 :: int where "SIGUSR1 = 19"
definition SIGUSR2 :: int where "SIGUSR2 = 20"
definition SIGPOLL :: int where "SIGPOLL = 21"
definition SIGSYS :: int where "SIGSYS = 22"
definition SIGTRAP :: int where "SIGTRAP = 23"
definition SIGURG :: int where "SIGURG = 24"
definition SIGVTALRM :: int where "SIGVTALRM = 25"
definition SIGXCPU :: int where "SIGXCPU = 26"
definition SIGXFSZ :: int where "SIGXFSZ = 27"

definition SIG_BLOCK :: int where "SIG_BLOCK = 1"
definition SIG_UNBLOCK :: int where "SIG_UNBLOCK = 2"
definition SIG_SETMASK :: int where "SIG_SETMASK = 3"

lemmas signal_numbers = SIGABRT_def SIGFPE_def SIGILL_def SIGINT_def SIGSEGV_def SIGTERM_def SIGALRM_def
  SIGBUS_def SIGCHLD_def SIGCONT_def SIGHUP_def SIGKILL_def SIGPIPE_def SIGQUIT_def SIGSTOP_def SIGUSR1_def
  SIGUSR2_def SIGPOLL_def SIGSYS_def SIGTRAP_def SIGURG_def SIGVTALRM_def SIGXCPU_def SIGXFSZ_def

lemmas signal_actions = SIG_T_def SIG_A_def SIG_C_def SIG_S_def SIG_I_def SIG_DFL_def SIG_HOLD_def SIG_IGN_def

section \<open>Signal sets\<close>

definition sigemptyset :: "int \<times> u64" where
  "sigemptyset = (0, 0)"

definition sigfillset :: "int \<times> u64" where
  "sigfillset = (0, foldl (\<lambda>ss i. ss OR push_bit i 1) 0 [0..<nat MAX_SIGNAL])"

definition sigaddset :: "u64 \<Rightarrow> int \<Rightarrow> int \<times> u64" where
  "sigaddset ss signum =
     (if signum \<le> 0 \<or> signum > MAX_SIGNAL then (- EINVAL, ss)
      else (0, ss OR push_bit (nat signum) 1))"

definition sigdelset :: "u64 \<Rightarrow> int \<Rightarrow> int \<times> u64" where
  "sigdelset ss signum =
     (if signum \<le> 0 \<or> signum > MAX_SIGNAL then (- EINVAL, ss)
      else (0, ss AND NOT (push_bit (nat signum) 1)))"

definition sigismember :: "u64 \<Rightarrow> int \<Rightarrow> int" where
  "sigismember ss signum =
     (if signum \<le> 0 \<or> signum > MAX_SIGNAL then - EINVAL
      else if ss AND push_bit (nat signum) 1 \<noteq> 0 then 1 else 0)"

section \<open>Handlers\<close>

text \<open>
  \<open>junk\<close> is the content of the \<open>MAX_SIGNAL+1\<close> structures that \<open>malloc()\<close> returned; the loop
  sets the handler of all but the last and leaves the other fields alone.
\<close>

definition signalDefaults :: "sigaction list \<Rightarrow> kernel \<Rightarrow> sigaction list option \<times> kernel" where
  "signalDefaults junk k =
     (let (ptr, k') = kalloc k in
      (if ptr = 0 then None
       else Some (map (\<lambda>(i, a). if int i < MAX_SIGNAL then a\<lparr>sa_handler := SIG_DFL\<rparr> else a)
              (enumerate 0 junk)), k'))"

definition signalDefaultHandler :: "int \<Rightarrow> int" where
  "signalDefaultHandler signum =
     (if signum \<in> {SIGABRT, SIGBUS, SIGFPE, SIGILL, SIGQUIT, SIGSEGV, SIGSYS, SIGTRAP, SIGXCPU, SIGXFSZ}
      then SIG_A
      else if signum \<in> {SIGALRM, SIGHUP, SIGINT, SIGKILL, SIGPIPE, SIGTERM, SIGUSR1, SIGUSR2, SIGPOLL, SIGVTALRM}
      then SIG_T
      else if signum \<in> {SIGCHLD, SIGURG} then SIG_I
      else if signum = SIGCONT then SIG_C
      else 0)"

definition signalClone :: "sigaction list \<Rightarrow> sigaction list option \<Rightarrow> kernel \<Rightarrow> sigaction list option \<times> kernel" where
  "signalClone junk h k =
     (case h of
        None \<Rightarrow> signalDefaults junk k
      | Some hs \<Rightarrow> (let (new, k') = kalloc k in (if new = 0 then None else Some hs, k')))"

section \<open>Sending\<close>

text \<open>The branch of \<open>kill()\<close> for one thread, also taken by the calls it makes for a group.\<close>

definition killOne :: "ptr \<Rightarrow> int \<Rightarrow> int \<Rightarrow> kernel \<Rightarrow> (int \<times> kernel) option" where
  "killOne t tid sig k =
     do { dest \<leftarrow> getThread k tid;
          if dest = 0 then Some (- ESRCH, k)
          else if sig = 0 then Some (0, k)
          else (let (s, k1) = kalloc k in
            if s = 0 then Some (- ENOMEM, k1)
            else Some (0, upd_thread dest (\<lambda>x. x\<lparr>th_signalQueue := th_signalQueue x @ [(sig, t)]\<rparr>) k1)) }"

fun killThreads :: "ptr \<Rightarrow> ptr list \<Rightarrow> int \<Rightarrow> kernel \<Rightarrow> (int \<times> kernel) option" where
  "killThreads t [] sig k = Some (0, k)"
| "killThreads t (d # ds) sig k =
     (if d = 0 then killThreads t ds sig k
      else do { x \<leftarrow> k_thread k d;
                (status, k1) \<leftarrow> killOne t (th_tid x) sig k;
                if status \<noteq> 0 then Some (status, k1) else killThreads t ds sig k1 })"

fun killChildren :: "ptr \<Rightarrow> ptr list \<Rightarrow> int \<Rightarrow> kernel \<Rightarrow> (int \<times> kernel) option" where
  "killChildren t [] sig k = Some (0, k)"
| "killChildren t (c # cs) sig k =
     (if c = 0 then killChildren t cs sig k
      else do { x \<leftarrow> k_proc k c;
                (status, k1) \<leftarrow> killThreads t (pr_threads x) sig k;
                if status \<noteq> 0 then Some (status, k1) else killChildren t cs sig k1 })"

definition kill :: "ptr \<Rightarrow> int \<Rightarrow> int \<Rightarrow> kernel \<Rightarrow> (int \<times> kernel) option" where
  "kill t pid sig k =
     (if sig < 0 \<or> sig > MAX_SIGNAL then Some (- EINVAL, k)
      else if pid = -1 then Some (- EPERM, k)
      else do {
        group \<leftarrow> (if pid < -1 then Some (- pid)
                    else if pid = 0 then map_option th_pid (k_thread k t) else Some 0);
        if group \<noteq> 0 then do {
          parent \<leftarrow> getProcess k group;
          if parent = 0 then Some (- ESRCH, k)
          else if sig = 0 then Some (0, k)
          else do {
            px \<leftarrow> k_proc k parent;
            (status, k1) \<leftarrow> killThreads t (pr_threads px) sig k;
            if status \<noteq> 0 then Some (status, k1)
            else if pr_threads px = [] then Some (0, k1)
            else killChildren t (pr_children px) sig k1 } }
        else killOne t pid sig k })"

section \<open>Delivery\<close>

definition platformUseContext :: "ThreadContext \<Rightarrow> kernel \<Rightarrow> kernel" where
  "platformUseContext c k = k\<lparr>k_vm := (k_vm k)\<lparr>vm_cr3 := cx_cr3 c\<rparr>\<rparr>"

text \<open>
  The image of a context in memory, and the \<open>siginfo\<close> fields the kernel sets: \<open>si_signo\<close>, \<open>si_code\<close>,
  \<open>si_pid\<close> and \<open>si_uid\<close> at their offsets in the structure.
\<close>

definition contextBytes :: "ThreadContext \<Rightarrow> u8 list" where
  "contextBytes c = cx_sse c @ concat (map bytesOf [cx_cr3 c, cx_r15 c, cx_r14 c, cx_r13 c, cx_r12 c, cx_r11 c,
     cx_r10 c, cx_r9 c, cx_r8 c, cx_rbp c, cx_rdi c, cx_rsi c, cx_rdx c, cx_rcx c, cx_rbx c, cx_rax c, cx_rip c,
     cx_cs c, cx_rflags c, cx_rsp c, cx_ss c]) @ take 4 (bytesOf (if cx_iopl c then 1 else 0)) @ map (cx_ioports c) [0..<8192]"

definition user_write32 :: "u64 \<Rightarrow> int \<Rightarrow> kernel \<Rightarrow> kernel" where
  "user_write32 a v = user_write a (take 4 (bytesOf (of_int v)))"

definition writeSiginfo :: "u64 \<Rightarrow> int \<Rightarrow> int \<Rightarrow> int \<Rightarrow> kernel \<Rightarrow> kernel" where
  "writeSiginfo a signum pid uid k =
     user_write32 (a + 4) 0 (user_write32 (a + 20) uid (user_write32 (a + 16) pid (user_write32 a signum k)))"

text \<open>Thread number and user of the sender; both are zero for a signal of the kernel.\<close>

definition senderInfo :: "ptr \<Rightarrow> kernel \<Rightarrow> (int \<times> int) option" where
  "senderInfo sender k =
     (if sender = 0 then Some (0, 0)
      else do { s \<leftarrow> k_thread k sender;
                p \<leftarrow> getProcess k (th_pid s);
                if p = 0 then Some (th_tid s, 0) else do { px \<leftarrow> k_proc k p; Some (th_tid s, pr_user px) } })"

definition platformSendSignal :: "ptr \<Rightarrow> ptr \<Rightarrow> int \<Rightarrow> u64 \<Rightarrow> kernel \<Rightarrow> kernel option" where
  "platformSendSignal sender dest signum handler k =
     do { x \<leftarrow> k_thread k dest;
          let c = th_context x;
          let k1 = platformUseContext c k;
          (pid, uid) \<leftarrow> senderInfo sender k;
          let k2 = user_write (th_signalUserContext x) (contextBytes c) (writeSiginfo (th_siginfo x) signum pid uid k1);
          let rsp = (cx_rsp c - 128) AND NOT 15;
          Some (user_write rsp (bytesOf (th_signalTrampoline x))
            (upd_thread dest (\<lambda>x. x\<lparr>th_signalContext := c,
              th_context := c\<lparr>cx_rip := handler, cx_rdi := of_int signum, cx_rsi := th_siginfo x,
                cx_rdx := th_signalUserContext x, cx_rflags := 0x202, cx_rsp := rsp, cx_rbp := rsp\<rparr>\<rparr>) k2)) }"

definition platformSigreturn :: "ptr \<Rightarrow> kernel \<Rightarrow> kernel" where
  "platformSigreturn t = upd_thread t (\<lambda>x. x\<lparr>th_context := th_signalContext x\<rparr>)"

definition signalHandle :: "ptr \<Rightarrow> kernel \<Rightarrow> kernel option" where
  "signalHandle t k =
     do { x \<leftarrow> k_thread k t;
          if th_handlingSignal x then Some k else
          (case th_signalQueue x of
             [] \<Rightarrow> Some k
           | (signum, sender) # rest \<Rightarrow>
             do { let k1 = upd_thread t (\<lambda>x. x\<lparr>th_signalQueue := rest\<rparr>) k;
                  handlers \<leftarrow> th_signals x;
                  let handler = sa_handler (handlers ! nat (signum - 1));
                  if sigismember (th_signalMask x) signum \<noteq> 0 then Some k1
                  else if handler = SIG_IGN \<or> handler = SIG_HOLD then Some k1
                  else do {
                    let def = (if handler = SIG_DFL then signalDefaultHandler signum else 0);
                    if def = SIG_I \<or> def = SIG_C then Some k1
                    else if def = SIG_T \<or> def = SIG_A \<or> def = SIG_S then terminateThread t (-1) True k1
                    else platformSendSignal sender t signum handler
                           (upd_thread t (\<lambda>x. x\<lparr>th_handlingSignal := True\<rparr>) k1) } }) }"

section \<open>Control\<close>

text \<open>\<open>act\<close> and \<open>want\<close> say whether the pointers are null; the old handler is returned when wanted.\<close>

definition sigaction_call :: "ptr \<Rightarrow> int \<Rightarrow> sigaction option \<Rightarrow> bool \<Rightarrow> kernel
    \<Rightarrow> (int \<times> sigaction option \<times> kernel) option" where
  "sigaction_call t sig act want k =
     (if sig \<le> 0 \<or> sig > MAX_SIGNAL then Some (- EINVAL, None, k)
      else do {
        x \<leftarrow> k_thread k t;
        case act of
          None \<Rightarrow> (if \<not> want then Some (0, None, k)
                   else do { hs \<leftarrow> th_signals x; Some (0, Some (hs ! nat (sig - 1)), k) })
        | Some a \<Rightarrow>
            (if sa_handler a \<noteq> SIG_DFL \<and> sa_handler a \<noteq> SIG_IGN \<and> sa_handler a < USER_BASE_ADDRESS
             then Some (- EINVAL, None, k)
             else do {
               hs \<leftarrow> th_signals x;
               Some (0, if want then Some (hs ! nat (sig - 1)) else None,
                 upd_thread t (\<lambda>x. x\<lparr>th_signals := Some (hs[nat (sig - 1) := a])\<rparr>) k) }) })"

definition sigreturn :: "ptr \<Rightarrow> kernel \<Rightarrow> kernel option" where
  "sigreturn t k =
     do { x \<leftarrow> k_thread k t;
          if \<not> th_handlingSignal x then Some k
          else Some (upd_thread t (\<lambda>x. x\<lparr>th_handlingSignal := False\<rparr>) (platformSigreturn t k)) }"

definition unmask :: "u64 \<Rightarrow> u64" where
  "unmask m = foldl (\<lambda>m s. snd (sigdelset m s)) m [SIGFPE, SIGILL, SIGSEGV, SIGBUS]"

definition sigprocmask :: "ptr \<Rightarrow> int \<Rightarrow> u64 option \<Rightarrow> kernel \<Rightarrow> (int \<times> u64 option \<times> kernel) option" where
  "sigprocmask t how ss k =
     do { x \<leftarrow> k_thread k t;
          let old = th_signalMask x;
          case ss of
            None \<Rightarrow> Some (0, Some old, k)
          | Some s \<Rightarrow>
              (if how = SIG_SETMASK then Some (0, Some old, upd_thread t (\<lambda>x. x\<lparr>th_signalMask := unmask s\<rparr>) k)
               else if how = SIG_BLOCK
               then Some (0, Some old, upd_thread t (\<lambda>x. x\<lparr>th_signalMask := unmask (old OR s)\<rparr>) k)
               else if how = SIG_UNBLOCK
               then Some (0, Some old, upd_thread t (\<lambda>x. x\<lparr>th_signalMask := unmask (old AND NOT s)\<rparr>) k)
               else Some (- EINVAL, None, k)) }"

section \<open>Specification vocabulary\<close>

definition queue_signal :: "(int \<times> ptr) list \<Rightarrow> Thread \<Rightarrow> Thread" where
  "queue_signal q x = x\<lparr>th_signalQueue := th_signalQueue x @ q\<rparr>"

text \<open>Thread lookup depends on the thread numbers only.\<close>

definition same_tids :: "kernel \<Rightarrow> kernel \<Rightarrow> bool" where
  "same_tids k k' \<longleftrightarrow> k_list k' = k_list k \<and> k_proc k' = k_proc k \<and>
     (\<forall>t. map_option th_tid (k_thread k' t) = map_option th_tid (k_thread k t))"

text \<open>The state after the threads of \<open>ds\<close> got one more signal each, with \<open>n\<close> allocations made.\<close>

definition signalled :: "ptr list \<Rightarrow> int \<Rightarrow> ptr \<Rightarrow> kernel \<Rightarrow> kernel" where
  "signalled ds sig t k = k\<lparr>k_fresh := k_fresh k + length ds,
     k_thread := (\<lambda>u. map_option (queue_signal (replicate (count_list ds u) (sig, t))) (k_thread k u))\<rparr>"

definition finds :: "kernel \<Rightarrow> ptr \<Rightarrow> bool" where
  "finds k d \<longleftrightarrow> d \<noteq> 0 \<and> (\<exists>x. k_thread k d = Some x \<and> getThread k (th_tid x) = Some d)"

definition signal_ex :: "u64 \<Rightarrow> int \<Rightarrow> kernel" where
  "signal_ex h s = kernel_ex\<lparr>k_thread := (k_thread kernel_ex)(21 \<mapsto> thread0\<lparr>th_pid := 2, th_tid := 2,
     th_signalQueue := [(s, 11)], th_signals := Some (replicate 28 \<lparr>sa_handler = h, sa_mask = 0, sa_flags = 0\<rparr>)\<rparr>)\<rparr>"

section \<open>Signal sets\<close>

lemma sigismember_bit: "0 < s \<Longrightarrow> s \<le> MAX_SIGNAL \<Longrightarrow> sigismember m s = (if bit m (nat s) then 1 else 0)"
  using and_exp_iff [of m "nat s"] by (simp add: sigismember_def)

lemma nat_signal_less: "s \<le> MAX_SIGNAL \<Longrightarrow> nat s < 64"
  by (simp add: MAX_SIGNAL_def)

text \<open>
  the operations on signal sets. For every supported signal, adding or removing it succeeds
  and decides exactly its own membership; for any other number they are refused and the set is
  unchanged.
\<close>

theorem sigset_operations:
  "(if 0 < s \<and> s \<le> MAX_SIGNAL
    then fst (sigaddset m s) = 0 \<and> fst (sigdelset m s) = 0 \<and>
      (\<forall>u. 0 < u \<and> u \<le> MAX_SIGNAL \<longrightarrow>
         sigismember (snd (sigaddset m s)) u = (if u = s then 1 else sigismember m u) \<and>
         sigismember (snd (sigdelset m s)) u = (if u = s then 0 else sigismember m u))
    else sigaddset m s = (- EINVAL, m) \<and> sigdelset m s = (- EINVAL, m) \<and> sigismember m s = - EINVAL)"
proof (cases "0 < s \<and> s \<le> MAX_SIGNAL")
  case False
  then show ?thesis by (auto simp: sigaddset_def sigdelset_def sigismember_def)
next
  case True
  have b: "bit (m OR push_bit (nat s) 1) (nat u) \<longleftrightarrow> u = s \<or> bit m (nat u)"
    "bit (m AND NOT (push_bit (nat s) 1)) (nat u) \<longleftrightarrow> u \<noteq> s \<and> bit m (nat u)"
    if "0 < u" "u \<le> MAX_SIGNAL" for u
    using that True nat_signal_less [of u] by (auto simp: bit_simps nat_eq_iff2)
  with True show ?thesis by (auto simp: sigaddset_def sigdelset_def sigismember_bit)
qed

theorem sigset_operations_witness: "sigismember (snd (sigaddset 0 SIGKILL)) SIGKILL = 1"
  using sigset_operations [of SIGKILL 0] by (simp add: signal_numbers MAX_SIGNAL_def)

lemma foldl_or_bits:
  "(\<And>i. i \<in> set is \<Longrightarrow> i < 64) \<Longrightarrow> bit (foldl (\<lambda>ss i. ss OR push_bit i 1) (m :: u64) is) n \<longleftrightarrow> bit m n \<or> n \<in> set is"
  by (induction "is" arbitrary: m) (auto simp: bit_simps)

text \<open>
  \<open>sigfillset()\<close> sets bits 0 to 26 while members are bits 1 to 27: the set it builds contains
  every supported signal except the last one, \<open>SIGXFSZ\<close>.
\<close>

theorem sigfillset_misses_last:
  "0 < s \<and> s \<le> MAX_SIGNAL \<longrightarrow> sigismember (snd sigfillset) s = (if s = SIGXFSZ then 0 else 1)"
proof
  assume s: "0 < s \<and> s \<le> MAX_SIGNAL"
  have "bit (foldl (\<lambda>ss i. ss OR push_bit i 1) (0 :: u64) [0..<nat MAX_SIGNAL]) (nat s) \<longleftrightarrow>
      nat s \<in> set [0..<nat MAX_SIGNAL]"
    by (subst foldl_or_bits) (auto simp: MAX_SIGNAL_def)
  then show "sigismember (snd sigfillset) s = (if s = SIGXFSZ then 0 else 1)"
    using s by (auto simp: sigfillset_def sigismember_bit MAX_SIGNAL_def SIGXFSZ_def)
qed

theorem sigfillset_misses_last_witness: "sigismember (snd sigfillset) 27 = 0"
  using sigfillset_misses_last [of 27] by (simp add: MAX_SIGNAL_def SIGXFSZ_def)

section \<open>Sending to a group\<close>

lemma queue_signal_simps [simp]: "th_tid (queue_signal q x) = th_tid x" "queue_signal [] x = x"
  "queue_signal q (queue_signal r x) = queue_signal (r @ q) x"
  by (simp_all add: queue_signal_def)

lemma findThread_tids:
  "(\<And>t. map_option th_tid (k_thread k' t) = map_option th_tid (k_thread k t)) \<Longrightarrow> findThread k' ts tid = findThread k ts tid"
proof (induction ts)
  case (Cons t ts)
  have e: "map_option th_tid (k_thread k' t) = map_option th_tid (k_thread k t)" by (rule Cons.prems)
  have "findThread k' ts tid = findThread k ts tid" using Cons by blast
  with e show ?case by (cases "k_thread k t"; cases "k_thread k' t") auto
qed simp

lemma getThread_tids: "same_tids k k' \<Longrightarrow> getThread k' tid = getThread k tid"
proof -
  assume s: "same_tids k k'"
  have "findThreadIn k' ps tid = findThreadIn k ps tid" for ps
  proof (induction ps)
    case (Cons p ps)
    have "findThread k' ts tid = findThread k ts tid" for ts
      using s by (intro findThread_tids) (simp add: same_tids_def)
    with s Cons show ?case
      by (cases "k_proc k p") (auto simp: same_tids_def split: Option.bind_split)
  qed simp
  with s show ?thesis by (simp add: getThread_def same_tids_def)
qed

lemma signalled_nil [simp]: "signalled [] sig t k = k"
proof -
  have "(\<lambda>u. map_option (queue_signal []) (k_thread k u)) = k_thread k"
    by (auto simp: option.map_ident fun_eq_iff cong: option.map_cong)
  then show ?thesis by (simp add: signalled_def)
qed

lemma signalled_append: "signalled es sig t (signalled ds sig t k) = signalled (ds @ es) sig t k"
proof -
  have "replicate m x @ replicate n x = replicate (m + n) x" for m n and x :: "int \<times> ptr"
    by (simp add: replicate_add)
  then have "(\<lambda>u. map_option (queue_signal (replicate (count_list es u) (sig, t)))
        (map_option (queue_signal (replicate (count_list ds u) (sig, t))) (k_thread k u))) =
      (\<lambda>u. map_option (queue_signal (replicate (count_list (ds @ es) u) (sig, t))) (k_thread k u))"
    by (auto simp: option.map_comp comp_def fun_eq_iff)
  then show ?thesis by (simp add: signalled_def add.assoc)
qed

lemma same_tids_signalled: "same_tids k (signalled ds sig t k)"
  by (simp add: same_tids_def signalled_def option.map_comp comp_def)

lemma finds_signalled [simp]: "finds (signalled ds sig t k) d = finds k d"
  using getThread_tids [OF same_tids_signalled [of k ds sig t]] by (auto simp: finds_def signalled_def)

lemma killOne_queues:
  assumes "finds k d" "k_thread k d = Some x" "sig \<noteq> 0" "\<not> k_oom k (k_fresh k)" "k_fresh k \<noteq> 0"
  shows "killOne t (th_tid x) sig k = Some (0, signalled [d] sig t k)"
proof -
  have "(k_thread k)(d \<mapsto> queue_signal [(sig, t)] x) =
      (\<lambda>u. map_option (queue_signal (replicate (count_list [d] u) (sig, t))) (k_thread k u))"
    using assms(2) by (auto simp: fun_eq_iff option.map_ident cong: option.map_cong)
  then show ?thesis
    using assms by (auto simp: killOne_def finds_def kalloc_def upd_thread_def signalled_def queue_signal_def)
qed

lemma killThreads_queues:
  assumes "sig \<noteq> 0" "\<And>n. \<not> k_oom k n" "k_fresh k \<noteq> 0"
  shows "(\<And>d. d \<in> set ds \<Longrightarrow> finds k d) \<Longrightarrow> killThreads t ds sig k = Some (0, signalled ds sig t k)"
  using assms
proof (induction ds arbitrary: k)
  case (Cons d ds)
  obtain x where x: "k_thread k d = Some x" "d \<noteq> 0" using Cons.prems(1) [of d] by (auto simp: finds_def)
  have "killThreads t ds sig (signalled [d] sig t k) = Some (0, signalled ds sig t (signalled [d] sig t k))"
  proof (rule Cons.IH)
    show "finds (signalled [d] sig t k) u" if "u \<in> set ds" for u using Cons.prems(1) that by simp
  qed (use Cons.prems in \<open>simp_all add: signalled_def\<close>)
  then show ?case
    using x killOne_queues [OF Cons.prems(1) [of d] x(1)] Cons.prems by (simp add: signalled_append)
qed simp

lemma killChildren_queues:
  assumes "sig \<noteq> 0" "\<And>n. \<not> k_oom k n" "k_fresh k \<noteq> 0"
  shows "(\<And>c. c \<in> set cs \<Longrightarrow> c \<noteq> 0 \<and> (\<exists>x. k_proc k c = Some x \<and> (\<forall>d \<in> set (pr_threads x). finds k d))) \<Longrightarrow>
    killChildren t cs sig k = Some (0, signalled (concat (map (\<lambda>c. pr_threads (the (k_proc k c))) cs)) sig t k)"
  using assms
proof (induction cs arbitrary: k)
  case (Cons c cs)
  obtain x where x: "k_proc k c = Some x" "c \<noteq> 0" "\<forall>d \<in> set (pr_threads x). finds k d" using Cons.prems(1) [of c] by auto
  let ?k = "signalled (pr_threads x) sig t k"
  have p: "k_proc ?k = k_proc k" by (simp add: signalled_def)
  have "killChildren t cs sig ?k = Some (0, signalled (concat (map (\<lambda>c. pr_threads (the (k_proc ?k c))) cs)) sig t ?k)"
  proof (rule Cons.IH)
    show "c \<noteq> 0 \<and> (\<exists>x. k_proc ?k c = Some x \<and> (\<forall>d \<in> set (pr_threads x). finds ?k d))" if "c \<in> set cs" for c
      using Cons.prems(1) [of c] that by (simp add: p)
  qed (use Cons.prems in \<open>simp_all add: signalled_def\<close>)
  moreover have "killThreads t (pr_threads x) sig k = Some (0, ?k)"
    using Cons.prems x(3) by (intro killThreads_queues) auto
  ultimately show ?case using x by (simp add: signalled_append p)
qed simp

text \<open>
  a signal to a process group. When memory lasts, \<open>kill()\<close> with a number below \<open>-1\<close> appends the
  signal to the queue of every thread of that process and of its children, once for every time the
  thread is listed, in front of nothing that was queued before, and touches no other thread.
\<close>

theorem kill_group_queues:
  assumes sig: "0 < sig" "sig \<le> MAX_SIGNAL" and mem: "\<And>n. \<not> k_oom k n" "k_fresh k \<noteq> 0"
    and pid: "pid < -1" "getProcess k (- pid) = Some p" "p \<noteq> 0" "k_proc k p = Some px" "pr_threads px \<noteq> []"
    and ths: "\<forall>d \<in> set (pr_threads px). finds k d"
    and chs: "\<forall>c \<in> set (pr_children px). c \<noteq> 0 \<and> (\<exists>x. k_proc k c = Some x \<and> (\<forall>d \<in> set (pr_threads x). finds k d))"
  shows "\<exists>k'. kill t pid sig k = Some (0, k') \<and> k_proc k' = k_proc k \<and>
    (\<forall>u x. k_thread k u = Some x \<longrightarrow> k_thread k' u = Some (x\<lparr>th_signalQueue := th_signalQueue x @
       replicate (count_list (pr_threads px @ concat (map (\<lambda>c. pr_threads (the (k_proc k c))) (pr_children px))) u) (sig, t)\<rparr>))"
proof -
  let ?ds = "pr_threads px" and ?es = "concat (map (\<lambda>c. pr_threads (the (k_proc k c))) (pr_children px))"
  let ?k1 = "signalled ?ds sig t k"
  have p: "k_proc ?k1 = k_proc k" by (simp add: signalled_def)
  have 1: "killThreads t ?ds sig k = Some (0, ?k1)"
    by (rule killThreads_queues) (use sig mem ths in auto)
  have "killChildren t (pr_children px) sig ?k1 =
      Some (0, signalled (concat (map (\<lambda>c. pr_threads (the (k_proc ?k1 c))) (pr_children px))) sig t ?k1)"
    by (rule killChildren_queues) (use sig mem chs in \<open>auto simp: p\<close>, simp_all add: signalled_def)
  with 1 have "kill t pid sig k = Some (0, signalled (?ds @ ?es) sig t k)"
    using sig pid by (simp add: kill_def signalled_append p)
  then show ?thesis
    by (intro exI [of _ "signalled (?ds @ ?es) sig t k"]) (simp add: signalled_def queue_signal_def)
qed

section \<open>Delivery\<close>

lemma user_write_state [simp]:
  "k_thread (user_write a bs k) = k_thread k" "k_proc (user_write a bs k) = k_proc k"
  "k_list (user_write a bs k) = k_list k"
  by (simp_all add: user_write_def)

lemma writeSiginfo_thread [simp]: "k_thread (writeSiginfo a s p u k) = k_thread k"
  by (simp add: writeSiginfo_def user_write32_def)

lemma senderInfo_cong:
  assumes "k_proc k' = k_proc k" "k_list k' = k_list k"
    and "map_option (\<lambda>s. (th_tid s, th_pid s)) (k_thread k' sender) = map_option (\<lambda>s. (th_tid s, th_pid s)) (k_thread k sender)"
  shows "senderInfo sender k' = senderInfo sender k"
proof (cases "k_thread k sender")
  case (Some s)
  then obtain s' where "k_thread k' sender = Some s'" "th_tid s' = th_tid s" "th_pid s' = th_pid s" using assms(3) by auto
  then show ?thesis using Some getProcess_cong [OF assms(1,2)] assms(1) by (simp add: senderInfo_def cong: if_cong)
qed (use assms in \<open>simp add: senderInfo_def\<close>)

lemma signalHandle_dispatch:
  assumes "k_thread k t = Some x" "\<not> th_handlingSignal x" "th_signalQueue x = (s, sender) # rest"
    "th_signals x = Some hs" "sigismember (th_signalMask x) s = 0" and sender: "senderInfo sender k \<noteq> None"
    and h: "h = sa_handler (hs ! nat (s - 1))" "h \<noteq> SIG_IGN" "h \<noteq> SIG_HOLD"
      "h \<noteq> SIG_DFL \<or> signalDefaultHandler s = 0"
  shows "\<exists>k' y. signalHandle t k = Some k' \<and> k_thread k' = (k_thread k)(t \<mapsto> y) \<and>
    y = x\<lparr>th_signalQueue := rest, th_handlingSignal := True, th_signalContext := th_context x,
          th_context := th_context y\<rparr> \<and> cx_rip (th_context y) = h \<and> cx_rdi (th_context y) = of_int s"
proof -
  let ?c = "th_context x" let ?rsp = "(cx_rsp ?c - 128) AND NOT 15"
  let ?y = "x\<lparr>th_signalQueue := rest, th_handlingSignal := True, th_signalContext := ?c,
      th_context := ?c\<lparr>cx_rip := h, cx_rdi := of_int s, cx_rsi := th_siginfo x,
        cx_rdx := th_signalUserContext x, cx_rflags := 0x202, cx_rsp := ?rsp, cx_rbp := ?rsp\<rparr>\<rparr>"
  let ?k1 = "upd_thread t (\<lambda>x. x\<lparr>th_handlingSignal := True\<rparr>) (upd_thread t (\<lambda>x. x\<lparr>th_signalQueue := rest\<rparr>) k)"
  obtain pid uid where i: "senderInfo sender ?k1 = Some (pid, uid)"
    using sender senderInfo_cong [of ?k1 k sender] assms(1) by (auto simp: upd_thread_def)
  have "signalHandle t k = platformSendSignal sender t s h ?k1"
    using assms by (auto simp: signalHandle_def Let_def signal_actions)
  moreover obtain k' where "platformSendSignal sender t s h ?k1 = Some k'" "k_thread k' = (k_thread k)(t \<mapsto> ?y)"
    using i assms(1) by (simp add: platformSendSignal_def platformUseContext_def upd_thread_def Let_def)
  ultimately show ?thesis by (intro exI [of _ k'] exI [of _ ?y]) simp
qed

text \<open>
  C21: running a handler and returning. When the next signal is not masked, has a user handler and
  its sender still exists,
  \<open>signalHandle()\<close> takes it off the queue and sends the thread to the handler with the signal
  number as its argument; no further signal is delivered until \<open>sigreturn()\<close>, which puts the
  thread back exactly where it was.
\<close>

theorem signal_handler_roundtrip:
  assumes x: "k_thread k t = Some x" "\<not> th_handlingSignal x" "th_signalQueue x = (s, sender) # rest"
    "th_signals x = Some hs" "sigismember (th_signalMask x) s = 0" "senderInfo sender k \<noteq> None"
    and user: "USER_BASE_ADDRESS \<le> sa_handler (hs ! nat (s - 1))"
  shows "\<exists>k' y k''. signalHandle t k = Some k' \<and> k_thread k' t = Some y \<and>
    cx_rip (th_context y) = sa_handler (hs ! nat (s - 1)) \<and> cx_rdi (th_context y) = of_int s \<and>
    signalHandle t k' = Some k' \<and> sigreturn t k' = Some k'' \<and>
    k_thread k'' = (k_thread k)(t \<mapsto> x\<lparr>th_signalQueue := rest, th_signalContext := th_context x\<rparr>)"
proof -
  let ?h = "sa_handler (hs ! nat (s - 1))"
  have "?h \<noteq> SIG_IGN" "?h \<noteq> SIG_HOLD" "?h \<noteq> SIG_DFL"
    using user by (auto simp: signal_actions layout_defs)
  then obtain k' y where k': "signalHandle t k = Some k'" "k_thread k' = (k_thread k)(t \<mapsto> y)"
    and y: "y = x\<lparr>th_signalQueue := rest, th_handlingSignal := True, th_signalContext := th_context x,
          th_context := th_context y\<rparr>" "cx_rip (th_context y) = ?h" "cx_rdi (th_context y) = of_int s"
    using signalHandle_dispatch [OF x refl] by auto
  have hy: "th_handlingSignal y" by (subst y(1)) simp
  have restored: "y\<lparr>th_context := th_signalContext y, th_handlingSignal := False\<rparr> =
      x\<lparr>th_signalQueue := rest, th_signalContext := th_context x\<rparr>"
    by (subst y(1), subst (2) y(1)) (use x(2) in simp)
  have "sigreturn t k' = Some (k'\<lparr>k_thread := (k_thread k)(t \<mapsto> y\<lparr>th_context := th_signalContext y, th_handlingSignal := False\<rparr>)\<rparr>)"
    using hy k'(2) by (simp add: sigreturn_def platformSigreturn_def upd_thread_def)
  moreover have "signalHandle t k' = Some k'" using hy k'(2) by (simp add: signalHandle_def)
  ultimately show ?thesis using k' y(2,3) restored by - (rule exI [of _ k'], rule exI [of _ y], simp)
qed

text \<open>
  the stop signals have no entry in \<open>signalDefaultHandler()\<close>. Delivered with the default
  action, such a signal neither stops nor terminates the thread: it is sent to a handler at
  address zero.
\<close>

theorem stop_signal_jumps_to_zero:
  assumes "k_thread k t = Some x" "\<not> th_handlingSignal x" "th_signalQueue x = (s, sender) # rest"
    "th_signals x = Some hs" "sigismember (th_signalMask x) s = 0" "senderInfo sender k \<noteq> None"
    "sa_handler (hs ! nat (s - 1)) = SIG_DFL" and s: "s \<in> {15, 16, 17, 18}"
  shows "\<exists>k' y. signalHandle t k = Some k' \<and> k_thread k' t = Some y \<and> cx_rip (th_context y) = 0 \<and>
    th_status y = th_status x"
proof -
  have "signalDefaultHandler s = 0" using s by (auto simp: signalDefaultHandler_def signal_numbers)
  then obtain k' y where "signalHandle t k = Some k'" "k_thread k' = (k_thread k)(t \<mapsto> y)"
    and y: "y = x\<lparr>th_signalQueue := rest, th_handlingSignal := True, th_signalContext := th_context x,
          th_context := th_context y\<rparr>" "cx_rip (th_context y) = SIG_DFL"
    using signalHandle_dispatch [OF assms(1-6) assms(7) [symmetric]] by (auto simp: signal_actions)
  moreover have "th_status y = th_status x" by (subst y(1)) simp
  ultimately show ?thesis by (auto simp: SIG_DFL_def)
qed

text \<open>
  the signal mask. \<open>sigprocmask()\<close> with a known action always succeeds, returns the old mask, and
  leaves the four fault signals unmasked whatever was asked; every other signal, \<open>SIGKILL\<close>
  included, is masked exactly as requested.
\<close>

theorem sigprocmask_masks:
  assumes "k_thread k t = Some x" and "how \<in> {SIG_SETMASK, SIG_BLOCK, SIG_UNBLOCK}" and "0 < u" "u \<le> MAX_SIGNAL"
  shows "\<exists>y. sigprocmask t how (Some s) k = Some (0, Some (th_signalMask x), k\<lparr>k_thread := (k_thread k)(t \<mapsto> y)\<rparr>) \<and>
    sigismember (th_signalMask y) u =
      (if u \<in> {SIGFPE, SIGILL, SIGSEGV, SIGBUS} then 0
       else if how = SIG_SETMASK then sigismember s u
       else if how = SIG_BLOCK then max (sigismember (th_signalMask x) u) (sigismember s u)
       else if sigismember s u = 1 then 0 else sigismember (th_signalMask x) u)"
proof -
  have un: "bit (unmask m) (nat u) \<longleftrightarrow> u \<notin> {SIGFPE, SIGILL, SIGSEGV, SIGBUS} \<and> bit m (nat u)" for m
  proof -
    have del: "bit (snd (sigdelset m s)) (nat u) \<longleftrightarrow> u \<noteq> s \<and> bit m (nat u)" if "0 < s" "s \<le> MAX_SIGNAL" for m s
      using that assms(3,4) nat_signal_less [of u] by (auto simp: sigdelset_def bit_simps nat_eq_iff2)
    have "0 < s \<and> s \<le> MAX_SIGNAL" if "s \<in> {SIGFPE, SIGILL, SIGSEGV, SIGBUS}" for s
      using that by (auto simp: signal_numbers MAX_SIGNAL_def)
    then show ?thesis by (simp add: unmask_def del) blast
  qed
  have n64: "nat u < 64" by (rule nat_signal_less [OF assms(4)])
  let ?m = "if how = SIG_SETMASK then s else if how = SIG_BLOCK then th_signalMask x OR s else th_signalMask x AND NOT s"
  have "sigprocmask t how (Some s) k = Some (0, Some (th_signalMask x), k\<lparr>k_thread := (k_thread k)(t \<mapsto> x\<lparr>th_signalMask := unmask ?m\<rparr>)\<rparr>)"
    using assms(1,2) by (auto simp: sigprocmask_def upd_thread_def SIG_SETMASK_def SIG_BLOCK_def SIG_UNBLOCK_def Let_def)
  moreover have "sigismember (unmask ?m) u =
      (if u \<in> {SIGFPE, SIGILL, SIGSEGV, SIGBUS} then 0
       else if how = SIG_SETMASK then sigismember s u
       else if how = SIG_BLOCK then max (sigismember (th_signalMask x) u) (sigismember s u)
       else if sigismember s u = 1 then 0 else sigismember (th_signalMask x) u)"
    using n64 unfolding sigismember_bit [OF assms(3,4)] un by (auto simp: bit_or_iff bit_and_iff bit_not_iff)
  ultimately show ?thesis by (intro exI [of _ "x\<lparr>th_signalMask := unmask ?m\<rparr>"]) simp
qed

theorem sigprocmask_masks_witness:
  "\<exists>y. sigprocmask 21 SIG_SETMASK (Some (-1)) kernel_ex =
       Some (0, Some 0, kernel_ex\<lparr>k_thread := (k_thread kernel_ex)(21 \<mapsto> y)\<rparr>) \<and>
     sigismember (th_signalMask y) SIGKILL = sigismember (-1) SIGKILL"
  using sigprocmask_masks [of kernel_ex 21 _ SIG_SETMASK SIGKILL "-1"]
  by (auto simp: kernel_ex_def thread0_def signal_numbers MAX_SIGNAL_def)

theorem kill_group_queues_witness:
  "\<exists>k'. kill 11 (-2) 6 (kernel_ex\<lparr>k_fresh := 100\<rparr>) = Some (0, k') \<and>
     map_option th_signalQueue (k_thread k' 21) = Some [(6, 11)]"
proof -
  let ?k = "kernel_ex\<lparr>k_fresh := 100\<rparr>" and ?px = "process0\<lparr>pr_pid := 2, pr_parent := 1, pr_threads := [21]\<rparr>"
  have p: "getProcess ?k 2 = Some 20" "k_proc ?k 20 = Some ?px"
    and t: "k_thread ?k 21 = Some (thread0\<lparr>th_pid := 2, th_tid := 2\<rparr>)" and f: "finds ?k 21"
    by (simp_all add: kernel_ex_def getProcess_def finds_def getThread_def process0_def)
  have m: "\<not> k_oom ?k n" for n by (simp add: kernel_ex_def kernel0_def)
  have "0 < (6::int)" "(6::int) \<le> MAX_SIGNAL" by (simp_all add: MAX_SIGNAL_def)
  then have "\<exists>k'. kill 11 (-2) 6 ?k = Some (0, k') \<and> k_proc k' = k_proc ?k \<and>
    (\<forall>u x. k_thread ?k u = Some x \<longrightarrow> k_thread k' u = Some (x\<lparr>th_signalQueue := th_signalQueue x @
       replicate (count_list (pr_threads ?px @ concat (map (\<lambda>c. pr_threads (the (k_proc ?k c))) (pr_children ?px))) u) (6, 11)\<rparr>))"
    by (rule kill_group_queues) (use p f m in \<open>simp_all add: process0_def\<close>)
  then obtain k' where "kill 11 (-2) 6 ?k = Some (0, k')" "k_thread k' 21 = Some (thread0\<lparr>th_pid := 2, th_tid := 2,
      th_signalQueue := th_signalQueue thread0 @ replicate 1 (6, 11)\<rparr>)"
    using t by (fastforce simp: process0_def)
  then show ?thesis by (simp add: thread0_def)
qed

lemma signal_ex_sender: "senderInfo 11 (signal_ex h s) \<noteq> None"
  by (simp add: senderInfo_def signal_ex_def kernel_ex_def kernel0_def getProcess_def process0_def)

theorem signal_handler_roundtrip_witness:
  "\<exists>k' k''. signalHandle 21 (signal_ex 0x400000 6) = Some k' \<and> sigreturn 21 k' = Some k''"
proof -
  have "(replicate 28 \<lparr>sa_handler = 0x400000, sa_mask = 0, sa_flags = 0\<rparr>) ! nat (6 - 1) = \<lparr>sa_handler = 0x400000, sa_mask = 0, sa_flags = 0\<rparr>"
    by (subst nth_replicate) auto
  then show ?thesis
    using signal_handler_roundtrip [of "signal_ex 0x400000 6" 21 _ 6 11 "[]"
        "replicate 28 \<lparr>sa_handler = 0x400000, sa_mask = 0, sa_flags = 0\<rparr>"]
      signal_ex_sender [of "0x400000" 6]
    by (auto simp: signal_ex_def thread0_def sigismember_def MAX_SIGNAL_def layout_defs)
qed

theorem stop_signal_jumps_to_zero_witness:
  "\<exists>k' y. signalHandle 21 (signal_ex 0 15) = Some k' \<and> k_thread k' 21 = Some y \<and> cx_rip (th_context y) = 0"
proof -
  have "(replicate 28 \<lparr>sa_handler = 0, sa_mask = 0, sa_flags = 0\<rparr>) ! nat (15 - 1) = \<lparr>sa_handler = 0, sa_mask = 0, sa_flags = 0\<rparr>"
    by (subst nth_replicate) auto
  then show ?thesis
    using stop_signal_jumps_to_zero [of "signal_ex 0 15" 21 _ 15 11 "[]"
        "replicate 28 \<lparr>sa_handler = 0, sa_mask = 0, sa_flags = 0\<rparr>"]
      signal_ex_sender [of 0 15]
    by (auto simp: signal_ex_def thread0_def sigismember_def MAX_SIGNAL_def SIG_DFL_def)
qed

end
