(* ===== verification/Fifo.thy ===== *)
theory Fifo
  imports Prelude
begin

text \<open>
  The contract of a first-in first-out queue, shared by the message queues of sockets and by the
  queue of system calls: what is taken out, followed by what is still queued, is what was queued
  at first followed by everything put in, whatever the order of the operations.
\<close>

datatype 'm qop = Put 'm | Get

fun queue_run :: "('m \<Rightarrow> 's \<Rightarrow> 's option) \<Rightarrow> ('s \<Rightarrow> ('m \<times> 's) option) \<Rightarrow> 'm qop list \<Rightarrow> 's
    \<Rightarrow> ('m list \<times> 's) option" where
  "queue_run put get [] s = Some ([], s)"
| "queue_run put get (Put m # ops) s = do { s' \<leftarrow> put m s; queue_run put get ops s' }"
| "queue_run put get (Get # ops) s =
     (case get s of
        None \<Rightarrow> queue_run put get ops s
      | Some (m, s') \<Rightarrow> do { (ms, s'') \<leftarrow> queue_run put get ops s'; Some (m # ms, s'') })"

fun puts :: "'m qop list \<Rightarrow> 'm list" where
  "puts [] = []"
| "puts (Put m # ops) = m # puts ops"
| "puts (Get # ops) = puts ops"

locale fifo =
  fixes put :: "'m \<Rightarrow> 's \<Rightarrow> 's option"
    and get :: "'s \<Rightarrow> ('m \<times> 's) option"
    and contents :: "'s \<Rightarrow> 'm list"
    and inv :: "'m list \<Rightarrow> 's \<Rightarrow> bool"
  assumes put_back: "inv (m # ms) s \<Longrightarrow> \<exists>s'. put m s = Some s' \<and> inv ms s' \<and> contents s' = contents s @ [m]"
    and get_front: "inv ms s \<Longrightarrow> contents s = c # cs \<Longrightarrow> \<exists>s'. get s = Some (c, s') \<and> inv ms s' \<and> contents s' = cs"
    and get_empty: "inv ms s \<Longrightarrow> contents s = [] \<Longrightarrow> get s = None"
begin

text \<open>\<open>inv ms s\<close>: the state is sound and the messages \<open>ms\<close> can still be put in, in this order.\<close>

lemma history:
  "inv (puts ops) s \<Longrightarrow> \<exists>out s'. queue_run put get ops s = Some (out, s') \<and> inv [] s' \<and>
     out @ contents s' = contents s @ puts ops"
proof (induction ops arbitrary: s rule: puts.induct)
  case 1
  then show ?case by simp
next
  case (2 m ops)
  from put_back [of m "puts ops" s] 2(2) obtain s1 where
    s1: "put m s = Some s1" "inv (puts ops) s1" "contents s1 = contents s @ [m]" by auto
  with 2(1) [OF s1(2)] show ?case by auto
next
  case (3 ops)
  show ?case
  proof (cases "contents s")
    case Nil
    with 3(2) have "get s = None" by (intro get_empty [of "puts ops"]) simp_all
    with 3(1) [of s] 3(2) show ?thesis by auto
  next
    case (Cons c cs)
    from get_front [OF _ Cons, of "puts ops"] 3(2) obtain s1 where
      s1: "get s = Some (c, s1)" "inv (puts ops) s1" "contents s1 = cs" by auto
    with 3(1) [OF s1(2)] Cons show ?thesis by auto
  qed
qed

end

end
