(* ===== verification/IO.thy ===== *)
theory IO
  imports Signal Fifo
begin

text \<open>
  The I/O descriptor table of a process, \<open>openIO()\<close> and \<open>closeIO()\<close> of \<^verbatim>\<open>src/src/io.c\<close>, the
  registry of open sockets and the socket calls of \<^verbatim>\<open>src/src/ipc/sockinit.c\<close>,
  \<^verbatim>\<open>connection.c\<close> and \<^verbatim>\<open>sockio.c\<close>. A null thread pointer stands for the kernel's own process.
  The lock inside a socket is released on every path of \<open>send()\<close> and \<open>recv()\<close> and is left out.
\<close>

section \<open>Descriptors\<close>

definition firstFree :: "IODescriptor list \<Rightarrow> nat option" where
  "firstFree ios = find (\<lambda>i. \<not> io_valid (ios ! i)) [0..<MAX_IO_DESCRIPTORS]"

text \<open>The pointer stored through \<open>iodv\<close> is \<open>&p->io[desc]\<close> for the descriptor returned.\<close>

definition openIO :: "ptr \<Rightarrow> kernel \<Rightarrow> (int \<times> kernel) option" where
  "openIO p k =
     do { x \<leftarrow> k_proc k p;
          if pr_iodCount x \<ge> int MAX_IO_DESCRIPTORS then Some (- ESRCH, k)
          else case firstFree (pr_io x) of
            None \<Rightarrow> Some (- EMFILE, k)
          | Some desc \<Rightarrow> Some (int desc,
              upd_proc p (\<lambda>x. x\<lparr>pr_io := (pr_io x)[desc := (pr_io x ! desc)\<lparr>io_valid := True,
                io_type := IO_WAITING, io_data := 0\<rparr>], pr_iodCount := pr_iodCount x + 1\<rparr>) k) }"

definition closeIO :: "ptr \<Rightarrow> nat \<Rightarrow> kernel \<Rightarrow> kernel" where
  "closeIO p i = upd_proc p (\<lambda>x.
     if io_valid (pr_io x ! i)
     then x\<lparr>pr_io := (pr_io x)[i := (pr_io x ! i)\<lparr>io_valid := False, io_data := 0\<rparr>],
            pr_iodCount := pr_iodCount x - 1\<rparr>
     else x)"

text \<open>The opening lines of every socket call: the descriptor range and the caller's process.\<close>

definition callerProcess :: "ptr \<Rightarrow> kernel \<Rightarrow> ptr option" where
  "callerProcess t k =
     (if t \<noteq> 0 then do { x \<leftarrow> k_thread k t; getProcess k (th_pid x) } else getProcess k (k_kernel k))"

definition validDescriptor :: "int \<Rightarrow> bool" where
  "validDescriptor sd \<longleftrightarrow> 0 \<le> sd \<and> sd < int MAX_IO_DESCRIPTORS"

section \<open>The socket registry\<close>

definition AF_UNIX :: u16 where "AF_UNIX = 1"
definition SOCKADDR_SIZE :: u64 where "SOCKADDR_SIZE = 514"
definition MSG_PEEK :: int where "MSG_PEEK = 1"

text \<open>The C string in a character array, and \<open>memcmp\<close> of two arrays over \<open>n\<close> bytes.\<close>

definition cstring :: "string \<Rightarrow> string" where
  "cstring s = takeWhile (\<lambda>c. c \<noteq> CHR 0x00) s"

definition bytes_equal :: "string \<Rightarrow> string \<Rightarrow> u64 \<Rightarrow> bool" where
  "bytes_equal a b n \<longleftrightarrow> take (unat n) a = take (unat n) b"

text \<open>
  The comparison with a caller's address, whose length nothing bounds: once both arrays of 512
  bytes agree, a longer comparison depends on whatever memory follows them.
\<close>

definition sameAddress :: "string \<Rightarrow> string \<Rightarrow> u64 \<Rightarrow> bool option" where
  "sameAddress a b n = (if bytes_equal a b n \<and> n > 512 then None else Some (bytes_equal a b n))"

fun findSocket :: "kernel \<Rightarrow> nat list \<Rightarrow> string \<Rightarrow> ptr option" where
  "findSocket k [] path = Some 0"
| "findSocket k (i # is) path =
     (if k_sockets k i = 0 then findSocket k is path
      else do { s \<leftarrow> k_sock k (k_sockets k i);
                if sa_family (so_address s) = AF_UNIX \<and> cstring (sa_data (so_address s)) = path
                then Some (k_sockets k i) else findSocket k is path })"

definition getLocalSocket :: "kernel \<Rightarrow> sockaddr \<Rightarrow> ptr option" where
  "getLocalSocket k addr =
     (if k_socketCount k = 0 then Some 0
      else findSocket k [0..<nat (k_socketCount k)] (cstring (sa_data addr)))"

definition socketRegister :: "ptr \<Rightarrow> kernel \<Rightarrow> int \<times> kernel" where
  "socketRegister s k =
     (if k_socketCount k \<ge> int MAX_SOCKETS then (- ENFILE, k)
      else case find (\<lambda>i. k_sockets k i = 0) [0..<MAX_SOCKETS] of
        None \<Rightarrow> (- ENFILE, k)
      | Some i \<Rightarrow> (int i, k\<lparr>k_sockets := (k_sockets k)(i := s), k_socketCount := k_socketCount k + 1\<rparr>))"

fun findIndex :: "kernel \<Rightarrow> nat list \<Rightarrow> int \<Rightarrow> nat option option" where
  "findIndex k [] index = Some None"
| "findIndex k (i # is) index =
     (if k_sockets k i = 0 then findIndex k is index
      else do { s \<leftarrow> k_sock k (k_sockets k i);
                if so_globalIndex s = index then Some (Some i) else findIndex k is index })"

definition socketUnregister :: "int \<Rightarrow> kernel \<Rightarrow> (ptr \<times> kernel) option" where
  "socketUnregister index k =
     (if k_socketCount k = 0 then Some (0, k)
      else do { r \<leftarrow> findIndex k [0..<MAX_SOCKETS] index;
                Some (case r of
                  None \<Rightarrow> (0, k)
                | Some i \<Rightarrow> (k_sockets k i,
                    k\<lparr>k_sockets := (k_sockets k)(i := 0), k_socketCount := k_socketCount k - 1\<rparr>)) })"

section \<open>socket, bind, close\<close>

definition socket :: "ptr \<Rightarrow> int \<Rightarrow> int \<Rightarrow> int \<Rightarrow> kernel \<Rightarrow> (int \<times> kernel) option" where
  "socket t domain type protocol k =
     do { p \<leftarrow> callerProcess t k;
          if p = 0 then Some (- ESRCH, k) else do {
          x \<leftarrow> k_proc k p;
          if pr_iodCount x = int MAX_IO_DESCRIPTORS then Some (- EMFILE, k)
          else if k_socketCount k \<ge> int MAX_SOCKETS then Some (- ENFILE, k)
          else do {
            k1 \<leftarrow> socketLock k;
            (sd, k2) \<leftarrow> openIO p k1;
            if sd < 0 then Some (sd, k2)
            else do {
              let (sock, k3) = kalloc k2;
              let k4 = upd_io p (nat sd) (\<lambda>d. d\<lparr>io_type := IO_SOCKET, io_data := sock,
                io_flags := of_int (drop_bit 8 type)\<rparr>) k3;
              if sock = 0 then Some (- ENOMEM, socketRelease (closeIO p (nat sd) k4))
              else do {
                let (index, k5) = socketRegister sock (k4\<lparr>k_sock := (k_sock k4)(sock \<mapsto> socket0\<lparr>so_refCount := 1,
                  so_process := p, so_address := (so_address socket0)\<lparr>sa_family := of_int domain\<rparr>,
                  so_type := type AND 0xFF, so_protocol := protocol\<rparr>)\<rparr>);
                let k6 = upd_sock sock (\<lambda>s. s\<lparr>so_globalIndex := index\<rparr>) k5;
                if index < 0 then Some (- ENFILE, socketRelease (closeIO p (nat sd) k6))
                else Some (sd, socketRelease k6) } } } } }"

definition bind_socket :: "ptr \<Rightarrow> int \<Rightarrow> sockaddr \<Rightarrow> u64 \<Rightarrow> kernel \<Rightarrow> (int \<times> kernel) option" where
  "bind_socket t sd addr len0 k =
     (if \<not> validDescriptor sd then Some (- EBADF, k) else do {
      p \<leftarrow> callerProcess t k;
      if p = 0 then Some (- ESRCH, k) else do {
      x \<leftarrow> k_proc k p;
      let len = (if len0 > SOCKADDR_SIZE then SOCKADDR_SIZE else len0);
      let d = pr_io x ! nat sd;
      if \<not> io_valid d \<or> io_type d \<noteq> IO_SOCKET then Some (- ENOTSOCK, k)
      else do {
        k1 \<leftarrow> socketLock k;
        if io_data d = 0 then Some (- ENOTSOCK, socketRelease k1)
        else do {
          s \<leftarrow> k_sock k1 (io_data d);
          if sa_family addr \<noteq> sa_family (so_address s) then Some (- EAFNOSUPPORT, socketRelease k1)
          else (let n = unat len - 2 in
            Some (0, socketRelease (upd_sock (io_data d) (\<lambda>s. s\<lparr>
              so_address := (so_address s)\<lparr>sa_data := take n (sa_data addr) @ drop n (sa_data (so_address s))\<rparr>,
              so_addressLength := len\<rparr>) k1))) } } }})"

definition closeSocket :: "ptr \<Rightarrow> int \<Rightarrow> kernel \<Rightarrow> (int \<times> kernel) option" where
  "closeSocket t sd k =
     (if \<not> validDescriptor sd then Some (- EBADF, k) else do {
      p \<leftarrow> callerProcess t k;
      if p = 0 then Some (- ESRCH, k) else do {
      x \<leftarrow> k_proc k p;
      k1 \<leftarrow> socketLock k;
      let sock = io_data (pr_io x ! nat sd);
      if sock = 0 then Some (- EBADF, socketRelease k1)
      else do {
        s \<leftarrow> k_sock k1 sock;
        let k2 = upd_sock sock (\<lambda>s. s\<lparr>so_refCount := so_refCount s - 1\<rparr>) k1;
        if so_refCount s - 1 \<noteq> 0 then Some (1, socketRelease k2)
        else do {
          k3 \<leftarrow> (if so_peer s \<noteq> 0 then do {
                    _ \<leftarrow> k_sock k2 (so_peer s);
                    Some (upd_sock sock (\<lambda>s. s\<lparr>so_peer := 0\<rparr>)
                      (upd_sock (so_peer s) (\<lambda>s. s\<lparr>so_peer := 0\<rparr>) k2)) }
                  else Some k2);
          (_, k4) \<leftarrow> socketUnregister (so_globalIndex s) k3;
          let k5 = k4\<lparr>k_sock := (k_sock k4)(sock := None)\<rparr>;
          Some (1, socketRelease (closeIO p (nat sd) k5)) } } }})"

section \<open>connect, listen, accept\<close>

text \<open>The check shared by the remaining calls: an open descriptor of a socket.\<close>

definition socketOf :: "ptr \<Rightarrow> int \<Rightarrow> kernel \<Rightarrow> (int + ptr \<times> ptr) option" where
  "socketOf t sd k =
     (if \<not> validDescriptor sd then Some (Inl (- EBADF)) else do {
      p \<leftarrow> callerProcess t k;
      if p = 0 then Some (Inl (- ESRCH)) else do {
      x \<leftarrow> k_proc k p;
      let d = pr_io x ! nat sd;
      if \<not> io_valid d \<or> io_data d = 0 \<or> io_type d \<noteq> IO_SOCKET then Some (Inl (- ENOTSOCK))
      else Some (Inr (p, io_data d)) }})"

fun inBacklog :: "kernel \<Rightarrow> SocketDescriptor \<Rightarrow> ptr list \<Rightarrow> bool option" where
  "inBacklog k self [] = Some False"
| "inBacklog k self (r # rs) =
     do { s \<leftarrow> k_sock k r;
          if bytes_equal (sa_data (so_address s)) (sa_data (so_address self)) (so_addressLength self)
          then Some True else inBacklog k self rs }"

definition connect :: "ptr \<Rightarrow> int \<Rightarrow> sockaddr \<Rightarrow> u64 \<Rightarrow> kernel \<Rightarrow> (int \<times> kernel) option" where
  "connect t sd addr len k =
     do { c \<leftarrow> socketOf t sd k;
          case c of Inl e \<Rightarrow> Some (e, k)
          | Inr (p, self) \<Rightarrow> do {
            k1 \<leftarrow> socketLock k;
            let k' = socketRelease k1;
            s \<leftarrow> k_sock k1 self;
            peer \<leftarrow> getLocalSocket k1 addr;
            if peer = 0 then Some (- EADDRNOTAVAIL, k')
            else if so_peer s \<noteq> 0 then do {
              q \<leftarrow> k_sock k1 (so_peer s);
              same \<leftarrow> sameAddress (sa_data (so_address q)) (sa_data addr) len;
              Some (if same then 0 else - EISCONN, k') }
            else do {
              q \<leftarrow> k_sock k1 peer;
              if sa_family (so_address s) \<noteq> sa_family (so_address q) then Some (- EAFNOSUPPORT, k')
              else case so_backlog q of
                None \<Rightarrow> Some (- ECONNREFUSED, k')
              | Some bl \<Rightarrow>
                  (if \<not> so_listener q \<or> so_backlogMax q = 0 then Some (- ECONNREFUSED, k')
                   else if length bl \<ge> so_backlogMax q then Some (- ECONNREFUSED, k')
                   else do {
                     dup \<leftarrow> inBacklog k1 s bl;
                     if dup then Some (- EINPROGRESS, k')
                     else Some (- EWOULDBLOCK, socketRelease
                       (upd_sock peer (\<lambda>q. q\<lparr>so_backlog := Some (bl @ [self])\<rparr>) k1)) }) } } }"

definition listen :: "ptr \<Rightarrow> int \<Rightarrow> int \<Rightarrow> kernel \<Rightarrow> (int \<times> kernel) option" where
  "listen t sd backlog k =
     do { c \<leftarrow> socketOf t sd k;
          case c of Inl e \<Rightarrow> Some (e, k)
          | Inr (p, sock) \<Rightarrow> do {
            k1 \<leftarrow> socketLock k;
            _ \<leftarrow> k_sock k1 sock;
            let n = (if backlog > 0 then nat backlog else SOCKET_DEFAULT_BACKLOG);
            let (bl, k2) = kalloc k1;
            let k3 = upd_sock sock (\<lambda>s. s\<lparr>so_backlogMax := n,
              so_backlog := (if bl = 0 then None else Some [])\<rparr>) k2;
            if bl = 0 then Some (- ENOBUFS, socketRelease k3)
            else Some (0, socketRelease (upd_sock sock (\<lambda>s. s\<lparr>so_listener := True\<rparr>) k3)) } }"

text \<open>The peer's address is part of the result; it is stored only when the caller asked for it.\<close>

definition accept :: "ptr \<Rightarrow> int \<Rightarrow> kernel \<Rightarrow> (int \<times> sockaddr option \<times> kernel) option" where
  "accept t sd k =
     do { c \<leftarrow> socketOf t sd k;
          case c of Inl e \<Rightarrow> Some (e, None, k)
          | Inr (p, listener) \<Rightarrow> do {
            l \<leftarrow> k_sock k listener;
            case so_backlog l of
              None \<Rightarrow> Some (- EINVAL, None, k)
            | Some bl \<Rightarrow>
                (if \<not> so_listener l \<or> so_backlogMax l = 0 then Some (- EINVAL, None, k)
                 else case bl of
                   [] \<Rightarrow> Some (- EWOULDBLOCK, None, k)
                 | peer # rest \<Rightarrow> do {
                     k1 \<leftarrow> socketLock k;
                     (new, k2) \<leftarrow> openIO p k1;
                     if new < 0 then Some (- EMFILE, None, socketRelease k2)
                     else do {
                       px \<leftarrow> k_proc k2 p;
                       let (self, k3) = kalloc k2;
                       let k4 = upd_io p (nat new) (\<lambda>d. d\<lparr>io_type := IO_SOCKET,
                         io_flags := io_flags (pr_io px ! nat sd), io_data := self\<rparr>) k3;
                       if self = 0 then Some (- ENOMEM, None, closeIO p (nat new) (socketRelease k4))
                       else do {
                         q \<leftarrow> k_sock k4 peer;
                         let k5 = k4\<lparr>k_sock := (k_sock k4)(self \<mapsto> socket0\<lparr>so_refCount := 1,
                           so_address := so_address l, so_addressLength := so_addressLength l,
                           so_type := so_type l, so_protocol := so_protocol l,
                           so_process := so_process l, so_peer := peer\<rparr>)\<rparr>;
                         let k6 = upd_sock peer (\<lambda>s. s\<lparr>so_peer := self\<rparr>) k5;
                         let k7 = upd_sock listener (\<lambda>s. s\<lparr>so_backlog := Some rest\<rparr>) k6;
                         Some (new, Some (so_address q), socketRelease k7) } } }) } }"

section \<open>send and recv\<close>

text \<open>
  The queue keeps \<open>inbound\<close> and \<open>inboundLen\<close> together. The two reallocations that double its
  capacity come before the allocation of the message.
\<close>

definition growInbound :: "SocketDescriptor \<Rightarrow> kernel \<Rightarrow> (nat \<times> (u64 \<times> payload) list) option \<times> kernel" where
  "growInbound s k =
     (case so_inbound s of
        None \<Rightarrow>
          (let (a, k1) = kalloc k; (b, k2) = kalloc k1
           in (if a = 0 \<or> b = 0 then None else Some (SOCKET_IO_BACKLOG, []), k2))
      | Some q \<Rightarrow>
          (if length q \<ge> so_inboundMax s then
             (let (a, k1) = kalloc k in
              if a = 0 then (None, k1)
              else let (b, k2) = kalloc k1 in
                (if b = 0 then None else Some (so_inboundMax s * 2, q), k2))
           else (Some (so_inboundMax s, q), k)))"

definition send :: "ptr \<Rightarrow> int \<Rightarrow> payload \<Rightarrow> u64 \<Rightarrow> kernel \<Rightarrow> (int \<times> kernel) option" where
  "send t sd msg len k =
     do { c \<leftarrow> socketOf t sd k;
          case c of Inl e \<Rightarrow> Some (e, k)
          | Inr (p, self) \<Rightarrow> do {
            s \<leftarrow> k_sock k self;
            let peer = so_peer s;
            if peer = 0 then Some (- EDESTADDRREQ, k)
            else do {
              q \<leftarrow> k_sock k peer;
              if sa_family (so_address s) = AF_UNIX then
                (let (room, k1) = growInbound q k in
                 case room of
                   None \<Rightarrow> Some (- ENOMEM, k1)
                 | Some (n, msgs) \<Rightarrow>
                     (let k2 = upd_sock peer (\<lambda>q. q\<lparr>so_inboundMax := n, so_inbound := Some msgs\<rparr>) k1;
                          (m, k3) = kalloc k2
                      in if m = 0 then Some (- ENOBUFS, k3)
                         else Some (sint len, upd_sock peer (\<lambda>q. q\<lparr>so_inbound := Some (msgs @ [(len, msg)])\<rparr>) k3)))
              else Some (- ENOTCONN, k) } } }"

text \<open>The bytes copied into the receiver's buffer: the first \<open>n\<close> bytes of the message.\<close>

fun truncatePayload :: "u64 \<Rightarrow> payload \<Rightarrow> payload" where
  "truncatePayload n (Raw bs) = Raw (take (unat n) bs)"
| "truncatePayload n c = c"

definition recv :: "ptr \<Rightarrow> int \<Rightarrow> u64 \<Rightarrow> int \<Rightarrow> kernel \<Rightarrow> (int \<times> payload option \<times> kernel) option" where
  "recv t sd len flags k =
     do { c \<leftarrow> socketOf t sd k;
          case c of Inl e \<Rightarrow> Some (e, None, k)
          | Inr (p, self) \<Rightarrow> do {
            s \<leftarrow> k_sock k self;
            if so_peer s = 0 then Some (- EDESTADDRREQ, None, k)
            else case so_inbound s of
              None \<Rightarrow> Some (- EWOULDBLOCK, None, k)
            | Some [] \<Rightarrow> Some (- EWOULDBLOCK, None, k)
            | Some ((n, msg) # rest) \<Rightarrow>
                (if sa_family (so_address s) = AF_UNIX then
                   (let truelen = min n len;
                        k' = (if flags AND MSG_PEEK = 0
                              then upd_sock self (\<lambda>s. s\<lparr>so_inbound := Some rest\<rparr>) k else k)
                    in Some (sint truelen, Some (truncatePayload truelen msg), k'))
                 else Some (- ENOTCONN, None, k)) } }"

section \<open>Specification vocabulary\<close>

text \<open>A descriptor table in order: it has its fixed size and \<open>iodCount\<close> counts the open ones.\<close>

definition iod_ok :: "Process \<Rightarrow> bool" where
  "iod_ok x \<longleftrightarrow> length (pr_io x) = MAX_IO_DESCRIPTORS \<and>
     pr_iodCount x = int (card {i. i < MAX_IO_DESCRIPTORS \<and> io_valid (pr_io x ! i)})"

text \<open>
  A connection from socket \<open>a\<close>, descriptor \<open>sa\<close> of thread \<open>ta\<close>, to socket \<open>b\<close>, descriptor \<open>sb\<close> of
  thread \<open>tb\<close>, in a kernel that does not run out of heap.
\<close>

definition connected :: "ptr \<Rightarrow> int \<Rightarrow> ptr \<Rightarrow> ptr \<Rightarrow> int \<Rightarrow> ptr \<Rightarrow> kernel \<Rightarrow> bool" where
  "connected ta sa a tb sb b k \<longleftrightarrow>
     (\<exists>p. socketOf ta sa k = Some (Inr (p, a))) \<and> (\<exists>p. socketOf tb sb k = Some (Inr (p, b))) \<and>
     (\<exists>x y. k_sock k a = Some x \<and> k_sock k b = Some y \<and> so_peer x = b \<and> b \<noteq> 0 \<and> so_peer y \<noteq> 0 \<and>
        sa_family (so_address x) = AF_UNIX \<and> sa_family (so_address y) = AF_UNIX) \<and>
     k_oom k = (\<lambda>_. False) \<and> k_fresh k \<noteq> 0"

text \<open>Sending and receiving on it, as the two ends of a queue; the receiver has a buffer of \<open>cap\<close> bytes.\<close>

definition chan_put :: "ptr \<Rightarrow> int \<Rightarrow> u64 \<times> payload \<Rightarrow> kernel \<Rightarrow> kernel option" where
  "chan_put ta sa m k =
     (case send ta sa (snd m) (fst m) k of
        Some (r, k') \<Rightarrow> (if r = sint (fst m) then Some k' else None)
      | None \<Rightarrow> None)"

definition chan_get :: "ptr \<Rightarrow> int \<Rightarrow> u64 \<Rightarrow> kernel \<Rightarrow> ((u64 \<times> payload) \<times> kernel) option" where
  "chan_get tb sb cap k =
     (case recv tb sb cap 0 k of
        Some (r, Some msg, k') \<Rightarrow> Some ((of_int r, msg), k')
      | _ \<Rightarrow> None)"

definition cut :: "u64 \<Rightarrow> u64 \<times> payload \<Rightarrow> u64 \<times> payload" where
  "cut cap m = (min (fst m) cap, truncatePayload (min (fst m) cap) (snd m))"

definition inbox :: "u64 \<Rightarrow> ptr \<Rightarrow> kernel \<Rightarrow> (u64 \<times> payload) list" where
  "inbox cap b k =
     (case k_sock k b of None \<Rightarrow> [] | Some y \<Rightarrow> map (cut cap) (case so_inbound y of None \<Rightarrow> [] | Some ms \<Rightarrow> ms))"

definition chan_inv :: "ptr \<Rightarrow> int \<Rightarrow> ptr \<Rightarrow> ptr \<Rightarrow> int \<Rightarrow> ptr \<Rightarrow> u64 \<Rightarrow> (u64 \<times> payload) list \<Rightarrow> kernel \<Rightarrow> bool" where
  "chan_inv ta sa a tb sb b cap ms k \<longleftrightarrow> connected ta sa a tb sb b k \<and> (\<forall>m\<in>set ms. cut cap m = m)"

definition opened :: "nat \<Rightarrow> Process \<Rightarrow> Process" where
  "opened d x = x\<lparr>pr_io := (pr_io x)[d := (pr_io x ! d)\<lparr>io_valid := True, io_type := IO_WAITING, io_data := 0\<rparr>],
     pr_iodCount := pr_iodCount x + 1\<rparr>"

definition closed :: "nat \<Rightarrow> Process \<Rightarrow> Process" where
  "closed d x = (if io_valid (pr_io x ! d)
     then x\<lparr>pr_io := (pr_io x)[d := (pr_io x ! d)\<lparr>io_valid := False, io_data := 0\<rparr>], pr_iodCount := pr_iodCount x - 1\<rparr>
     else x)"

text \<open>A process with a connected pair of sockets, at descriptors 0 and 1.\<close>

definition pair_ex :: kernel where
  "pair_ex = kernel0\<lparr>k_kernel := 1, k_list := [10], k_fresh := 100, k_socketCount := 2,
     k_sockets := (\<lambda>_. 0)(0 := 50, 1 := 51),
     k_proc := [10 \<mapsto> process0\<lparr>pr_pid := 1, pr_iodCount := 2, pr_io :=
       (replicate MAX_IO_DESCRIPTORS iod0)
         [0 := \<lparr>io_valid = True, io_type = IO_SOCKET, io_flags = 0, io_data = 50\<rparr>,
          1 := \<lparr>io_valid = True, io_type = IO_SOCKET, io_flags = 0, io_data = 51\<rparr>]\<rparr>],
     k_sock := [50 \<mapsto> socket0\<lparr>so_address := \<lparr>sa_family = 1, sa_data = ''/a'' @ replicate 510 (CHR 0x00)\<rparr>,
                  so_addressLength := 514, so_peer := 51, so_refCount := 1\<rparr>,
                51 \<mapsto> socket0\<lparr>so_address := \<lparr>sa_family = 1, sa_data = ''/b'' @ replicate 510 (CHR 0x00)\<rparr>,
                  so_addressLength := 514, so_peer := 50, so_refCount := 1, so_globalIndex := 1\<rparr>]\<rparr>"

text \<open>A listener at descriptor 0, with socket 60 waiting, and an unbound client at descriptor 1.\<close>

definition listen_ex :: kernel where
  "listen_ex = pair_ex\<lparr>k_sock := (k_sock pair_ex)
     (50 := map_option (\<lambda>s. s\<lparr>so_peer := 0, so_listener := True, so_backlogMax := 4, so_backlog := Some [60]\<rparr>)
        (k_sock pair_ex 50),
      51 := map_option (\<lambda>s. s\<lparr>so_peer := 0, so_addressLength := 0\<rparr>) (k_sock pair_ex 51),
      60 \<mapsto> socket0\<lparr>so_address := \<lparr>sa_family = 1, sa_data = ''/c'' @ replicate 510 (CHR 0x00)\<rparr>,
        so_addressLength := 514, so_refCount := 1\<rparr>)\<rparr>"

text \<open>The listener at descriptor 0, with the socket at descriptor 1 waiting.\<close>

definition accept_ex :: kernel where
  "accept_ex = listen_ex\<lparr>k_sock := (k_sock listen_ex)
     (50 := map_option (\<lambda>s. s\<lparr>so_backlog := Some [51]\<rparr>) (k_sock listen_ex 50))\<rparr>"

text \<open>A registered listener, socket 50, and an accepted socket, 70, at descriptor 1.\<close>

definition close_ex :: kernel where
  "close_ex = listen_ex\<lparr>k_socketCount := 1, k_sockets := (\<lambda>_. 0)(0 := 50),
     k_sock := (k_sock listen_ex)(51 := map_option (\<lambda>s. s\<lparr>so_globalIndex := 0\<rparr>) (k_sock listen_ex 51))\<rparr>"

section \<open>Descriptors\<close>

lemma firstFree_Some:
  "firstFree ios = Some d \<longleftrightarrow> d < MAX_IO_DESCRIPTORS \<and> \<not> io_valid (ios ! d) \<and> (\<forall>j<d. io_valid (ios ! j))"
  unfolding firstFree_def find_Some_iff
  by (auto simp: nth_append)

lemma firstFree_None: "firstFree ios = None \<longleftrightarrow> (\<forall>i<MAX_IO_DESCRIPTORS. io_valid (ios ! i))"
  unfolding firstFree_def find_None_iff by auto

lemma full_table: "iod_ok x \<Longrightarrow> pr_iodCount x \<ge> int MAX_IO_DESCRIPTORS \<longleftrightarrow> firstFree (pr_io x) = None"
proof -
  assume ok: "iod_ok x"
  let ?S = "{i. i < MAX_IO_DESCRIPTORS \<and> io_valid (pr_io x ! i)}"
  have sub: "?S \<subseteq> {..<MAX_IO_DESCRIPTORS}" by auto
  have "MAX_IO_DESCRIPTORS \<le> card ?S \<longleftrightarrow> ?S = {..<MAX_IO_DESCRIPTORS}"
    using card_subset_eq [OF _ sub] card_mono [OF _ sub] by (metis card_lessThan finite_lessThan le_antisym le_refl)
  then show ?thesis using ok by (auto simp: iod_ok_def firstFree_None)
qed

lemma iod_ok_opened: "iod_ok x \<Longrightarrow> d < MAX_IO_DESCRIPTORS \<Longrightarrow> \<not> io_valid (pr_io x ! d) \<Longrightarrow> iod_ok (opened d x)"
proof -
  assume a: "iod_ok x" "d < MAX_IO_DESCRIPTORS" "\<not> io_valid (pr_io x ! d)"
  then have "{i. i < MAX_IO_DESCRIPTORS \<and> io_valid (pr_io (opened d x) ! i)} =
      insert d {i. i < MAX_IO_DESCRIPTORS \<and> io_valid (pr_io x ! i)}"
    by (auto simp: opened_def iod_ok_def nth_list_update)
  with a show ?thesis by (simp add: iod_ok_def opened_def)
qed

lemma iod_ok_closed: "iod_ok x \<Longrightarrow> d < MAX_IO_DESCRIPTORS \<Longrightarrow> iod_ok (closed d x)"
proof (cases "io_valid (pr_io x ! d)")
  case True
  assume a: "iod_ok x" "d < MAX_IO_DESCRIPTORS"
  let ?S = "{i. i < MAX_IO_DESCRIPTORS \<and> io_valid (pr_io x ! i)}"
  have "{i. i < MAX_IO_DESCRIPTORS \<and> io_valid (pr_io (closed d x) ! i)} = ?S - {d}"
    using a True by (auto simp: closed_def iod_ok_def nth_list_update)
  moreover have "d \<in> ?S" using a True by simp
  then have "card (?S - {d}) = card ?S - 1" "0 < card ?S" by (auto simp: card_gt_0_iff)
  ultimately show ?thesis using a True by (simp add: iod_ok_def closed_def of_nat_diff)
qed (simp add: closed_def)

text \<open>
  C22: opening a descriptor returns the lowest closed one and marks it open; when the table is full
  it fails and changes nothing. Both this and closing the descriptor again keep the table in
  order, and closing it leaves every other entry as it was before.
\<close>

theorem openIO_lowest:
  assumes x: "k_proc k p = Some x" and ok: "iod_ok x"
  shows "(openIO p k = Some (- ESRCH, k) \<and> (\<forall>i<MAX_IO_DESCRIPTORS. io_valid (pr_io x ! i))) \<or>
    (\<exists>d k'. openIO p k = Some (int d, k') \<and> d < MAX_IO_DESCRIPTORS \<and> \<not> io_valid (pr_io x ! d) \<and>
       (\<forall>j<d. io_valid (pr_io x ! j)) \<and>
       (\<exists>y. k_proc k' p = Some y \<and> iod_ok y \<and> io_valid (pr_io y ! d) \<and> io_data (pr_io y ! d) = 0) \<and>
       (\<exists>z. k_proc (closeIO p d k') p = Some z \<and> iod_ok z \<and> pr_iodCount z = pr_iodCount x \<and>
          \<not> io_valid (pr_io z ! d) \<and> (\<forall>i. i \<noteq> d \<longrightarrow> pr_io z ! i = pr_io x ! i)))"
proof (cases "firstFree (pr_io x)")
  case None
  with full_table [OF ok] x have "openIO p k = Some (- ESRCH, k)" by (simp add: openIO_def)
  with None show ?thesis by (simp add: firstFree_None)
next
  case (Some d)
  then have d: "d < MAX_IO_DESCRIPTORS" "\<not> io_valid (pr_io x ! d)" "\<forall>j<d. io_valid (pr_io x ! j)"
    by (simp_all add: firstFree_Some)
  let ?k = "upd_proc p (opened d) k"
  have "openIO p k = Some (int d, ?k)"
    using Some full_table [OF ok] x by (simp add: openIO_def opened_def [abs_def])
  moreover have l: "d < length (pr_io x)" using ok d by (simp add: iod_ok_def)
  moreover have ok1: "iod_ok (opened d x)" by (rule iod_ok_opened [OF ok d(1,2)])
  moreover have "closeIO p d ?k = upd_proc p (closed d) ?k" by (simp add: closeIO_def closed_def [abs_def])
  moreover note iod_ok_closed [OF ok1 d(1)]
  moreover have "pr_iodCount (closed d (opened d x)) = pr_iodCount x"
    "\<not> io_valid (pr_io (closed d (opened d x)) ! d)"
    "\<forall>i. i \<noteq> d \<longrightarrow> pr_io (closed d (opened d x)) ! i = pr_io x ! i"
    "io_valid (pr_io (opened d x) ! d)" "io_data (pr_io (opened d x) ! d) = 0"
    using l by (simp_all add: closed_def opened_def)
  ultimately show ?thesis using x d by (intro disjI2 exI [of _ d] exI [of _ ?k]) simp
qed

lemma iod_ok_process0 [simp]: "iod_ok process0"
proof -
  have "{i. i < MAX_IO_DESCRIPTORS \<and> io_valid (pr_io process0 ! i)} = {}"
    by (auto simp: process0_def iod0_def)
  then show ?thesis by (simp add: iod_ok_def) (simp add: process0_def)
qed

theorem openIO_lowest_witness:
  "\<exists>d k'. openIO 5 (kernel0\<lparr>k_proc := [5 \<mapsto> process0]\<rparr>) = Some (int d, k')"
proof -
  let ?k = "kernel0\<lparr>k_proc := [5 \<mapsto> process0]\<rparr>"
  have a: "k_proc ?k 5 = Some process0" by simp
  have "\<not> io_valid (pr_io process0 ! 0)" "0 < MAX_IO_DESCRIPTORS"
    by (simp_all add: process0_def iod0_def MAX_IO_DESCRIPTORS_def)
  with openIO_lowest [OF a iod_ok_process0] show ?thesis by blast
qed

section \<open>The message queue\<close>

lemma socketOf_cong:
  "k_proc k' = k_proc k \<Longrightarrow> k_thread k' = k_thread k \<Longrightarrow> k_list k' = k_list k \<Longrightarrow> k_kernel k' = k_kernel k \<Longrightarrow>
   socketOf t sd k' = socketOf t sd k"
  using getProcess_cong [of k' k] by (simp add: socketOf_def callerProcess_def cong: if_cong)

lemma upd_sock_frame [simp]:
  "k_proc (upd_sock s f k) = k_proc k" "k_thread (upd_sock s f k) = k_thread k"
  "k_list (upd_sock s f k) = k_list k" "k_kernel (upd_sock s f k) = k_kernel k"
  "k_oom (upd_sock s f k) = k_oom k" "k_fresh (upd_sock s f k) = k_fresh k"
  by (simp_all add: upd_sock_def)

lemma kalloc_ok: "k_oom k = (\<lambda>_. False) \<Longrightarrow> kalloc k = (k_fresh k, k\<lparr>k_fresh := Suc (k_fresh k)\<rparr>)"
  by (simp add: kalloc_def)

lemma growInbound_ok:
  assumes "k_oom k = (\<lambda>_. False)" "k_fresh k \<noteq> 0"
  shows "\<exists>n f. growInbound y k =
     (Some (n, case so_inbound y of None \<Rightarrow> [] | Some ms \<Rightarrow> ms), k\<lparr>k_fresh := f\<rparr>) \<and> f \<noteq> 0"
proof (cases "so_inbound y")
  case None
  with assms show ?thesis by (auto simp: growInbound_def kalloc_def)
next
  case (Some ms)
  show ?thesis
  proof (cases "length ms \<ge> so_inboundMax y")
    case True
    with Some assms show ?thesis by (auto simp: growInbound_def kalloc_def)
  next
    case False
    with Some assms show ?thesis
      by (intro exI [of _ "so_inboundMax y"] exI [of _ "k_fresh k"]) (simp add: growInbound_def)
  qed
qed

lemma send_connected:
  assumes c: "connected ta sa a tb sb b k"
  shows "\<exists>k'. send ta sa msg len k = Some (sint len, k') \<and> connected ta sa a tb sb b k' \<and>
    inbox cap b k' = inbox cap b k @ [cut cap (len, msg)]"
proof -
  from c obtain pa pb x y where s: "socketOf ta sa k = Some (Inr (pa, a))" "socketOf tb sb k = Some (Inr (pb, b))"
    and x: "k_sock k a = Some x" "so_peer x = b" "sa_family (so_address x) = AF_UNIX"
    and y: "k_sock k b = Some y" "b \<noteq> 0" "so_peer y \<noteq> 0" "sa_family (so_address y) = AF_UNIX"
    and h: "k_oom k = (\<lambda>_. False)" "k_fresh k \<noteq> 0"
    unfolding connected_def by blast
  let ?q = "case so_inbound y of None \<Rightarrow> [] | Some ms \<Rightarrow> ms"
  obtain n f where g: "growInbound y k = (Some (n, ?q), k\<lparr>k_fresh := f\<rparr>)" "f \<noteq> 0"
    using growInbound_ok [OF h, of y] by blast
  define k2 where "k2 = upd_sock b (\<lambda>q. q\<lparr>so_inboundMax := n, so_inbound := Some ?q\<rparr>) (k\<lparr>k_fresh := f\<rparr>)"
  define k3 where "k3 = upd_sock b (\<lambda>q. q\<lparr>so_inbound := Some (?q @ [(len, msg)])\<rparr>) (k2\<lparr>k_fresh := Suc f\<rparr>)"
  have al: "kalloc k2 = (f, k2\<lparr>k_fresh := Suc f\<rparr>)" using h g(2) by (simp add: kalloc_ok k2_def)
  have st: "send ta sa msg len k = Some (sint len, k3)"
    using s x y g al by (simp add: send_def k3_def k2_def Let_def)
  have so: "socketOf t sd k3 = socketOf t sd k" for t sd
    by (rule socketOf_cong) (simp_all add: k3_def k2_def)
  have sk: "k_sock k3 = (k_sock k)(b \<mapsto> y\<lparr>so_inboundMax := n, so_inbound := Some (?q @ [(len, msg)])\<rparr>)"
    by (simp add: k3_def k2_def y(1))
  have "connected ta sa a tb sb b k3"
    unfolding connected_def so using s x y h g(2) by (auto simp: sk k3_def k2_def)
  moreover have "inbox cap b k3 = inbox cap b k @ [cut cap (len, msg)]"
    by (simp add: inbox_def sk y(1))
  ultimately show ?thesis using st by blast
qed

lemma recv_connected:
  assumes c: "connected ta sa a tb sb b k"
  shows "inbox cap b k = [] \<Longrightarrow> recv tb sb cap 0 k = Some (- EWOULDBLOCK, None, k)"
    and "inbox cap b k = m # ms \<Longrightarrow> \<exists>k'. recv tb sb cap 0 k = Some (sint (fst m), Some (snd m), k') \<and>
      connected ta sa a tb sb b k' \<and> inbox cap b k' = ms"
proof -
  from c obtain pa pb x y where s: "socketOf ta sa k = Some (Inr (pa, a))" "socketOf tb sb k = Some (Inr (pb, b))"
    and x: "k_sock k a = Some x" "so_peer x = b" "sa_family (so_address x) = AF_UNIX"
    and y: "k_sock k b = Some y" "b \<noteq> 0" "so_peer y \<noteq> 0" "sa_family (so_address y) = AF_UNIX"
    and h: "k_oom k = (\<lambda>_. False)" "k_fresh k \<noteq> 0"
    unfolding connected_def by blast
  show "recv tb sb cap 0 k = Some (- EWOULDBLOCK, None, k)" if "inbox cap b k = []"
    using that s y by (auto simp: inbox_def recv_def split: option.splits)
  assume i: "inbox cap b k = m # ms"
  then obtain n msg rest where q: "so_inbound y = Some ((n, msg) # rest)" "m = cut cap (n, msg)" "ms = map (cut cap) rest"
    using y by (auto simp: inbox_def split: option.splits)
  let ?k = "upd_sock b (\<lambda>s. s\<lparr>so_inbound := Some rest\<rparr>) k"
  have so: "socketOf t sd ?k = socketOf t sd k" for t sd by (rule socketOf_cong) simp_all
  have "recv tb sb cap 0 k = Some (sint (fst m), Some (snd m), ?k)"
    using s y q by (simp add: recv_def cut_def Let_def)
  moreover have "connected ta sa a tb sb b ?k"
    unfolding connected_def so using s x y h by (auto simp: upd_sock_def)
  moreover have "inbox cap b ?k = ms" using q y by (simp add: inbox_def)
  ultimately show "\<exists>k'. recv tb sb cap 0 k = Some (sint (fst m), Some (snd m), k') \<and>
      connected ta sa a tb sb b k' \<and> inbox cap b k' = ms" by blast
qed

interpretation chan: fifo "chan_put ta sa" "chan_get tb sb cap" "inbox cap b" "chan_inv ta sa a tb sb b cap"
  for ta sa a tb sb b cap
proof unfold_locales
  fix m ms k
  assume "chan_inv ta sa a tb sb b cap (m # ms) k"
  then have c: "connected ta sa a tb sb b k" and m: "cut cap m = m" "\<forall>m\<in>set ms. cut cap m = m"
    by (simp_all add: chan_inv_def)
  from send_connected [OF c, of "snd m" "fst m" cap] m
  show "\<exists>k'. chan_put ta sa m k = Some k' \<and> chan_inv ta sa a tb sb b cap ms k' \<and> inbox cap b k' = inbox cap b k @ [m]"
    by (auto simp: chan_put_def chan_inv_def)
next
  fix ms k c cs
  assume "chan_inv ta sa a tb sb b cap ms k" "inbox cap b k = c # cs"
  then show "\<exists>k'. chan_get tb sb cap k = Some (c, k') \<and> chan_inv ta sa a tb sb b cap ms k' \<and> inbox cap b k' = cs"
    using recv_connected(2) [of ta sa a tb sb b k cap c cs] by (fastforce simp: chan_get_def chan_inv_def)
next
  fix ms k
  assume "chan_inv ta sa a tb sb b cap ms k" "inbox cap b k = []"
  then show "chan_get tb sb cap k = None"
    using recv_connected(1) [of ta sa a tb sb b k cap] by (simp add: chan_get_def chan_inv_def)
qed


lemma pair_ex_connected: "connected 0 0 50 0 1 51 pair_ex"
  by (simp add: connected_def socketOf_def callerProcess_def getProcess_def pair_ex_def kernel0_def
      validDescriptor_def MAX_IO_DESCRIPTORS_def process0_def AF_UNIX_def)


section \<open>Connections\<close>

lemma inBacklog_total:
  assumes "\<forall>r\<in>set rs. k_sock k r \<noteq> None"
  shows "inBacklog k s rs = Some (\<exists>r\<in>set rs. \<exists>q. k_sock k r = Some q \<and>
    bytes_equal (sa_data (so_address q)) (sa_data (so_address s)) (so_addressLength s))"
  using assms by (induction rs) auto

lemma getLocalSocket_lock:
  "k_sock k' = k_sock k \<Longrightarrow> k_sockets k' = k_sockets k \<Longrightarrow> k_socketCount k' = k_socketCount k \<Longrightarrow>
   getLocalSocket k' addr = getLocalSocket k addr"
proof -
  assume a: "k_sock k' = k_sock k" "k_sockets k' = k_sockets k" "k_socketCount k' = k_socketCount k"
  have "findSocket k' is path = findSocket k is path" for "is" path
    by (induction "is") (simp_all add: a cong: if_cong)
  with a show ?thesis by (simp add: getLocalSocket_def)
qed

lemma bytes_equal_0 [simp]: "bytes_equal a b 0"
  by (simp add: bytes_equal_def)

text \<open>
  a connection request to a listening socket with room in its backlog is appended to the
  backlog, unless a waiting socket has the same address; then nothing changes and the caller is
  told that the connection is in progress. The comparison covers as many bytes as the caller
  bound, so a socket that was never bound is refused whenever any other request is waiting.
\<close>

theorem connect_backlog:
  assumes c: "socketOf t sd k = Some (Inr (p, a))" "k_sock k a = Some s" "so_peer s = 0" "\<not> k_socketLock k"
    and l: "getLocalSocket k addr = Some b" "b \<noteq> 0" "k_sock k b = Some q"
      "sa_family (so_address s) = sa_family (so_address q)" "so_listener q" "so_backlog q = Some bl"
      "length bl < so_backlogMax q" "\<forall>r\<in>set bl. k_sock k r \<noteq> None"
  shows "connect t sd addr len k =
     (if \<exists>r\<in>set bl. \<exists>w. k_sock k r = Some w \<and>
           bytes_equal (sa_data (so_address w)) (sa_data (so_address s)) (so_addressLength s)
      then Some (- EINPROGRESS, k)
      else Some (- EWOULDBLOCK, upd_sock b (\<lambda>q. q\<lparr>so_backlog := Some (bl @ [a])\<rparr>) k)) \<and>
    (so_addressLength s = 0 \<and> bl \<noteq> [] \<longrightarrow> connect t sd addr len k = Some (- EINPROGRESS, k))"
proof -
  have look: "getLocalSocket (k\<lparr>k_socketLock := True\<rparr>) addr = Some b"
    using l(1) getLocalSocket_lock [of "k\<lparr>k_socketLock := True\<rparr>" k addr] by simp
  have unlock: "k\<lparr>k_socketLock := False\<rparr> = k" using c(4) by simp
  have "inBacklog (k\<lparr>k_socketLock := True\<rparr>) s bl = Some (\<exists>r\<in>set bl. \<exists>w. k_sock k r = Some w \<and>
      bytes_equal (sa_data (so_address w)) (sa_data (so_address s)) (so_addressLength s))"
    using inBacklog_total [of bl "k\<lparr>k_socketLock := True\<rparr>" s] l(8) by simp
  with c l look have r: "connect t sd addr len k =
     (if \<exists>r\<in>set bl. \<exists>w. k_sock k r = Some w \<and>
           bytes_equal (sa_data (so_address w)) (sa_data (so_address s)) (so_addressLength s)
      then Some (- EINPROGRESS, k)
      else Some (- EWOULDBLOCK, upd_sock b (\<lambda>q. q\<lparr>so_backlog := Some (bl @ [a])\<rparr>) k))"
    by (auto simp: connect_def lock_defs unlock upd_sock_def Let_def)
  moreover have "\<exists>r\<in>set bl. \<exists>w. k_sock k r = Some w" if "bl \<noteq> []"
    using that l(8) by (cases bl) auto
  ultimately show ?thesis by auto
qed

lemma cstring_pad [simp]: "cstring (s @ CHR 0x00 # r) = cstring s"
  by (induction s) (simp_all add: cstring_def)

lemma listen_ex_sockets:
  "socketOf 0 0 listen_ex = Some (Inr (10, 50))" "socketOf 0 1 listen_ex = Some (Inr (10, 51))"
  by (simp_all add: socketOf_def callerProcess_def getProcess_def listen_ex_def pair_ex_def kernel0_def
      validDescriptor_def MAX_IO_DESCRIPTORS_def process0_def)

lemma listen_ex_lookup:
  "getLocalSocket listen_ex \<lparr>sa_family = 1, sa_data = ''/a'' @ replicate 510 (CHR 0x00)\<rparr> = Some 50"
proof -
  have "replicate 510 (CHR 0x00) = CHR 0x00 # replicate 509 (CHR 0x00)" by (simp add: numeral_eq_Suc)
  moreover have "[0..<2] = [0, Suc 0]" by (simp add: numeral_eq_Suc)
  ultimately show ?thesis
    by (simp add: getLocalSocket_def listen_ex_def pair_ex_def AF_UNIX_def)
qed

theorem connect_backlog_witness:
  "connect 0 1 \<lparr>sa_family = 1, sa_data = ''/a'' @ replicate 510 (CHR 0x00)\<rparr> 514 listen_ex =
     Some (- EINPROGRESS, listen_ex)"
proof -
  have "\<exists>s q. k_sock listen_ex 51 = Some s \<and> so_peer s = 0 \<and> so_addressLength s = 0 \<and> \<not> k_socketLock listen_ex \<and>
     k_sock listen_ex 50 = Some q \<and> sa_family (so_address s) = sa_family (so_address q) \<and> so_listener q \<and>
     so_backlog q = Some [60] \<and> length [60::nat] < so_backlogMax q \<and> (\<forall>r\<in>set [60]. k_sock listen_ex r \<noteq> None)"
    by (simp add: listen_ex_def pair_ex_def kernel0_def socket0_def)
  then obtain s q where a: "k_sock listen_ex 51 = Some s" "so_peer s = 0" "so_addressLength s = 0"
    "\<not> k_socketLock listen_ex" "k_sock listen_ex 50 = Some q"
    "sa_family (so_address s) = sa_family (so_address q)" "so_listener q" "so_backlog q = Some [60]"
    "length [60::nat] < so_backlogMax q" "\<forall>r\<in>set [60]. k_sock listen_ex r \<noteq> None" by blast
  from conjunct2 [OF connect_backlog [OF listen_ex_sockets(2) a(1,2,4) listen_ex_lookup _ a(5-10)]] a(3)
  show ?thesis by simp
qed

text \<open>
  C23: accepting takes the request that has waited longest off the backlog and connects it, in both
  directions, to a new socket with the listener's address at the lowest closed descriptor; the
  caller learns the peer's address, no other socket changes, and the lock is free again.
\<close>

theorem accept_connects:
  assumes l: "socketOf t sd k = Some (Inr (p, l))" "k_sock k l = Some L" "so_listener L" "so_backlogMax L \<noteq> 0"
      "so_backlog L = Some (c # rest)" "sa_family (so_address L) = AF_UNIX"
    and c: "socketOf tc sc k = Some (Inr (pc, c))" "k_sock k c = Some C" "sa_family (so_address C) = AF_UNIX" "c \<noteq> l" "c \<noteq> 0"
    and p: "k_proc k p = Some x" "iod_ok x" "firstFree (pr_io x) = Some d"
    and h: "\<not> k_socketLock k" "k_oom k = (\<lambda>_. False)" "k_fresh k \<noteq> 0" "k_sock k (k_fresh k) = None"
  shows "\<exists>k'. accept t sd k = Some (int d, Some (so_address C), k') \<and>
    connected t (int d) (k_fresh k) tc sc c k' \<and> connected tc sc c t (int d) (k_fresh k) k' \<and>
    map_option so_address (k_sock k' (k_fresh k)) = Some (so_address L) \<and>
    k_sock k' l = Some (L\<lparr>so_backlog := Some rest\<rparr>) \<and>
    (\<forall>s. s \<noteq> l \<and> s \<noteq> c \<and> s \<noteq> k_fresh k \<longrightarrow> k_sock k' s = k_sock k s) \<and> \<not> k_socketLock k'"
proof -
  have d: "d < MAX_IO_DESCRIPTORS" "\<not> io_valid (pr_io x ! d)" using p(3) by (simp_all add: firstFree_Some)
  then have dl: "d < length (pr_io x)" using p(2) by (simp add: iod_ok_def)
  let ?s = "k_fresh k" and ?k1 = "k\<lparr>k_socketLock := True\<rparr>"
  let ?new = "socket0\<lparr>so_refCount := 1, so_address := so_address L, so_addressLength := so_addressLength L,
     so_type := so_type L, so_protocol := so_protocol L, so_process := so_process L, so_peer := c\<rparr>"
  let ?k3 = "(upd_proc p (opened d) ?k1)\<lparr>k_fresh := Suc ?s\<rparr>"
  let ?k4 = "upd_io p d (\<lambda>e. e\<lparr>io_type := IO_SOCKET, io_flags := io_flags (pr_io (opened d x) ! nat sd), io_data := ?s\<rparr>) ?k3"
  define k' where "k' = socketRelease (upd_sock l (\<lambda>s. s\<lparr>so_backlog := Some rest\<rparr>)
     (upd_sock c (\<lambda>s. s\<lparr>so_peer := ?s\<rparr>) (?k4\<lparr>k_sock := (k_sock ?k4)(?s \<mapsto> ?new)\<rparr>)))"
  have ne: "c \<noteq> ?s" "l \<noteq> ?s" using c(2) l(2) h(4) by auto
  have op: "openIO p ?k1 = Some (int d, upd_proc p (opened d) ?k1)"
    using p full_table [OF p(2)] by (simp add: openIO_def opened_def [abs_def])
  have acc: "accept t sd k = Some (int d, Some (so_address C), k')"
    using l c p h op by (simp add: accept_def socketLock_def kalloc_def k'_def upd_io_def upd_proc_def Let_def)
  have io: "k_proc k' = (k_proc k)(p \<mapsto> x\<lparr>pr_iodCount := pr_iodCount x + 1, pr_io := (pr_io x)[d := (pr_io x ! d)\<lparr>io_valid := True,
      io_type := IO_SOCKET, io_flags := io_flags (pr_io (opened d x) ! nat sd), io_data := ?s\<rparr>]\<rparr>)"
    using p(1) dl by (simp add: k'_def socketRelease_def upd_io_def opened_def)
  have sk: "k_sock k' = (k_sock k)(?s \<mapsto> ?new, c \<mapsto> C\<lparr>so_peer := ?s\<rparr>, l \<mapsto> L\<lparr>so_backlog := Some rest\<rparr>)"
    using ne c(2,4) l(2) by (simp add: k'_def socketRelease_def upd_io_def upd_proc_def)
  have fr: "k_list k' = k_list k" "k_kernel k' = k_kernel k" "k_thread k' = k_thread k" "k_oom k' = k_oom k"
      "k_fresh k' = Suc ?s" "\<not> k_socketLock k'"
    by (simp_all add: k'_def socketRelease_def upd_io_def upd_proc_def upd_sock_def)
  have gp: "getProcess k' i = getProcess k i" for i
  proof -
    have "findProcess k' ps i = findProcess k ps i" for ps
      by (induction ps) (auto simp: io p(1) split: Option.bind_split)
    then show ?thesis by (simp add: getProcess_def fr)
  qed
  have cp: "callerProcess u k' = callerProcess u k" for u
    using gp by (simp add: callerProcess_def fr cong: if_cong)
  have "callerProcess t k = Some p" "p \<noteq> 0" using l(1) by (auto simp: socketOf_def Let_def split: if_splits Option.bind_splits)
  then have s1: "socketOf t (int d) k' = Some (Inr (p, ?s))"
    using cp [of t] d dl h(3) by (simp add: socketOf_def validDescriptor_def io)
  have s2: "socketOf tc sc k' = Some (Inr (pc, c))"
  proof -
    from c(1) have v: "validDescriptor sc" "callerProcess tc k = Some pc" "pc \<noteq> 0" and
      y: "\<exists>y. k_proc k pc = Some y \<and> io_valid (pr_io y ! nat sc) \<and> io_data (pr_io y ! nat sc) = c \<and>
        io_type (pr_io y ! nat sc) = IO_SOCKET"
      by (auto simp: socketOf_def Let_def split: if_splits Option.bind_splits)
    then have "\<exists>y. k_proc k' pc = Some y \<and> io_valid (pr_io y ! nat sc) \<and> io_data (pr_io y ! nat sc) = c \<and>
        io_type (pr_io y ! nat sc) = IO_SOCKET"
      using p(1) d(2) dl by (cases "nat sc = d") (auto simp: io)
    with v cp [of tc] c(5) show ?thesis by (auto simp: socketOf_def)
  qed
  have sk: "k_sock k' ?s = Some ?new" "k_sock k' c = Some (C\<lparr>so_peer := ?s\<rparr>)"
    "k_sock k' l = Some (L\<lparr>so_backlog := Some rest\<rparr>)"
    "\<forall>s. s \<noteq> l \<and> s \<noteq> c \<and> s \<noteq> ?s \<longrightarrow> k_sock k' s = k_sock k s"
    using ne c(4) by (simp_all add: sk)
  have f: "k_oom k' = (\<lambda>_. False)" "k_fresh k' \<noteq> 0" "\<not> k_socketLock k'" using h by (simp_all add: fr)
  have "connected t (int d) ?s tc sc c k'" "connected tc sc c t (int d) ?s k'"
    unfolding connected_def using s1 s2 sk(1,2) f(1,2) c(3,5) l(6) h(3) by simp_all
  then show ?thesis using acc sk f by (intro exI [of _ k']) simp
qed

lemma pair_ex_process:
  "\<exists>x. k_proc pair_ex 10 = Some x \<and> iod_ok x \<and> firstFree (pr_io x) = Some 2"
proof -
  obtain x where x: "k_proc pair_ex 10 = Some x" "pr_iodCount x = 2"
    and io: "pr_io x = (replicate MAX_IO_DESCRIPTORS iod0)
      [0 := \<lparr>io_valid = True, io_type = IO_SOCKET, io_flags = 0, io_data = 50\<rparr>,
       1 := \<lparr>io_valid = True, io_type = IO_SOCKET, io_flags = 0, io_data = 51\<rparr>]"
    by (simp add: pair_ex_def)
  have n: "2 < MAX_IO_DESCRIPTORS" by (simp add: MAX_IO_DESCRIPTORS_def)
  have v: "io_valid (pr_io x ! i) \<longleftrightarrow> i < 2" if "i < MAX_IO_DESCRIPTORS" for i
    using that n by (auto simp: io nth_list_update iod0_def)
  then have "{i. i < MAX_IO_DESCRIPTORS \<and> io_valid (pr_io x ! i)} = {..<2}" using n by auto
  with x(2) have "iod_ok x" by (simp add: iod_ok_def io)
  with x(1) v n show ?thesis by (auto simp: firstFree_Some)
qed

theorem accept_connects_witness: "\<exists>k' s. connected 0 2 s 0 1 51 k' \<and> connected 0 1 51 0 2 s k'"
proof -
  obtain x where x: "k_proc accept_ex 10 = Some x" "iod_ok x" "firstFree (pr_io x) = Some 2"
    using pair_ex_process by (auto simp: accept_ex_def listen_ex_def)
  have "\<exists>L C. k_sock accept_ex 50 = Some L \<and> so_listener L \<and> so_backlogMax L \<noteq> 0 \<and> so_backlog L = Some [51] \<and>
     sa_family (so_address L) = AF_UNIX \<and> k_sock accept_ex 51 = Some C \<and> sa_family (so_address C) = AF_UNIX \<and>
     \<not> k_socketLock accept_ex \<and> k_oom accept_ex = (\<lambda>_. False) \<and> k_fresh accept_ex = 100 \<and> k_sock accept_ex 100 = None"
    by (simp add: accept_ex_def listen_ex_def pair_ex_def kernel0_def AF_UNIX_def)
  then obtain L C where a: "k_sock accept_ex 50 = Some L" "so_listener L" "so_backlogMax L \<noteq> 0" "so_backlog L = Some [51]"
    "sa_family (so_address L) = AF_UNIX" "k_sock accept_ex 51 = Some C" "sa_family (so_address C) = AF_UNIX"
    "\<not> k_socketLock accept_ex" "k_oom accept_ex = (\<lambda>_. False)" "k_fresh accept_ex = 100" "k_sock accept_ex 100 = None"
    by blast
  have s: "socketOf t sd accept_ex = socketOf t sd listen_ex" for t sd
    by (rule socketOf_cong) (simp_all add: accept_ex_def)
  have "\<exists>k'. accept 0 0 accept_ex = Some (int 2, Some (so_address C), k') \<and>
    connected 0 (int 2) (k_fresh accept_ex) 0 1 51 k' \<and> connected 0 1 51 0 (int 2) (k_fresh accept_ex) k' \<and>
    map_option so_address (k_sock k' (k_fresh accept_ex)) = Some (so_address L) \<and>
    k_sock k' 50 = Some (L\<lparr>so_backlog := Some []\<rparr>) \<and>
    (\<forall>s. s \<noteq> 50 \<and> s \<noteq> 51 \<and> s \<noteq> k_fresh accept_ex \<longrightarrow> k_sock k' s = k_sock accept_ex s) \<and> \<not> k_socketLock k'"
    by (rule accept_connects [where p = 10 and pc = 10 and x = x])
      (use x a s listen_ex_sockets in simp_all)
  then show ?thesis by auto
qed

section \<open>The registry\<close>

lemma findIndex_first:
  assumes "k_sockets k i = r" "r \<noteq> 0" "k_sock k r = Some R" "so_globalIndex R = index" "i \<in> set is"
    "\<forall>j\<in>set is. j \<noteq> i \<longrightarrow> k_sockets k j = 0 \<or> (\<exists>s. k_sock k (k_sockets k j) = Some s \<and> so_globalIndex s \<noteq> index)"
  shows "findIndex k is index = Some (Some i)"
  using assms by (induction "is") auto

lemma findSocket_mem: "findSocket k is path = Some r \<Longrightarrow> r \<noteq> 0 \<Longrightarrow> \<exists>i\<in>set is. k_sockets k i = r"
  by (induction "is") (auto split: if_splits Option.bind_splits)

lemma find_upt: "find P [0..<n] = Some d \<longleftrightarrow> d < n \<and> P d \<and> (\<forall>j<d. \<not> P j)"
  unfolding find_Some_iff by auto

text \<open>
  closing the last reference of a socket that was never registered, such as one made by
  \<open>accept()\<close>, whose index is left zero, removes the registered socket of index zero from the
  registry. That socket stays open but can no longer be found by its address.
\<close>

theorem closeSocket_unregisters_other:
  assumes s: "validDescriptor sd" "callerProcess t k = Some p" "p \<noteq> 0" "k_proc k p = Some x"
      "io_data (pr_io x ! nat sd) = s" "s \<noteq> 0" "k_sock k s = Some S" "so_refCount S = 1"
      "so_globalIndex S = 0" "so_peer S = 0" "\<forall>i. k_sockets k i \<noteq> s"
    and r: "k_sockets k 0 = r" "r \<noteq> 0" "k_sock k r = Some R" "so_globalIndex R = 0"
      "\<forall>j<MAX_SOCKETS. j \<noteq> 0 \<longrightarrow> k_sockets k j = 0 \<or> (\<exists>q. k_sock k (k_sockets k j) = Some q \<and> so_globalIndex q \<noteq> 0)"
    and l: "\<not> k_socketLock k" "k_socketCount k \<noteq> 0" "k_socketCount k \<le> int MAX_SOCKETS"
  shows "\<exists>k'. closeSocket t sd k = Some (1, k') \<and> k_sock k' s = None \<and> k_sock k' r = Some R \<and>
    k_socketCount k' = k_socketCount k - 1 \<and> (\<forall>addr. getLocalSocket k' addr \<noteq> Some r)"
proof -
  let ?k2 = "upd_sock s (\<lambda>s. s\<lparr>so_refCount := so_refCount s - 1\<rparr>) (k\<lparr>k_socketLock := True\<rparr>)"
  have ne: "r \<noteq> s" using s(11) r(1) by auto
  have "findIndex ?k2 [0..<MAX_SOCKETS] 0 = Some (Some 0)"
    by (rule findIndex_first [of _ _ r R]) (use r ne s(7,11) in \<open>auto simp: upd_sock_def MAX_SOCKETS_def\<close>)
  then have u: "socketUnregister 0 ?k2 =
      Some (r, ?k2\<lparr>k_sockets := (k_sockets k)(0 := 0), k_socketCount := k_socketCount k - 1\<rparr>)"
    using l r(1) by (simp add: socketUnregister_def upd_sock_def)
  let ?k5 = "?k2\<lparr>k_sockets := (k_sockets k)(0 := 0), k_socketCount := k_socketCount k - 1,
      k_sock := (k_sock ?k2)(s := None)\<rparr>"
  let ?k' = "socketRelease (closeIO p (nat sd) ?k5)"
  have "closeSocket t sd k = Some (1, ?k')"
    using s l u by (simp add: closeSocket_def socketLock_def Let_def)
  moreover have k': "k_sock ?k' s = None" "k_sock ?k' r = Some R" "k_sockets ?k' = (k_sockets k)(0 := 0)"
    "k_socketCount ?k' = k_socketCount k - 1"
    using ne r(2,3) by (simp_all add: socketRelease_def closeIO_def upd_proc_def)
  moreover have "getLocalSocket ?k' addr \<noteq> Some r" for addr
  proof
    assume "getLocalSocket ?k' addr = Some r"
    then have "findSocket ?k' [0..<nat (k_socketCount ?k')] (cstring (sa_data addr)) = Some r"
      using r(2) by (simp add: getLocalSocket_def split: if_splits)
    from findSocket_mem [OF this r(2)] obtain i where i: "i < nat (k_socketCount k - 1)" "k_sockets ?k' i = r"
      unfolding k'(4) by auto
    then have "i < MAX_SOCKETS" using l(3) by linarith
    note this i(2)
    then show False using r k'(3) by (cases "i = 0") auto
  qed
  ultimately show ?thesis by (intro exI [of _ ?k']) simp
qed

text \<open>
  a lookup by address only scans as many registry slots as there are open sockets. After two
  sockets were registered and the first one unregistered, the second one still is in the
  registry, but its address is not found.
\<close>

theorem getLocalSocket_misses:
  assumes e: "k_socketCount k = 0" "k_sockets k = (\<lambda>_. 0)"
    and s: "a \<noteq> 0" "b \<noteq> 0" "a \<noteq> b" "k_sock k a = Some A" "k_sock k b = Some B" "so_globalIndex A = 0" "so_globalIndex B = 1"
      "sa_family (so_address B) = AF_UNIX"
  shows "\<exists>k1 k2 k3. socketRegister a k = (0, k1) \<and> socketRegister b k1 = (1, k2) \<and>
    getLocalSocket k2 (so_address B) \<noteq> Some 0 \<and>
    socketUnregister 0 k2 = Some (a, k3) \<and> k_sockets k3 1 = b \<and> k_sock k3 b = Some B \<and>
    getLocalSocket k3 (so_address B) = Some 0"
proof -
  let ?k1 = "k\<lparr>k_sockets := (\<lambda>_. 0)(0 := a), k_socketCount := 1\<rparr>"
  let ?k2 = "k\<lparr>k_sockets := (\<lambda>_. 0)(0 := a, 1 := b), k_socketCount := 2\<rparr>"
  let ?k3 = "k\<lparr>k_sockets := (\<lambda>_. 0)(1 := b), k_socketCount := 1\<rparr>"
  have n: "1 < MAX_SOCKETS" by (simp add: MAX_SOCKETS_def)
  have "find (\<lambda>i. k_sockets k i = 0) [0..<MAX_SOCKETS] = Some 0"
    using n by (simp add: e find_upt)
  then have 1: "socketRegister a k = (0, ?k1)" using n e by (simp add: socketRegister_def)
  have "find (\<lambda>i. k_sockets ?k1 i = 0) [0..<MAX_SOCKETS] = Some 1"
    using n s by (simp add: find_upt)
  then have 2: "socketRegister b ?k1 = (1, ?k2)" using n s by (simp add: socketRegister_def)
  have "findIndex ?k2 [0..<MAX_SOCKETS] 0 = Some (Some 0)"
    by (rule findIndex_first [of _ _ a A]) (use n s in auto)
  then have 3: "socketUnregister 0 ?k2 = Some (a, ?k3)"
    by (auto simp: socketUnregister_def fun_eq_iff intro!: kernel.equality)
  have u: "[0..<2] = [0, Suc 0]" by (simp add: numeral_eq_Suc)
  have "getLocalSocket ?k2 (so_address B) \<noteq> Some 0" using s by (simp add: getLocalSocket_def u)
  moreover have "getLocalSocket ?k3 (so_address B) = Some 0" by (simp add: getLocalSocket_def)
  ultimately show ?thesis using 1 2 3 s(5) by (intro exI [of _ ?k1] exI [of _ ?k2] exI [of _ ?k3]) simp
qed

theorem closeSocket_unregisters_other_witness:
  "\<exists>k'. closeSocket 0 1 close_ex = Some (1, k') \<and> (\<forall>addr. getLocalSocket k' addr \<noteq> Some 50)"
proof -
  obtain x S R where a: "validDescriptor 1" "callerProcess 0 close_ex = Some 10" "k_proc close_ex 10 = Some x"
    "io_data (pr_io x ! nat 1) = 51" "k_sock close_ex 51 = Some S" "so_refCount S = 1" "so_globalIndex S = 0" "so_peer S = 0"
    "\<forall>i. k_sockets close_ex i \<noteq> 51" "k_sockets close_ex 0 = 50" "k_sock close_ex 50 = Some R" "so_globalIndex R = 0"
    "\<forall>j<MAX_SOCKETS. j \<noteq> 0 \<longrightarrow> k_sockets close_ex j = 0 \<or> (\<exists>q. k_sock close_ex (k_sockets close_ex j) = Some q \<and> so_globalIndex q \<noteq> 0)"
    "\<not> k_socketLock close_ex" "k_socketCount close_ex \<noteq> 0" "k_socketCount close_ex \<le> int MAX_SOCKETS"
    by (simp add: close_ex_def listen_ex_def pair_ex_def kernel0_def socket0_def callerProcess_def getProcess_def
        validDescriptor_def MAX_IO_DESCRIPTORS_def MAX_SOCKETS_def process0_def)
  from closeSocket_unregisters_other [OF a(1,2) _ a(3,4) _ a(5-10) _ a(11-16)] show ?thesis by auto
qed

theorem getLocalSocket_misses_witness:
  "\<exists>k1 k2 k3 B. socketRegister 50 (pair_ex\<lparr>k_socketCount := 0, k_sockets := (\<lambda>_. 0)\<rparr>) = (0, k1) \<and>
     socketRegister 51 k1 = (1, k2) \<and> socketUnregister 0 k2 = Some (50, k3) \<and>
     k_sock k3 51 = Some B \<and> getLocalSocket k3 (so_address B) = Some 0"
proof -
  let ?k = "pair_ex\<lparr>k_socketCount := 0, k_sockets := (\<lambda>_. 0)\<rparr>"
  have e: "k_socketCount ?k = 0" "k_sockets ?k = (\<lambda>_. 0)" by simp_all
  obtain A B where a: "k_sock ?k 50 = Some A" "k_sock ?k 51 = Some B" "so_globalIndex A = 0" "so_globalIndex B = 1"
      "sa_family (so_address B) = AF_UNIX"
    by (simp add: pair_ex_def socket0_def AF_UNIX_def)
  have "(50::nat) \<noteq> 0" "(51::nat) \<noteq> 0" "(50::nat) \<noteq> 51" by simp_all
  from getLocalSocket_misses [OF e this a] show ?thesis by blast
qed

end
