(* ===== verification/Clock.thy ===== *)
theory Clock
  imports Sched
begin

text \<open>
  The time of day, from the CMOS real-time clock and the timer ticks (\<^verbatim>\<open>platform/x86_64/cmos.c\<close>,
  \<^verbatim>\<open>src/src/time.c\<close>), and the random numbers (\<^verbatim>\<open>platform/x86_64/rand.c\<close>) with the request
  numbers drawn from them (\<^verbatim>\<open>syscallID()\<close> of \<^verbatim>\<open>syscalls/dispatch.c\<close>). Reading a clock register
  gives the register's value in \<open>k_rtc\<close>; a clock that stays in its update cycle keeps the loop
  waiting and the result is \<open>None\<close>.
\<close>

section \<open>Real-time clock\<close>

definition CMOS_RTC_SECS :: u8 where "CMOS_RTC_SECS = 0x00"
definition CMOS_RTC_MINS :: u8 where "CMOS_RTC_MINS = 0x02"
definition CMOS_RTC_HOURS :: u8 where "CMOS_RTC_HOURS = 0x04"
definition CMOS_RTC_DAY :: u8 where "CMOS_RTC_DAY = 0x07"
definition CMOS_RTC_MONTH :: u8 where "CMOS_RTC_MONTH = 0x08"
definition CMOS_RTC_YEAR :: u8 where "CMOS_RTC_YEAR = 0x09"
definition CMOS_RTC_STATUS_A :: u8 where "CMOS_RTC_STATUS_A = 0x0A"
definition CMOS_RTC_STATUS_B :: u8 where "CMOS_RTC_STATUS_B = 0x0B"
definition CMOS_STATUS_A_UPDATE :: u8 where "CMOS_STATUS_A_UPDATE = 0x80"
definition CMOS_STATUS_B_24HR :: u8 where "CMOS_STATUS_B_24HR = 0x02"
definition CMOS_STATUS_B_BINARY :: u8 where "CMOS_STATUS_B_BINARY = 0x04"

lemmas cmos_defs = CMOS_RTC_SECS_def CMOS_RTC_MINS_def CMOS_RTC_HOURS_def CMOS_RTC_DAY_def CMOS_RTC_MONTH_def
  CMOS_RTC_YEAR_def CMOS_RTC_STATUS_A_def CMOS_RTC_STATUS_B_def CMOS_STATUS_A_UPDATE_def
  CMOS_STATUS_B_24HR_def CMOS_STATUS_B_BINARY_def

definition cmosRead :: "kernel \<Rightarrow> u8 \<Rightarrow> u8" where
  "cmosRead k index = k_rtc k index"

definition cmosWrite :: "u8 \<Rightarrow> u8 \<Rightarrow> kernel \<Rightarrow> kernel" where
  "cmosWrite index value k = k\<lparr>k_rtc := (k_rtc k)(index := value)\<rparr>"

definition daysPerMonth :: "nat list" where
  "daysPerMonth = [31, 28, 31, 30, 31, 30, 31, 31, 30, 31, 30, 31]"

definition fromBCD :: "u8 \<Rightarrow> u8" where
  "fromBCD x = (drop_bit 4 x AND 0x0F) * 10 + (x AND 0x0F)"

definition isLeap :: "nat \<Rightarrow> bool" where
  "isLeap year \<longleftrightarrow> year mod 4 = 0 \<and> year mod 100 \<noteq> 0 \<or> year mod 400 = 0"

text \<open>The sum over \<open>i = 1 .. month - 1\<close>; reading past the table of months is the fault.\<close>

fun monthDays :: "bool \<Rightarrow> nat list \<Rightarrow> nat \<Rightarrow> nat option" where
  "monthDays leap [] yearDay = Some yearDay"
| "monthDays leap (i # is) yearDay =
     (if i = 2 \<and> leap then monthDays leap is (yearDay + 29)
      else if i - 1 < length daysPerMonth then monthDays leap is (yearDay + daysPerMonth ! (i - 1))
      else None)"

text \<open>The final expression is of type \<open>int\<close>: 32 bits with a sign.\<close>

definition int32 :: "int \<Rightarrow> int" where
  "int32 x = signed_take_bit 31 x"

definition unixTime :: "nat \<Rightarrow> int \<Rightarrow> nat \<Rightarrow> nat \<Rightarrow> nat \<Rightarrow> int" where
  "unixTime year yearDay hour minute second =
     (let y = year - 1900 in
      int32 (int second + int minute * 60 + int hour * 3600 + yearDay * 86400
        + (int y - 70) * 31536000 + ((int y - 69) div 4) * 86400
        - ((int y - 1) div 100) * 86400 + ((int y + 299) div 400) * 86400))"

definition readClock :: "kernel \<Rightarrow> int option" where
  "readClock k =
     (let format = cmosRead k CMOS_RTC_STATUS_B;
          conv = (if format AND CMOS_STATUS_B_BINARY = 0 then fromBCD else id);
          year = conv (cmosRead k CMOS_RTC_YEAR);
          month = conv (cmosRead k CMOS_RTC_MONTH);
          day = conv (cmosRead k CMOS_RTC_DAY);
          pm = cmosRead k CMOS_RTC_HOURS AND 0x80;
          hour1 = conv (cmosRead k CMOS_RTC_HOURS AND 0x7F);
          minute = conv (cmosRead k CMOS_RTC_MINS);
          second = conv (cmosRead k CMOS_RTC_SECS);
          hour = (if format AND CMOS_STATUS_B_24HR = 0
                  then if hour1 = 12 then (if pm = 0 then 0 else hour1)
                       else if pm \<noteq> 0 then hour1 + 12 else hour1
                  else hour1);
          y = unat year + 2000
      in if cmosRead k CMOS_RTC_STATUS_A AND CMOS_STATUS_A_UPDATE \<noteq> 0 then None
         else do { yearDay \<leftarrow> monthDays (isLeap y) [1..<unat month] 0;
                   Some (unixTime y (int yearDay + int (unat day) - 1) (unat hour) (unat minute) (unat second)) })"

definition platformUptime :: "kernel \<Rightarrow> u64" where
  "platformUptime k = k_uptime k"

definition platformTimestamp :: "kernel \<Rightarrow> (int \<times> kernel) option" where
  "platformTimestamp k =
     (if k_initialTimestamp k \<noteq> 0 then
        Some (sint (of_int (k_initialTimestamp k) + (platformUptime k - k_initialUptime k) div PLATFORM_TIMER_FREQUENCY), k)
      else if k_cmosLock k then None
      else do { now \<leftarrow> readClock k;
                Some (now, k\<lparr>k_initialTimestamp := now, k_initialUptime := platformUptime k\<rparr>) })"

text \<open>The seconds and microseconds \<open>gettimeofday()\<close> stores.\<close>

definition gettimeofday :: "kernel \<Rightarrow> ((int \<times> int) \<times> kernel) option" where
  "gettimeofday k =
     do { (sec, k1) \<leftarrow> platformTimestamp k;
          Some ((sec, sint ((platformUptime k1 mod PLATFORM_TIMER_FREQUENCY) * 1000)), k1) }"

section \<open>Random numbers\<close>

definition lapicTimer :: "kernel \<Rightarrow> u32 \<times> kernel" where
  "lapicTimer k = (k_lapic k (k_reads k), k\<lparr>k_reads := Suc (k_reads k)\<rparr>)"

definition mixBytes :: "nat \<Rightarrow> u8 list \<Rightarrow> u8 list" where
  "mixBytes i bs =
     (let bs1 = bs[i := bs ! i XOR bs ! (7 - i)] in bs1[7 - i := bs1 ! (7 - i) XOR bs1 ! (i + 4)])"

definition platformRand :: "kernel \<Rightarrow> u64 \<times> kernel" where
  "platformRand k =
     (let (t, k1) = lapicTimer k;
          seed = fromBytes (fold mixBytes [0..<4] (bytesOf (k_seed k1 + ucast t)))
      in (NOT seed, k1\<lparr>k_seed := seed\<rparr>))"

definition platformInitialSeed :: "u64 \<Rightarrow> kernel \<Rightarrow> kernel" where
  "platformInitialSeed cpus k = (let (t, k1) = lapicTimer k in k1\<lparr>k_seed := ucast t * cpus\<rparr>)"

definition platformSeed :: "u64 \<Rightarrow> kernel \<Rightarrow> kernel" where
  "platformSeed s k = k\<lparr>k_seed := s\<rparr>"

partial_function (option) syscallID :: "kernel \<Rightarrow> (u16 \<times> kernel) option" where
  "syscallID k =
     (let (r, k1) = platformRand k in if ucast r = (0::u16) then syscallID k1 else Some (ucast r, k1))"

section \<open>Specification vocabulary\<close>

text \<open>The length of a year and of a month, and the seconds from 1970 to a date and time.\<close>

definition yearLength :: "nat \<Rightarrow> nat" where
  "yearLength y = (if isLeap y then 366 else 365)"

definition monthLength :: "nat \<Rightarrow> nat \<Rightarrow> nat" where
  "monthLength y m = (if m = 2 \<and> isLeap y then 29 else daysPerMonth ! (m - 1))"

definition epochSeconds :: "nat \<Rightarrow> nat \<Rightarrow> nat \<Rightarrow> nat \<Rightarrow> nat \<Rightarrow> nat \<Rightarrow> nat" where
  "epochSeconds y m d h mi s =
     ((\<Sum>i\<leftarrow>[1970..<y]. yearLength i) + (\<Sum>i\<leftarrow>[1..<m]. monthLength y i) + (d - 1)) * 86400 + h * 3600 + mi * 60 + s"

text \<open>How the clock chip stores a number, and the hour, in each of its formats.\<close>

definition rtcNumber :: "u8 \<Rightarrow> nat \<Rightarrow> u8" where
  "rtcNumber fmt n = (if fmt AND CMOS_STATUS_B_BINARY = 0 then of_nat (16 * (n div 10) + n mod 10) else of_nat n)"

definition rtcHour :: "u8 \<Rightarrow> nat \<Rightarrow> u8" where
  "rtcHour fmt h =
     (if fmt AND CMOS_STATUS_B_24HR = 0
      then rtcNumber fmt (if h mod 12 = 0 then 12 else h mod 12) + (if h < 12 then 0 else 128)
      else rtcNumber fmt h)"

definition rtcShows :: "kernel \<Rightarrow> nat \<Rightarrow> nat \<Rightarrow> nat \<Rightarrow> nat \<Rightarrow> nat \<Rightarrow> nat \<Rightarrow> bool" where
  "rtcShows k y m d h mi s \<longleftrightarrow>
     (let fmt = k_rtc k CMOS_RTC_STATUS_B in
      \<not> bit (k_rtc k CMOS_RTC_STATUS_A) 7 \<and> k_rtc k CMOS_RTC_YEAR = rtcNumber fmt (y - 2000) \<and>
      k_rtc k CMOS_RTC_MONTH = rtcNumber fmt m \<and> k_rtc k CMOS_RTC_DAY = rtcNumber fmt d \<and>
      k_rtc k CMOS_RTC_HOURS = rtcHour fmt h \<and> k_rtc k CMOS_RTC_MINS = rtcNumber fmt mi \<and>
      k_rtc k CMOS_RTC_SECS = rtcNumber fmt s)"

section \<open>Specification vocabulary\<close>

text \<open>The decoded hour, for the four combinations of formats.\<close>

definition hourOf :: "(u8 \<Rightarrow> u8) \<Rightarrow> bool \<Rightarrow> u8 \<Rightarrow> u8" where
  "hourOf conv twelve reg =
     (let pm = reg AND 0x80; hour = conv (reg AND 0x7F) in
      if twelve then if hour = 12 then (if pm = 0 then 0 else hour) else if pm \<noteq> 0 then hour + 12 else hour
      else hour)"

definition hourReg :: "bool \<Rightarrow> bool \<Rightarrow> nat \<Rightarrow> u8" where
  "hourReg bcd twelve h =
     (let num = (\<lambda>n. if bcd then of_nat (16 * (n div 10) + n mod 10) else of_nat n) in
      if twelve then num (if h mod 12 = 0 then 12 else h mod 12) + (if h < 12 then 0 else 128) else num h)"

text \<open>A clock in decimal digits and 12 hours that shows 29 February 2040, 1:05:09 pm.\<close>

definition clock_ex :: kernel where
  "clock_ex = kernel0\<lparr>k_rtc := (\<lambda>_. 0)(0 := 0x09, 2 := 0x05, 4 := 0x81, 7 := 0x29, 8 := 0x02, 9 := 0x40)\<rparr>"

section \<open>The conversion\<close>

lemma rtc_numbers:
  assumes "n < 100"
  shows "fromBCD (of_nat (16 * (n div 10) + n mod 10)) = of_nat n" "unat (of_nat n :: u8) = n"
proof -
  have "\<forall>n\<in>set [0..<100]. fromBCD (of_nat (16 * (n div 10) + n mod 10)) = of_nat n" by code_simp
  with assms show "fromBCD (of_nat (16 * (n div 10) + n mod 10)) = of_nat n" by simp
  show "unat (of_nat n :: u8) = n" using assms by (simp add: unat_of_nat)
qed

lemma rtc_number:
  "n < 100 \<Longrightarrow> unat ((if fmt AND CMOS_STATUS_B_BINARY = 0 then fromBCD else id) (rtcNumber fmt n)) = n"
  using rtc_numbers [of n] by (simp add: rtcNumber_def)

lemma hourOf_hourReg:
  assumes "h < 24"
  shows "unat (hourOf (if b then fromBCD else id) c (hourReg b c h)) = h"
proof -
  have "\<forall>h\<in>set [0..<24]. hourOf fromBCD True (hourReg True True h) = of_nat h"
    "\<forall>h\<in>set [0..<24]. hourOf fromBCD False (hourReg True False h) = of_nat h"
    "\<forall>h\<in>set [0..<24]. hourOf id True (hourReg False True h) = of_nat h"
    "\<forall>h\<in>set [0..<24]. hourOf id False (hourReg False False h) = of_nat h"
    by code_simp+
  with assms have "hourOf (if b then fromBCD else id) c (hourReg b c h) = of_nat h" by (cases b; cases c) simp_all
  then show ?thesis using rtc_numbers(2) [of h] assms by simp
qed

lemma rtcHour_hourReg:
  "rtcHour fmt h = hourReg (fmt AND CMOS_STATUS_B_BINARY = 0) (fmt AND CMOS_STATUS_B_24HR = 0) h"
  unfolding rtcHour_def hourReg_def rtcNumber_def Let_def by (rule refl)

lemma rtc_hour:
  "h < 24 \<Longrightarrow> unat (hourOf (if fmt AND CMOS_STATUS_B_BINARY = 0 then fromBCD else id)
     (fmt AND CMOS_STATUS_B_24HR = 0) (rtcHour fmt h)) = h"
  unfolding rtcHour_hourReg by (rule hourOf_hourReg)

lemma monthDays_sum:
  assumes "\<forall>i\<in>set is. 1 \<le> i \<and> i \<le> 12"
  shows "monthDays (isLeap y) is a = Some (a + (\<Sum>i\<leftarrow>is. monthLength y i))"
  using assms by (induction "is" arbitrary: a) (auto simp: monthLength_def daysPerMonth_def)

lemma monthLength_le: "1 \<le> i \<Longrightarrow> i \<le> 12 \<Longrightarrow> monthLength y i \<le> 31"
proof -
  have "\<forall>x\<in>set daysPerMonth. x \<le> 31" by (simp add: daysPerMonth_def)
  moreover assume "1 \<le> i" "i \<le> 12"
  then have "daysPerMonth ! (i - 1) \<in> set daysPerMonth" by (intro nth_mem) (simp add: daysPerMonth_def)
  ultimately show ?thesis by (simp add: monthLength_def)
qed

lemma div_step: "0 < n \<Longrightarrow> (a + 1) div n = a div n + (if n dvd a + 1 then 1 else 0)" for a n :: int
proof (cases "n dvd a + 1")
  case True
  assume "0 < n"
  then obtain q where q: "a + 1 = n * q" using True by blast
  then have "a = n * (q - 1) + (n - 1)" by (simp add: algebra_simps)
  then have "a div n = q - 1" using \<open>0 < n\<close> by simp
  with q \<open>0 < n\<close> show ?thesis by simp
next
  case False
  assume n: "0 < n"
  have "a mod n + 1 < n"
  proof -
    have "a mod n + 1 \<noteq> n"
    proof
      assume "a mod n + 1 = n"
      then have "a + 1 = n * (a div n) + n" using mult_div_mod_eq [of n a] by linarith
      then show False using False by (metis dvd_add_triv_right_iff dvd_triv_left)
    qed
    then show ?thesis using pos_mod_bound [OF n, of a] by linarith
  qed
  then have "(a mod n + 1) div n = 0" using n by (intro div_pos_pos_trivial) auto
  moreover have "(a + 1) div n = a div n + (a mod n + 1) div n"
    using div_mult_self4 [of n "a div n" "a mod n + 1"] n mult_div_mod_eq [of n a] by (simp add: algebra_simps)
  ultimately show ?thesis using False by simp
qed

lemma leap_terms: "(if isLeap y then 1 else 0 :: int) =
  (if 4 dvd int y then 1 else 0) - (if 100 dvd int y then 1 else 0) + (if 400 dvd int y then 1 else 0)"
proof -
  have "4 dvd y" if "100 dvd y" using dvd_trans [OF _ that, of 4] by simp
  moreover have "100 dvd y" if "400 dvd y" using dvd_trans [OF _ that, of 100] by simp
  moreover have "4 dvd int y \<longleftrightarrow> 4 dvd y" "100 dvd int y \<longleftrightarrow> 100 dvd y" "400 dvd int y \<longleftrightarrow> 400 dvd y"
    by (simp_all flip: int_dvd_int_iff)
  ultimately show ?thesis by (auto simp: isLeap_def mod_eq_0_iff_dvd)
qed

lemma years_formula:
  assumes "1970 \<le> y"
  shows "int (\<Sum>i\<leftarrow>[1970..<y]. yearLength i) =
    (int y - 1970) * 365 + (int y - 1969) div 4 - (int y - 1901) div 100 + (int y - 1601) div 400"
  using assms
proof (induction y rule: dec_induct)
  case base
  then show ?case by simp
next
  case (step y)
  have d: "4 dvd int y - 1968 \<longleftrightarrow> 4 dvd int y" "100 dvd int y - 1900 \<longleftrightarrow> 100 dvd int y" "400 dvd int y - 1600 \<longleftrightarrow> 400 dvd int y"
    using dvd_add_times_triv_right_iff [of 4 "int y" "-492"] dvd_add_times_triv_right_iff [of 100 "int y" "-19"]
      dvd_add_times_triv_right_iff [of 400 "int y" "-4"] by simp_all
  have "int (\<Sum>i\<leftarrow>[1970..<Suc y]. yearLength i) =
      int (\<Sum>i\<leftarrow>[1970..<y]. yearLength i) + 365 + (if isLeap y then 1 else 0)"
    using step(1) by (simp add: yearLength_def)
  then have sum: "int (\<Sum>i\<leftarrow>[1970..<Suc y]. yearLength i) = (int y - 1970) * 365 + (int y - 1969) div 4
      - (int y - 1901) div 100 + (int y - 1601) div 400 + 365
      + ((if 4 dvd int y then 1 else 0) - (if 100 dvd int y then 1 else 0) + (if 400 dvd int y then 1 else 0))"
    unfolding step.IH leap_terms .
  define f where "f = (\<lambda>n c. (int y - c) div n)"
  define g where "g = (\<lambda>n. if n dvd int y then 1 else (0::int))"
  have "(int (Suc y) - 1969) div 4 = f 4 1969 + g 4" "(int (Suc y) - 1901) div 100 = f 100 1901 + g 100"
    "(int (Suc y) - 1601) div 400 = f 400 1601 + g 400"
    using div_step [of 4 "int y - 1969"] div_step [of 100 "int y - 1901"] div_step [of 400 "int y - 1601"] d
    by (simp_all add: f_def g_def)
  moreover have "int (\<Sum>i\<leftarrow>[1970..<Suc y]. yearLength i) =
      (int y - 1970) * 365 + f 4 1969 - f 100 1901 + f 400 1601 + 365 + (g 4 - g 100 + g 400)"
    unfolding f_def g_def by (rule sum)
  moreover have "(int (Suc y) - 1970) * 365 = (int y - 1970) * 365 + 365" by simp
  ultimately show ?case by linarith
qed

lemma int32_range: "0 \<le> x \<Longrightarrow> x < 2 ^ 32 \<Longrightarrow> int32 x = (if x < 2 ^ 31 then x else x - 2 ^ 32)"
proof -
  assume x: "0 \<le> x" "x < 2 ^ 32"
  have "(x + 2147483648) mod 4294967296 = (if x < 2147483648 then x + 2147483648 else x + 2147483648 - 4294967296)"
  proof (cases "x < 2147483648")
    case False
    have "(x + 2147483648) mod 4294967296 = ((x - 2147483648) + 4294967296) mod 4294967296"
      by (simp add: add.commute)
    also have "\<dots> = (x - 2147483648) mod 4294967296" by (rule mod_add_self2)
    also have "\<dots> = x - 2147483648" using x False by (intro mod_pos_pos_trivial) simp_all
    finally show ?thesis using False by simp
  qed (use x in simp)
  then show ?thesis by (simp add: int32_def signed_take_bit_eq_take_bit_shift take_bit_eq_mod)
qed

lemma years_bound:
  assumes "2000 \<le> y" "y < 2100"
  shows "(\<Sum>i\<leftarrow>[1970..<y]. yearLength i) \<le> 47118"
proof -
  have "(int y - 1969) div 4 \<le> 130 div 4" "(int y - 1601) div 400 \<le> 498 div 400" "99 div 100 \<le> (int y - 1901) div 100"
    using assms by (intro zdiv_mono1; simp)+
  moreover have "(int y - 1970) * 365 \<le> 129 * 365" using assms by simp
  ultimately show ?thesis using years_formula [of y] assms by simp
qed

text \<open>
  C28: reading the clock gives the number of seconds since 1970 of the date and time the clock chip
  shows, whatever its format (binary or decimal digits, 12 or 24 hours), for every date from the
  year 2000 to 2099, but computed in 32 bits: from the year 2038 on the result is off by \<open>2\<^sup>32\<close>.
\<close>

theorem readClock_correct:
  assumes r: "rtcShows k y m d h mi s"
    and v: "2000 \<le> y" "y < 2100" "1 \<le> m" "m \<le> 12" "1 \<le> d" "d \<le> 31" "h < 24" "mi < 60" "s < 60"
  shows "readClock k = Some (if epochSeconds y m d h mi s < 2 ^ 31 then int (epochSeconds y m d h mi s)
                             else int (epochSeconds y m d h mi s) - 2 ^ 32)"
proof -
  let ?fmt = "k_rtc k CMOS_RTC_STATUS_B" and ?M = "\<Sum>i\<leftarrow>[1..<m]. monthLength y i"
  let ?conv = "if ?fmt AND CMOS_STATUS_B_BINARY = 0 then fromBCD else id"
  have regs: "k_rtc k CMOS_RTC_YEAR = rtcNumber ?fmt (y - 2000)" "k_rtc k CMOS_RTC_MONTH = rtcNumber ?fmt m"
    "k_rtc k CMOS_RTC_DAY = rtcNumber ?fmt d" "k_rtc k CMOS_RTC_HOURS = rtcHour ?fmt h"
    "k_rtc k CMOS_RTC_MINS = rtcNumber ?fmt mi" "k_rtc k CMOS_RTC_SECS = rtcNumber ?fmt s"
    "k_rtc k CMOS_RTC_STATUS_A AND CMOS_STATUS_A_UPDATE = 0"
    using r and_exp_iff [of "k_rtc k CMOS_RTC_STATUS_A" 7] by (simp_all add: rtcShows_def Let_def CMOS_STATUS_A_UPDATE_def)
  have dec: "unat (?conv (k_rtc k CMOS_RTC_YEAR)) = y - 2000" "unat (?conv (k_rtc k CMOS_RTC_MONTH)) = m"
    "unat (?conv (k_rtc k CMOS_RTC_DAY)) = d" "unat (?conv (k_rtc k CMOS_RTC_MINS)) = mi"
    "unat (?conv (k_rtc k CMOS_RTC_SECS)) = s"
    "unat (hourOf ?conv (?fmt AND CMOS_STATUS_B_24HR = 0) (k_rtc k CMOS_RTC_HOURS)) = h"
    unfolding regs using v by (intro rtc_number rtc_hour; simp)+
  have "readClock k = do { yearDay \<leftarrow> monthDays (isLeap y) [1..<m] 0;
      Some (unixTime y (int yearDay + int d - 1) h mi s) }"
    unfolding readClock_def cmosRead_def Let_def regs(7) dec(1-5)
    using dec(6) v(1) by (simp add: hourOf_def Let_def)
  also have "\<dots> = Some (unixTime y (int ?M + int d - 1) h mi s)"
    using v(4) by (subst monthDays_sum) auto
  finally have c: "readClock k = Some (unixTime y (int ?M + int d - 1) h mi s)" .
  let ?Y = "\<Sum>i\<leftarrow>[1970..<y]. yearLength i"
  have e: "int (epochSeconds y m d h mi s) = int s + int mi * 60 + int h * 3600 + (int ?M + int d - 1) * 86400 + int ?Y * 86400"
    using v(5) by (simp add: epochSeconds_def of_nat_diff algebra_simps)
  have "unixTime y (int ?M + int d - 1) h mi s = int32 (int (epochSeconds y m d h mi s))"
  proof -
    have "int (y - 1900) = int y - 1900" using v(1) by simp
    then show ?thesis unfolding e unixTime_def Let_def using years_formula [of y] v(1)
      by (intro arg_cong [where f = int32]) (simp only:; simp)
  qed
  moreover have "int (epochSeconds y m d h mi s) < 2 ^ 32"
  proof -
    have "?Y \<le> 47118" by (rule years_bound [OF v(1,2)])
    moreover have "?M \<le> (\<Sum>i\<leftarrow>[1..<m]. 31)"
      by (rule sum_list_mono) (use v(4) in \<open>auto intro: monthLength_le\<close>)
    then have "?M \<le> 341" using v(4) by (simp add: sum_list_triv)
    ultimately show ?thesis unfolding e using v by simp
  qed
  ultimately show ?thesis using c int32_range [of "int (epochSeconds y m d h mi s)"] by auto
qed

theorem readClock_correct_witness: "readClock clock_ex = Some (int (epochSeconds 2040 2 29 13 5 9) - 2 ^ 32)"
proof -
  have "rtcShows clock_ex 2040 2 29 13 5 9"
    by (simp add: rtcShows_def clock_ex_def cmos_defs rtcNumber_def rtcHour_def)
  moreover have "int (epochSeconds 2040 2 29 13 5 9) \<ge> 2 ^ 31"
  proof -
    have "[1..<2] = [1::nat]" by (simp add: upt_rec)
    moreover have "int (\<Sum>i\<leftarrow>[1970..<2040]. yearLength i) = 25567" by (subst years_formula) simp_all
    ultimately show ?thesis by (simp add: epochSeconds_def)
  qed
  ultimately show ?thesis by (subst readClock_correct) auto
qed

text \<open>
  the clock chip is read once. Every later call of \<open>platformTimestamp()\<close> returns the first time plus
  the whole seconds of timer ticks since, so the time never goes back, and leaves the state alone.
\<close>

theorem platformTimestamp_advances:
  assumes first: "k_initialTimestamp k = 0" "platformTimestamp k = Some (now, k1)" "now \<noteq> 0" "\<bar>now\<bar> < 2 ^ 62"
    and later: "k_uptime k + n \<ge> k_uptime k"
  shows "platformTimestamp (k1\<lparr>k_uptime := k_uptime k + n\<rparr>) =
    Some (now + int (unat n div 100), k1\<lparr>k_uptime := k_uptime k + n\<rparr>)"
proof -
  from first have k1: "k1 = k\<lparr>k_initialTimestamp := now, k_initialUptime := k_uptime k\<rparr>"
    by (auto simp: platformTimestamp_def platformUptime_def split: Option.bind_splits if_splits)
  have d: "unat (n div 100 :: u64) = unat n div 100" by (simp add: unat_div)
  have b: "int (unat n div 100) < 2 ^ 62"
  proof -
    have "unat n div 100 \<le> 18446744073709551616 div 100" using u64_bound [of n] by (intro div_le_mono) simp
    then show ?thesis by simp
  qed
  have "sint (of_int now + n div 100 :: u64) = sint (of_int (now + int (unat n div 100)) :: u64)"
    by (simp add: d [symmetric] del: of_nat_div)
  also have "\<dots> = now + int (unat n div 100)"
    unfolding sint_sbintrunc' using first(4) b by (intro signed_take_bit_int_eq_self) simp_all
  finally show ?thesis using first(3) by (simp add: platformTimestamp_def platformUptime_def k1 PLATFORM_TIMER_FREQUENCY_def)
qed

theorem platformTimestamp_advances_witness:
  "\<exists>k1. platformTimestamp (kernel0\<lparr>k_rtc := (\<lambda>_. 0)(7 := 1, 8 := 1)\<rparr>) = Some (946684800, k1) \<and>
     platformTimestamp (k1\<lparr>k_uptime := 250\<rparr>) = Some (946684802, k1\<lparr>k_uptime := 250\<rparr>)"
proof -
  let ?k = "kernel0\<lparr>k_rtc := (\<lambda>_. 0)(7 := 1, 8 := 1)\<rparr>"
  have "readClock ?k = Some 946684800"
    by (simp add: readClock_def cmosRead_def cmos_defs fromBCD_def unixTime_def int32_range)
  then obtain k1 where k1: "platformTimestamp ?k = Some (946684800, k1)"
    by (simp add: platformTimestamp_def kernel0_def)
  have z: "k_initialTimestamp ?k = 0" "k_uptime ?k = 0" by (simp_all add: kernel0_def)
  from platformTimestamp_advances [OF z(1) k1, of 250] k1 show ?thesis by (simp add: z(2))
qed

end
