(* ===== verification/Files.thy ===== *)
theory Files
  imports IO Clock
begin

text \<open>
  The file system calls of \<^verbatim>\<open>src/src/file.c\<close>, \<^verbatim>\<open>cwd.c\<close>, \<^verbatim>\<open>dirent.c\<close>, the rest of \<^verbatim>\<open>io.c\<close>,
  \<^verbatim>\<open>requestServer()\<close> of \<^verbatim>\<open>servers/request.c\<close> and \<^verbatim>\<open>platformIoperm()\<close> of \<^verbatim>\<open>platform/x86_64/io.c\<close>. Most of
  them only check their arguments, fill in a command and send it to a server. A string copied
  into an array it does not fit in, which overwrites the memory behind the array, is \<open>None\<close>.
\<close>

section \<open>Commands and sizes\<close>

definition COMMAND_STAT :: u16 where "COMMAND_STAT = 0x8000"
definition COMMAND_FSYNC :: u16 where "COMMAND_FSYNC = 0x8001"
definition COMMAND_MOUNT :: u16 where "COMMAND_MOUNT = 0x8002"
definition COMMAND_OPEN :: u16 where "COMMAND_OPEN = 0x8004"
definition COMMAND_READ :: u16 where "COMMAND_READ = 0x8005"
definition COMMAND_WRITE :: u16 where "COMMAND_WRITE = 0x8006"
definition COMMAND_IOCTL :: u16 where "COMMAND_IOCTL = 0x8007"
definition COMMAND_OPENDIR :: u16 where "COMMAND_OPENDIR = 0x8008"
definition COMMAND_READDIR :: u16 where "COMMAND_READDIR = 0x8009"
definition COMMAND_CHMOD :: u16 where "COMMAND_CHMOD = 0x800A"
definition COMMAND_CHOWN :: u16 where "COMMAND_CHOWN = 0x800B"
definition COMMAND_LINK :: u16 where "COMMAND_LINK = 0x800C"
definition COMMAND_MKDIR :: u16 where "COMMAND_MKDIR = 0x800D"
definition COMMAND_UTIME :: u16 where "COMMAND_UTIME = 0x800E"
definition COMMAND_CHDIR :: u16 where "COMMAND_CHDIR = 0x8010"
definition COMMAND_UNLINK :: u16 where "COMMAND_UNLINK = 0x8014"
definition COMMAND_SYMLINK :: u16 where "COMMAND_SYMLINK = 0x8015"
definition COMMAND_READLINK :: u16 where "COMMAND_READLINK = 0x8016"
definition COMMAND_STATVFS :: u16 where "COMMAND_STATVFS = 0x8017"

text \<open>The sizes of the structures of \<^verbatim>\<open>kernel/servers.h\<close> on x86-64, alignment included.\<close>

definition sizeof_MountCommand :: u64 where "sizeof_MountCommand = 4192"
definition sizeof_StatCommand :: u64 where "sizeof_StatCommand = 4248"
definition sizeof_FsyncCommand :: u64 where "sizeof_FsyncCommand = 4176"
definition sizeof_OpenCommand :: u64 where "sizeof_OpenCommand = 6240"
definition sizeof_RWCommand :: u64 where "sizeof_RWCommand = 4200"
definition sizeof_IOCTLCommand :: u64 where "sizeof_IOCTLCommand = 4192"
definition sizeof_OpendirCommand :: u64 where "sizeof_OpendirCommand = 6208"
definition sizeof_ReaddirCommand :: u64 where "sizeof_ReaddirCommand = 6224"
definition sizeof_ChmodCommand :: u64 where "sizeof_ChmodCommand = 4168"
definition sizeof_ChownCommand :: u64 where "sizeof_ChownCommand = 4168"
definition sizeof_LinkCommand :: u64 where "sizeof_LinkCommand = 6208"
definition sizeof_UnlinkCommand :: u64 where "sizeof_UnlinkCommand = 4160"
definition sizeof_ReadLinkCommand :: u64 where "sizeof_ReadLinkCommand = 4160"
definition sizeof_MkdirCommand :: u64 where "sizeof_MkdirCommand = 4168"
definition sizeof_UtimeCommand :: u64 where "sizeof_UtimeCommand = 4176"
definition sizeof_ChdirCommand :: u64 where "sizeof_ChdirCommand = 2112"
definition sizeof_StatvfsCommand :: u64 where "sizeof_StatvfsCommand = 4240"

definition S_IFSOCK :: u32 where "S_IFSOCK = 7"
definition S_IRUSR :: u32 where "S_IRUSR = 0x8"
definition S_IWUSR :: u32 where "S_IWUSR = 0x10"
definition S_IRGRP :: u32 where "S_IRGRP = 0x40"

text \<open>\<open>S_IRWXU | S_IRWXG | S_IRWXO\<close>, the mask of the nine permission bits.\<close>

definition S_IRWX :: u32 where "S_IRWX = 0x38 OR 0x1C0 OR 0xE00"

definition DIRECTORY_DESCRIPTOR_FLAG :: u64 where "DIRECTORY_DESCRIPTOR_FLAG = 0x8000"
definition IOCTL_IN_PARAM :: u64 where "IOCTL_IN_PARAM = 1"
definition IOCTL_OUT_PARAM :: u64 where "IOCTL_OUT_PARAM = 2"

section \<open>Requests to servers\<close>

fun setRequester :: "int \<Rightarrow> payload \<Rightarrow> payload" where
  "setRequester r (Raw bs) = Raw bs"
| "setRequester r (General h) = General (h\<lparr>mh_requester := r\<rparr>)"
| "setRequester r (CMount c) = CMount (c\<lparr>mh_requester := r\<rparr>)"
| "setRequester r (CStat c) = CStat (c\<lparr>mh_requester := r\<rparr>)"
| "setRequester r (CFsync c) = CFsync (c\<lparr>mh_requester := r\<rparr>)"
| "setRequester r (COpen c) = COpen (c\<lparr>mh_requester := r\<rparr>)"
| "setRequester r (CRW c) = CRW (c\<lparr>mh_requester := r\<rparr>)"
| "setRequester r (CIoctl c) = CIoctl (c\<lparr>mh_requester := r\<rparr>)"
| "setRequester r (COpendir c) = COpendir (c\<lparr>mh_requester := r\<rparr>)"
| "setRequester r (CReaddir c) = CReaddir (c\<lparr>mh_requester := r\<rparr>)"
| "setRequester r (CChmod c) = CChmod (c\<lparr>mh_requester := r\<rparr>)"
| "setRequester r (CChown c) = CChown (c\<lparr>mh_requester := r\<rparr>)"
| "setRequester r (CLink c) = CLink (c\<lparr>mh_requester := r\<rparr>)"
| "setRequester r (CUnlink c) = CUnlink (c\<lparr>mh_requester := r\<rparr>)"
| "setRequester r (CReadLink c) = CReadLink (c\<lparr>mh_requester := r\<rparr>)"
| "setRequester r (CMkdir c) = CMkdir (c\<lparr>mh_requester := r\<rparr>)"
| "setRequester r (CUtime c) = CUtime (c\<lparr>mh_requester := r\<rparr>)"
| "setRequester r (CExec c) = CExec (c\<lparr>mh_requester := r\<rparr>)"
| "setRequester r (CChdir c) = CChdir (c\<lparr>mh_requester := r\<rparr>)"
| "setRequester r (CStatvfs c) = CStatvfs (c\<lparr>mh_requester := r\<rparr>)"
| "setRequester r (CMmap c) = CMmap (c\<lparr>mh_requester := r\<rparr>)"
| "setRequester r (CMsync c) = CMsync (c\<lparr>mh_requester := r\<rparr>)"
| "setRequester r (CLog c) = CLog (c\<lparr>mh_requester := r\<rparr>)"
| "setRequester r (CRand c) = CRand (c\<lparr>mh_requester := r\<rparr>)"
| "setRequester r (CSysInfo c) = CSysInfo (c\<lparr>mh_requester := r\<rparr>)"
| "setRequester r (CFramebuffer c) = CFramebuffer (c\<lparr>mh_requester := r\<rparr>)"
| "setRequester r (CIrq c) = CIrq (c\<lparr>mh_requester := r\<rparr>)"

definition requestServer :: "ptr \<Rightarrow> int \<Rightarrow> u64 \<Rightarrow> payload \<Rightarrow> kernel \<Rightarrow> (int \<times> kernel) option" where
  "requestServer t sd0 len msg k =
     do { x \<leftarrow> k_thread k t;
          let sd = (if sd0 = 0 then k_lumenSocket k else sd0);
          (s, k1) \<leftarrow> send 0 sd (setRequester (th_tid x) msg) len k;
          Some (if s = sint len then 0 else if s \<ge> 0 then - ENOBUFS else s, k1) }"

text \<open>
  What nearly every call below does: allocate the command, fill it in (which fails when a string
  overruns its array), send it, free it. The header carries the request number.
\<close>

definition relay :: "ptr \<Rightarrow> int \<Rightarrow> u64 \<Rightarrow> payload option \<Rightarrow> kernel \<Rightarrow> (int \<times> kernel) option" where
  "relay t sd len command k =
     (let (c, k1) = kalloc k in
      if c = 0 then Some (- ENOMEM, k1)
      else do { msg \<leftarrow> command; requestServer t sd len msg k1 })"

definition fits :: "nat \<Rightarrow> string \<Rightarrow> string option" where
  "fits n s = (if length s < n then Some s else None)"

text \<open>A path as the servers see it: relative paths are appended to the working directory.\<close>

definition absolutePath :: "Process \<Rightarrow> string \<Rightarrow> string option" where
  "absolutePath p path = fits MAX_FILE_PATH
     (if path \<noteq> [] \<and> hd path = CHR ''/'' then path
      else pr_cwd p @ (if length (pr_cwd p) > 1 then ''/'' else []) @ path)"

definition withProcess :: "ptr \<Rightarrow> (ptr \<Rightarrow> Process \<Rightarrow> (int \<times> kernel) option) \<Rightarrow> kernel \<Rightarrow> (int \<times> kernel) option" where
  "withProcess t f k =
     do { x \<leftarrow> k_thread k t; p \<leftarrow> getProcess k (th_pid x);
          if p = 0 then Some (- ESRCH, k) else do { px \<leftarrow> k_proc k p; f p px } }"

definition onPath :: "ptr \<Rightarrow> string \<Rightarrow> u64 \<Rightarrow> (Process \<Rightarrow> string \<Rightarrow> payload) \<Rightarrow> kernel \<Rightarrow> (int \<times> kernel) option" where
  "onPath t path len command k =
     (if length path > MAX_PATH then Some (- ENAMETOOLONG, k)
      else withProcess t (\<lambda>p px. relay t 0 len (map_option (command px) (absolutePath px path)) k) k)"

section \<open>Calls on paths\<close>

definition mount :: "ptr \<Rightarrow> u64 \<Rightarrow> string \<Rightarrow> string \<Rightarrow> string \<Rightarrow> int \<Rightarrow> kernel \<Rightarrow> (int \<times> kernel) option" where
  "mount t i src tgt type flags k =
     (if length src > MAX_PATH \<or> length tgt > MAX_PATH then Some (- ENAMETOOLONG, k)
      else relay t 0 sizeof_MountCommand
        (do { s \<leftarrow> fits MAX_FILE_PATH src; g \<leftarrow> fits MAX_FILE_PATH tgt; y \<leftarrow> fits 32 type;
              Some (CMount \<lparr>mh_command = COMMAND_MOUNT, mh_length = sizeof_MountCommand, mh_response = False, mh_latency = 0, mh_status = 0,
                mh_requester = 0, sh_id = ucast i, mount_source = s, mount_target = g, mount_type = y, mount_flags = flags\<rparr>) }) k)"

definition lstat :: "ptr \<Rightarrow> u64 \<Rightarrow> string \<Rightarrow> kernel \<Rightarrow> (int \<times> kernel) option" where
  "lstat t i path = onPath t path sizeof_StatCommand (\<lambda>p s.
     CStat \<lparr>mh_command = COMMAND_STAT, mh_length = sizeof_StatCommand, mh_response = False, mh_latency = 0, mh_status = 0,
       mh_requester = 0, sh_id = ucast i, stat_path = s, stat_buffer = []\<rparr>)"

definition open_file :: "ptr \<Rightarrow> u64 \<Rightarrow> string \<Rightarrow> int \<Rightarrow> u32 \<Rightarrow> kernel \<Rightarrow> (int \<times> kernel) option" where
  "open_file t i path flags mode = onPath t path sizeof_OpenCommand (\<lambda>p s.
     COpen \<lparr>mh_command = COMMAND_OPEN, mh_length = sizeof_OpenCommand, mh_response = False, mh_latency = 0, mh_status = 0,
       mh_requester = 0, sh_id = ucast i, open_abspath = s, open_path = [], open_device = [], open_flags = flags,
       open_mode = mode AND S_IRWX, open_umask = pr_umask p, open_uid = pr_user p, open_gid = pr_group p,
       open_id = 0, open_charDev = False\<rparr>)"

definition chown :: "ptr \<Rightarrow> u64 \<Rightarrow> string \<Rightarrow> int \<Rightarrow> int \<Rightarrow> kernel \<Rightarrow> (int \<times> kernel) option" where
  "chown t i path owner grp = onPath t path sizeof_ChownCommand (\<lambda>p s.
     CChown \<lparr>mh_command = COMMAND_CHOWN, mh_length = sizeof_ChownCommand, mh_response = False, mh_latency = 0, mh_status = 0,
       mh_requester = 0, sh_id = ucast i, chown_path = s, chown_uid = pr_user p, chown_gid = pr_group p,
       chown_newUid = owner, chown_newGid = grp\<rparr>)"

definition chmod :: "ptr \<Rightarrow> u64 \<Rightarrow> string \<Rightarrow> u32 \<Rightarrow> kernel \<Rightarrow> (int \<times> kernel) option" where
  "chmod t i path mode = onPath t path sizeof_ChmodCommand (\<lambda>p s.
     CChmod \<lparr>mh_command = COMMAND_CHMOD, mh_length = sizeof_ChmodCommand, mh_response = False, mh_latency = 0, mh_status = 0,
       mh_requester = 0, sh_id = ucast i, chmod_path = s, chmod_uid = pr_user p, chmod_gid = pr_group p,
       chmod_mode = mode AND S_IRWX\<rparr>)"

definition mkdir :: "ptr \<Rightarrow> u64 \<Rightarrow> string \<Rightarrow> u32 \<Rightarrow> kernel \<Rightarrow> (int \<times> kernel) option" where
  "mkdir t i path mode = onPath t path sizeof_MkdirCommand (\<lambda>p s.
     CMkdir \<lparr>mh_command = COMMAND_MKDIR, mh_length = sizeof_MkdirCommand, mh_response = False, mh_latency = 0, mh_status = 0,
       mh_requester = 0, sh_id = ucast i, mkdir_path = s, mkdir_uid = pr_user p, mkdir_gid = pr_group p,
       mkdir_mode = mode AND S_IRWX, mkdir_umask = pr_umask p\<rparr>)"

text \<open>\<open>tms\<close> is \<open>None\<close> for a null pointer; then the clock is read, after the allocation.\<close>

definition utime :: "ptr \<Rightarrow> u64 \<Rightarrow> string \<Rightarrow> (int \<times> int) option \<Rightarrow> kernel \<Rightarrow> (int \<times> kernel) option" where
  "utime t i path tms k =
     (if length path > MAX_PATH then Some (- ENAMETOOLONG, k)
      else withProcess t (\<lambda>p px.
        let (c, k1) = kalloc k in
        if c = 0 then Some (- ENOMEM, k1)
        else do {
          ((ac, md), k2) \<leftarrow> (case tms of Some (ac, md) \<Rightarrow> Some ((ac, md), k1)
                              | None \<Rightarrow> do { (now, k2) \<leftarrow> platformTimestamp k1; Some ((now, now), k2) });
          s \<leftarrow> absolutePath px path;
          requestServer t 0 sizeof_UtimeCommand
            (CUtime \<lparr>mh_command = COMMAND_UTIME, mh_length = sizeof_UtimeCommand, mh_response = False, mh_latency = 0, mh_status = 0,
               mh_requester = 0, sh_id = ucast i, utime_path = s, utime_uid = pr_user px, utime_gid = pr_group px,
               utime_accessTime = ac, utime_modifiedTime = md\<rparr>) k2 }) k)"

definition linkWith :: "u16 \<Rightarrow> ptr \<Rightarrow> u64 \<Rightarrow> string \<Rightarrow> string \<Rightarrow> kernel \<Rightarrow> (int \<times> kernel) option" where
  "linkWith cmd t i old new k =
     (if length old > MAX_PATH \<or> length new > MAX_PATH then Some (- ENAMETOOLONG, k)
      else withProcess t (\<lambda>p px. relay t 0 sizeof_LinkCommand
        (do { s \<leftarrow> absolutePath px old; n \<leftarrow> absolutePath px new;
              Some (CLink \<lparr>mh_command = cmd, mh_length = sizeof_LinkCommand, mh_response = False, mh_latency = 0, mh_status = 0,
                mh_requester = 0, sh_id = ucast i, link_oldPath = s, link_newPath = n,
                link_uid = pr_user px, link_gid = pr_group px\<rparr>) }) k) k)"

definition link :: "ptr \<Rightarrow> u64 \<Rightarrow> string \<Rightarrow> string \<Rightarrow> kernel \<Rightarrow> (int \<times> kernel) option" where
  "link = linkWith COMMAND_LINK"

definition symlink :: "ptr \<Rightarrow> u64 \<Rightarrow> string \<Rightarrow> string \<Rightarrow> kernel \<Rightarrow> (int \<times> kernel) option" where
  "symlink = linkWith COMMAND_SYMLINK"

definition unlink :: "ptr \<Rightarrow> u64 \<Rightarrow> string \<Rightarrow> kernel \<Rightarrow> (int \<times> kernel) option" where
  "unlink t i path = onPath t path sizeof_UnlinkCommand (\<lambda>p s.
     CUnlink \<lparr>mh_command = COMMAND_UNLINK, mh_length = sizeof_UnlinkCommand, mh_response = False, mh_latency = 0, mh_status = 0,
       mh_requester = 0, sh_id = ucast i, unlink_path = s, unlink_uid = pr_user p, unlink_gid = pr_group p\<rparr>)"

definition readlink :: "ptr \<Rightarrow> u64 \<Rightarrow> string \<Rightarrow> kernel \<Rightarrow> (int \<times> kernel) option" where
  "readlink t i path = onPath t path sizeof_ReadLinkCommand (\<lambda>p s.
     CReadLink \<lparr>mh_command = COMMAND_READLINK, mh_length = sizeof_ReadLinkCommand, mh_response = False, mh_latency = 0, mh_status = 0,
       mh_requester = 0, sh_id = ucast i, readlink_path = s, readlink_uid = pr_user p, readlink_gid = pr_group p\<rparr>)"

definition statvfs :: "ptr \<Rightarrow> u64 \<Rightarrow> string \<Rightarrow> kernel \<Rightarrow> (int \<times> kernel) option" where
  "statvfs t i path = onPath t path sizeof_StatvfsCommand (\<lambda>p s.
     CStatvfs \<lparr>mh_command = COMMAND_STATVFS, mh_length = sizeof_StatvfsCommand, mh_response = False, mh_latency = 0, mh_status = 0,
       mh_requester = 0, sh_id = ucast i, statvfs_path = s, statvfs_buffer = []\<rparr>)"

text \<open>The command of \<open>chdir()\<close> is on the stack, so nothing is allocated. A null path is rejected by the caller's check.\<close>

definition chdir :: "ptr \<Rightarrow> u64 \<Rightarrow> string \<Rightarrow> kernel \<Rightarrow> (int \<times> kernel) option" where
  "chdir t i path k =
     (if length path > MAX_FILE_PATH then Some (- ENAMETOOLONG, k)
      else withProcess t (\<lambda>p px. do { s \<leftarrow> absolutePath px path;
        requestServer t 0 sizeof_ChdirCommand
          (CChdir \<lparr>mh_command = COMMAND_CHDIR, mh_length = sizeof_ChdirCommand, mh_response = False, mh_latency = 0, mh_status = 0,
             mh_requester = 0, sh_id = ucast i, chdir_path = s, chdir_uid = pr_user px, chdir_gid = pr_group px\<rparr>) k }) k)"

definition getcwd :: "ptr \<Rightarrow> u64 \<Rightarrow> u64 \<Rightarrow> kernel \<Rightarrow> (u64 \<times> kernel) option" where
  "getcwd t buf len k =
     do { x \<leftarrow> k_thread k t; p \<leftarrow> getProcess k (th_pid x);
          if p = 0 then Some (of_int (- ESRCH), k)
          else do { px \<leftarrow> k_proc k p;
                    if len = 0 then Some (of_int (- EINVAL), k)
                    else if len < of_nat (length (pr_cwd px) + 1) then Some (of_int (- ERANGE), k)
                    else Some (buf, user_write buf (stringBytes (pr_cwd px)) k) } }"

section \<open>Calls on descriptors\<close>

record stat =
  st_dev :: u64
  st_ino :: u64
  st_mode :: u32
  st_nlink :: u64
  st_uid :: u32
  st_gid :: u32

text \<open>The bytes of a \<open>struct stat\<close> whose remaining fields are zero: 96 bytes.\<close>

definition statBytes :: "stat \<Rightarrow> u8 list" where
  "statBytes s = bytesOf (st_dev s) @ bytesOf (st_ino s) @ bytesOf (ucast (st_mode s)) @ bytesOf (st_nlink s)
     @ take 4 (bytesOf (ucast (st_uid s))) @ take 4 (bytesOf (ucast (st_gid s))) @ replicate 56 0"

definition fstat :: "ptr \<Rightarrow> u64 \<Rightarrow> int \<Rightarrow> u64 \<Rightarrow> kernel \<Rightarrow> (int \<times> kernel) option" where
  "fstat t i fd buffer k = withProcess t (\<lambda>p px.
     if \<not> validDescriptor fd then Some (- EBADF, k)
     else let d = pr_io px ! nat fd in
       if \<not> io_valid d \<or> io_data d = 0 then Some (- EBADF, k)
       else if io_type d = IO_FILE then do { f \<leftarrow> k_file k (io_data d); lstat t i (fd_abspath f) k }
       else if io_type d = IO_SOCKET then
         do { s \<leftarrow> k_sock k (io_data d); ow \<leftarrow> k_proc k (so_process s);
              Some (1, user_write buffer (statBytes \<lparr>st_dev = 1, st_ino = of_int (fd * pr_pid ow),
                st_mode = S_IFSOCK OR S_IRUSR OR S_IWUSR OR S_IRGRP, st_nlink = 1,
                st_uid = of_int (pr_user ow), st_gid = of_int (pr_group ow)\<rparr>) k) }
       else Some (- EBADF, k)) k"

definition readFile :: "ptr \<Rightarrow> u64 \<Rightarrow> IODescriptor \<Rightarrow> u64 \<Rightarrow> kernel \<Rightarrow> (int \<times> kernel) option" where
  "readFile t i iod count k = withProcess t (\<lambda>p px.
     if io_data iod = 0 then Some (- EBADF, k)
     else if io_flags iod AND O_RDONLY = 0 then Some (- EPERM, k)
     else do { f \<leftarrow> k_file k (io_data iod);
       relay t (fd_sd f) sizeof_RWCommand
         (Some (CRW \<lparr>mh_command = COMMAND_READ, mh_length = sizeof_RWCommand, mh_response = False, mh_latency = 0, mh_status = 0,
            mh_requester = 0, sh_id = ucast i, rw_silent = False, rw_path = fd_path f, rw_device = fd_device f,
            rw_id = fd_id f, rw_flags = io_flags iod, rw_uid = pr_user px, rw_gid = pr_group px,
            rw_position = fd_position f, rw_length = count, rw_data = []\<rparr>)) k }) k"

definition writeFile :: "ptr \<Rightarrow> u64 \<Rightarrow> IODescriptor \<Rightarrow> u8 list \<Rightarrow> u64 \<Rightarrow> kernel \<Rightarrow> (int \<times> kernel) option" where
  "writeFile t i iod buffer count k = withProcess t (\<lambda>p px.
     if io_data iod = 0 then Some (- EBADF, k)
     else if io_flags iod AND O_WRONLY = 0 then Some (- EPERM, k)
     else do { f \<leftarrow> k_file k (io_data iod);
       relay t (fd_sd f) (sizeof_RWCommand + count)
         (Some (CRW \<lparr>mh_command = COMMAND_WRITE, mh_length = sizeof_RWCommand + count, mh_response = False, mh_latency = 0, mh_status = 0,
            mh_requester = 0, sh_id = ucast i, rw_silent = fd_charDev f, rw_path = fd_path f, rw_device = fd_device f,
            rw_id = fd_id f, rw_flags = io_flags iod, rw_uid = pr_user px, rw_gid = pr_group px,
            rw_position = (if io_flags iod AND O_APPEND \<noteq> 0 then - 1 else fd_position f),
            rw_length = count, rw_data = buffer\<rparr>)) k }) k"

text \<open>\<open>file->refCount--; if(!file->refCount) free(file);\<close>\<close>

definition dropFile :: "ptr \<Rightarrow> kernel \<Rightarrow> kernel option" where
  "dropFile file k =
     do { f \<leftarrow> k_file k file;
          Some (if fd_refCount f - 1 = 0 then k\<lparr>k_file := (k_file k)(file := None)\<rparr>
                else upd_file file (\<lambda>f. f\<lparr>fd_refCount := fd_refCount f - 1\<rparr>) k) }"

definition fsyncCommand :: "u64 \<Rightarrow> bool \<Rightarrow> Process \<Rightarrow> FileDescriptor \<Rightarrow> payload" where
  "fsyncCommand i closing px f =
     CFsync \<lparr>mh_command = COMMAND_FSYNC, mh_length = sizeof_FsyncCommand, mh_response = False, mh_latency = 0, mh_status = 0,
       mh_requester = 0, sh_id = ucast i, fsync_path = fd_path f, fsync_device = fd_device f, fsync_id = fd_id f,
       fsync_uid = pr_user px, fsync_gid = pr_group px, fsync_close = closing\<rparr>"

definition closeFile :: "ptr \<Rightarrow> u64 \<Rightarrow> int \<Rightarrow> kernel \<Rightarrow> (int \<times> kernel) option" where
  "closeFile t i fd k =
     (if \<not> validDescriptor fd then Some (- EBADF, k) else do {
      p \<leftarrow> callerProcess t k;
      if p = 0 then Some (- ESRCH, k) else do {
      px \<leftarrow> k_proc k p;
      let d = pr_io px ! nat fd;
      if io_data d = 0 then Some (- EBADF, k)
      else do {
        f \<leftarrow> k_file k (io_data d);
        if io_flags d AND O_WRONLY = 0 \<or> fd_charDev f
        then do { k1 \<leftarrow> dropFile (io_data d) k; Some (1, closeIO p (nat fd) k1) }
        else relay t (fd_sd f) sizeof_FsyncCommand (Some (fsyncCommand i True px f)) k }}})"

definition fsync :: "ptr \<Rightarrow> u64 \<Rightarrow> int \<Rightarrow> kernel \<Rightarrow> (int \<times> kernel) option" where
  "fsync t i fd k = withProcess t (\<lambda>p px.
     if \<not> validDescriptor fd then Some (- EBADF, k)
     else let d = pr_io px ! nat fd in
       if \<not> io_valid d then Some (- EBADF, k)
       else if io_type d \<noteq> IO_FILE then Some (- EINVAL, k)
       else if io_data d = 0 then Some (- EBADF, k)
       else do { f \<leftarrow> k_file k (io_data d);
                 relay t (fd_sd f) sizeof_FsyncCommand (Some (fsyncCommand i False px f)) k }) k"

definition fstatvfs :: "ptr \<Rightarrow> u64 \<Rightarrow> int \<Rightarrow> kernel \<Rightarrow> (int \<times> kernel) option" where
  "fstatvfs t i fd k =
     (if \<not> validDescriptor fd then Some (- EBADF, k)
      else withProcess t (\<lambda>p px.
        let d = pr_io px ! nat fd in
        if \<not> io_valid d \<or> io_type d \<noteq> IO_FILE then Some (- EBADF, k)
        else if io_data d = 0 then Some (- EBADF, k)
        else do { f \<leftarrow> k_file k (io_data d); statvfs t i (fd_abspath f) k }) k)"

definition SEEK_SET :: int where "SEEK_SET = 1"
definition SEEK_CUR :: int where "SEEK_CUR = 2"

text \<open>\<open>off_t\<close> is a 64-bit integer with a sign.\<close>

definition int64 :: "int \<Rightarrow> int" where
  "int64 x = signed_take_bit 63 x"

definition lseek :: "ptr \<Rightarrow> int \<Rightarrow> int \<Rightarrow> int \<Rightarrow> kernel \<Rightarrow> (int \<times> kernel) option" where
  "lseek t fd offset whence k =
     (if \<not> validDescriptor fd then Some (- EBADF, k) else do {
      p \<leftarrow> callerProcess t k;
      if p = 0 then Some (- ESRCH, k) else do {
      px \<leftarrow> k_proc k p;
      let file = io_data (pr_io px ! nat fd);
      if file = 0 then Some (- EBADF, k)
      else do {
        f \<leftarrow> k_file k file;
        let n = (if whence = SEEK_SET then offset
                 else if whence = SEEK_CUR then int64 (fd_position f + offset) else - 1);
        if n < 0 then Some (- EINVAL, k)
        else Some (n, upd_file file (\<lambda>f. f\<lparr>fd_position := n\<rparr>) k) }}})"

section \<open>fcntl and umask\<close>

definition F_DUPFD :: int where "F_DUPFD = 1"
definition F_GETFD :: int where "F_GETFD = 2"
definition F_SETFD :: int where "F_SETFD = 3"
definition F_GETFL :: int where "F_GETFL = 4"
definition F_SETFL :: int where "F_SETFL = 5"
definition F_DUPFD_CLOEXEC :: int where "F_DUPFD_CLOEXEC = 11"
definition F_DUPFD_CLOFORK :: int where "F_DUPFD_CLOFORK = 12"
definition F_GETPATH :: int where "F_GETPATH = 0x8000"

definition setFlag :: "u64 \<Rightarrow> u16 \<Rightarrow> u16 \<Rightarrow> u16" where
  "setFlag arg m f = (if arg AND ucast m \<noteq> 0 then f OR m else f AND NOT m)"

text \<open>\<open>(int) arg\<close>\<close>

definition asInt :: "u64 \<Rightarrow> int" where
  "asInt arg = sint (ucast arg :: u32)"

definition takeReference :: "IODescriptor \<Rightarrow> kernel \<Rightarrow> kernel option" where
  "takeReference d k =
     (if io_type d = IO_FILE then do { _ \<leftarrow> k_file k (io_data d);
        Some (upd_file (io_data d) (\<lambda>f. f\<lparr>fd_refCount := fd_refCount f + 1\<rparr>) k) }
      else if io_type d = IO_SOCKET then do { _ \<leftarrow> k_sock k (io_data d);
        Some (upd_sock (io_data d) (\<lambda>s. s\<lparr>so_refCount := so_refCount s + 1\<rparr>) k) }
      else Some k)"

definition fcntl_dup :: "ptr \<Rightarrow> nat \<Rightarrow> int \<Rightarrow> u64 \<Rightarrow> kernel \<Rightarrow> (int \<times> kernel) option" where
  "fcntl_dup p fd cmd arg k =
     (if asInt arg < 0 \<or> asInt arg \<ge> int MAX_IO_DESCRIPTORS then Some (- EBADF, k)
      else do {
        (dupfd, k1) \<leftarrow> openIO p k;
        if dupfd < 0 then Some (dupfd, k1)
        else if of_int dupfd < arg then Some (- EMFILE, upd_io p (nat dupfd) (\<lambda>d. d\<lparr>io_valid := False\<rparr>) k1)
        else do {
          px \<leftarrow> k_proc k1 p;
          let d = pr_io px ! fd;
          k2 \<leftarrow> takeReference d k1;
          let flags = io_flags d AND NOT (O_CLOEXEC OR O_CLOFORK);
          let flags' = (if cmd = F_DUPFD_CLOEXEC then flags OR O_CLOEXEC
                        else if cmd = F_DUPFD_CLOFORK then flags OR O_CLOFORK else flags);
          Some (dupfd, upd_io p (nat dupfd) (\<lambda>e. e\<lparr>io_type := io_type d, io_flags := flags', io_data := io_data d\<rparr>) k2) } })"

definition fcntl :: "ptr \<Rightarrow> int \<Rightarrow> int \<Rightarrow> u64 \<Rightarrow> kernel \<Rightarrow> (int \<times> kernel) option" where
  "fcntl t fd cmd arg k =
     (if \<not> validDescriptor fd then Some (- EBADF, k)
      else withProcess t (\<lambda>p px.
        let d = pr_io px ! nat fd; setf = (\<lambda>g. upd_io p (nat fd) (\<lambda>d. d\<lparr>io_flags := g (io_flags d)\<rparr>) k) in
        if \<not> io_valid d then Some (- EBADF, k)
        else if cmd = F_DUPFD \<or> cmd = F_DUPFD_CLOEXEC \<or> cmd = F_DUPFD_CLOFORK then fcntl_dup p (nat fd) cmd arg k
        else if cmd = F_GETFD then Some (uint (io_flags d AND (O_CLOEXEC OR O_CLOFORK)), k)
        else if cmd = F_GETFL then
          Some (uint (io_flags d AND (O_APPEND OR O_NONBLOCK OR O_SYNC OR O_DSYNC OR O_RDONLY OR O_WRONLY)), k)
        else if cmd = F_SETFD then Some (0, setf (setFlag arg O_CLOFORK \<circ> setFlag arg O_CLOEXEC))
        else if cmd = F_SETFL then
          Some (0, setf (setFlag arg O_DSYNC \<circ> setFlag arg O_SYNC \<circ> setFlag arg O_NONBLOCK \<circ> setFlag arg O_APPEND))
        else if cmd = F_GETPATH then
          (if io_type d \<noteq> IO_FILE then Some (- EBADF, k)
           else do { f \<leftarrow> k_file k (io_data d);
                     Some (int (length (fd_abspath f)), user_write arg (stringBytes (fd_abspath f)) k) })
        else Some (- EINVAL, k)) k)"

definition umask :: "ptr \<Rightarrow> u32 \<Rightarrow> kernel \<Rightarrow> (u32 \<times> kernel) option" where
  "umask t cmask k =
     do { x \<leftarrow> k_thread k t; p \<leftarrow> getProcess k (th_pid x); px \<leftarrow> k_proc k p;
          Some (pr_umask px, upd_proc p (\<lambda>x. x\<lparr>pr_umask := cmask AND S_IRWX\<rparr>) k) }"

section \<open>Directories\<close>

definition opendir :: "ptr \<Rightarrow> u64 \<Rightarrow> string \<Rightarrow> kernel \<Rightarrow> (int \<times> kernel) option" where
  "opendir t i path k =
     (if length path \<ge> MAX_FILE_PATH then Some (- ENAMETOOLONG, k)
      else onPath t path sizeof_OpendirCommand (\<lambda>p s.
        COpendir \<lparr>mh_command = COMMAND_OPENDIR, mh_length = sizeof_OpendirCommand, mh_response = False, mh_latency = 0, mh_status = 0,
          mh_requester = 0, sh_id = ucast i, opendir_abspath = s, opendir_path = [], opendir_device = [],
          opendir_uid = pr_user p, opendir_gid = pr_group p\<rparr>) k)"

definition dirDescriptor :: "u64 \<Rightarrow> int" where
  "dirDescriptor dir = asInt (dir AND NOT DIRECTORY_DESCRIPTOR_FLAG)"

text \<open>The checks all the calls below begin with.\<close>

definition withDirectory :: "ptr \<Rightarrow> u64 \<Rightarrow> (ptr \<Rightarrow> nat \<Rightarrow> ptr \<Rightarrow> DirectoryDescriptor \<Rightarrow> (int \<times> kernel) option) \<Rightarrow> kernel
    \<Rightarrow> (int \<times> kernel) option" where
  "withDirectory t dir f k = withProcess t (\<lambda>p px.
     let dd = dirDescriptor dir in
     if \<not> validDescriptor dd then Some (- EBADF, k)
     else let d = pr_io px ! nat dd in
       if \<not> io_valid d \<or> io_type d \<noteq> IO_DIRECTORY then Some (- EBADF, k)
       else if io_data d = 0 then Some (- EBADF, k)
       else do { dx \<leftarrow> k_dir k (io_data d); f p (nat dd) (io_data d) dx }) k"

definition readdir_r :: "ptr \<Rightarrow> u64 \<Rightarrow> u64 \<Rightarrow> kernel \<Rightarrow> (int \<times> kernel) option" where
  "readdir_r t i dir k = withDirectory t dir (\<lambda>p dd ptr dx. relay t (dd_sd dx) sizeof_ReaddirCommand
     (Some (CReaddir \<lparr>mh_command = COMMAND_READDIR, mh_length = sizeof_ReaddirCommand, mh_response = False, mh_latency = 0, mh_status = 0,
        mh_requester = 0, sh_id = ucast i, readdir_path = dd_path dx, readdir_device = dd_device dx,
        readdir_position = dd_position dx, readdir_end = False, readdir_entry = []\<rparr>)) k) k"

text \<open>\<open>seekdir()\<close> returns nothing; the error number of the checks is dropped.\<close>

definition seekdir :: "ptr \<Rightarrow> u64 \<Rightarrow> int \<Rightarrow> kernel \<Rightarrow> kernel option" where
  "seekdir t dir position k = map_option snd
     (withDirectory t dir (\<lambda>p dd ptr dx. Some (0, upd_dir ptr (\<lambda>d. d\<lparr>dd_position := position\<rparr>) k)) k)"

definition telldir :: "ptr \<Rightarrow> u64 \<Rightarrow> kernel \<Rightarrow> (int \<times> kernel) option" where
  "telldir t dir k = withDirectory t dir (\<lambda>p dd ptr dx. Some (dd_position dx, k)) k"

definition closedir :: "ptr \<Rightarrow> u64 \<Rightarrow> kernel \<Rightarrow> (int \<times> kernel) option" where
  "closedir t dir k = withDirectory t dir (\<lambda>p dd ptr dx.
     Some (0, upd_proc p (\<lambda>x. x\<lparr>pr_io := (pr_io x)[dd := iod0], pr_iodCount := pr_iodCount x - 1\<rparr>) k)) k"

section \<open>read, write, close, ioctl, ioperm\<close>

text \<open>
  The bytes \<open>recv()\<close> copies out are the encoding \<open>enc\<close> of the message, the layout of its structure
  in memory. They are written to the caller's buffer.
\<close>

definition deliver :: "(payload \<Rightarrow> u8 list) \<Rightarrow> u64 \<Rightarrow> int \<times> payload option \<times> kernel \<Rightarrow> int \<times> kernel" where
  "deliver enc buffer r =
     (case r of (n, None, k) \<Rightarrow> (n, k)
      | (n, Some msg, k) \<Rightarrow> (n, user_write buffer (take (nat n) (enc msg)) k))"

definition openDescriptor :: "ptr \<Rightarrow> int \<Rightarrow> kernel \<Rightarrow> (int + ptr \<times> Process \<times> IODescriptor) option" where
  "openDescriptor t fd k =
     (if \<not> validDescriptor fd then Some (Inl (- EBADF)) else do {
      p \<leftarrow> callerProcess t k;
      if p = 0 then Some (Inl (- ESRCH)) else do {
      px \<leftarrow> k_proc k p;
      let d = pr_io px ! nat fd;
      Some (if \<not> io_valid d \<or> io_data d = 0 then Inl (- EBADF) else Inr (p, px, d)) }})"

definition read :: "(payload \<Rightarrow> u8 list) \<Rightarrow> ptr \<Rightarrow> u64 \<Rightarrow> int \<Rightarrow> u64 \<Rightarrow> u64 \<Rightarrow> kernel \<Rightarrow> (int \<times> kernel) option" where
  "read enc t i fd buffer count k =
     do { c \<leftarrow> openDescriptor t fd k;
          case c of Inl e \<Rightarrow> Some (e, k)
          | Inr (p, px, d) \<Rightarrow>
              if io_type d = IO_SOCKET then map_option (deliver enc buffer) (recv t fd count 0 k)
              else if io_type d = IO_FILE then readFile t i d count k
              else Some (- EBADF, k) }"

definition write_fd :: "ptr \<Rightarrow> u64 \<Rightarrow> int \<Rightarrow> u64 \<Rightarrow> u64 \<Rightarrow> kernel \<Rightarrow> (int \<times> kernel) option" where
  "write_fd t i fd buffer count k =
     do { c \<leftarrow> openDescriptor t fd k;
          let bytes = user_read k buffer (unat count);
          case c of Inl e \<Rightarrow> Some (e, k)
          | Inr (p, px, d) \<Rightarrow>
              if io_type d = IO_SOCKET then send t fd (Raw bytes) count k
              else if io_type d = IO_FILE then writeFile t i d bytes count k
              else Some (- EBADF, k) }"

definition close :: "ptr \<Rightarrow> u64 \<Rightarrow> int \<Rightarrow> kernel \<Rightarrow> (int \<times> kernel) option" where
  "close t i fd k =
     do { c \<leftarrow> openDescriptor t fd k;
          case c of Inl e \<Rightarrow> Some (e, k)
          | Inr (p, px, d) \<Rightarrow>
              if io_type d = IO_SOCKET then closeSocket t fd k
              else if io_type d = IO_FILE then closeFile t i fd k
              else Some (- EBADF, k) }"

definition ioctl :: "ptr \<Rightarrow> u64 \<Rightarrow> int \<Rightarrow> u64 \<Rightarrow> u64 \<Rightarrow> kernel \<Rightarrow> (int \<times> kernel) option" where
  "ioctl t i fd opc arg k =
     do { c \<leftarrow> openDescriptor t fd k;
          case c of Inl e \<Rightarrow> Some (e, k)
          | Inr (p, px, d) \<Rightarrow>
              if io_type d \<noteq> IO_FILE then Some (- EBADF, k)
              else do {
                f \<leftarrow> k_file k (io_data d);
                relay t 0 sizeof_IOCTLCommand
                  (Some (CIoctl \<lparr>mh_command = COMMAND_IOCTL, mh_length = sizeof_IOCTLCommand, mh_response = False,
                     mh_latency = 0, mh_status = 0, mh_requester = 0, sh_id = ucast i, ioctl_path = fd_abspath f,
                     ioctl_device = fd_device f, ioctl_id = fd_id f, ioctl_flags = io_flags d,
                     ioctl_uid = pr_user px, ioctl_gid = pr_group px, ioctl_opcode = opc,
                     ioctl_parameter = (if opc AND IOCTL_IN_PARAM \<noteq> 0 then arg
                                        else if opc AND IOCTL_OUT_PARAM \<noteq> 0 then user_read64 k arg else 0)\<rparr>)) k } }"

text \<open>The permission map has 8192 bytes; \<open>byte\<close> is an \<open>int\<close>. A store outside the map is the fault.\<close>

function ioperm_loop :: "bool \<Rightarrow> u64 \<Rightarrow> nat \<Rightarrow> nat \<Rightarrow> (nat \<Rightarrow> u8) \<Rightarrow> (nat \<Rightarrow> u8) option" where
  "ioperm_loop enable from count i ports =
     (if i \<ge> count then Some ports
      else let byte = asInt ((from + of_nat i) div 8); b = unat ((from + of_nat i) mod 8) in
        if byte < 0 \<or> byte \<ge> 8192 then None
        else ioperm_loop enable from count (Suc i)
          (ports(nat byte := if enable then ports (nat byte) AND NOT (push_bit b 1) else ports (nat byte) OR push_bit b 1)))"
  by pat_completeness auto
termination by (relation "measure (\<lambda>(_, _, count, i, _). count - i)") auto

definition platformIoperm :: "ptr \<Rightarrow> u64 \<Rightarrow> u64 \<Rightarrow> bool \<Rightarrow> kernel \<Rightarrow> (int \<times> kernel) option" where
  "platformIoperm t from count enable k =
     (if from + count - 1 > 0xFFFF then Some (- EINVAL, k)
      else do {
        x \<leftarrow> k_thread k t;
        ports \<leftarrow> ioperm_loop enable from (unat count) 0 (cx_ioports (th_context x));
        Some (0, upd_thread t (\<lambda>x. x\<lparr>th_context := (th_context x)\<lparr>cx_iopl := True, cx_ioports := ports\<rparr>\<rparr>) k) })"

definition ioperm :: "ptr \<Rightarrow> u64 \<Rightarrow> u64 \<Rightarrow> bool \<Rightarrow> kernel \<Rightarrow> (int \<times> kernel) option" where
  "ioperm t from count enable k =
     (if count = 0 then Some (- EINVAL, k)
      else withProcess t (\<lambda>p px.
        if pr_user px \<noteq> 0 then Some (- EPERM, k)
        else do {
          k1 \<leftarrow> schedLock k;
          (status, k2) \<leftarrow> platformIoperm t from count enable k1;
          Some (status, schedRelease k2) }) k)"

section \<open>Specification vocabulary\<close>

definition denied :: "(nat \<Rightarrow> u8) \<Rightarrow> nat \<Rightarrow> bool" where
  "denied ports port \<longleftrightarrow> bit (ports (port div 8)) (port mod 8)"

text \<open>
  The kernel, process 1, and a file server whose sockets are connected, and thread 30 of process 2
  at \<open>/home\<close>, with a file at descriptor 0.
\<close>

definition files_ex :: kernel where
  "files_ex = pair_ex\<lparr>k_list := [10, 20], k_thread := [30 \<mapsto> thread0\<lparr>th_pid := 2, th_tid := 7\<rparr>],
     k_file := [80 \<mapsto> \<lparr>fd_process = 20, fd_abspath = ''/home/f'', fd_device = ''/'', fd_path = ''/home/f'',
       fd_position = 0, fd_id = 0, fd_charDev = False, fd_refCount = 1, fd_sd = 0\<rparr>],
     k_proc := (k_proc pair_ex)(20 \<mapsto> process0\<lparr>pr_pid := 2, pr_user := 5, pr_cwd := ''/home'', pr_iodCount := 1,
       pr_io := (replicate MAX_IO_DESCRIPTORS iod0)
         [0 := \<lparr>io_valid = True, io_type = IO_FILE, io_flags = O_RDONLY, io_data = 80\<rparr>]\<rparr>)\<rparr>"

declare ioperm_loop.simps [simp del]

section \<open>Requests\<close>

lemma connected_fresh:
  "connected ta sa a tb sb b k \<Longrightarrow> f \<noteq> 0 \<Longrightarrow> connected ta sa a tb sb b (k\<lparr>k_fresh := f\<rparr>)"
  using socketOf_cong [of "k\<lparr>k_fresh := f\<rparr>" k] by (simp add: connected_def)

lemma requestServer_connected:
  assumes c: "connected 0 sd a tb sb b k" and sd: "sd = (if sd0 = 0 then k_lumenSocket k else sd0)" and t: "k_thread k t = Some x"
  shows "\<exists>k'. requestServer t sd0 len msg k = Some (0, k') \<and> connected 0 sd a tb sb b k' \<and>
    inbox cap b k' = inbox cap b k @ [cut cap (len, setRequester (th_tid x) msg)]"
  using send_connected [OF c, of "setRequester (th_tid x) msg" len cap] t sd by (auto simp: requestServer_def)

lemma relay_connected:
  assumes c: "connected 0 sd a tb sb b k" and sd: "sd = (if sd0 = 0 then k_lumenSocket k else sd0)" and t: "k_thread k t = Some x"
  shows "\<exists>k'. relay t sd0 len (Some msg) k = Some (0, k') \<and> connected 0 sd a tb sb b k' \<and>
    inbox cap b k' = inbox cap b k @ [cut cap (len, setRequester (th_tid x) msg)]"
proof -
  have f: "k_fresh k \<noteq> 0" "k_oom k = (\<lambda>_. False)" using c by (simp_all add: connected_def)
  let ?k = "k\<lparr>k_fresh := Suc (k_fresh k)\<rparr>"
  have "sd = (if sd0 = 0 then k_lumenSocket ?k else sd0)" "k_thread ?k t = Some x" using sd t by simp_all
  from requestServer_connected [OF connected_fresh [OF c] this, of "len" msg cap]
  obtain k' where "requestServer t sd0 len msg ?k = Some (0, k')" "connected 0 sd a tb sb b k'"
    "inbox cap b k' = inbox cap b ?k @ [cut cap (len, setRequester (th_tid x) msg)]" by auto
  moreover have "inbox cap b ?k = inbox cap b k" by (simp add: inbox_def)
  ultimately show ?thesis using f by (simp add: relay_def kalloc_def)
qed

text \<open>
  C24: opening a file whose absolute path fits sends the file server exactly one message, which
  carries the absolute path, the user and group of the calling process, its file creation mask,
  the permission bits of the mode, the request number and the thread to answer to; the caller is
  told to wait.
\<close>

theorem open_reaches_server:
  assumes c: "connected 0 (k_lumenSocket k) a tb sb b k"
    and t: "k_thread k t = Some x" "getProcess k (th_pid x) = Some p" "p \<noteq> 0" "k_proc k p = Some px"
    and p: "length path \<le> MAX_PATH" "absolutePath px path = Some s"
  shows "\<exists>k' m. open_file t i path flags mode k = Some (0, k') \<and> connected 0 (k_lumenSocket k) a tb sb b k' \<and>
    inbox (- 1) b k' = inbox (- 1) b k @ [(sizeof_OpenCommand, COpen m)] \<and>
    open_abspath m = s \<and> open_uid m = pr_user px \<and> open_gid m = pr_group px \<and> open_umask m = pr_umask px \<and>
    open_flags m = flags \<and> open_mode m = mode AND S_IRWX \<and> sh_id m = ucast i \<and> mh_requester m = th_tid x \<and>
    mh_command m = COMMAND_OPEN \<and> mh_length m = sizeof_OpenCommand"
proof -
  let ?m = "\<lparr>mh_command = COMMAND_OPEN, mh_length = sizeof_OpenCommand, mh_response = False, mh_latency = 0, mh_status = 0,
       mh_requester = 0, sh_id = ucast i, open_abspath = s, open_path = [], open_device = [], open_flags = flags,
       open_mode = mode AND S_IRWX, open_umask = pr_umask px, open_uid = pr_user px, open_gid = pr_group px,
       open_id = 0, open_charDev = False\<rparr>"
  have "open_file t i path flags mode k = relay t 0 sizeof_OpenCommand (Some (COpen ?m)) k"
    using t p by (simp add: open_file_def onPath_def withProcess_def)
  moreover have "cut (- 1) (sizeof_OpenCommand, setRequester (th_tid x) (COpen ?m)) =
      (sizeof_OpenCommand, COpen (?m\<lparr>mh_requester := th_tid x\<rparr>))"
    by (simp add: cut_def)
  moreover obtain k' where "relay t 0 sizeof_OpenCommand (Some (COpen ?m)) k = Some (0, k')"
      "connected 0 (k_lumenSocket k) a tb sb b k'"
      "inbox (- 1) b k' = inbox (- 1) b k @ [cut (- 1) (sizeof_OpenCommand, setRequester (th_tid x) (COpen ?m))]"
    using relay_connected [OF c, of 0 t x sizeof_OpenCommand "COpen ?m" "- 1"] t(1) by auto
  ultimately show ?thesis
    by (intro exI [of _ k'] exI [of _ "?m\<lparr>mh_requester := th_tid x\<rparr>"]) simp
qed

text \<open>
  the length check of the file calls does not cover the working directory. A relative path
  the check accepts overruns the 2048 bytes of the command's path as soon as it does not fit
  behind the working directory, and so does an absolute path of exactly 2048 characters.
\<close>

theorem open_path_overflows:
  assumes t: "k_thread k t = Some x" "getProcess k (th_pid x) = Some p" "p \<noteq> 0" "k_proc k p = Some px"
    and h: "k_oom k = (\<lambda>_. False)" "k_fresh k \<noteq> 0" and p: "length path \<le> MAX_PATH"
    and long: "if path \<noteq> [] \<and> hd path = CHR ''/'' then length path = 2048
       else length (pr_cwd px) + (if length (pr_cwd px) > 1 then 1 else 0) + length path \<ge> 2048"
  shows "open_file t i path flags mode k = None"
proof -
  have "absolutePath px path = None"
    using long by (auto simp: absolutePath_def fits_def MAX_FILE_PATH_def split: if_splits)
  with t h p show ?thesis by (simp add: open_file_def onPath_def withProcess_def relay_def kalloc_def)
qed

section \<open>Port permissions\<close>

lemma asInt_small: "n < 2147483648 \<Longrightarrow> asInt (of_nat n) = int n"
proof -
  assume n: "n < 2147483648"
  have "(ucast (of_nat n :: u64) :: u32) = word_of_int (int n)"
    by (rule bit_word_eqI) (simp add: bit_simps bit_of_nat_iff_bit)
  then have "asInt (of_nat n) = signed_take_bit 31 (int n)"
    unfolding asInt_def by (simp only: sint_sbintrunc') simp
  also have "\<dots> = int n" using n by (intro signed_take_bit_int_eq_self) simp_all
  finally show ?thesis .
qed

lemma port_word:
  assumes "n < 18446744073709551616"
  shows "(of_nat n :: u64) div 8 = of_nat (n div 8)" "unat ((of_nat n :: u64) mod 8) = n mod 8"
proof -
  have u: "unat (of_nat n :: u64) = n" using assms by (simp add: unat_of_nat)
  have "unat ((of_nat n :: u64) div 8) = n div 8" by (simp add: unat_div u)
  moreover have "unat (of_nat (n div 8) :: u64) = n div 8"
    using assms by (simp add: unat_of_nat)
  ultimately show "(of_nat n :: u64) div 8 = of_nat (n div 8)" by (simp add: word_unat_eq_iff)
  show "unat ((of_nat n :: u64) mod 8) = n mod 8" by (simp add: unat_mod u)
qed

lemma ioperm_loop_exact:
  assumes "unat from + count \<le> 65536" "i \<le> count"
  shows "\<exists>ports'. ioperm_loop enable from count i ports = Some ports' \<and>
    (\<forall>port. denied ports' port \<longleftrightarrow>
       (if unat from + i \<le> port \<and> port < unat from + count then \<not> enable else denied ports port))"
  using assms
proof (induction "count - i" arbitrary: i ports)
  case 0
  then have "ioperm_loop enable from count i ports = Some ports" by (simp add: ioperm_loop.simps)
  with 0 show ?case by auto
next
  case (Suc n)
  let ?v = "unat from + i"
  have v: "from + of_nat i = of_nat ?v" by simp
  have vb: "?v < 65536" using Suc by simp
  have d: "(from + of_nat i) div 8 = of_nat (?v div 8)" "unat ((from + of_nat i) mod 8) = ?v mod 8"
    unfolding v using vb by (intro port_word; simp)+
  let ?p = "ports(?v div 8 := if enable then ports (?v div 8) AND NOT (push_bit (?v mod 8) 1) else ports (?v div 8) OR push_bit (?v mod 8) 1)"
  have step: "ioperm_loop enable from count i ports = ioperm_loop enable from count (Suc i) ?p"
  proof -
    have "asInt (of_nat (?v div 8)) = int (?v div 8)" using vb by (intro asInt_small) simp
    moreover have "int (?v div 8) < 8192" "i < count" using vb Suc(2) by simp_all
    ultimately show ?thesis by (subst ioperm_loop.simps) (simp only: Let_def d nat_int, simp)
  qed
  have p: "denied ?p port \<longleftrightarrow> (if port = ?v then \<not> enable else denied ports port)" for port
  proof -
    have "port = ?v \<longleftrightarrow> port div 8 = ?v div 8 \<and> port mod 8 = ?v mod 8"
      by (metis div_mult_mod_eq)
    moreover have "?v mod 8 < 8" "port mod 8 < 8" by simp_all
    ultimately show ?thesis by (auto simp: denied_def bit_simps)
  qed
  have "n = count - Suc i" "Suc i \<le> count" using Suc(2) by simp_all
  from Suc(1) [OF this(1) Suc(3) this(2), of ?p]
  obtain ports' where r: "ioperm_loop enable from count (Suc i) ?p = Some ports'"
    "\<forall>port. denied ports' port \<longleftrightarrow> (if unat from + Suc i \<le> port \<and> port < unat from + count then \<not> enable
       else if port = ?v then \<not> enable else denied ports port)"
    unfolding p by blast
  moreover have "?v < unat from + count" using Suc(2) by simp
  ultimately show ?case unfolding step
    by (intro exI [of _ ports']) (auto simp: Suc_le_eq le_less)
qed

lemma ioperm_loop_fault:
  assumes "i \<le> j" "j < count" "asInt ((from + of_nat j) div 8) < 0"
  shows "ioperm_loop enable from count i ports = None"
  using assms
proof (induction "j - i" arbitrary: i ports)
  case 0
  then show ?case by (subst ioperm_loop.simps) (simp add: Let_def)
next
  case (Suc n)
  have "ioperm_loop enable from count (Suc i) q = None" for q
    using Suc(2-) by (intro Suc(1)) simp_all
  then show ?case
    using Suc(2-) by (subst ioperm_loop.simps) (simp add: Let_def)
qed

text \<open>
  a range of ports inside the 65536 ports is granted or revoked exactly, with every other
  permission kept; a range that ends outside is refused. The check adds in 64 bits, so a range
  that wraps around to a port is accepted and the permission map is overrun.
\<close>

theorem platformIoperm_ranges:
  assumes t: "k_thread k t = Some x" and count: "count \<noteq> 0"
  shows "if unat from + unat count \<le> 65536 then
      (\<exists>k' x'. platformIoperm t from count enable k = Some (0, k') \<and> k_thread k' t = Some x' \<and>
        (\<forall>port. denied (cx_ioports (th_context x')) port \<longleftrightarrow>
           (if unat from \<le> port \<and> port < unat from + unat count then \<not> enable
            else denied (cx_ioports (th_context x)) port)))
    else if 2 ^ 64 < unat from + unat count \<and> unat from + unat count \<le> 2 ^ 64 + 65536
    then platformIoperm t from count enable k = None
    else platformIoperm t from count enable k = Some (- EINVAL, k)"
proof -
  let ?s = "unat from + unat count"
  have c: "0 < unat count" using count by (simp add: unat_gt_0)
  have lt: "unat from < 2 ^ 64" "unat count < 2 ^ 64" using u64_bound [of "from"] u64_bound [of count] by simp_all
  have last: "unat (from + count - 1) = (?s - 1) mod 2 ^ 64"
  proof -
    have "from + count - 1 = of_nat (?s - 1)" using c by (simp add: of_nat_diff)
    then show ?thesis by (simp add: unat_of_nat)
  qed
  have gt: "from + count - 1 > 0xFFFF \<longleftrightarrow> (?s - 1) mod 2 ^ 64 > 65535"
    unfolding word_less_nat_alt last by simp
  consider "?s \<le> 65536" | "65536 < ?s" "?s \<le> 2 ^ 64" | "2 ^ 64 < ?s" by linarith
  then show ?thesis
  proof cases
    case 1
    then have "\<not> from + count - 1 > 0xFFFF" unfolding gt by simp
    moreover obtain ports where "ioperm_loop enable from (unat count) 0 (cx_ioports (th_context x)) = Some ports"
        "\<forall>port. denied ports port \<longleftrightarrow> (if unat from \<le> port \<and> port < ?s then \<not> enable
            else denied (cx_ioports (th_context x)) port)"
      using ioperm_loop_exact [of "from" "unat count" 0 enable "cx_ioports (th_context x)"] 1 by auto
    ultimately show ?thesis using 1 t by (simp add: platformIoperm_def)
  next
    case 2
    then have "from + count - 1 > 0xFFFF" unfolding gt by simp
    with 2 show ?thesis by (simp add: platformIoperm_def)
  next
    case 3
    then have m: "(?s - 1) mod 2 ^ 64 = ?s - 1 - 2 ^ 64"
      using lt by (subst mod_if [of "?s - 1"]) simp
    have "platformIoperm t from count enable k = None" if "?s \<le> 2 ^ 64 + 65536"
    proof -
      let ?j = "2 ^ 64 - 1 - unat from"
      have "from + of_nat ?j = of_nat (2 ^ 64 - 1)" using lt(1) by (simp add: of_nat_diff)
      then have "(from + of_nat ?j) div 8 = of_nat (2305843009213693951)"
        using port_word(1) [of "2 ^ 64 - 1"] by simp
      then have "asInt ((from + of_nat ?j) div 8) < 0" by (simp add: asInt_def)
      moreover have "?j < unat count" using 3 lt by linarith
      ultimately have "ioperm_loop enable from (unat count) 0 (cx_ioports (th_context x)) = None"
        by (intro ioperm_loop_fault [of 0 ?j]) simp_all
      moreover have "\<not> from + count - 1 > 0xFFFF" unfolding gt m using that by simp
      ultimately show ?thesis using t by (simp add: platformIoperm_def)
    qed
    moreover have "from + count - 1 > 0xFFFF" if "\<not> ?s \<le> 2 ^ 64 + 65536" unfolding gt m using that by simp
    ultimately show ?thesis using 3 by (auto simp: platformIoperm_def)
  qed
qed

section \<open>Duplicating a descriptor\<close>

lemma openIO_free:
  assumes "k_proc k p = Some x" "iod_ok x" "firstFree (pr_io x) = Some d"
  shows "openIO p k = Some (int d, upd_proc p (opened d) k)"
  using assms full_table [OF assms(2)] by (simp add: openIO_def opened_def [abs_def])

lemma iod_ok_data:
  "iod_ok x \<Longrightarrow> d < MAX_IO_DESCRIPTORS \<Longrightarrow> io_valid e \<longleftrightarrow> io_valid (pr_io x ! d) \<Longrightarrow> iod_ok (x\<lparr>pr_io := (pr_io x)[d := e]\<rparr>)"
proof -
  assume a: "iod_ok x" "d < MAX_IO_DESCRIPTORS" "io_valid e \<longleftrightarrow> io_valid (pr_io x ! d)"
  then have "{i. i < MAX_IO_DESCRIPTORS \<and> io_valid ((pr_io x)[d := e] ! i)} = {i. i < MAX_IO_DESCRIPTORS \<and> io_valid (pr_io x ! i)}"
    by (auto simp: iod_ok_def nth_list_update)
  with a(1) show ?thesis by (simp add: iod_ok_def)
qed

text \<open>
  duplicating the descriptor of a file gives the lowest closed descriptor, with the file
  shared and its reference counted, when that descriptor is at least the number asked for.
  Otherwise the call fails although higher descriptors may be closed, and the failed call leaves
  the count of open descriptors one too high for good.
\<close>

theorem fcntl_dup_file:
  assumes t: "k_thread k t = Some x" "getProcess k (th_pid x) = Some p" "p \<noteq> 0" "k_proc k p = Some px" "iod_ok px"
    and fd: "validDescriptor fd" "io_valid (pr_io px ! nat fd)" "io_type (pr_io px ! nat fd) = IO_FILE"
      "k_file k (io_data (pr_io px ! nat fd)) = Some f"
    and d: "firstFree (pr_io px) = Some d" and arg: "n < MAX_IO_DESCRIPTORS"
  shows "\<exists>k' y. k_proc k' p = Some y \<and>
    (if n \<le> d then fcntl t fd F_DUPFD (of_nat n) k = Some (int d, k') \<and> iod_ok y \<and>
       pr_io y ! d = (pr_io px ! nat fd)\<lparr>io_flags := io_flags (pr_io px ! nat fd) AND NOT (O_CLOEXEC OR O_CLOFORK)\<rparr> \<and>
       (\<forall>i. i \<noteq> d \<longrightarrow> pr_io y ! i = pr_io px ! i) \<and>
       k_file k' = (k_file k)(io_data (pr_io px ! nat fd) \<mapsto> f\<lparr>fd_refCount := fd_refCount f + 1\<rparr>)
     else fcntl t fd F_DUPFD (of_nat n) k = Some (- EMFILE, k') \<and>
       (\<forall>i. io_valid (pr_io y ! i) \<longleftrightarrow> io_valid (pr_io px ! i)) \<and>
       pr_iodCount y = pr_iodCount px + 1 \<and> \<not> iod_ok y)"
proof -
  have dd: "d < MAX_IO_DESCRIPTORS" "\<not> io_valid (pr_io px ! d)" using d by (simp_all add: firstFree_Some)
  have len: "length (pr_io px) = MAX_IO_DESCRIPTORS" using t(5) by (simp add: iod_ok_def)
  have ne: "nat fd \<noteq> d" using fd(2) dd(2) by auto
  have M: "MAX_IO_DESCRIPTORS = 1024" by (simp add: MAX_IO_DESCRIPTORS_def)
  have a: "asInt (of_nat n) = int n" using arg M by (intro asInt_small) simp
  let ?k1 = "upd_proc p (opened d) k" and ?e = "pr_io px ! nat fd"
  have op: "openIO p k = Some (int d, ?k1)" by (rule openIO_free [OF t(4,5) d])
  have lt: "(of_int (int d) :: u64) < of_nat n \<longleftrightarrow> d < n"
    using dd(1) arg M by (simp add: word_less_nat_alt unat_of_nat)
  have f: "fcntl t fd F_DUPFD (of_nat n) k = fcntl_dup p (nat fd) F_DUPFD (of_nat n) k"
    using t fd by (simp add: fcntl_def withProcess_def Let_def)
  have ok: "iod_ok (opened d px)" by (rule iod_ok_opened [OF t(5) dd])
  show ?thesis
  proof (cases "n \<le> d")
    case True
    let ?g = "\<lambda>e. e\<lparr>io_type := IO_FILE, io_flags := io_flags ?e AND NOT (O_CLOEXEC OR O_CLOFORK), io_data := io_data ?e\<rparr>"
    let ?k2 = "upd_file (io_data ?e) (\<lambda>f. f\<lparr>fd_refCount := fd_refCount f + 1\<rparr>) ?k1"
    let ?k' = "upd_io p d ?g ?k2" and ?y = "(opened d px)\<lparr>pr_io := (pr_io (opened d px))[d := ?g (pr_io (opened d px) ! d)]\<rparr>"
    have "fcntl t fd F_DUPFD (of_nat n) k = Some (int d, ?k')"
      unfolding f fcntl_dup_def using True a arg op lt t(4) fd(3,4) ne
      by (simp add: takeReference_def opened_def F_DUPFD_def F_DUPFD_CLOEXEC_def F_DUPFD_CLOFORK_def upd_proc_def Let_def)
    moreover have "k_proc ?k' p = Some ?y" using t(4) by (simp add: upd_io_def upd_file_def)
    moreover have "iod_ok ?y" by (rule iod_ok_data [OF ok dd(1)]) simp
    moreover have "pr_io ?y ! d = ?e\<lparr>io_flags := io_flags ?e AND NOT (O_CLOEXEC OR O_CLOFORK)\<rparr>"
      using len dd(1) fd(2,3) by (simp add: opened_def)
    moreover have "\<forall>i. i \<noteq> d \<longrightarrow> pr_io ?y ! i = pr_io px ! i" by (simp add: opened_def)
    moreover have "k_file ?k' = (k_file k)(io_data ?e \<mapsto> f\<lparr>fd_refCount := fd_refCount f + 1\<rparr>)"
      using fd(4) by (simp add: upd_io_def upd_proc_def)
    ultimately show ?thesis using True by (intro exI [of _ ?k'] exI [of _ ?y]) simp
  next
    case False
    let ?k' = "upd_io p d (\<lambda>e. e\<lparr>io_valid := False\<rparr>) ?k1"
    let ?y = "(opened d px)\<lparr>pr_io := (pr_io (opened d px))[d := (pr_io (opened d px) ! d)\<lparr>io_valid := False\<rparr>]\<rparr>"
    have "fcntl t fd F_DUPFD (of_nat n) k = Some (- EMFILE, ?k')"
      unfolding f fcntl_dup_def using False a arg op lt by simp
    moreover have "k_proc ?k' p = Some ?y" using t(4) by (simp add: upd_io_def)
    moreover have v: "\<forall>i. io_valid (pr_io ?y ! i) \<longleftrightarrow> io_valid (pr_io px ! i)"
      using dd len by (auto simp: opened_def nth_list_update)
    moreover have "pr_iodCount ?y = pr_iodCount px + 1" by (simp add: opened_def)
    moreover from v this have "\<not> iod_ok ?y" using t(5) by (simp add: iod_ok_def)
    ultimately show ?thesis using False by (intro exI [of _ ?k'] exI [of _ ?y]) simp
  qed
qed

section \<open>Witnesses\<close>

lemma files_ex_connected: "connected 0 (k_lumenSocket files_ex) 50 0 1 51 files_ex"
  by (simp add: connected_def socketOf_def callerProcess_def getProcess_def files_ex_def pair_ex_def kernel0_def
      validDescriptor_def MAX_IO_DESCRIPTORS_def process0_def AF_UNIX_def)

lemma files_ex_thread:
  "\<exists>x px. k_thread files_ex 30 = Some x \<and> th_tid x = 7 \<and> getProcess files_ex (th_pid x) = Some 20 \<and>
    k_proc files_ex 20 = Some px \<and> pr_cwd px = ''/home'' \<and> pr_user px = 5 \<and> iod_ok px \<and> firstFree (pr_io px) = Some 1 \<and>
    io_valid (pr_io px ! 0) \<and> io_type (pr_io px ! 0) = IO_FILE \<and> io_data (pr_io px ! 0) = 80"
proof -
  obtain px where px: "k_proc files_ex 20 = Some px" "pr_cwd px = ''/home''" "pr_user px = 5" "pr_iodCount px = 1"
    and io: "pr_io px = (replicate MAX_IO_DESCRIPTORS iod0)
         [0 := \<lparr>io_valid = True, io_type = IO_FILE, io_flags = O_RDONLY, io_data = 80\<rparr>]"
    by (simp add: files_ex_def)
  have n: "1 < MAX_IO_DESCRIPTORS" by (simp add: MAX_IO_DESCRIPTORS_def)
  have v: "io_valid (pr_io px ! i) \<longleftrightarrow> i < 1" if "i < MAX_IO_DESCRIPTORS" for i
    using that n by (auto simp: io nth_list_update iod0_def)
  then have "{i. i < MAX_IO_DESCRIPTORS \<and> io_valid (pr_io px ! i)} = {..<1}" using n by auto
  then have "iod_ok px" using px(4) by (simp add: iod_ok_def io)
  moreover have "firstFree (pr_io px) = Some 1" using v n by (auto simp: firstFree_Some)
  moreover have "io_valid (pr_io px ! 0) \<and> io_type (pr_io px ! 0) = IO_FILE \<and> io_data (pr_io px ! 0) = 80"
    using n by (simp add: io)
  moreover have "k_thread files_ex 30 = Some (thread0\<lparr>th_pid := 2, th_tid := 7\<rparr>)" "getProcess files_ex 2 = Some 20"
    by (simp_all add: files_ex_def getProcess_def pair_ex_def process0_def)
  ultimately show ?thesis using px by simp
qed

theorem open_reaches_server_witness:
  "\<exists>k' m. open_file 30 9 ''a.txt'' 4 0 files_ex = Some (0, k') \<and>
     inbox (- 1) 51 k' = [(sizeof_OpenCommand, COpen m)] \<and> open_abspath m = ''/home/a.txt'' \<and> mh_requester m = 7"
proof -
  obtain x px where t: "k_thread files_ex 30 = Some x" "th_tid x = 7" "getProcess files_ex (th_pid x) = Some 20"
    "k_proc files_ex 20 = Some px" "pr_cwd px = ''/home''" using files_ex_thread by blast
  have p: "length ''a.txt'' \<le> MAX_PATH" "absolutePath px ''a.txt'' = Some ''/home/a.txt''"
    by (simp_all add: MAX_PATH_def absolutePath_def fits_def MAX_FILE_PATH_def t(5))
  have "inbox (- 1) 51 files_ex = []" by (simp add: inbox_def files_ex_def pair_ex_def socket0_def)
  with open_reaches_server [OF files_ex_connected t(1,3) _ t(4) p, of 9 4 0] t(2) show ?thesis by auto
qed

theorem open_path_overflows_witness: "open_file 30 9 (replicate 2043 (CHR ''a'')) 4 0 files_ex = None"
proof -
  obtain x px where t: "k_thread files_ex 30 = Some x" "getProcess files_ex (th_pid x) = Some 20"
    "k_proc files_ex 20 = Some px" "pr_cwd px = ''/home''" using files_ex_thread by blast
  show ?thesis
    by (rule open_path_overflows [OF t(1,2) _ t(3)])
      (simp_all add: files_ex_def pair_ex_def kernel0_def MAX_PATH_def t(4))
qed

theorem platformIoperm_ranges_witness:
  "(\<exists>k' x'. platformIoperm 30 0x60 5 True files_ex = Some (0, k') \<and> k_thread k' 30 = Some x' \<and>
      \<not> denied (cx_ioports (th_context x')) 0x64) \<and>
   platformIoperm 30 0x60 (- 0x5F) True files_ex = None"
proof -
  obtain x where t: "k_thread files_ex 30 = Some x" using files_ex_thread by blast
  have "unat (- 95 :: u64) = 18446744073709551521" by simp
  with platformIoperm_ranges [OF t, of 5 "0x60" True] platformIoperm_ranges [OF t, of "- 0x5F" "0x60" True]
  show ?thesis by auto
qed

theorem fcntl_dup_file_witness:
  "\<exists>k' y. fcntl 30 0 F_DUPFD 5 files_ex = Some (- EMFILE, k') \<and> k_proc k' 20 = Some y \<and> \<not> iod_ok y"
proof -
  obtain x px where t: "k_thread files_ex 30 = Some x" "getProcess files_ex (th_pid x) = Some 20"
    "k_proc files_ex 20 = Some px" "iod_ok px" "firstFree (pr_io px) = Some 1"
    "io_valid (pr_io px ! 0)" "io_type (pr_io px ! 0) = IO_FILE" "io_data (pr_io px ! 0) = 80" using files_ex_thread by blast
  have f: "\<exists>f. k_file files_ex 80 = Some f" by (simp add: files_ex_def)
  then obtain f where f: "k_file files_ex (io_data (pr_io px ! nat 0)) = Some f" using t(8) by auto
  have v: "validDescriptor 0" "io_valid (pr_io px ! nat 0)" "io_type (pr_io px ! nat 0) = IO_FILE" "5 < MAX_IO_DESCRIPTORS"
    using t by (simp_all add: validDescriptor_def MAX_IO_DESCRIPTORS_def)
  from fcntl_dup_file [OF t(1,2) _ t(3,4) v(1-3) f t(5) v(4)] show ?thesis by auto
qed

end
