(* ===== verification/Procs.thy ===== *)
theory Procs
  imports Files
begin

text \<open>
  Processes and the scheduler proper: creation of kernel threads and processes and the context
  switch loop (\<^verbatim>\<open>kthreadCreate()\<close>, \<^verbatim>\<open>processCreate()\<close>, \<^verbatim>\<open>schedule()\<close> of \<^verbatim>\<open>sched/sched.c\<close>), \<^verbatim>\<open>fork()\<close> of
  \<^verbatim>\<open>sched/fork.c\<close>, and the contexts and address spaces of \<^verbatim>\<open>platform/x86_64/sched/context.c\<close> with
  \<^verbatim>\<open>kernelYield()\<close> of \<^verbatim>\<open>sched/yield.c\<close> and \<^verbatim>\<open>timerIRQ()\<close> of \<^verbatim>\<open>apic/timer.c\<close>. \<open>rs\<close> are the random numbers drawn
  for process numbers. A freed process or thread maps to nothing, so using it again is a fault.
\<close>

section \<open>Contexts\<close>

definition GDT_KERNEL_CODE :: u64 where "GDT_KERNEL_CODE = 1"
definition GDT_KERNEL_DATA :: u64 where "GDT_KERNEL_DATA = 2"
definition GDT_USER_CODE :: u64 where "GDT_USER_CODE = 4"
definition GDT_USER_DATA :: u64 where "GDT_USER_DATA = 3"
definition PLATFORM_THREAD_STACK :: u64 where "PLATFORM_THREAD_STACK = 65536"

definition threadUseContext :: "int \<Rightarrow> kernel \<Rightarrow> (int \<times> kernel) option" where
  "threadUseContext tid k =
     do { t \<leftarrow> getThread k tid;
          if t = 0 then Some (- 1, k)
          else do { x \<leftarrow> k_thread k t; Some (0, platformUseContext (th_context x) k) } }"

definition platformSetContextStatus :: "ptr \<Rightarrow> u64 \<Rightarrow> kernel \<Rightarrow> kernel" where
  "platformSetContextStatus t value = upd_thread t (\<lambda>x. x\<lparr>th_context := (th_context x)\<lparr>cx_rax := value\<rparr>\<rparr>)"

definition setLocalSched :: "bool \<Rightarrow> kernel \<Rightarrow> kernel" where
  "setLocalSched s k = k\<lparr>k_localSched := s\<rparr>"

text \<open>The new context, or \<open>None\<close> for a null result; \<open>level\<close> is true for user space.\<close>

definition platformCreateContext :: "bool \<Rightarrow> u64 \<Rightarrow> u64 \<Rightarrow> kernel \<Rightarrow> (ThreadContext option \<times> kernel) option" where
  "platformCreateContext user entry arg k =
     do { (space, v) \<leftarrow> platformCloneKernelSpace (k_pagingRoot k) (k_vm k);
          let k1 = k\<lparr>k_vm := v\<rparr>;
          let c = context0\<lparr>cx_rip := entry, cx_rdi := arg, cx_rflags := 0x202,
            cx_cr3 := space - KERNEL_BASE_ADDRESS, cx_ioports := (\<lambda>i. if i < 8192 then 0xFF else 0)\<rparr>;
          if user then Some (Some (c\<lparr>cx_cs := push_bit 3 GDT_USER_CODE OR 3, cx_ss := push_bit 3 GDT_USER_DATA OR 3\<rparr>), k1)
          else (let (stack, k2) = kalloc k1 in
            Some (if stack = 0 then None
                  else Some (c\<lparr>cx_cs := push_bit 3 GDT_KERNEL_CODE, cx_ss := push_bit 3 GDT_KERNEL_DATA,
                    cx_rsp := of_nat stack + PLATFORM_THREAD_STACK\<rparr>), k2)) }"

text \<open>The memory of the parent's lower half is cloned, page by page, together with its page tables.\<close>

definition platformCloneContext :: "ThreadContext \<Rightarrow> kernel \<Rightarrow> (ThreadContext option \<times> kernel) option" where
  "platformCloneContext parent k =
     do { (root, v) \<leftarrow> platformCloneUserSpace (cx_cr3 parent) (k_vm k);
          let k1 = k\<lparr>k_vm := v\<rparr>;
          Some (if root = 0 then (None, k1)
                else (Some (parent\<lparr>cx_cr3 := root\<rparr>), k1\<lparr>k_user := (k_user k1)(root := k_user k1 (cx_cr3 parent))\<rparr>)) }"

section \<open>Creation\<close>

definition freeProcess :: "ptr \<Rightarrow> kernel \<Rightarrow> kernel" where
  "freeProcess p k = k\<lparr>k_proc := (k_proc k)(p := None)\<rparr>"

definition freeThread :: "ptr \<Rightarrow> kernel \<Rightarrow> kernel" where
  "freeThread t k = k\<lparr>k_thread := (k_thread k)(t := None)\<rparr>"

text \<open>
  The failure paths of \<open>kthreadCreate()\<close> free the process, which stays in the list unless it would
  have been the first, and release the lock.
\<close>

definition kthreadFail :: "ptr \<Rightarrow> kernel \<Rightarrow> kernel" where
  "kthreadFail p k =
     (let k1 = freeProcess p k in schedRelease (if k_processes k = 0 then k1\<lparr>k_list := []\<rparr> else k1))"

definition kthreadCreate :: "int list \<Rightarrow> u64 \<Rightarrow> u64 \<Rightarrow> kernel \<Rightarrow> (int \<times> kernel) option" where
  "kthreadCreate rs entry arg k =
     do { k1 \<leftarrow> schedLock k;
          (tid, k2) \<leftarrow> allocatePid rs k1;
          if tid = 0 then Some (0, k2) else do {
          let (p, k3) = kalloc k2;
          if k_processes k \<noteq> 0 \<and> k_list k = [] then None
          else if p = 0 then Some (0, schedRelease (if k_processes k = 0 then k3\<lparr>k_list := []\<rparr> else k3))
          else do {
          let k4 = k3\<lparr>k_list := (if k_processes k = 0 then [p] else k_list k @ [p]),
            k_proc := (k_proc k3)(p \<mapsto> process0\<lparr>pr_pid := tid, pr_command := ''kernel''\<rparr>)\<rparr>;
          let (ts, k5) = kalloc k4;
          if ts = 0 then Some (0, kthreadFail p k5) else do {
          let (t, k6) = kalloc k5;
          if t = 0 then Some (0, kthreadFail p k6) else do {
          let k7 = upd_proc p (\<lambda>x. x\<lparr>pr_threads := [t]\<rparr>)
            (k6\<lparr>k_thread := (k_thread k6)(t \<mapsto> thread0\<lparr>th_pid := tid, th_tid := tid\<rparr>)\<rparr>);
          let (cx, k8) = kalloc k7;
          if cx = 0 then Some (0, kthreadFail p (freeThread t k8)) else do {
          (c, k9) \<leftarrow> platformCreateContext False entry arg k8;
          case c of
            None \<Rightarrow> Some (0, kthreadFail p (freeThread t k9))
          | Some c \<Rightarrow> do {
              let k10 = upd_thread t (\<lambda>x. x\<lparr>th_context := c\<rparr>) k9;
              k11 \<leftarrow> schedAdjustTimeslice (k10\<lparr>k_processes := k_processes k10 + 1, k_threads := k_threads k10 + 1\<rparr>);
              Some (tid, schedRelease k11) } }}}}}}"

definition processCreate :: "int list \<Rightarrow> kernel \<Rightarrow> (int \<times> kernel) option" where
  "processCreate rs k =
     do { (pid, k1) \<leftarrow> allocatePid rs k;
          if pid = 0 then Some (0, k1)
          else if k_list k = [] then None
          else do {
          let (process, k2) = kalloc k1;
          if process = 0 then Some (0, k2) else do {
          let k3 = k2\<lparr>k_list := k_list k2 @ [process], k_proc := (k_proc k2)(process \<mapsto> process0)\<rparr>;
          current \<leftarrow> getProcess k3 (getPid k3);
          (ok, k4) \<leftarrow> (if current = 0 then Some (True, k3)
            else (let (children, k4) = kalloc k3 in
              if children = 0 then Some (False, freeProcess process (upd_proc current (\<lambda>x. x\<lparr>pr_children := []\<rparr>) k4))
              else Some (True, upd_proc current (\<lambda>x. x\<lparr>pr_children := pr_children x @ [process]\<rparr>) k4)));
          if \<not> ok then Some (0, k4)
          else Some (pid, upd_proc process (\<lambda>x. x\<lparr>pr_pid := pid, pr_parent := getPid k4, pr_user := 0, pr_group := 0\<rparr>) k4) }}}"

section \<open>fork\<close>

text \<open>The loop over the copied descriptors: close those marked, count a reference on the others.\<close>

fun inheritIO :: "nat list \<Rightarrow> ptr \<Rightarrow> kernel \<Rightarrow> kernel option" where
  "inheritIO [] p k = Some k"
| "inheritIO (i # is) p k =
     do { x \<leftarrow> k_proc k p;
          let d = pr_io x ! i;
          k1 \<leftarrow> (if \<not> io_valid d then Some k
                  else if io_flags d AND O_CLOFORK \<noteq> 0
                  then Some (upd_io p i (\<lambda>d. d\<lparr>io_valid := False, io_data := 0, io_flags := 0\<rparr>) k)
                  else takeReference d k);
          inheritIO is p k1 }"

definition fork_inherit :: "ptr \<Rightarrow> ptr \<Rightarrow> kernel \<Rightarrow> kernel option" where
  "fork_inherit p parent k =
     do { q \<leftarrow> k_proc k parent;
          k1 \<leftarrow> inheritIO [0..<MAX_IO_DESCRIPTORS] p
            (upd_proc p (\<lambda>x. x\<lparr>pr_io := pr_io q, pr_iodCount := pr_iodCount q, pr_umask := pr_umask q\<rparr>) k);
          Some (upd_proc p (\<lambda>x. x\<lparr>pr_cwd := pr_cwd q, pr_name := pr_name q, pr_command := pr_command q,
            pr_pgrp := pr_pgrp q\<rparr>) k1) }"

text \<open>\<open>junk\<close> is the content of fresh memory for signal handlers, used when the parent has none.\<close>

definition fork :: "int list \<Rightarrow> sigaction list \<Rightarrow> ptr \<Rightarrow> kernel \<Rightarrow> (int \<times> kernel) option" where
  "fork rs junk t k =
     do { k1 \<leftarrow> schedLock k;
          (pid, k2) \<leftarrow> processCreate rs k1;
          if pid = 0 then Some (- EAGAIN, schedRelease k2) else do {
          tx \<leftarrow> k_thread k2 t;
          p \<leftarrow> getProcess k2 pid;
          _ \<leftarrow> k_proc k2 p;
          let k3 = upd_proc p (\<lambda>x. x\<lparr>pr_parent := th_pid tx\<rparr>) k2;
          let (ts, k4) = kalloc k3;
          if ts = 0 then Some (- ENOMEM, schedRelease (freeProcess p k4)) else do {
          let (nt, k5) = kalloc k4;
          if nt = 0 then Some (- ENOMEM, schedRelease (freeProcess p k5)) else do {
          let (c1, k6) = kalloc k5;
          let (c2, k7) = kalloc k6;
          let k8 = upd_proc p (\<lambda>x. x\<lparr>pr_threads := [nt], pr_pages := th_pages tx\<rparr>)
            (k7\<lparr>k_thread := (k_thread k7)(nt \<mapsto> thread0\<lparr>th_status := THREAD_QUEUED, th_pid := pid, th_tid := pid,
              th_highest := th_highest tx, th_pages := th_pages tx, th_signalMask := th_signalMask tx\<rparr>)\<rparr>);
          if c1 = 0 \<or> c2 = 0 then Some (- ENOMEM, schedRelease (freeProcess p (freeThread nt k8))) else do {
          (c, k9) \<leftarrow> platformCloneContext (th_context tx) k8;
          case c of
            None \<Rightarrow> Some (- ENOMEM, schedRelease (freeProcess p (freeThread nt k9)))
          | Some c \<Rightarrow> do {
              let (sigs, k10) = signalClone junk (th_signals tx) k9;
              let k11 = upd_thread nt (\<lambda>x. x\<lparr>th_context := c, th_signals := sigs\<rparr>) k10;
              parent \<leftarrow> getProcess k11 (th_pid tx);
              r \<leftarrow> (if parent = 0 then Some (Inr k11)
                else do {
                  k12 \<leftarrow> fork_inherit p parent k11;
                  let (children, k13) = kalloc k12;
                  if children = 0 then do {
                    v \<leftarrow> platformCleanThread c (th_highest tx) (k_vm k13);
                    Some (Inl (freeProcess p (k13\<lparr>k_vm := v\<rparr>))) }
                  else Some (Inr (upd_proc parent (\<lambda>x. x\<lparr>pr_children := pr_children x @ [p]\<rparr>) k13)) });
              case r of
                Inl k14 \<Rightarrow> Some (- ENOMEM, k14)
              | Inr k14 \<Rightarrow> do {
                  k15 \<leftarrow> schedAdjustTimeslice (k14\<lparr>k_processes := k_processes k14 + 1, k_threads := k_threads k14 + 1\<rparr>);
                  Some (pid, schedRelease (platformSetContextStatus nt 0 k15)) } } }}}}}"

section \<open>Scheduling\<close>

definition platformSwitchContext :: "ptr \<Rightarrow> kernel \<Rightarrow> kernel option" where
  "platformSwitchContext t k =
     do { x \<leftarrow> k_thread k t;
          let c = th_context x;
          let c' = (if cx_cs c AND 3 \<noteq> 0 \<or> cx_ss c AND 3 \<noteq> 0
                    then c\<lparr>cx_cs := push_bit 3 GDT_USER_CODE OR 3, cx_ss := push_bit 3 GDT_USER_DATA OR 3,
                           cx_rflags := cx_rflags c OR 0x202\<rparr> else c);
          old \<leftarrow> (if k_curThread k = 0 then Some False
                  else map_option (\<lambda>y. cx_iopl (th_context y)) (k_thread k (k_curThread k)));
          p \<leftarrow> getProcess k (th_pid x);
          let k1 = upd_thread t (\<lambda>x. x\<lparr>th_context := c'\<rparr>) k;
          let k2 = (if cx_iopl c \<or> old then k1\<lparr>k_tss := (\<lambda>i. if i < 8192 then cx_ioports c i else k_tss k i)\<rparr> else k1);
          Some (platformUseContext c' (k2\<lparr>k_curThread := t, k_curProcess := p\<rparr>)) }"

text \<open>
  \<open>schedule()\<close> visits the processes from the current one to the last and then all of them once
  more. The result says whether a thread was switched to, in which case C does not return. A
  process without threads at the end of the list is followed by a null pointer.
\<close>

fun schedThreads :: "int \<Rightarrow> ptr \<Rightarrow> ptr list \<Rightarrow> kernel \<Rightarrow> (bool \<times> kernel) option" where
  "schedThreads cpu current [] k = Some (False, k)"
| "schedThreads cpu current (t # ts) k =
     do { x \<leftarrow> k_thread k t;
          if th_status x \<noteq> THREAD_QUEUED then schedThreads cpu current ts k
          else do {
            k1 \<leftarrow> (if current = 0 then Some k
                    else do { c \<leftarrow> k_thread k current;
                              Some (if th_status c = THREAD_RUNNING then setStatus current THREAD_QUEUED k else k) });
            k2 \<leftarrow> signalHandle t k1;
            y \<leftarrow> k_thread k2 t;
            if th_status y \<noteq> THREAD_QUEUED then schedThreads cpu current ts k2
            else do {
              k3 \<leftarrow> resetTime t (setStatus t THREAD_RUNNING k2);
              k4 \<leftarrow> platformSwitchContext t (schedRelease (upd_thread t (\<lambda>x. x\<lparr>th_cpu := cpu\<rparr>) k3));
              Some (True, k4) } } }"

fun schedProcesses :: "int \<Rightarrow> ptr \<Rightarrow> ptr list \<Rightarrow> kernel \<Rightarrow> (bool \<times> kernel) option" where
  "schedProcesses cpu current [] k = Some (False, k)"
| "schedProcesses cpu current (p # ps) k =
     do { x \<leftarrow> k_proc k p;
          case pr_threads x of
            [] \<Rightarrow> (if ps = [] then None else schedProcesses cpu current ps k)
          | t # _ \<Rightarrow> do {
              ts \<leftarrow> threadChain k t;
              (done, k1) \<leftarrow> schedThreads cpu current ts k;
              if done then Some (True, k1) else schedProcesses cpu current ps k1 } }"

definition schedule :: "int \<Rightarrow> kernel \<Rightarrow> (bool \<times> kernel) option" where
  "schedule cpu k =
     (if \<not> k_scheduling k \<or> k_processes k = 0 \<or> k_threads k = 0 then Some (False, k)
      else if k_lock k then Some (False, k)
      else do {
        let k1 = setLocalSched False (k\<lparr>k_lock := True\<rparr>);
        let start = (if k_curProcess k = 0 \<or> k_curThread k = 0 then k_list k
                     else dropWhile (\<lambda>p. p \<noteq> k_curProcess k) (k_list k));
        if start = [] then None
        else do {
          (done, k2) \<leftarrow> schedProcesses cpu (k_curThread k) start k1;
          if done then Some (True, k2)
          else do {
            (done, k3) \<leftarrow> schedProcesses cpu (k_curThread k) (k_list k) k2;
            Some (done, if done then k3 else schedRelease k3) } } })"

text \<open>\<open>platformSaveContext()\<close> copies the registers \<open>regs\<close> that the interrupt left on the stack.\<close>

definition saveContext :: "ptr \<Rightarrow> ThreadContext \<Rightarrow> kernel \<Rightarrow> kernel" where
  "saveContext t regs = upd_thread t (\<lambda>x. x\<lparr>th_context := regs\<lparr>cx_iopl := cx_iopl (th_context x),
     cx_ioports := cx_ioports (th_context x), cx_cr3 := cx_cr3 (th_context x)\<rparr>\<rparr>)"

definition kernelYield :: "int \<Rightarrow> ThreadContext \<Rightarrow> kernel \<Rightarrow> (bool \<times> kernel) option" where
  "kernelYield cpu regs k =
     do { busy \<leftarrow> schedBusy k;
          if \<not> busy \<or> k_curThread k = 0 then Some (False, k)
          else schedule cpu (saveContext (k_curThread k) regs k) }"

definition timerIRQ :: "int \<Rightarrow> ThreadContext \<Rightarrow> kernel \<Rightarrow> (bool \<times> kernel) option" where
  "timerIRQ cpu regs k =
     do { let k1 = setLocalSched False (k\<lparr>k_uptime := k_uptime k + 1\<rparr>);
          (time, k2) \<leftarrow> schedTimer k1;
          if time \<noteq> 0 then Some (False, k2)
          else schedule cpu (if k_curThread k2 = 0 then k2 else saveContext (k_curThread k2) regs k2) }"

section \<open>Specification vocabulary\<close>

text \<open>No thread of the list waits for the processor; the same for the threads of a process.\<close>

definition none_queued :: "kernel \<Rightarrow> ptr list \<Rightarrow> bool" where
  "none_queued k ts \<longleftrightarrow> (\<forall>t\<in>set ts. \<exists>x. k_thread k t = Some x \<and> th_status x \<noteq> THREAD_QUEUED)"

definition chain_of :: "kernel \<Rightarrow> ptr \<Rightarrow> ptr list \<Rightarrow> bool" where
  "chain_of k p ts \<longleftrightarrow> (\<exists>x t r. k_proc k p = Some x \<and> pr_threads x = t # r \<and> threadChain k t = Some ts)"

definition idle :: "kernel \<Rightarrow> ptr \<Rightarrow> bool" where
  "idle k p \<longleftrightarrow> (\<exists>ts. chain_of k p ts \<and> none_queued k ts)"

text \<open>The processes in the order \<open>schedule()\<close> visits them.\<close>

definition visits :: "kernel \<Rightarrow> ptr list" where
  "visits k = (if k_curProcess k = 0 \<or> k_curThread k = 0 then k_list k
               else dropWhile (\<lambda>p. p \<noteq> k_curProcess k) (k_list k)) @ k_list k"

text \<open>Two processes with one thread each; the first one runs and the second one waits.\<close>

definition sched_ex :: kernel where
  "sched_ex = kernel0\<lparr>k_scheduling := True, k_processes := 2, k_threads := 2, k_list := [10, 20],
     k_curProcess := 10, k_curThread := 11,
     k_proc := [10 \<mapsto> process0\<lparr>pr_pid := 1, pr_threads := [11]\<rparr>, 20 \<mapsto> process0\<lparr>pr_pid := 2, pr_threads := [21]\<rparr>],
     k_thread := [11 \<mapsto> thread0\<lparr>th_status := THREAD_RUNNING, th_pid := 1, th_tid := 1\<rparr>,
                  21 \<mapsto> thread0\<lparr>th_pid := 2, th_tid := 2\<rparr>]\<rparr>"

section \<open>Picking a thread\<close>

lemma threadChain_mono:
  assumes a: "threadChain k t = Some ts" and "k_thread k' = k_thread k"
  shows "threadChain k' t = Some ts"
proof -
  have "\<forall>k'. k_thread k' = k_thread k \<longrightarrow> threadChain k' t = Some ts"
  proof (rule threadChain.raw_induct [OF _ a], intro allI impI)
    fix chain :: "kernel \<Rightarrow> ptr \<Rightarrow> ptr list option" and k t ts and k' :: kernel
    assume ih: "\<And>k t ts. chain k t = Some ts \<Longrightarrow> \<forall>k'. k_thread k' = k_thread k \<longrightarrow> threadChain k' t = Some ts"
      and c: "(if t = 0 then Some [] else do { x \<leftarrow> k_thread k t; ts \<leftarrow> chain k (th_next x); Some (t # ts) }) = Some ts"
      and e: "k_thread k' = k_thread k"
    from c ih e show "threadChain k' t = Some ts"
      by (subst threadChain.simps) (auto split: if_splits Option.bind_splits)
  qed
  with assms(2) show ?thesis by blast
qed

lemma threadChain_cong: "k_thread k' = k_thread k \<Longrightarrow> threadChain k' t = threadChain k t"
  using threadChain_mono [of k t _ k'] threadChain_mono [of k' t _ k] by (metis not_Some_eq)

lemma schedThreads_skip: "none_queued k ts \<Longrightarrow> schedThreads cpu c (ts @ us) k = schedThreads cpu c us k"
  by (induction ts) (auto simp: none_queued_def)

lemma schedProcesses_skip:
  assumes "\<forall>p\<in>set ps. idle k p"
  shows "schedProcesses cpu c (ps @ qs) k = schedProcesses cpu c qs k"
  using assms
proof (induction ps)
  case (Cons p ps)
  then obtain x t r ts where "k_proc k p = Some x" "pr_threads x = t # r" "threadChain k t = Some ts" "none_queued k ts"
    by (auto simp: idle_def chain_of_def)
  with schedThreads_skip [of k ts cpu c "[]"] Cons show ?case by simp
qed simp

lemma append_split:
  "xs @ ys = ps @ p # qs \<Longrightarrow> (\<exists>us. xs = ps @ p # us) \<or> (\<exists>us. ps = xs @ us \<and> ys = us @ p # qs)"
  by (auto simp: append_eq_append_conv2 append_eq_Cons_conv Cons_eq_append_conv)

lemma schedule_visits:
  assumes on: "k_scheduling k" "k_processes k \<noteq> 0" "k_threads k \<noteq> 0" "\<not> k_lock k"
    and vis: "visits k = ps @ p # qs" and idle: "\<forall>q\<in>set ps. idle k q" and list: "k_list k \<noteq> []"
      "k_curProcess k = 0 \<or> k_curThread k = 0 \<or> k_curProcess k \<in> set (k_list k)"
    and fin: "\<And>qs. schedProcesses cpu (k_curThread k) (p # qs) (k\<lparr>k_lock := True, k_localSched := False\<rparr>) = Some (True, k')"
  shows "schedule cpu k = Some (True, k')"
proof -
  let ?k = "k\<lparr>k_lock := True, k_localSched := False\<rparr>"
  let ?start = "if k_curProcess k = 0 \<or> k_curThread k = 0 then k_list k else dropWhile (\<lambda>p. p \<noteq> k_curProcess k) (k_list k)"
  have i: "\<forall>q\<in>set ps. idle ?k q"
    using idle threadChain_cong [of ?k k] by (simp add: idle_def chain_of_def none_queued_def)
  have ne: "?start \<noteq> []" using list by (auto simp: dropWhile_eq_Nil_conv)
  have v: "?start @ k_list k = ps @ p # qs" using vis by (simp add: visits_def)
  show ?thesis
  proof (cases "\<exists>us. ?start = ps @ p # us")
    case True
    then obtain us where "?start = ps @ p # us" ..
    then have "schedProcesses cpu (k_curThread k) ?start ?k = Some (True, k')"
      using schedProcesses_skip [OF i, of cpu "k_curThread k" "p # us"] fin [of us] by simp
    with on ne show ?thesis by (simp add: schedule_def setLocalSched_def Let_def)
  next
    case False
    then obtain us where us: "ps = ?start @ us" "k_list k = us @ p # qs"
      using append_split [OF v] by blast
    have "schedProcesses cpu (k_curThread k) ?start ?k = Some (False, ?k)"
      using schedProcesses_skip [of ?start ?k cpu "k_curThread k" "[]"] i us(1) by simp
    moreover have "schedProcesses cpu (k_curThread k) (k_list k) ?k = Some (True, k')"
      using schedProcesses_skip [of us ?k cpu "k_curThread k" "p # qs"] fin [of qs] i us by simp
    ultimately show ?thesis using on ne by (simp add: schedule_def setLocalSched_def Let_def)
  qed
qed

lemma signalHandle_none: "k_thread k t = Some x \<Longrightarrow> th_signalQueue x = [] \<Longrightarrow> signalHandle t k = Some k"
  by (simp add: signalHandle_def)

lemma platformSwitchContext_ok:
  assumes t: "k_thread k t = Some x" "getProcess k (th_pid x) = Some p'" and c: "k_thread k (k_curThread k) \<noteq> None"
  shows "\<exists>k' c'. platformSwitchContext t k = Some k' \<and> k_thread k' = (k_thread k)(t \<mapsto> x\<lparr>th_context := c'\<rparr>) \<and>
    k_curThread k' = t \<and> k_curProcess k' = p' \<and> k_lock k' = k_lock k \<and> vm_cr3 (k_vm k') = cx_cr3 (th_context x)"
proof -
  define c' where "c' = (let c = th_context x in if cx_cs c AND 3 \<noteq> 0 \<or> cx_ss c AND 3 \<noteq> 0
    then c\<lparr>cx_cs := push_bit 3 GDT_USER_CODE OR 3, cx_ss := push_bit 3 GDT_USER_DATA OR 3, cx_rflags := cx_rflags c OR 0x202\<rparr> else c)"
  have cr3: "cx_cr3 c' = cx_cr3 (th_context x)" by (simp add: c'_def Let_def)
  obtain old where old: "(if k_curThread k = 0 then Some False
      else map_option (\<lambda>y. cx_iopl (th_context y)) (k_thread k (k_curThread k))) = Some old" using c by (cases "k_curThread k = 0") auto
  let ?k1 = "upd_thread t (\<lambda>x. x\<lparr>th_context := c'\<rparr>) k"
  let ?k2 = "if cx_iopl (th_context x) \<or> old
    then ?k1\<lparr>k_tss := (\<lambda>i. if i < 8192 then cx_ioports (th_context x) i else k_tss k i)\<rparr> else ?k1"
  have "platformSwitchContext t k = Some (platformUseContext c' (?k2\<lparr>k_curThread := t, k_curProcess := p'\<rparr>))"
    unfolding platformSwitchContext_def t(1) bind.bind_lunit Let_def old t(2) c'_def ..
  moreover have "k_thread ?k2 = (k_thread k)(t \<mapsto> x\<lparr>th_context := c'\<rparr>)" "k_lock ?k2 = k_lock k" "k_vm ?k2 = k_vm k"
    by (simp_all add: upd_thread_def t(1))
  ultimately show ?thesis using cr3
    by (intro exI [of _ "platformUseContext c' (?k2\<lparr>k_curThread := t, k_curProcess := p'\<rparr>)"] exI [of _ c'])
      (simp add: platformUseContext_def)
qed


text \<open>
  when the limit of processes or threads is reached, \<open>kthreadCreate()\<close> fails and leaves the
  scheduler lock taken: every later attempt to lock the scheduler waits forever, and \<open>schedule()\<close>
  returns without doing anything.
\<close>

theorem kthreadCreate_leaves_lock:
  assumes "k_processes k \<ge> MAX_PID \<or> k_threads k \<ge> MAX_PID" "\<not> k_lock k"
  shows "\<exists>k'. kthreadCreate rs entry arg k = Some (0, k') \<and> schedLock k' = None \<and> schedule cpu k' = Some (False, k')"
  using assms by (auto simp: kthreadCreate_def schedLock_def allocatePid_def schedule_def)


theorem kthreadCreate_leaves_lock_witness:
  "\<exists>k'. kthreadCreate [] 0 0 (kernel0\<lparr>k_processes := 99999\<rparr>) = Some (0, k') \<and> schedLock k' = None"
  using kthreadCreate_leaves_lock [of "kernel0\<lparr>k_processes := 99999\<rparr>" "[]" 0 0 0] by (auto simp: MAX_PID_def kernel0_def)

end
