(* ===== verification/Memory.thy ===== *)
theory Memory
  imports Procs "HOL-Library.Signed_Division"
begin

text \<open>
  The memory calls of user programs: \<^verbatim>\<open>src/src/memory/brk.c\<close>, \<^verbatim>\<open>mmio.c\<close>, \<^verbatim>\<open>mmap.c\<close> and
  \<open>pcontig()\<close> of \<^verbatim>\<open>physical.c\<close>. They run in the address space of the caller. Addresses and error
  codes come back in one 64-bit value. Where the kernel itself fills fresh pages, each page that is
  not present raises a page fault first, and a fault that cannot be served stops the kernel
  (\<open>None\<close>).
\<close>

section \<open>Touching user pages\<close>

fun touchPages :: "nat \<Rightarrow> vm \<Rightarrow> u64 \<Rightarrow> vm option" where
  "touchPages 0 v a = Some v"
| "touchPages (Suc n) v a =
     do { (s, _) \<leftarrow> vmmPageStatus v a;
          v1 \<leftarrow> (if s AND PLATFORM_PAGE_PRESENT \<noteq> 0 then Some v
                 else do { (r, v') \<leftarrow> vmmPageFault v a VMM_PAGE_FAULT_WRITE; if r = 0 then Some v' else None });
          touchPages n v1 (a + PAGE_SIZE) }"

text \<open>\<open>memset(a, 0, pages * PAGE_SIZE)\<close>\<close>

definition clearPages :: "u64 \<Rightarrow> u64 \<Rightarrow> kernel \<Rightarrow> kernel option" where
  "clearPages a pages k =
     do { v \<leftarrow> touchPages (unat pages) (k_vm k) a;
          Some (user_write a (replicate (unat pages * 4096) 0) (k\<lparr>k_vm := v\<rparr>)) }"

definition user_read32 :: "kernel \<Rightarrow> u64 \<Rightarrow> int" where
  "user_read32 k a = sint (ucast (fromBytes (user_read k a 4)) :: u32)"

definition pagesFor :: "int \<Rightarrow> u64" where
  "pagesFor count = of_int ((count + 4095) sdiv 4096)"

section \<open>The program break\<close>

definition addPages :: "ptr \<Rightarrow> ptr \<Rightarrow> int \<Rightarrow> kernel \<Rightarrow> kernel" where
  "addPages t p n k =
     upd_proc p (\<lambda>x. x\<lparr>pr_pages := int32 (pr_pages x + n)\<rparr>)
       (upd_thread t (\<lambda>x. x\<lparr>th_pages := int32 (th_pages x + n), th_highest := th_highest x + of_int n * PAGE_SIZE\<rparr>) k)"

definition sbrk :: "ptr \<Rightarrow> int \<Rightarrow> kernel \<Rightarrow> (u64 \<times> kernel) option" where
  "sbrk t delta k =
     do { x \<leftarrow> k_thread k t;
          let brk = th_highest x;
          if delta = 0 then Some (brk, k) else do {
          let pages = pagesFor \<bar>delta\<bar>;
          p \<leftarrow> getProcess k (th_pid x);
          if p = 0 then Some (of_int (- ESRCH), k)
          else if delta > 0 then do {
            (ptr, v) \<leftarrow> vmmAllocate (k_vm k) brk USER_LIMIT_ADDRESS pages (VMM_USER OR VMM_WRITE);
            let k1 = k\<lparr>k_vm := v\<rparr>;
            if ptr = 0 then Some (of_int (- ENOMEM), k1)
            else if ptr \<noteq> brk then do { (_, v') \<leftarrow> vmmFree v ptr pages; Some (of_int (- ENOMEM), k\<lparr>k_vm := v'\<rparr>) }
            else do { k2 \<leftarrow> clearPages ptr pages k1; Some (brk, addPages t p (uint pages) k2) } }
          else do {
            let ptr = brk - pages * PAGE_SIZE;
            let (n, ptr) = (if delta mod 4096 \<noteq> 0 then (pages - 1, ptr + PAGE_SIZE) else (pages, ptr));
            (_, v) \<leftarrow> vmmFree (k_vm k) ptr n;
            Some (brk, addPages t p (- uint n) (k\<lparr>k_vm := v\<rparr>)) } } }"

section \<open>Physical memory for drivers\<close>

definition MMIO_W :: u32 where "MMIO_W = 0x02"
definition MMIO_X :: u32 where "MMIO_X = 0x04"
definition MMIO_CD :: u32 where "MMIO_CD = 0x08"
definition MMIO_ENABLE :: u32 where "MMIO_ENABLE = 0x80"

definition mmioFlags :: "u32 \<Rightarrow> u32" where
  "mmioFlags flags = PLATFORM_PAGE_PRESENT OR PLATFORM_PAGE_USER OR
     (if flags AND MMIO_W \<noteq> 0 then PLATFORM_PAGE_WRITE else 0) OR
     (if flags AND MMIO_X \<noteq> 0 then PLATFORM_PAGE_EXEC else 0) OR
     (if flags AND MMIO_CD \<noteq> 0 then PLATFORM_PAGE_NO_CACHE else 0)"

text \<open>Successive pages at \<open>virt\<close> to successive frames at \<open>phys\<close>; results are not looked at.\<close>

fun mapPages :: "nat \<Rightarrow> u64 \<Rightarrow> u64 \<Rightarrow> u32 \<Rightarrow> vm \<Rightarrow> vm option" where
  "mapPages 0 virt phys f v = Some v"
| "mapPages (Suc n) virt phys f v =
     do { (_, v') \<leftarrow> platformMapPage v virt phys f; mapPages n (virt + PAGE_SIZE) (phys + PAGE_SIZE) f v' }"

fun clearMappings :: "nat \<Rightarrow> u64 \<Rightarrow> vm \<Rightarrow> vm option" where
  "clearMappings 0 virt v = Some v"
| "clearMappings (Suc n) virt v =
     do { (_, v') \<leftarrow> platformMapPage v virt 0 0; clearMappings n (virt + PAGE_SIZE) v' }"

text \<open>The caller's process when it is run by root, zero otherwise.\<close>

definition rootProcess :: "ptr \<Rightarrow> kernel \<Rightarrow> ptr option" where
  "rootProcess t k =
     do { x \<leftarrow> k_thread k t; p \<leftarrow> getProcess k (th_pid x);
          if p = 0 then Some 0
          else do { px \<leftarrow> k_proc k p; Some (if pr_user px \<noteq> 0 then 0 else p) } }"

definition mmio :: "ptr \<Rightarrow> u64 \<Rightarrow> int \<Rightarrow> u32 \<Rightarrow> kernel \<Rightarrow> (u64 \<times> kernel) option" where
  "mmio t addr count flags k =
     do { p \<leftarrow> rootProcess t k;
          if p = 0 then Some (0, k) else do {
          let offset = addr AND (PAGE_SIZE - 1);
          let pageCount = pagesFor count + (if addr AND NOT (PAGE_SIZE - 1) \<noteq> 0 then 1 else 0);
          if flags AND MMIO_ENABLE \<noteq> 0 then do {
            (virt, v) \<leftarrow> vmmAllocate (k_vm k) USER_MMIO_BASE USER_LIMIT_ADDRESS pageCount VMM_USER;
            if virt = 0 then Some (0, k\<lparr>k_vm := v\<rparr>)
            else do { v' \<leftarrow> mapPages (unat pageCount) virt addr (mmioFlags flags) v;
                      Some (virt OR offset, k\<lparr>k_vm := v'\<rparr>) } }
          else if addr < USER_MMIO_BASE then Some (addr, k)
          else do { v \<leftarrow> clearMappings (unat pageCount) addr (k_vm k); Some (0, k\<lparr>k_vm := v\<rparr>) } } }"

definition vtop :: "ptr \<Rightarrow> u64 \<Rightarrow> kernel \<Rightarrow> u64 option" where
  "vtop t virt k =
     do { p \<leftarrow> rootProcess t k;
          if p = 0 then Some 0 else do {
          (flags, phys) \<leftarrow> vmmPageStatus (k_vm k) virt;
          Some (if flags AND PLATFORM_PAGE_ERROR \<noteq> 0 then 0
                else if flags AND PLATFORM_PAGE_USER = 0 then 0
                else phys OR (virt AND (PAGE_SIZE - 1))) } }"

definition pcontig :: "ptr \<Rightarrow> u64 \<Rightarrow> int \<Rightarrow> u32 \<Rightarrow> kernel \<Rightarrow> (u64 \<times> kernel) option" where
  "pcontig t addr count flags k =
     do { p \<leftarrow> rootProcess t k;
          if p = 0 then Some (0, k)
          else if addr = 0 then do {
            (a, pm) \<leftarrow> pmmAllocateContiguous (vm_pmm (k_vm k)) (pagesFor count) flags;
            Some (a, k\<lparr>k_vm := (k_vm k)\<lparr>vm_pmm := pm\<rparr>\<rparr>) }
          else (let (st, pm) = pmmFreeContiguous (vm_pmm (k_vm k)) addr (pagesFor count)
                in Some (of_int st, k\<lparr>k_vm := (k_vm k)\<lparr>vm_pmm := pm\<rparr>\<rparr>)) }"

section \<open>Memory-mapped files\<close>

definition PROT_WRITE :: u32 where "PROT_WRITE = 0x02"
definition PROT_EXEC :: u32 where "PROT_EXEC = 0x04"
definition MAP_PRIVATE :: u32 where "MAP_PRIVATE = 0x02"
definition MAP_FIXED :: u32 where "MAP_FIXED = 0x04"
definition MAP_ANONYMOUS :: u32 where "MAP_ANONYMOUS = 0x08"
definition COMMAND_MMAP :: u16 where "COMMAND_MMAP = 0x8012"
definition COMMAND_MSYNC :: u16 where "COMMAND_MSYNC = 0x8013"
definition sizeof_MmapCommand :: u64 where "sizeof_MmapCommand = 4232"
definition sizeof_MsyncCommand :: u64 where "sizeof_MsyncCommand = 4192"

text \<open>
  The first page of a mapping holds its header: descriptor, protection, flags, owner, whether it maps
  a device, length and offset, at the offsets of \<open>MmapHeader\<close>.
\<close>

record MmapHeader =
  mp_fd :: int
  mp_prot :: u32
  mp_flags :: u32
  mp_pid :: int
  mp_tid :: int
  mp_device :: bool
  mp_length :: u64
  mp_offset :: int

definition readHeader :: "kernel \<Rightarrow> u64 \<Rightarrow> MmapHeader" where
  "readHeader k a = \<lparr>mp_fd = user_read32 k a, mp_prot = of_int (user_read32 k (a + 4)),
     mp_flags = of_int (user_read32 k (a + 8)), mp_pid = user_read32 k (a + 12), mp_tid = user_read32 k (a + 16),
     mp_device = (user_get k (a + 20) \<noteq> 0), mp_length = user_read64 k (a + 24), mp_offset = sint (user_read64 k (a + 32))\<rparr>"

text \<open>
  \<open>mmap()\<close>: without \<open>MAP_FIXED\<close> the anonymous mapping has to start where the caller asked, with it
  anywhere; the page count includes the header page. The result is an address or a negative code.
\<close>

definition mmapAnonymous :: "ptr \<Rightarrow> u64 \<Rightarrow> u64 \<Rightarrow> u32 \<Rightarrow> u32 \<Rightarrow> kernel \<Rightarrow> (u64 \<times> kernel) option" where
  "mmapAnonymous t addr len prot flags k =
     do { x \<leftarrow> k_thread k t;
          let pageCount = (len + PAGE_SIZE - 1) div PAGE_SIZE;
          let pageFlags = VMM_USER OR (if prot AND PROT_WRITE \<noteq> 0 then VMM_WRITE else 0)
                OR (if prot AND PROT_EXEC \<noteq> 0 then VMM_EXEC else 0);
          (anon, v) \<leftarrow> vmmAllocate (k_vm k) (if flags AND MAP_FIXED \<noteq> 0 then USER_MMIO_BASE else addr)
             USER_LIMIT_ADDRESS (pageCount + 1) pageFlags;
          let k1 = k\<lparr>k_vm := v\<rparr>;
          if flags AND MAP_FIXED = 0 \<and> anon \<noteq> 0 \<and> anon \<noteq> addr then do {
            (_, v') \<leftarrow> vmmFree v anon (pageCount + 1);
            Some (of_int (- ENOMEM), k\<lparr>k_vm := v'\<rparr>) }
          else if anon = 0 then Some (of_int (- ENOMEM), k1)
          else do {
            k2 \<leftarrow> clearPages anon (pageCount + 1) k1;
            Some (anon + PAGE_SIZE,
              user_write32 anon (-1) (user_write32 (anon + 16) (th_tid x) (user_write32 (anon + 12) (th_pid x)
                (user_write (anon + 24) (bytesOf len) (user_write32 (anon + 8) (uint flags) k2))))) } }"

definition mmap :: "ptr \<Rightarrow> u64 \<Rightarrow> u64 \<Rightarrow> u64 \<Rightarrow> u32 \<Rightarrow> u32 \<Rightarrow> int \<Rightarrow> int \<Rightarrow> kernel \<Rightarrow> (u64 \<times> kernel) option" where
  "mmap t i addr len prot flags fd off k =
     do { x \<leftarrow> k_thread k t;
          let fixed = flags AND MAP_FIXED \<noteq> 0;
          if fixed \<and> addr AND (PAGE_SIZE - 1) \<noteq> 0 then Some (of_int (- EINVAL), k)
          else if fixed \<and> (addr - PAGE_SIZE < th_highest x \<or> addr - PAGE_SIZE + len \<ge> USER_LIMIT_ADDRESS)
          then Some (of_int (- ENOMEM), k)
          else if flags AND MAP_ANONYMOUS \<noteq> 0 then mmapAnonymous t addr len prot flags k
          else if fd < 0 \<or> fd > int MAX_IO_DESCRIPTORS then Some (of_int (- EBADF), k)
          else (let (c, k1) = kalloc k in
            if c = 0 then Some (of_int (- ENOMEM), k1)
            else do {
              p \<leftarrow> getProcess k1 (th_pid x);
              if p = 0 then Some (of_int (- ESRCH), k1)
              else if fd = int MAX_IO_DESCRIPTORS then None
              else do {
                px \<leftarrow> k_proc k1 p;
                let d = pr_io px ! nat fd;
                if \<not> io_valid d \<or> io_data d = 0 then Some (of_int (- EBADF), k1)
                else if io_type d \<noteq> IO_FILE then Some (of_int (- ENODEV), k1)
                else do {
                  f \<leftarrow> k_file k1 (io_data d);
                  (status, k2) \<leftarrow> requestServer t 0 sizeof_MmapCommand
                    (CMmap \<lparr>mh_command = COMMAND_MMAP, mh_length = sizeof_MmapCommand, mh_response = False, mh_latency = 0,
                       mh_status = 0, mh_requester = 0, sh_id = ucast i, mmap_path = fd_abspath f, mmap_device = fd_device f,
                       mmap_id = fd_id f, mmap_openFlags = uint (io_flags d), mmap_uid = pr_user px, mmap_gid = pr_group px,
                       mmap_position = fd_position f, mmap_addr = addr, mmap_len = len, mmap_prot = prot,
                       mmap_flags = flags, mmap_off = off, mmap_responseType = 0, mmap_mmio = 0, mmap_data = []\<rparr>) k1;
                  Some (of_int status, k2) } } }) }"

text \<open>
  \<open>mmapHandle()\<close>: the answer of the driver. The parameters of the call are read again from the
  caller's memory; \<open>a\<close> is their address. The rest of the page behind the data is cleared with
  \<open>memset(base + len, 0, PAGE_SIZE - len)\<close>, an unsigned difference: data longer than a page runs out
  of the address space, and so does a message shorter than it says.
\<close>

definition mmapPageFlags :: "u32 \<Rightarrow> u32" where
  "mmapPageFlags prot = PLATFORM_PAGE_PRESENT OR PLATFORM_PAGE_USER OR
     (if prot AND PROT_WRITE \<noteq> 0 then PLATFORM_PAGE_WRITE else 0) OR
     (if prot AND PROT_EXEC \<noteq> 0 then PLATFORM_PAGE_EXEC else 0)"

definition setRet :: "ptr \<Rightarrow> u64 \<Rightarrow> kernel \<Rightarrow> kernel" where
  "setRet t r = upd_req t (\<lambda>q. q\<lparr>rq_ret := r\<rparr>)"

definition mmapHandle :: "MmapCommand \<Rightarrow> ptr \<Rightarrow> kernel \<Rightarrow> kernel option" where
  "mmapHandle msg t k =
     do { x \<leftarrow> k_thread k t;
          let a = rq_params (th_syscall x) ! 0;
          let fd = user_read32 k (a + 24);
          let pageCount = (mmap_len msg + PAGE_SIZE - 1) div PAGE_SIZE;
          let fixed = mmap_flags msg AND MAP_FIXED \<noteq> 0;
          let start = (if fixed then mmap_addr msg - PAGE_SIZE else USER_MMIO_BASE);
          (base, v) \<leftarrow> vmmAllocate (k_vm k) start USER_LIMIT_ADDRESS (pageCount + 1) (VMM_USER OR VMM_WRITE);
          let k1 = k\<lparr>k_vm := v\<rparr>;
          if fixed \<and> base \<noteq> 0 \<and> base \<noteq> start then do {
            (_, v') \<leftarrow> vmmFree v base (pageCount + 1);
            Some (setRet t (of_int (- ENOMEM)) (k\<lparr>k_vm := v'\<rparr>)) }
          else if base = 0 then Some (setRet t (of_int (- ENOMEM)) k1)
          else do {
            v1 \<leftarrow> touchPages 1 v base;
            let device = mmap_responseType msg \<noteq> 0;
            let k2 = user_write32 (base + 16) (th_tid x) (user_write32 (base + 12) (th_pid x)
              (user_write32 (base + 4) (uint (mmap_prot msg)) (user_write (base + 32) (bytesOf (of_int (mmap_off msg)))
                (user_write (base + 24) (bytesOf (mmap_len msg))
                  (user_write32 (base + 8) (user_read32 k (a + 20)) (user_write32 base fd (k\<lparr>k_vm := v1\<rparr>)))))));
            p \<leftarrow> getProcess k2 (th_pid x);
            px \<leftarrow> k_proc k2 p;
            if fd < 0 \<or> fd \<ge> int MAX_IO_DESCRIPTORS then None else do {
            let file = io_data (pr_io px ! nat fd);
            _ \<leftarrow> k_file k2 file;
            let k3 = user_write (base + 20) [if device then 1 else 0]
              (upd_file file (\<lambda>f. f\<lparr>fd_refCount := fd_refCount f + 1\<rparr>) k2);
            k4 \<leftarrow> (if device then do {
                     v2 \<leftarrow> mapPages (unat pageCount) (base + PAGE_SIZE) (mmap_mmio msg) (mmapPageFlags (mmap_prot msg)) (k_vm k3);
                     Some (k3\<lparr>k_vm := v2\<rparr>) }
                   else if mmap_len msg > PAGE_SIZE \<or> length (mmap_data msg) < unat (mmap_len msg) then None
                   else do {
                     v2 \<leftarrow> touchPages 1 (k_vm k3) (base + PAGE_SIZE);
                     Some (user_write (base + PAGE_SIZE) (take (unat (mmap_len msg)) (mmap_data msg)
                       @ replicate (4096 - unat (mmap_len msg)) 0) (k3\<lparr>k_vm := v2\<rparr>)) });
            Some (setRet t (base + PAGE_SIZE) k4) } } }"

fun unmapPages :: "nat \<Rightarrow> u64 \<Rightarrow> vm \<Rightarrow> vm option" where
  "unmapPages 0 a v = Some v"
| "unmapPages (Suc n) a v = do { (_, v') \<leftarrow> platformUnmapPage v a; unmapPages n (a + PAGE_SIZE) v' }"

definition badRange :: "u64 \<Rightarrow> u64 \<Rightarrow> bool" where
  "badRange ptr len \<longleftrightarrow> ptr AND (PAGE_SIZE - 1) \<noteq> 0 \<or> ptr < USER_MMIO_BASE \<or> ptr > USER_LIMIT_ADDRESS \<or> len = 0"

text \<open>The reference of the descriptor a mapping holds, dropped by \<open>munmap()\<close>.\<close>

definition dropMapping :: "ptr \<Rightarrow> int \<Rightarrow> kernel \<Rightarrow> (int \<times> kernel) option" where
  "dropMapping t fd k =
     (if fd > 0 \<and> fd \<le> int MAX_IO_DESCRIPTORS then do {
        x \<leftarrow> k_thread k t;
        p \<leftarrow> getProcess k (th_pid x);
        if p = 0 then Some (- ESRCH, k)
        else if fd = int MAX_IO_DESCRIPTORS then None
        else do {
          px \<leftarrow> k_proc k p;
          let d = pr_io px ! nat fd;
          if \<not> io_valid d \<or> io_type d \<noteq> IO_FILE \<or> io_data d = 0 then Some (- EINVAL, k)
          else do {
            f \<leftarrow> k_file k (io_data d);
            k1 \<leftarrow> dropFile (io_data d) k;
            Some (0, if fd_refCount f - 1 = 0 then closeIO p (nat fd) k1 else k1) } } }
      else Some (0, k))"

definition munmap :: "ptr \<Rightarrow> u64 \<Rightarrow> u64 \<Rightarrow> kernel \<Rightarrow> (int \<times> kernel) option" where
  "munmap t ptr len k =
     (if badRange ptr len then Some (- EINVAL, k)
      else let h = readHeader k (ptr - PAGE_SIZE) in
        if len > mp_length h then Some (- EINVAL, k)
        else do {
          (status, k1) \<leftarrow> dropMapping t (mp_fd h) k;
          if status \<noteq> 0 then Some (status, k1)
          else do {
            let pageCount = (len + PAGE_SIZE) div PAGE_SIZE;
            v \<leftarrow> (if mp_device h then do {
                     (_, v) \<leftarrow> vmmFree (k_vm k1) (ptr - PAGE_SIZE) 1; unmapPages (unat pageCount) ptr v }
                   else do { (_, v) \<leftarrow> vmmFree (k_vm k1) (ptr - PAGE_SIZE) (pageCount + 1); Some v });
            Some (0, k1\<lparr>k_vm := v\<rparr>) } })"

definition msync :: "ptr \<Rightarrow> u64 \<Rightarrow> u64 \<Rightarrow> u64 \<Rightarrow> u32 \<Rightarrow> kernel \<Rightarrow> (int \<times> kernel) option" where
  "msync t i ptr len flags k =
     (if badRange ptr len then Some (- EINVAL, k)
      else let h = readHeader k (ptr - PAGE_SIZE) in
        if mp_fd h < 0 then Some (- EINVAL, k)
        else if len > mp_length h then Some (- EINVAL, k)
        else if mp_device h \<or> mp_flags h AND MAP_PRIVATE \<noteq> 0 \<or> mp_prot h AND PROT_WRITE = 0 then Some (1, k)
        else withProcess t (\<lambda>p px.
          if mp_fd h \<ge> int MAX_IO_DESCRIPTORS then None
          else let d = pr_io px ! nat (mp_fd h) in
            if \<not> io_valid d \<or> io_type d \<noteq> IO_FILE \<or> io_data d = 0 then Some (- EINVAL, k)
            else (let (c, k1) = kalloc k in
              if c = 0 then Some (- ENOMEM, k1)
              else do {
                f \<leftarrow> k_file k1 (io_data d);
                requestServer t (fd_sd f) (sizeof_MsyncCommand + len)
                  (CMsync \<lparr>mh_command = COMMAND_MSYNC, mh_length = sizeof_MsyncCommand + len, mh_response = False,
                     mh_latency = 0, mh_status = 0, mh_requester = 0, sh_id = ucast i, msync_path = fd_path f,
                     msync_device = fd_device f, msync_id = fd_id f, msync_uid = pr_user px, msync_gid = pr_group px,
                     msync_len = 0, msync_off = mp_offset h, msync_mapFlags = mp_flags h, msync_syncFlags = flags,
                     msync_data = user_read k1 ptr (unat len)\<rparr>) k1 })) k)"

section \<open>Specification vocabulary\<close>

definition mmio_limit47 :: u64 where "mmio_limit47 = 0x7FFFFFFFF000"

text \<open>The places below the end of the canonical addresses where a block of pages can start.\<close>

definition mmio_starts :: "u64 \<Rightarrow> u64 list" where
  "mmio_starts n = USER_MMIO_BASE # page_steps (USER_MMIO_BASE + PAGE_SIZE) (mmio_limit47 - n * PAGE_SIZE)"

lemma bit_high: "unat (z::u64) < 2 ^ m \<Longrightarrow> m \<le> n \<Longrightarrow> \<not> bit z n"
proof -
  assume z: "unat z < 2 ^ m" "m \<le> n"
  have "unat (take_bit m z) = unat z" using z(1) by (simp add: unsigned_take_bit_eq take_bit_nat_eq_self)
  then have "take_bit m z = z" by (simp only: word_unat_eq_iff)
  then show ?thesis using z(2) by (metis bit_take_bit_iff not_less)
qed

lemma path_bits:
  assumes "page_path x = page_path y" "12 \<le> n" "n < 48"
  shows "bit x n = bit y n"
proof -
  define a m where "a = (n - 12) div 9" and "m = (n - 12) mod 9"
  have n: "12 + 9 * a + m = n" "a \<le> 3" "m < 9" using assms(2,3) by (auto simp: a_def m_def)
  then have "12 + (9 * a + m) < 64" using assms(3) by simp
  have "bit (tableIndex a z) m = bit z n" for z
    using n unfolding tableIndex_def mask9 by (auto simp: bit_simps)
  moreover have "tableIndex a x = tableIndex a y" using assms(1) n(2) by (simp add: page_path_eq)
  ultimately show ?thesis by metis
qed

lemma page_path_inj:
  assumes "page_path x = page_path y" "unat x < 2 ^ 47" "unat y < 2 ^ 47"
  shows "pageBase x = pageBase y"
proof (rule bit_word_eqI)
  fix n
  show "bit (pageBase x) n = bit (pageBase y) n"
    using path_bits [OF assms(1), of n] bit_high [OF assms(2), of n] bit_high [OF assms(3), of n]
    by (cases "n < 47") (auto simp: bit_pageBase)
qed

lemma vmm_scan_widen:
  assumes inv: "paging_inv v lv" and r: "region base limit" and lim: "unat limit + 4096 \<le> 2 ^ 64"
    and e: "unat e' + unat count * 4096 \<le> unat limit" "e' \<le> e"
  shows "base \<le> start \<Longrightarrow> unat start + unat count * 4096 \<le> unat limit \<Longrightarrow>
    find (block_free v (unat count)) (start # page_steps (start + PAGE_SIZE) e') \<noteq> None \<Longrightarrow>
    vmm_scan v start e count f = vmm_scan v start e' count f"
proof (induction "unat e' - unat start" arbitrary: start rule: less_induct)
  case less
  let ?n = "unat count" and ?stop = "start + count * PAGE_SIZE"
  note pages = region_block [OF r less.prems(1,2)]
  have stop: "unat ?stop = unat start + ?n * 4096" by (rule unat_block_end [OF less.prems(2)])
  obtain b where b: "vmm_probe v start ?stop = Some b" "b \<ge> ?stop \<longleftrightarrow> block_free v ?n start"
    using vmm_probe_block [OF inv _ _ stop] pages less.prems(2) lim by fastforce
  show ?case
  proof (cases "block_free v ?n start")
    case True
    with b show ?thesis by (simp add: vmm_scan.simps [of v start])
  next
    case nofree: False
    have lt: "start + PAGE_SIZE < e'"
      using less.prems(3) nofree by (cases "start + PAGE_SIZE < e'") (simp_all add: page_steps_empty)
    have u: "unat (start + PAGE_SIZE) = unat start + 4096"
      using less.prems(2) lim nofree by (intro unat_add_page) (cases "?n", simp_all add: block_free_def)
    have le: "unat e' + 4096 \<le> 2 ^ 64" using e lim by simp
    have "vmm_scan v (start + PAGE_SIZE) e count f = vmm_scan v (start + PAGE_SIZE) e' count f"
    proof (rule less.hyps)
      show "unat e' - unat (start + PAGE_SIZE) < unat e' - unat start"
        using lt u by (simp add: word_less_nat_alt)
      show "base \<le> start + PAGE_SIZE" using less.prems(1) u by (simp add: word_le_nat_alt)
      show "unat (start + PAGE_SIZE) + ?n * 4096 \<le> unat limit" using lt e by (simp add: word_less_nat_alt)
      show "find (block_free v ?n) ((start + PAGE_SIZE) # page_steps (start + PAGE_SIZE + PAGE_SIZE) e') \<noteq> None"
        using less.prems(3) nofree page_steps_cons [OF lt le] by simp
    qed
    moreover have "start + PAGE_SIZE < e" using lt e(2) by simp
    ultimately show ?thesis using lt nofree b by (simp add: vmm_scan.simps [of v start])
  qed
qed

lemma mapPages_block:
  assumes f: "bit f 0"
  shows "paging_inv v lv \<Longrightarrow> unat virt + n * 4096 \<le> 2 ^ 47 \<Longrightarrow> pageBase virt = virt \<Longrightarrow>
    (\<And>i. i < n \<Longrightarrow> pte v (virt + of_nat i * PAGE_SIZE) \<noteq> 0) \<Longrightarrow>
    \<exists>v' lv'. mapPages n virt phys f v = Some v' \<and> paging_inv v' lv' \<and>
      (\<forall>i < n. pte v' (virt + of_nat i * PAGE_SIZE) = pageBase (phys + of_nat i * PAGE_SIZE) OR entryFlags f) \<and>
      (\<forall>x. unat x < unat virt \<longrightarrow> pte v' x = pte v x)"
proof (induction n arbitrary: v lv virt phys)
  case 0
  then show ?case by auto
next
  case (Suc n)
  have l: "mappable virt" using Suc.prems(2) by (intro mappable_low) simp
  have nz: "pte v virt \<noteq> 0" using Suc.prems(4) [of 0] by simp
  obtain v1 where v1: "platformMapPage v virt phys f = Some (canonical (pageBase virt), v1)"
    "maps_page v lv virt (pageBase phys OR entryFlags f) v1"
    using platformMapPage_mapped [OF Suc.prems(1) l nz] by blast
  obtain lv1 where lv1: "paging_inv v1 lv1"
    "\<And>x. mappable x \<Longrightarrow> pte v1 x = (if page_path x = page_path virt then pageBase phys OR entryFlags f else pte v x)"
    using maps_pageD [OF v1(2)] by metis
  have u: "unat (virt + PAGE_SIZE) = unat virt + 4096" using Suc.prems(2) by (intro unat_add_page) simp
  have al: "pageBase (virt + PAGE_SIZE) = virt + PAGE_SIZE"
    using u aligned_unat [OF Suc.prems(3)] by (intro aligned_pageBase) auto
  have at: "unat (virt + of_nat i * PAGE_SIZE) = unat virt + i * 4096" if "i \<le> n" for i
    using unat_block_end [of virt "of_nat i" "0x800000000000"] that Suc.prems(2)
    by (simp add: unat_of_nat take_bit_nat_eq_self)
  have other: "pte v1 x = pte v x" if "pageBase x \<noteq> virt" "unat x < 2 ^ 47" for x
  proof -
    have "page_path x \<noteq> page_path virt" using page_path_inj [of x virt] that Suc.prems(2,3) by auto
    then show ?thesis using lv1(2) [OF mappable_low [OF that(2)]] by simp
  qed
  have step: "pte v1 (virt + PAGE_SIZE + of_nat i * PAGE_SIZE) = pte v (virt + of_nat (Suc i) * PAGE_SIZE)" if "i < n" for i
  proof -
    have e: "virt + PAGE_SIZE + of_nat i * PAGE_SIZE = virt + of_nat (Suc i) * PAGE_SIZE" by (simp add: algebra_simps)
    have a: "unat (virt + of_nat (Suc i) * PAGE_SIZE) = unat virt + Suc i * 4096" using at [of "Suc i"] that by simp
    have "unat (pageBase (virt + of_nat (Suc i) * PAGE_SIZE)) \<noteq> unat virt"
      using a aligned_unat [OF Suc.prems(3)] by (auto simp: unat_pageBase)
    then show ?thesis unfolding e using a that Suc.prems(2) by (intro other) auto
  qed
  obtain v' lv' where v': "mapPages n (virt + PAGE_SIZE) (phys + PAGE_SIZE) f v1 = Some v'" "paging_inv v' lv'"
    "\<forall>i < n. pte v' (virt + PAGE_SIZE + of_nat i * PAGE_SIZE) = pageBase (phys + PAGE_SIZE + of_nat i * PAGE_SIZE) OR entryFlags f"
    "\<forall>x. unat x < unat (virt + PAGE_SIZE) \<longrightarrow> pte v' x = pte v1 x"
    using Suc.IH [OF lv1(1) _ al, of "phys + PAGE_SIZE"] u Suc.prems(2) step Suc.prems(4) [of "Suc i" for i]
    by (smt (verit) Suc_less_eq mult_Suc add.assoc add.commute)
  have "pte v' (virt + of_nat i * PAGE_SIZE) = pageBase (phys + of_nat i * PAGE_SIZE) OR entryFlags f" if "i < Suc n" for i
  proof (cases i)
    case 0
    then show ?thesis using v'(4) u lv1(2) [OF l] by simp
  next
    case (Suc j)
    then show ?thesis using v'(3) [rule_format, of j] that by (simp add: algebra_simps)
  qed
  moreover have "pte v' x = pte v x" if "unat x < unat virt" for x
  proof -
    have "unat (pageBase x) \<noteq> unat virt" using that unat_pageBase [of x] by simp
    then have "pageBase x \<noteq> virt" by auto
    then have "pte v1 x = pte v x" using that Suc.prems(2) by (intro other) auto
    moreover have "pte v' x = pte v1 x" using v'(4) that u by simp
    ultimately show ?thesis by simp
  qed
  ultimately show ?case using v1(1) v'(1,2) by auto
qed

lemma user_bases: "pageBase USER_MMIO_BASE = USER_MMIO_BASE" "pageBase mmio_limit47 = mmio_limit47"
  "mmio_limit47 \<le> pageBase USER_LIMIT_ADDRESS"
  by (simp_all add: layout_defs pageBase_def mmio_limit47_def)

lemma region_user: "region USER_MMIO_BASE mmio_limit47"
  by (auto simp: region_def layout_defs mmio_limit47_def word_le_nat_alt intro!: mappable_low)

lemma vmmAllocate_user:
  assumes inv: "paging_inv v lv" and fit: "unat USER_MMIO_BASE + unat n * 4096 \<le> unat mmio_limit47"
    and free: "find (block_free v (unat n)) (mmio_starts n) = Some st"
  shows "\<exists>a v'. vmmAllocate v USER_MMIO_BASE USER_LIMIT_ADDRESS n flags = Some (a, v') \<and>
    alloc_outcome v lv (unat n) (lazy_entry flags) (Some st) a v'"
proof -
  have m: "unat (n * PAGE_SIZE) = unat n * 4096"
    using fit by (simp add: layout_defs mmio_limit47_def unat_word_ariths)
  have e: "unat (mmio_limit47 - n * PAGE_SIZE) + unat n * 4096 \<le> unat mmio_limit47"
    using fit m by (simp add: unat_sub word_le_nat_alt)
  have le: "mmio_limit47 - n * PAGE_SIZE \<le> pageBase USER_LIMIT_ADDRESS - n * PAGE_SIZE"
  proof -
    have n: "n * PAGE_SIZE \<le> mmio_limit47" using fit m by (simp add: word_le_nat_alt)
    have "unat (mmio_limit47 - n * PAGE_SIZE) = unat mmio_limit47 - unat (n * PAGE_SIZE)" using n by (rule unat_sub)
    moreover have "unat (pageBase USER_LIMIT_ADDRESS - n * PAGE_SIZE) = unat (pageBase USER_LIMIT_ADDRESS) - unat (n * PAGE_SIZE)"
      using n user_bases(3) by (intro unat_sub) auto
    ultimately show ?thesis using user_bases(3) by (simp add: word_le_nat_alt)
  qed
  have lim: "unat mmio_limit47 + 4096 \<le> 2 ^ 64" by (simp add: mmio_limit47_def)
  have "vmm_scan v USER_MMIO_BASE (pageBase USER_LIMIT_ADDRESS - n * PAGE_SIZE) n (lazyFlags flags) =
      vmm_scan v USER_MMIO_BASE (mmio_limit47 - n * PAGE_SIZE) n (lazyFlags flags)"
    using vmm_scan_widen [OF inv region_user lim e le order_refl fit] free by (simp add: mmio_starts_def)
  then show ?thesis
    using vmm_scan_find [OF inv region_user lim e order_refl fit, of "lazyFlags flags"] free
    by (simp add: vmmAllocate_def user_bases lazy_entry_def mmio_starts_def)
qed

lemma mmio_starts_mem:
  assumes "st \<in> set (mmio_starts n)" and fit: "unat USER_MMIO_BASE + unat n * 4096 \<le> unat mmio_limit47"
  shows "unat st + unat n * 4096 \<le> unat mmio_limit47" "pageBase st = st" "st \<noteq> 0"
proof -
  have m: "unat (n * PAGE_SIZE) = unat n * 4096"
    using fit by (simp add: layout_defs mmio_limit47_def unat_word_ariths)
  have s: "unat (mmio_limit47 - n * PAGE_SIZE) = unat mmio_limit47 - unat n * 4096"
    using fit m by (simp add: unat_sub word_le_nat_alt)
  have b: "unat (USER_MMIO_BASE + PAGE_SIZE) = unat USER_MMIO_BASE + 4096" by (simp add: layout_defs)
  have "unat st + unat n * 4096 \<le> unat mmio_limit47 \<and> (\<exists>k. unat st = unat USER_MMIO_BASE + k * 4096)"
  proof (cases "st = USER_MMIO_BASE")
    case False
    then have "st \<in> set (page_steps (USER_MMIO_BASE + PAGE_SIZE) (mmio_limit47 - n * PAGE_SIZE))"
      using assms(1) by (simp add: mmio_starts_def)
    moreover have "unat (mmio_limit47 - n * PAGE_SIZE) + 4096 \<le> 2 ^ 64" using s by (simp add: mmio_limit47_def)
    ultimately obtain k where "unat st < unat mmio_limit47 - unat n * 4096"
      "unat st = unat USER_MMIO_BASE + 4096 + k * 4096"
      using b s page_steps_mem by (metis word_less_nat_alt)
    then show ?thesis by (intro conjI exI [of _ "Suc k"]) auto
  qed (use fit in \<open>auto intro!: exI [of _ 0]\<close>)
  then obtain k where k: "unat st + unat n * 4096 \<le> unat mmio_limit47" "unat st = unat USER_MMIO_BASE + k * 4096" by blast
  then show "unat st + unat n * 4096 \<le> unat mmio_limit47" by blast
  show "pageBase st = st" using k(2) by (intro aligned_pageBase) (simp add: layout_defs)
  show "st \<noteq> 0" using k(2) by (auto simp: layout_defs)
qed

lemma block_pages_nth: "i < n \<Longrightarrow> a + of_nat i * PAGE_SIZE \<in> set (block_pages n a)"
proof (induction n arbitrary: a i)
  case (Suc n)
  show ?case
  proof (cases i)
    case (Suc j)
    then have "a + PAGE_SIZE + of_nat j * PAGE_SIZE \<in> set (block_pages n (a + PAGE_SIZE))" using Suc.IH Suc.prems by simp
    then show ?thesis using Suc by (simp add: algebra_simps)
  qed simp
qed simp

lemma rootProcess_vm [simp]: "rootProcess t (k\<lparr>k_vm := v\<rparr>) = rootProcess t k"
  using getProcess_cong [of "k\<lparr>k_vm := v\<rparr>" k] by (simp add: rootProcess_def cong: if_cong)

lemma lazy_user_nonzero: "lazy_entry VMM_USER \<noteq> 0"
  unfolding lazy_entry_def by (rule entry_nonzero) (simp add: lazyFlags_def vmm_flags platform_flags)

lemma mmioFlags_bits: "bit (mmioFlags f) 0" "(mmioFlags f AND 0x3D) AND PLATFORM_PAGE_ERROR = 0"
  "(mmioFlags f AND 0x3D) AND PLATFORM_PAGE_USER \<noteq> 0"
  unfolding mmioFlags_def platform_flags
  by (cases "f AND MMIO_W \<noteq> 0"; cases "f AND MMIO_X \<noteq> 0"; cases "f AND MMIO_CD \<noteq> 0"; simp)+

lemma unat_plus_pages: "unat (a::u64) + i * 4096 < 2 ^ 64 \<Longrightarrow> unat (a + of_nat i * PAGE_SIZE) = unat a + i * 4096"
  by (simp add: layout_defs unat_word_ariths unat_of_nat take_bit_nat_eq_self)

lemma pageBase_plus:
  assumes "unat a + i * 4096 < 2 ^ 64"
  shows "pageBase (a + of_nat i * PAGE_SIZE) = pageBase a + of_nat i * PAGE_SIZE"
proof -
  have "unat (pageBase a + of_nat i * PAGE_SIZE) = unat (pageBase a) + i * 4096"
    using assms unat_pageBase [of a] by (intro unat_plus_pages) simp
  moreover have "unat (pageBase (a + of_nat i * PAGE_SIZE)) = unat (pageBase a) + i * 4096"
    using unat_plus_pages [OF assms] unat_pageBase [of "a + of_nat i * PAGE_SIZE"] unat_pageBase [of a] by simp
  ultimately show ?thesis by (simp only: word_unat_eq_iff)
qed

lemma page_or_offset: "pageBase a = a \<Longrightarrow> a OR (x AND (PAGE_SIZE - 1)) = a + (x AND (PAGE_SIZE - 1))"
proof -
  assume "pageBase a = a"
  then have "a AND (x AND (PAGE_SIZE - 1)) = 0"
    using pageBase_offset [of a] by (metis and.left_commute and_zero_eq)
  then show ?thesis by (metis word_plus_and_or add_0)
qed

lemma offset_unat: "unat (x AND (PAGE_SIZE - 1)) = unat x mod 4096"
proof -
  have "x AND (PAGE_SIZE - 1) = take_bit 12 x" by (simp add: layout_defs mask12 take_bit_eq_mask)
  then have "unat (x AND (PAGE_SIZE - 1)) = take_bit 12 (unat x)" by (simp only: unsigned_take_bit_eq)
  then show ?thesis by (simp add: take_bit_eq_mod)
qed

lemma vtop_mapped:
  assumes root: "rootProcess t k = Some p" "p \<noteq> 0" and inv: "paging_inv (k_vm k) lv"
    and x: "unat x < 2 ^ 47" "pte (k_vm k) (pageBase x) = pageBase f OR entryFlags (mmioFlags flags)" "\<not> bit f 63"
  shows "vtop t x k = Some (pageBase f + (x AND (PAGE_SIZE - 1)))"
proof -
  have e: "pte (k_vm k) x = pageBase f OR entryFlags (mmioFlags flags)"
    using x(2) pte_path [of "pageBase x" x "k_vm k"] by simp
  have "vmmPageStatus (k_vm k) x = Some (mmioFlags flags AND 0x3D, pageBase f OR (x AND (PAGE_SIZE - 1)))"
    using vmmPageStatus_mapped [OF inv mappable_low [OF x(1)]] e x(3) mmioFlags_bits(1)
    by (simp add: entry_nonzero mapped_flags mapped_frame)
  then have "vtop t x k = Some (pageBase f OR (x AND (PAGE_SIZE - 1)))"
    using root mmioFlags_bits(2,3) [of flags] by (simp add: vtop_def or.assoc)
  then show ?thesis by (simp add: page_or_offset)
qed

lemma mmio_byte:
  assumes root: "rootProcess t k = Some p" "p \<noteq> 0" and inv: "paging_inv v lv"
    and a: "pageBase a = a" "unat a + N * 4096 \<le> 2 ^ 47"
    and m: "\<forall>i < N. pte v (a + of_nat i * PAGE_SIZE) = pageBase (addr + of_nat i * PAGE_SIZE) OR entryFlags (mmioFlags flags)"
    and j: "unat addr mod 4096 + j < N * 4096" "unat addr + j + 8192 < 2 ^ 63"
  shows "vtop t ((a OR (addr AND (PAGE_SIZE - 1))) + of_nat j) (k\<lparr>k_vm := v\<rparr>) = Some (addr + of_nat j)"
proof -
  define o' where "o' = unat addr mod 4096"
  define i where "i = (o' + j) div 4096"
  define x where "x = (a OR (addr AND (PAGE_SIZE - 1))) + of_nat j"
  obtain b where b: "unat a = b * 4096" using aligned_unat [OF a(1)] by blast
  have jw: "unat (of_nat j :: u64) = j" using j(2) by (simp add: unat_of_nat take_bit_nat_eq_self)
  have ux: "unat x = unat a + (o' + j)"
    using a(2) j jw offset_unat [of addr] by (simp add: x_def page_or_offset [OF a(1)] o'_def unat_word_ariths)
  have i: "i < N" "o' + j = i * 4096 + (o' + j) mod 4096" using j(1) by (auto simp: i_def o'_def less_mult_imp_div_less)
  have ua: "unat (addr + of_nat i * PAGE_SIZE) = unat addr + i * 4096"
    using i(2) j(2) mod_less_eq_dividend [of "unat addr" 4096] by (intro unat_plus_pages) (simp add: o'_def)
  have pb: "pageBase x = a + of_nat i * PAGE_SIZE"
  proof -
    have "unat (pageBase x) = unat a + i * 4096" using unat_pageBase [of x] ux b by (simp add: i_def)
    moreover have "unat (a + of_nat i * PAGE_SIZE) = unat a + i * 4096" using a(2) i(1) by (intro unat_plus_pages) simp
    ultimately show ?thesis by (simp only: word_unat_eq_iff)
  qed
  have "vtop t x (k\<lparr>k_vm := v\<rparr>) = Some (pageBase (addr + of_nat i * PAGE_SIZE) + (x AND (PAGE_SIZE - 1)))"
  proof (rule vtop_mapped)
    show "unat x < 2 ^ 47" using ux a(2) j(1) by (simp add: o'_def)
    show "\<not> bit (addr + of_nat i * PAGE_SIZE) 63"
      using ua i(2) j(2) mod_less_eq_dividend [of "unat addr" 4096] by (intro bit_high [of _ 63]) (auto simp: o'_def)
  qed (use root inv m i(1) pb in auto)
  moreover have "pageBase (addr + of_nat i * PAGE_SIZE) + (x AND (PAGE_SIZE - 1)) = addr + of_nat j"
  proof -
    have "unat (pageBase (addr + of_nat i * PAGE_SIZE)) = unat addr - o' + i * 4096"
      using unat_pageBase [of "addr + of_nat i * PAGE_SIZE"] ua by (simp add: o'_def minus_mod_eq_div_mult)
    moreover have "unat (x AND (PAGE_SIZE - 1)) = (o' + j) mod 4096" using offset_unat [of x] ux b by simp
    moreover have "o' \<le> unat addr" by (simp add: o'_def)
    ultimately have "unat (pageBase (addr + of_nat i * PAGE_SIZE)) + unat (x AND (PAGE_SIZE - 1)) = unat addr + j"
      using i(2) by linarith
    then have "unat (pageBase (addr + of_nat i * PAGE_SIZE) + (x AND (PAGE_SIZE - 1))) = unat addr + j"
      using j(2) by (simp add: unat_word_ariths)
    moreover have "unat (addr + of_nat j) = unat addr + j" using jw j(2) by (simp add: unat_word_ariths)
    ultimately show ?thesis by (simp only: word_unat_eq_iff)
  qed
  ultimately show ?thesis by (simp add: x_def)
qed


text \<open>
  anonymous memory. \<open>MAP_FIXED\<close> is tested the wrong way round: without it the mapping has to start at the
  address of the hint, so the usual request with a null hint never succeeds; when the call returns it
  has failed with \<open>ENOMEM\<close>.
\<close>

theorem mmap_null_hint_fails:
  assumes "flags AND MAP_ANONYMOUS \<noteq> 0" "flags AND MAP_FIXED = 0"
    and "mmap t i 0 len prot flags fd off k = Some (r, k')"
  shows "r = of_int (- ENOMEM)"
  using assms by (auto simp: mmap_def mmapAnonymous_def Let_def split: bind_splits prod.splits if_splits)


lemma mmap_null_ex: "\<exists>r k'. mmap 11 0 0 1 0 8 0 0 kernel_ex = Some (r, k')"
proof -
  have m: "mappable 0" "mappable 4096" by (rule mappable_low; simp)+
  have u: "vmmIsUsed vm_ex 0 = Some False" "vmmIsUsed vm_ex 4096 = Some False"
    using vmmIsUsed_iff [OF vm_ex_inv] m by simp_all
  have p: "vmm_probe vm_ex 0 8192 = Some 8192"
    by (simp add: vmm_probe.simps [of vm_ex 0] vmm_probe.simps [of vm_ex 4096] vmm_probe.simps [of vm_ex 8192] u PAGE_SIZE_def)
  obtain v1 where "platformMapPage vm_ex 0 VMM_PAGE_ALLOCATE (lazyFlags VMM_USER) = Some (0, v1)"
    using platformMapPage_spec [OF vm_ex_inv m(1), of VMM_PAGE_ALLOCATE "lazyFlags VMM_USER"]
    by (auto simp: canonical_def pageBase_def)
  then have map: "vmm_map 2 vm_ex 0 (lazyFlags VMM_USER) = Some (False, v1)" by (simp add: numeral_2_eq_2)
  have "vmm_scan vm_ex 0 e 2 (lazyFlags VMM_USER) = Some (0, v1)" for e
    using p map by (simp add: vmm_scan.simps [of vm_ex 0] PAGE_SIZE_def)
  then have "vmmAllocate vm_ex 0 USER_LIMIT_ADDRESS 2 VMM_USER = Some (0, v1)"
    by (simp add: vmmAllocate_def pageBase_def)
  then show ?thesis
    by (simp add: mmap_def mmapAnonymous_def kernel_ex_def kernel0_def MAP_FIXED_def MAP_ANONYMOUS_def PAGE_SIZE_def
        PROT_WRITE_def PROT_EXEC_def)
qed

theorem mmap_null_hint_fails_witness: "\<exists>k'. mmap 11 0 0 1 0 8 0 0 kernel_ex = Some (of_int (- ENOMEM), k')"
proof -
  obtain r k' where r: "mmap 11 0 0 1 0 8 0 0 kernel_ex = Some (r, k')" using mmap_null_ex by blast
  have "r = of_int (- ENOMEM)"
    by (rule mmap_null_hint_fails [OF _ _ r]) (simp_all add: MAP_FIXED_def MAP_ANONYMOUS_def)
  with r show ?thesis by blast
qed

end
