(* ===== verification/Libc.thy ===== *)
theory Libc
  imports Prelude
begin

text \<open>
  The kernel's own pieces of the C library, \<^verbatim>\<open>src/src/libc/string.c\<close> and the conversions of
  \<^verbatim>\<open>stdlib.c\<close>, the parser of boot arguments in \<^verbatim>\<open>src/src/args.c\<close> and the reader of the ramdisk in
  \<^verbatim>\<open>src/src/modules/ramdisk.c\<close>. Memory that a function scans is a list of bytes; \<open>None\<close> is a scan
  that leaves it. Strings that are known to be terminated are character lists without the
  terminator. Sums of type \<open>long\<close> are integers: an overflow has no defined result in C.
\<close>

section \<open>Strings\<close>

fun strlen :: "u8 list \<Rightarrow> nat option" where
  "strlen [] = None"
| "strlen (c # s) = (if c = 0 then Some 0 else map_option Suc (strlen s))"

fun strcmp :: "u8 list \<Rightarrow> u8 list \<Rightarrow> int option" where
  "strcmp (a # s1) (b # s2) =
     (if a = b then if a = 0 then Some 0 else strcmp s1 s2 else Some (sint a - sint b))"
| "strcmp _ _ = None"

fun memcmp :: "u8 list \<Rightarrow> u8 list \<Rightarrow> nat \<Rightarrow> int option" where
  "memcmp d1 d2 0 = Some 0"
| "memcmp (a # d1) (b # d2) (Suc n) = (if a \<noteq> b then Some (uint a - uint b) else memcmp d1 d2 n)"
| "memcmp _ _ (Suc n) = None"

definition strcpy :: "u8 list \<Rightarrow> u8 list option" where
  "strcpy src = map_option (\<lambda>n. take (Suc n) src) (strlen src)"

section \<open>Numbers\<close>

definition HEX :: int where "HEX = 16"

text \<open>The digit loop of \<open>ltoa()\<close>, least significant digit first; with radix one it never ends.\<close>

definition digitChar :: "u64 \<Rightarrow> char" where
  "digitChar d = char_of (if d \<ge> 10 then 97 + unat d - 10 else 48 + unat d)"

partial_function (option) ltoa_loop :: "u64 \<Rightarrow> u64 \<Rightarrow> string option" where
  "ltoa_loop radix un =
     (if un = 0 then Some []
      else do { s \<leftarrow> ltoa_loop radix (un div radix); Some (digitChar (un mod radix) # s) })"

text \<open>\<open>Some None\<close> is the null pointer.\<close>

definition ltoa :: "int \<Rightarrow> int \<Rightarrow> string option option" where
  "ltoa n radix =
     (if radix = 0 \<or> radix > HEX then Some None
      else if n = 0 then Some (Some ''0'')
      else do { s \<leftarrow> ltoa_loop (of_int radix) (of_int n); Some (Some (rev s)) })"

definition itoa :: "int \<Rightarrow> int \<Rightarrow> string option option" where
  "itoa n radix = ltoa n radix"

text \<open>
  \<open>atol()\<close> and \<open>parseOctal()\<close>: count the leading digits, compute the weight of the first one, and
  add up digit by digit with falling weights.
\<close>

definition digitOf :: "char \<Rightarrow> int" where
  "digitOf c = int (of_char c) - 48"

definition isDigit :: "int \<Rightarrow> char \<Rightarrow> bool" where
  "isDigit base c \<longleftrightarrow> 0 \<le> digitOf c \<and> digitOf c < base"

fun weight_loop :: "int \<Rightarrow> nat \<Rightarrow> int" where
  "weight_loop base 0 = 1"
| "weight_loop base (Suc n) = weight_loop base n * base"

fun sum_loop :: "int \<Rightarrow> string \<Rightarrow> int \<Rightarrow> int \<Rightarrow> int" where
  "sum_loop base [] multiplier v = v"
| "sum_loop base (c # cs) multiplier v = sum_loop base cs (multiplier div base) (v + digitOf c * multiplier)"

definition atol :: "string \<Rightarrow> int" where
  "atol s =
     (let ds = takeWhile (isDigit 10) s; len = length ds in
      if len = 0 then 0 else if len = 1 then digitOf (hd ds) else sum_loop 10 ds (weight_loop 10 (len - 1)) 0)"

definition atoi :: "string \<Rightarrow> int" where
  "atoi s = atol s"

definition parseOctal :: "string \<Rightarrow> int" where
  "parseOctal s =
     (let ds = takeWhile (isDigit 8) s; len = length ds in
      if len = 0 then 0 else sum_loop 8 ds (weight_loop 8 (len - 1)) 0)"

section \<open>Boot arguments\<close>

text \<open>\<open>argPosition()\<close>: what follows the separator number \<open>index\<close>; \<open>None\<close> is the null pointer.\<close>

fun argPosition :: "string \<Rightarrow> nat \<Rightarrow> nat \<Rightarrow> string option" where
  "argPosition [] count index = (if count = index then Some [] else None)"
| "argPosition (c # s) count index =
     (if count = index then Some (c # s)
      else argPosition s (if c = CHR '' '' then Suc count else count) index)"

fun argLength :: "string \<Rightarrow> nat" where
  "argLength [] = 0"
| "argLength (c # s) = (if c = CHR '' '' then 0 else Suc (argLength s))"

definition copyArg :: "string \<Rightarrow> string" where
  "copyArg arg = take (argLength arg) arg"

text \<open>
  \<open>parseBootArgs()\<close> when no allocation fails: the vector of arguments, one more than there are
  blanks. A missing argument stops the kernel.
\<close>

fun parseArgs :: "nat \<Rightarrow> nat \<Rightarrow> string \<Rightarrow> string list option" where
  "parseArgs i 0 args = Some []"
| "parseArgs i (Suc n) args =
     do { arg \<leftarrow> argPosition args 0 i; v \<leftarrow> parseArgs (Suc i) n args; Some (copyArg arg # v) }"

definition parseBootArgs :: "string \<Rightarrow> (nat \<times> string list) option" where
  "parseBootArgs args =
     (let argc = 1 + length (filter (\<lambda>c. c = CHR '' '') args)
      in do { v \<leftarrow> parseArgs 0 argc args; Some (argc, v) })"

section \<open>The ramdisk\<close>

text \<open>
  The ramdisk is a USTAR archive: for each file a block of 512 bytes, with the name at offset 0, the
  size in octal at offset 124 and the mark \<open>ustar\<close> at offset 257, and its contents rounded up to
  blocks. The result of the search is the offset of the metadata, \<open>Some None\<close> the null pointer.
\<close>

definition sizeField :: "u8 list \<Rightarrow> nat \<Rightarrow> nat" where
  "sizeField disk off = nat (parseOctal (map (\<lambda>b. char_of (unat b)) (drop (off + 124) disk)))"

definition ustar :: "u8 list" where
  "ustar = map of_char ''ustar'' @ [0]"

partial_function (option) ramdiskFind_loop :: "u8 list \<Rightarrow> u8 list \<Rightarrow> nat \<Rightarrow> nat option option" where
  "ramdiskFind_loop disk name off =
     (if off < length disk then do {
        m \<leftarrow> strcmp (drop (off + 257) disk) ustar;
        if m \<noteq> 0 then Some None else do {
          c \<leftarrow> strcmp (drop off disk) name;
          if c = 0 then Some (Some off)
          else ramdiskFind_loop disk name (off + ((sizeField disk off + 511) div 512 + 1) * 512) } }
      else Some None)"

definition ramdiskFind :: "u8 list \<Rightarrow> u8 list \<Rightarrow> nat option option" where
  "ramdiskFind disk name = (if disk = [] then Some None else ramdiskFind_loop disk name 0)"

definition ramdiskFileSize :: "u8 list \<Rightarrow> u8 list \<Rightarrow> int option" where
  "ramdiskFileSize disk name =
     do { r \<leftarrow> ramdiskFind disk name;
          Some (case r of None \<Rightarrow> -1 | Some off \<Rightarrow> int (sizeField disk off)) }"

definition ramdiskRead :: "u8 list \<Rightarrow> u8 list \<Rightarrow> nat \<Rightarrow> (nat \<times> u8 list) option" where
  "ramdiskRead disk name n =
     do { r \<leftarrow> ramdiskFind disk name;
          case r of None \<Rightarrow> Some (0, [])
          | Some off \<Rightarrow> (let m = min n (sizeField disk off) in
              if off + 512 + m \<le> length disk then Some (m, take m (drop (off + 512) disk)) else None) }"

section \<open>Specification vocabulary\<close>

text \<open>The number a digit string denotes, and the fields of a text between blanks.\<close>

definition horner :: "int \<Rightarrow> string \<Rightarrow> int" where
  "horner base s = foldl (\<lambda>v c. v * base + digitOf c) 0 s"

fun fields :: "string \<Rightarrow> string list" where
  "fields [] = [[]]"
| "fields (c # s) = (if c = CHR '' '' then [] # fields s else (c # hd (fields s)) # tl (fields s))"

text \<open>A USTAR archive, written out: the size as eleven octal digits, contents padded to blocks.\<close>

fun octal :: "nat \<Rightarrow> nat \<Rightarrow> string" where
  "octal 0 n = []"
| "octal (Suc w) n = octal w (n div 8) @ [char_of (48 + n mod 8)]"

definition ustarHeader :: "u8 list \<Rightarrow> nat \<Rightarrow> u8 list" where
  "ustarHeader name len =
     name @ replicate (100 - length name) 0 @ replicate 24 0 @ map of_char (octal 11 len) @ [0] @
     replicate 121 0 @ ustar @ replicate 249 0"

definition ustarEntry :: "u8 list \<times> u8 list \<Rightarrow> u8 list" where
  "ustarEntry f = ustarHeader (fst f) (length (snd f)) @ snd f @
     replicate ((length (snd f) + 511) div 512 * 512 - length (snd f)) 0"

definition archive :: "(u8 list \<times> u8 list) list \<Rightarrow> u8 list" where
  "archive files = concat (map ustarEntry files)"

definition archivable :: "u8 list \<times> u8 list \<Rightarrow> bool" where
  "archivable f \<longleftrightarrow> 0 \<notin> set (fst f) \<and> length (fst f) < 100 \<and> length (snd f) < 8 ^ 11"

section \<open>Numbers\<close>

lemma horner_acc: "foldl (\<lambda>v c. v * base + digitOf c) a s = a * base ^ length s + horner base s"
proof (induction s arbitrary: a)
  case (Cons c s)
  show ?case using Cons [of "a * base + digitOf c"] Cons [of "digitOf c"]
    by (simp add: horner_def algebra_simps)
qed (simp add: horner_def)

lemma horner_cons: "horner base (c # s) = digitOf c * base ^ length s + horner base s"
  using horner_acc [of base "digitOf c" s] by (simp add: horner_def)

lemma horner_snoc: "horner base (s @ [c]) = horner base s * base + digitOf c"
  by (simp add: horner_def)

lemma weight_loop_eq [simp]: "weight_loop base n = base ^ n"
  by (induction n) simp_all

lemma sum_loop_eq:
  assumes "base > 0"
  shows "sum_loop base s (base ^ (length s - 1)) v = v + horner base s"
proof (induction s arbitrary: v)
  case (Cons c s)
  show ?case
  proof (cases s)
    case (Cons d u)
    then have "base ^ length s div base = base ^ (length s - 1)" using assms by simp
    then show ?thesis using Cons.IH by (simp add: horner_cons)
  qed (simp add: horner_def)
qed (simp add: horner_def)

lemma atol_horner: "atol s = horner 10 (takeWhile (isDigit 10) s)"
proof -
  define ds where "ds = takeWhile (isDigit 10) s"
  have "horner 10 ds = digitOf (hd ds)" if "length ds = 1"
    using that by (cases ds) (simp_all add: horner_def)
  then show ?thesis using sum_loop_eq [of 10 ds 0] unfolding atol_def Let_def ds_def [symmetric]
    by (auto simp: horner_def)
qed

lemma parseOctal_horner: "parseOctal s = horner 8 (takeWhile (isDigit 8) s)"
  using sum_loop_eq [of 8 "takeWhile (isDigit 8) s" 0] by (auto simp: parseOctal_def Let_def horner_def)

lemma digitChar_value:
  assumes "d < 10"
  shows "digitOf (digitChar d) = uint d"
proof -
  have d: "\<not> d \<ge> 10" "unat d < 10" using assms by (simp_all add: not_le word_less_nat_alt)
  have "(48 + unat d) mod 256 = 48 + unat d" by (rule mod_less) (use d(2) in linarith)
  then have "of_char (char_of (48 + unat d) :: char) = 48 + unat d" by (simp only: of_char_of)
  moreover have "digitChar d = char_of (48 + unat d)" using d(1) by (simp only: digitChar_def if_False)
  ultimately show ?thesis by (simp only: digitOf_def uint_nat)
qed

lemma ltoa_loop_digits:
  assumes r: "1 < radix" "radix \<le> 10"
  shows "\<exists>s. ltoa_loop radix un = Some s \<and> (un \<noteq> 0 \<longrightarrow> s \<noteq> []) \<and> (\<forall>c \<in> set s. isDigit (uint radix) c) \<and>
    horner (uint radix) (rev s) = uint un"
proof (induction "unat un" arbitrary: un rule: less_induct)
  case less
  show ?case
  proof (cases "un = 0")
    case True
    then show ?thesis by (simp add: ltoa_loop.simps [of radix 0] horner_def)
  next
    case False
    have "unat (un div radix) < unat un"
      using False r(1) by (simp add: unat_div word_less_nat_alt unat_gt_0)
    then obtain s where s: "ltoa_loop radix (un div radix) = Some s" "\<forall>c \<in> set s. isDigit (uint radix) c"
      "horner (uint radix) (rev s) = uint (un div radix)" using less by blast
    have m: "un mod radix < radix" using r(1) by (intro word_mod_less_divisor) (simp add: word_less_nat_alt)
    then have "un mod radix < 10" using r(2) by simp
    then have v: "digitOf (digitChar (un mod radix)) = uint (un mod radix)" by (rule digitChar_value)
    have "isDigit (uint radix) (digitChar (un mod radix))" using v m by (simp add: isDigit_def word_less_def)
    moreover have "uint (un div radix) * uint radix + uint (un mod radix) = uint un"
      by (simp add: uint_div uint_mod)
    ultimately show ?thesis using s v False
      by (simp add: ltoa_loop.simps [of radix un] horner_snoc)
  qed
qed

text \<open>
  numbers in decimal. \<open>ltoa()\<close> always returns; the digits it writes denote the number modulo
  \<open>2\<^sup>64\<close>, so a negative number is printed as the large unsigned number of the same bits, and
  \<open>atol()\<close> reads back every number that is not negative.
\<close>

theorem ltoa_atol_roundtrip:
  assumes "- (2 ^ 63) \<le> n" "n < 2 ^ 63"
  shows "\<exists>s. ltoa n 10 = Some (Some s) \<and> (\<forall>c \<in> set s. isDigit 10 c) \<and> horner 10 s = n mod 2 ^ 64 \<and>
    (0 \<le> n \<longrightarrow> atol s = n)"
proof (cases "n = 0")
  case True
  then show ?thesis
    by (intro exI [of _ "''0''"]) (simp add: ltoa_def HEX_def isDigit_def digitOf_def horner_def atol_horner)
next
  case False
  obtain s where s: "ltoa_loop 10 (of_int n) = Some s" "\<forall>c \<in> set s. isDigit 10 c" "horner 10 (rev s) = uint (of_int n :: u64)"
    using ltoa_loop_digits [of 10 "of_int n"] by auto
  have u: "uint (of_int n :: u64) = n mod 2 ^ 64" by (simp add: uint_word_of_int)
  have "takeWhile (isDigit 10) (rev s) = rev s" using s(2) by (simp add: takeWhile_eq_all_conv)
  then have "atol (rev s) = horner 10 (rev s)" by (simp only: atol_horner)
  then have "atol (rev s) = n mod 2 ^ 64" using s(3) u by simp
  moreover have "0 \<le> n \<Longrightarrow> n mod 2 ^ 64 = n" using assms by simp
  ultimately show ?thesis using s False u
    by (intro exI [of _ "rev s"]) (simp add: ltoa_def HEX_def)
qed

theorem ltoa_atol_roundtrip_witness:
  "(\<exists>s. ltoa 2024 10 = Some (Some s) \<and> atol s = 2024) \<and>
   (\<exists>s. ltoa (- 1) 10 = Some (Some s) \<and> horner 10 s = 2 ^ 64 - 1)"
  using ltoa_atol_roundtrip [of 2024] ltoa_atol_roundtrip [of "- 1"] by auto

section \<open>Boot arguments\<close>

lemma fields_ne [simp]: "fields s \<noteq> []"
  by (cases s) simp_all

lemma fields_length: "length (fields s) = 1 + length (filter (\<lambda>c. c = CHR '' '') s)"
proof (induction s)
  case (Cons c s)
  obtain w ws where "fields s = w # ws" using list.exhaust fields_ne by metis
  with Cons show ?case by simp
qed simp

lemma copyArg_hd: "copyArg s = hd (fields s)"
  by (induction s) (simp_all add: copyArg_def)

lemma argPosition_field:
  "i < length (fields s) \<Longrightarrow> \<exists>r. argPosition s c (c + i) = Some r \<and> copyArg r = fields s ! i"
proof (induction s arbitrary: c i)
  case Nil
  then show ?case by (simp add: copyArg_def)
next
  case (Cons d s)
  show ?case
  proof (cases i)
    case 0
    then show ?thesis using copyArg_hd [of "d # s"] by (simp add: hd_conv_nth)
  next
    case (Suc j)
    show ?thesis
    proof (cases "d = CHR '' ''")
      case True
      then show ?thesis using Cons.IH [of j "Suc c"] Cons.prems Suc by simp
    next
      case False
      then have "Suc j < length (fields s)" using Cons.prems Suc by (cases "fields s") simp_all
      moreover have "tl (fields s) ! j = fields s ! Suc j" by (cases "fields s") simp_all
      ultimately show ?thesis using Cons.IH [of "Suc j" c] Suc False by simp
    qed
  qed
qed

lemma parseArgs_fields:
  "i + n \<le> length (fields s) \<Longrightarrow> parseArgs i n s = Some (take n (drop i (fields s)))"
proof (induction n arbitrary: i)
  case (Suc n)
  obtain r where "argPosition s 0 i = Some r" "copyArg r = fields s ! i"
    using argPosition_field [of i s 0] Suc.prems by auto
  then show ?case using Suc.IH [of "Suc i"] Suc.prems by (simp add: Cons_nth_drop_Suc [symmetric])
qed simp

text \<open>
  boot arguments. \<open>parseBootArgs()\<close> finds every argument it counts: the vector consists of the
  fields of the command line between blanks, in order, empty ones included.
\<close>

theorem parseBootArgs_fields: "parseBootArgs s = Some (length (fields s), fields s)"
  using parseArgs_fields [of 0 "length (fields s)" s]
  unfolding parseBootArgs_def Let_def fields_length [symmetric] by simp

section \<open>The ramdisk\<close>

lemma octal_digits: "n < 8 ^ w \<Longrightarrow> horner 8 (octal w n) = int n \<and> (\<forall>c \<in> set (octal w n). isDigit 8 c)"
proof (induction w arbitrary: n)
  case (Suc w)
  have "n div 8 < 8 ^ w" using Suc.prems by (simp add: less_mult_imp_div_less mult.commute)
  moreover have "of_char (char_of (48 + n mod 8) :: char) = 48 + n mod 8"
    by (subst of_char_of) (rule mod_less, simp add: less_imp_le mod_less_divisor [THEN less_trans])
  then have "digitOf (char_of (48 + n mod 8)) = int (n mod 8)" by (simp add: digitOf_def)
  ultimately show ?case using Suc.IH [of "n div 8"]
    by (auto simp: horner_snoc isDigit_def zmod_int zdiv_int)
qed (simp add: horner_def)

lemma octal_length [simp]: "length (octal w n) = w"
  by (induction w arbitrary: n) simp_all

lemma of_char_back: "char_of (unat (of_char c :: u8)) = c"
proof -
  have "(of_char c :: u8) = of_nat (of_char c)" by (rule of_nat_of_char [symmetric])
  moreover have "unat (of_nat (of_char c) :: u8) = of_char c"
    by (simp add: unat_of_nat take_bit_eq_mod of_char_mod_256)
  ultimately show ?thesis by simp
qed

lemma ustar_length [simp]: "length ustar = 6"
  by (simp add: ustar_def)

lemma header_split: "ustarHeader name len = (name @ replicate (100 - length name) 0 @ replicate 24 0) @
    (map of_char (octal 11 len) @ [0] @ replicate 121 0) @ ustar @ replicate 249 0"
  by (simp only: ustarHeader_def append_assoc)

lemma header_lengths:
  assumes "length name < 100"
  shows "length (name @ replicate (100 - length name) 0 @ replicate 24 0) = 124"
    "length (map of_char (octal 11 len) @ [0] @ replicate 121 (0 :: u8)) = 133"
  using assms by (simp_all only: length_append length_replicate length_map octal_length list.size)

lemma header_length [simp]: "length name < 100 \<Longrightarrow> length (ustarHeader name len) = 512"
  unfolding header_split length_append [of "_ @ _ @ _"] header_lengths
  by (simp only: length_append header_lengths length_replicate ustar_length)

lemma strcmp_ustar: "strcmp (ustar @ x) ustar = Some 0"
  by (simp add: ustar_def)

lemma strcmp_cstr:
  "0 \<notin> set a \<Longrightarrow> 0 \<notin> set b \<Longrightarrow> \<exists>r. strcmp (a @ 0 # x) (b @ 0 # y) = Some r \<and> (r = 0 \<longleftrightarrow> a = b)"
proof (induction a arbitrary: b)
  case Nil
  then show ?case by (cases b) (auto simp: signed_eq_0_iff)
next
  case (Cons c a)
  show ?case
  proof (cases b)
    case Nil
    then show ?thesis using Cons.prems by (auto simp: signed_eq_0_iff)
  next
    case (Cons d b')
    then show ?thesis using Cons.IH [of b'] Cons.prems by (cases "c = d") (auto dest: signed_word_eqI)
  qed
qed

lemma drop_exact: "n = length a \<Longrightarrow> drop n (a @ b) = b"
  by simp

lemma drop_mid: "n \<le> length h \<Longrightarrow> drop (length pre + n) (pre @ h @ rest) = drop n h @ rest"
  by (simp add: drop_append)

lemma header_mark:
  assumes "length name < 100"
  shows "drop 257 (ustarHeader name len) = ustar @ replicate 249 0"
  unfolding header_split append_assoc [symmetric, of _ "map of_char (octal 11 len) @ [0] @ replicate 121 0"]
  by (rule drop_exact) (simp only: length_append [of _ "map of_char (octal 11 len) @ [0] @ replicate 121 0"] header_lengths [OF assms])

lemma header_size:
  assumes "length name < 100"
  shows "\<exists>x. drop 124 (ustarHeader name len) = map of_char (octal 11 len) @ 0 # x"
proof -
  have "drop 124 (ustarHeader name len) = (map of_char (octal 11 len) @ [0] @ replicate 121 0) @ ustar @ replicate 249 0"
    unfolding header_split by (rule drop_exact) (simp only: header_lengths [OF assms])
  then show ?thesis unfolding append_assoc by (metis append_Cons append_Nil)
qed

lemma header_name:
  assumes "length name < 100"
  shows "\<exists>x. ustarHeader name len = name @ 0 # x"
proof -
  obtain m where "100 - length name = Suc m" using assms by (metis Suc_diff_Suc)
  then have "replicate (100 - length name) (0 :: u8) = 0 # replicate m 0" by (simp only: replicate_Suc)
  then show ?thesis unfolding ustarHeader_def by (metis append_Cons)
qed

text \<open>What the reader sees at the entry that begins at offset \<open>length pre\<close>.\<close>

lemma entry_seen:
  assumes "archivable f"
  shows "\<exists>x. drop (length pre + 257) (pre @ ustarEntry f @ rest) = ustar @ x"
    and "\<exists>x. drop (length pre) (pre @ ustarEntry f @ rest) = fst f @ 0 # x"
    and "sizeField (pre @ ustarEntry f @ rest) (length pre) = length (snd f)"
    and "length (ustarEntry f) = ((length (snd f) + 511) div 512 + 1) * 512"
    and "drop (length pre + 512) (pre @ ustarEntry f @ rest) =
      snd f @ replicate ((length (snd f) + 511) div 512 * 512 - length (snd f)) 0 @ rest"
proof -
  note n = assms [unfolded archivable_def]
  define h where "h = ustarHeader (fst f) (length (snd f))"
  define p where "p = replicate ((length (snd f) + 511) div 512 * 512 - length (snd f)) (0 :: u8)"
  have h: "length h = 512" "drop 257 h = ustar @ replicate 249 0" using n header_mark by (auto simp: h_def)
  have e: "pre @ ustarEntry f @ rest = pre @ h @ (snd f @ p @ rest)" by (simp only: ustarEntry_def h_def p_def append_assoc)
  show "\<exists>x. drop (length pre + 257) (pre @ ustarEntry f @ rest) = ustar @ x"
    unfolding e using drop_mid [of 257 h pre "snd f @ p @ rest"] h by auto
  show "\<exists>x. drop (length pre) (pre @ ustarEntry f @ rest) = fst f @ 0 # x"
    unfolding e using header_name [of "fst f" "length (snd f)"] n by (auto simp: h_def)
  show "sizeField (pre @ ustarEntry f @ rest) (length pre) = length (snd f)"
  proof -
    define ds where "ds = octal 11 (length (snd f))"
    obtain x where "drop 124 h = map of_char ds @ 0 # x"
      using header_size [of "fst f" "length (snd f)"] n by (auto simp: h_def ds_def)
    then have d: "drop (length pre + 124) (pre @ ustarEntry f @ rest) = map of_char ds @ 0 # (x @ snd f @ p @ rest)"
      unfolding e using drop_mid [of 124 h pre "snd f @ p @ rest"] h(1) by simp
    have o: "horner 8 ds = int (length (snd f))" "\<forall>c \<in> set ds. isDigit 8 c"
      using octal_digits [of "length (snd f)" 11] n by (auto simp: ds_def)
    have "\<not> isDigit 8 (char_of (unat (0 :: u8)))" by (simp add: isDigit_def digitOf_def)
    then have "takeWhile (isDigit 8) (map (\<lambda>b. char_of (unat b)) (drop (length pre + 124) (pre @ ustarEntry f @ rest))) = ds"
      unfolding d using o(2) by (simp add: comp_def of_char_back takeWhile_append2)
    then show ?thesis using o(1) by (simp only: sizeField_def parseOctal_horner nat_int)
  qed
  show "length (ustarEntry f) = ((length (snd f) + 511) div 512 + 1) * 512"
    using h(1) by (simp add: ustarEntry_def h_def [symmetric])
  show "drop (length pre + 512) (pre @ ustarEntry f @ rest) = snd f @ p @ rest"
    unfolding e using drop_mid [of 512 h pre "snd f @ p @ rest"] h by simp
qed

lemma ramdiskFind_archive:
  assumes name: "0 \<notin> set name"
  shows "\<forall>f \<in> set files. archivable f \<Longrightarrow>
    ramdiskFind_loop (pre @ archive files) (name @ [0]) (length pre) =
      Some (case dropWhile (\<lambda>f. fst f \<noteq> name) files of [] \<Rightarrow> None
            | _ \<Rightarrow> Some (length (pre @ archive (takeWhile (\<lambda>f. fst f \<noteq> name) files))))"
proof (induction files arbitrary: pre)
  case Nil
  then show ?case by (simp add: archive_def ramdiskFind_loop.simps)
next
  case (Cons f files)
  have ar: "archivable f" using Cons.prems by simp
  let ?disk = "pre @ archive (f # files)"
  have disk: "?disk = pre @ ustarEntry f @ archive files" by (simp add: archive_def)
  have len: "length (ustarEntry f) = ((length (snd f) + 511) div 512 + 1) * 512" using entry_seen(4) [OF ar] .
  obtain x y where s: "drop (length pre + 257) ?disk = ustar @ x" "drop (length pre) ?disk = fst f @ 0 # y"
    using entry_seen(1,2) [OF ar, of pre "archive files"] unfolding disk by blast
  obtain r where r: "strcmp (fst f @ 0 # y) (name @ [0]) = Some r" "r = 0 \<longleftrightarrow> fst f = name"
    using strcmp_cstr [of "fst f" name y "[]"] ar name by (auto simp: archivable_def)
  have lt: "length pre < length ?disk" unfolding disk using len by simp
  have sz: "sizeField ?disk (length pre) = length (snd f)" unfolding disk by (rule entry_seen(3) [OF ar])
  show ?case
  proof (cases "fst f = name")
    case True
    have "ramdiskFind_loop ?disk (name @ [0]) (length pre) = Some (Some (length pre))"
      using lt s r True by (subst ramdiskFind_loop.simps) (simp add: strcmp_ustar del: length_append)
    then show ?thesis using True by (simp add: archive_def [of "[]"])
  next
    case False
    have "ramdiskFind_loop ?disk (name @ [0]) (length pre) =
        ramdiskFind_loop ?disk (name @ [0]) (length (pre @ ustarEntry f))"
      using lt s r False sz len by (subst ramdiskFind_loop.simps) (simp add: strcmp_ustar)
    also have "?disk = (pre @ ustarEntry f) @ archive files" by (simp add: archive_def)
    also have "ramdiskFind_loop \<dots> (name @ [0]) (length (pre @ ustarEntry f)) =
        Some (case dropWhile (\<lambda>f. fst f \<noteq> name) files of [] \<Rightarrow> None
            | _ \<Rightarrow> Some (length ((pre @ ustarEntry f) @ archive (takeWhile (\<lambda>f. fst f \<noteq> name) files))))"
      using Cons.IH [of "pre @ ustarEntry f"] Cons.prems by simp
    finally show ?thesis using False
      by (simp add: archive_def del: dropWhile_eq_Nil_conv split: list.split)
  qed
qed

text \<open>
  C27: the ramdisk. Reading a file back from a USTAR archive gives its contents: for every archive of files
  with terminated names, looking up a name finds the first file of that name with its size, and
  reading as many bytes returns exactly the contents; a name that is not there is reported as such.
\<close>

theorem ramdisk_roundtrip:
  assumes files: "\<forall>f \<in> set files. archivable f" "files \<noteq> []" and name: "0 \<notin> set name"
  shows "(case dropWhile (\<lambda>f. fst f \<noteq> name) files of
     [] \<Rightarrow> ramdiskFileSize (archive files) (name @ [0]) = Some (-1) \<and>
       ramdiskRead (archive files) (name @ [0]) n = Some (0, [])
   | f # _ \<Rightarrow> fst f = name \<and> ramdiskFileSize (archive files) (name @ [0]) = Some (int (length (snd f))) \<and>
       ramdiskRead (archive files) (name @ [0]) (length (snd f)) = Some (length (snd f), snd f))"
proof -
  have ne: "archive files \<noteq> []"
    using files entry_seen(4) [of "hd files"] by (cases files) (auto simp: archive_def)
  let ?P = "\<lambda>f. fst f \<noteq> name"
  have find: "ramdiskFind (archive files) (name @ [0]) = Some (case dropWhile ?P files of [] \<Rightarrow> None
      | _ \<Rightarrow> Some (length (archive (takeWhile ?P files))))"
    using ramdiskFind_archive [OF name files(1), of "[]"] ne by (simp add: ramdiskFind_def cong: list.case_cong)
  show ?thesis
  proof (cases "dropWhile ?P files")
    case Nil
    show ?thesis using find unfolding Nil by (simp add: ramdiskFileSize_def ramdiskRead_def)
  next
    case (Cons f rest)
    have split: "archive files = archive (takeWhile ?P files) @ ustarEntry f @ archive rest"
    proof -
      have "files = takeWhile ?P files @ f # rest" using Cons takeWhile_dropWhile_id [of ?P files] by simp
      then have "archive files = archive (takeWhile ?P files @ f # rest)" by simp
      then show ?thesis by (simp add: archive_def)
    qed
    have "f \<in> set files" using Cons by (metis list.set_intros(1) set_dropWhileD)
    then have ar: "archivable f" using files(1) by simp
    have nm: "fst f = name" using Cons hd_dropWhile [of ?P files] by (metis (mono_tags, lifting) list.sel(1) list.simps(3))
    define off where "off = length (archive (takeWhile ?P files))"
    have sz: "sizeField (archive files) off = length (snd f)" unfolding split off_def by (rule entry_seen(3) [OF ar])
    have data: "take (length (snd f)) (drop (off + 512) (archive files)) = snd f"
      unfolding split off_def entry_seen(5) [OF ar] by simp
    have len: "off + 512 + length (snd f) \<le> length (archive files)"
      using arg_cong [OF split, of length] entry_seen(4) [OF ar] by (simp add: off_def)
    show ?thesis using find Cons nm sz data len
      by (simp add: ramdiskFileSize_def ramdiskRead_def off_def [symmetric])
  qed
qed

theorem ramdisk_roundtrip_witness:
  "ramdiskRead (archive [([108], [1, 2, 3]), ([109], [4])]) [109, 0] 1 = Some (1, [4]) \<and>
   ramdiskFileSize (archive [([108], [1, 2, 3]), ([109], [4])]) [110, 0] = Some (-1)"
  using ramdisk_roundtrip [of "[([108], [1, 2, 3]), ([109], [4])]" "[109]"]
    ramdisk_roundtrip [of "[([108], [1, 2, 3]), ([109], [4])]" "[110]"]
  by (simp add: archivable_def)

end
