(* ===== verification/Console.thy ===== *)
theory Console
  imports Libc
begin

text \<open>
  The kernel's console: the terminal on the frame buffer, \<^verbatim>\<open>src/src/tty/tty.c\<close> with its font \<^verbatim>\<open>font.c\<close>, and formatted output,
  \<^verbatim>\<open>src/src/libc/stdio.c\<close>. The two frame buffers are lists of bytes; a read or write outside of them or outside of the
  arrays of the terminal is \<open>None\<close>. The terminal's lock is taken and released within each call and left out. The pixels are written as
  32-bit numbers whatever the depth of the screen.
\<close>

section \<open>The frame buffer\<close>

definition FONT_WIDTH :: nat where "FONT_WIDTH = 8"
definition FONT_HEIGHT :: nat where "FONT_HEIGHT = 16"
definition FONT_MIN_GLYPH :: nat where "FONT_MIN_GLYPH = 32"
definition FONT_MAX_GLYPH :: nat where "FONT_MAX_GLYPH = 126"

record tty =
  t_w :: u16
  t_h :: u16
  t_wc :: u16
  t_hc :: u16
  t_bpp :: u8
  t_bytesPerPixel :: u8
  t_posx :: u16
  t_posy :: u16
  t_fg :: u32
  t_bg :: u32
  t_pitch :: u32
  t_fb :: "u8 list"
  t_hw :: "u8 list option"
  t_escape :: string
  t_escaping :: bool

definition ttyColors :: "u32 list" where
  "ttyColors = [0x1F1F1F, 0x990000, 0x00A600, 0x999900, 0x0000B2, 0xB200B2, 0x00A6B2, 0xBFBFBF,
     0x666666, 0xE60000, 0x00D900, 0xE6E600, 0x0000FF, 0xE600E6, 0x00E6E6, 0xE6E6E6]"

definition put32 :: "nat \<Rightarrow> u32 \<Rightarrow> u8 list \<Rightarrow> u8 list option" where
  "put32 off v fb =
     (if off + 4 \<le> length fb
      then Some (take off fb @ [ucast v, ucast (drop_bit 8 v), ucast (drop_bit 16 v), ucast (drop_bit 24 v)] @ drop (off + 4) fb)
      else None)"

text \<open>\<open>for(int j = 0; j < n; j++) line[j] = color;\<close> and the same on \<open>rows\<close> lines that are \<open>pitch\<close> bytes apart.\<close>

fun fillLine :: "nat \<Rightarrow> nat \<Rightarrow> u32 \<Rightarrow> u8 list \<Rightarrow> u8 list option" where
  "fillLine 0 off color fb = Some fb"
| "fillLine (Suc n) off color fb = do { fb' \<leftarrow> put32 off color fb; fillLine n (off + 4) color fb' }"

fun fillLines :: "nat \<Rightarrow> nat \<Rightarrow> nat \<Rightarrow> nat \<Rightarrow> u32 \<Rightarrow> u8 list \<Rightarrow> u8 list option" where
  "fillLines 0 w off pitch color fb = Some fb"
| "fillLines (Suc rows) w off pitch color fb =
     do { fb' \<leftarrow> fillLine w off color fb; fillLines rows w (off + pitch) pitch color fb' }"

text \<open>\<open>memcpy()\<close> of \<open>n\<close> bytes within a buffer, towards lower addresses, and between two buffers at the same offset.\<close>

definition moveDown :: "nat \<Rightarrow> nat \<Rightarrow> u8 list \<Rightarrow> u8 list option" where
  "moveDown from_off n fb = (if from_off + n \<le> length fb then Some (take n (drop from_off fb) @ drop n fb) else None)"

definition copyRange :: "nat \<Rightarrow> nat \<Rightarrow> u8 list \<Rightarrow> u8 list \<Rightarrow> u8 list option" where
  "copyRange off n src dst =
     (if off + n \<le> length src \<and> off + n \<le> length dst then Some (take off dst @ take n (drop off src) @ drop (off + n) dst) else None)"

definition frameSize :: "tty \<Rightarrow> nat" where
  "frameSize t = unat (t_pitch t * ucast (t_h t))"

definition ttyInit :: "u16 \<Rightarrow> u16 \<Rightarrow> u8 \<Rightarrow> u32 \<Rightarrow> u8 list \<Rightarrow> tty option" where
  "ttyInit width height bpp pitch fb =
     do { fb' \<leftarrow> fillLines (unat height) (unat width) 0 (unat pitch) (ttyColors ! 0) fb;
          Some \<lparr>t_w = width, t_h = height, t_wc = width div of_nat FONT_WIDTH, t_hc = height div of_nat FONT_HEIGHT, t_bpp = bpp,
            t_bytesPerPixel = of_int ((uint bpp + 7) div 8), t_posx = 0, t_posy = 0, t_fg = ttyColors ! 7, t_bg = ttyColors ! 0,
            t_pitch = pitch, t_fb = fb', t_hw = None, t_escape = [], t_escaping = False\<rparr> }"

text \<open>The back buffer: fresh memory, \<open>None\<close> when there is none, which stops the machine.\<close>

definition ttyCreateBackbuffer :: "u8 list option \<Rightarrow> tty \<Rightarrow> tty option" where
  "ttyCreateBackbuffer fresh t =
     do { new \<leftarrow> fresh; fb \<leftarrow> copyRange 0 (frameSize t) (t_fb t) new; Some (t\<lparr>t_fb := fb, t_hw := Some (t_fb t)\<rparr>) }"

definition ttyRedraw :: "int \<Rightarrow> tty \<Rightarrow> tty option" where
  "ttyRedraw line t =
     (case t_hw t of None \<Rightarrow> Some t
      | Some hw \<Rightarrow>
          (if line < 0 then do { hw' \<leftarrow> copyRange 0 (frameSize t) (t_fb t) hw; Some (t\<lparr>t_hw := Some hw'\<rparr>) }
           else do {
             let n = unat (t_pitch t * of_nat FONT_HEIGHT);
             hw' \<leftarrow> copyRange (nat line * n) n (t_fb t) hw;
             Some (t\<lparr>t_hw := Some hw'\<rparr>) }))"

definition ttyScroll :: "tty \<Rightarrow> tty option" where
  "ttyScroll t =
     do { let n = unat ((ucast (t_hc t) - 1) * of_nat FONT_HEIGHT * t_pitch t);
          fb1 \<leftarrow> moveDown (unat (of_nat FONT_HEIGHT * t_pitch t)) n (t_fb t);
          fb2 \<leftarrow> fillLines FONT_HEIGHT (unat (t_w t)) n (unat (t_pitch t)) (t_bg t) fb1;
          ttyRedraw (- 1) (t\<lparr>t_fb := fb2, t_posx := 0, t_posy := t_hc t - 1\<rparr>) }"

definition ttyCheckBoundaries :: "tty \<Rightarrow> tty option" where
  "ttyCheckBoundaries t =
     (let t1 = (if t_posx t \<ge> t_wc t then t\<lparr>t_posx := 0, t_posy := t_posy t + 1\<rparr> else t)
      in if t_posy t1 \<ge> t_hc t1 then ttyScroll t1 else Some t1)"

section \<open>Escape sequences\<close>

definition setColor :: "int \<Rightarrow> tty \<Rightarrow> tty" where
  "setColor command t =
     (if 30 \<le> command \<and> command \<le> 37 then t\<lparr>t_fg := ttyColors ! nat (command - 30)\<rparr>
      else if 40 \<le> command \<and> command \<le> 47 then t\<lparr>t_bg := ttyColors ! nat (command - 40)\<rparr>
      else if 90 \<le> command \<and> command \<le> 97 then t\<lparr>t_fg := ttyColors ! nat (command - 82)\<rparr>
      else if 100 \<le> command \<and> command \<le> 107 then t\<lparr>t_bg := ttyColors ! nat (command - 92)\<rparr>
      else t)"

text \<open>The loop of \<open>ttyParseEscape()\<close>; the digits read so far are in an array of 32 characters.\<close>

fun parseColors :: "string \<Rightarrow> string \<Rightarrow> tty \<Rightarrow> tty option" where
  "parseColors [] buffer t = Some t"
| "parseColors (c # cs) buffer t =
     (if isDigit 10 c then (if length buffer < 32 then parseColors cs (buffer @ [c]) t else None)
      else if length buffer < 32 then parseColors cs [] (setColor (atoi buffer) t) else None)"

definition ttyParseEscape :: "tty \<Rightarrow> tty option" where
  "ttyParseEscape t =
     (case t_escape t of [] \<Rightarrow> Some t
      | c # cs \<Rightarrow>
          (if c \<noteq> CHR ''['' then Some t
           else if length (t_escape t) < 256 then parseColors (cs @ [CHR 0x00]) [] t else None))"

section \<open>Glyphs\<close>

definition font :: "u8 list" where
  "font = [
  0, 0, 0, 0, 0, 0, 0, 0, 0, 0, 0, 0, 0, 0, 0, 0,
  0, 0, 0, 16, 16, 16, 16, 16, 16, 16, 0, 16, 16, 0, 0, 0,
  0, 0, 72, 72, 72, 72, 0, 0, 0, 0, 0, 0, 0, 0, 0, 0,
  0, 0, 0, 0, 68, 68, 254, 68, 68, 68, 254, 68, 68, 0, 0, 0,
  0, 0, 16, 16, 124, 146, 144, 128, 124, 2, 18, 146, 124, 16, 16, 0,
  0, 0, 0, 0, 96, 242, 100, 8, 16, 32, 76, 158, 12, 0, 0, 0,
  0, 0, 0, 48, 72, 72, 72, 50, 74, 132, 132, 132, 122, 0, 0, 0,
  0, 0, 16, 16, 16, 32, 0, 0, 0, 0, 0, 0, 0, 0, 0, 0,
  0, 0, 0, 8, 16, 32, 32, 32, 32, 32, 32, 16, 8, 0, 0, 0,
  0, 0, 0, 32, 16, 8, 8, 8, 8, 8, 8, 16, 32, 0, 0, 0,
  0, 0, 0, 0, 0, 16, 84, 56, 254, 56, 84, 16, 0, 0, 0, 0,
  0, 0, 0, 0, 0, 16, 16, 16, 254, 16, 16, 16, 0, 0, 0, 0,
  0, 0, 0, 0, 0, 0, 0, 0, 0, 0, 0, 16, 16, 16, 32, 0,
  0, 0, 0, 0, 0, 0, 0, 0, 254, 0, 0, 0, 0, 0, 0, 0,
  0, 0, 0, 0, 0, 0, 0, 0, 0, 0, 0, 48, 48, 0, 0, 0,
  0, 0, 0, 0, 0, 0, 2, 4, 8, 16, 32, 64, 128, 0, 0, 0,
  0, 0, 0, 56, 68, 130, 130, 146, 146, 130, 130, 68, 56, 0, 0, 0,
  0, 0, 0, 16, 48, 80, 16, 16, 16, 16, 16, 16, 124, 0, 0, 0,
  0, 0, 0, 124, 130, 2, 2, 4, 8, 16, 32, 64, 254, 0, 0, 0,
  0, 0, 0, 124, 130, 2, 2, 60, 2, 2, 2, 130, 124, 0, 0, 0,
  0, 0, 0, 4, 12, 20, 36, 68, 132, 254, 4, 4, 4, 0, 0, 0,
  0, 0, 0, 254, 128, 128, 128, 252, 130, 2, 2, 130, 124, 0, 0, 0,
  0, 0, 0, 124, 128, 128, 128, 252, 130, 130, 130, 130, 124, 0, 0, 0,
  0, 0, 0, 254, 2, 2, 4, 8, 16, 16, 16, 16, 16, 0, 0, 0,
  0, 0, 0, 124, 130, 130, 68, 124, 130, 130, 130, 130, 124, 0, 0, 0,
  0, 0, 0, 124, 130, 130, 130, 130, 126, 2, 2, 2, 124, 0, 0, 0,
  0, 0, 0, 0, 0, 0, 16, 16, 0, 0, 0, 16, 16, 0, 0, 0,
  0, 0, 0, 0, 0, 0, 16, 16, 0, 0, 0, 16, 16, 16, 32, 0,
  0, 0, 0, 0, 4, 8, 16, 32, 64, 32, 16, 8, 4, 0, 0, 0,
  0, 0, 0, 0, 0, 0, 254, 0, 0, 254, 0, 0, 0, 0, 0, 0,
  0, 0, 0, 0, 64, 32, 16, 8, 4, 8, 16, 32, 64, 0, 0, 0,
  0, 0, 0, 124, 130, 130, 2, 12, 16, 16, 0, 16, 16, 0, 0, 0,
  0, 0, 0, 124, 130, 130, 186, 170, 170, 156, 128, 128, 124, 0, 0, 0,
  0, 0, 0, 56, 68, 130, 130, 130, 254, 130, 130, 130, 130, 0, 0, 0,
  0, 0, 0, 252, 130, 130, 130, 252, 130, 130, 130, 130, 252, 0, 0, 0,
  0, 0, 0, 124, 130, 128, 128, 128, 128, 128, 130, 130, 124, 0, 0, 0,
  0, 0, 0, 248, 132, 130, 130, 130, 130, 130, 130, 132, 248, 0, 0, 0,
  0, 0, 0, 254, 128, 128, 128, 252, 128, 128, 128, 128, 254, 0, 0, 0,
  0, 0, 0, 254, 128, 128, 128, 252, 128, 128, 128, 128, 128, 0, 0, 0,
  0, 0, 0, 124, 130, 128, 128, 158, 130, 130, 130, 130, 126, 0, 0, 0,
  0, 0, 0, 130, 130, 130, 130, 254, 130, 130, 130, 130, 130, 0, 0, 0,
  0, 0, 0, 124, 16, 16, 16, 16, 16, 16, 16, 16, 124, 0, 0, 0,
  0, 0, 0, 62, 4, 4, 4, 4, 4, 4, 4, 132, 120, 0, 0, 0,
  0, 0, 0, 132, 136, 144, 160, 192, 160, 144, 136, 132, 130, 0, 0, 0,
  0, 0, 0, 128, 128, 128, 128, 128, 128, 128, 128, 128, 254, 0, 0, 0,
  0, 0, 0, 130, 198, 170, 146, 146, 130, 130, 130, 130, 130, 0, 0, 0,
  0, 0, 0, 130, 194, 162, 146, 138, 134, 130, 130, 130, 130, 0, 0, 0,
  0, 0, 0, 124, 130, 130, 130, 130, 130, 130, 130, 130, 124, 0, 0, 0,
  0, 0, 0, 252, 130, 130, 130, 252, 128, 128, 128, 128, 128, 0, 0, 0,
  0, 0, 0, 124, 130, 130, 130, 130, 130, 146, 146, 146, 124, 8, 4, 0,
  0, 0, 0, 252, 130, 130, 130, 252, 132, 130, 130, 130, 130, 0, 0, 0,
  0, 0, 0, 124, 130, 128, 96, 48, 12, 2, 130, 130, 124, 0, 0, 0,
  0, 0, 0, 254, 16, 16, 16, 16, 16, 16, 16, 16, 16, 0, 0, 0,
  0, 0, 0, 130, 130, 130, 130, 130, 130, 130, 130, 130, 124, 0, 0, 0,
  0, 0, 0, 130, 130, 130, 130, 130, 130, 130, 68, 40, 16, 0, 0, 0,
  0, 0, 0, 130, 130, 130, 130, 130, 146, 146, 146, 170, 68, 0, 0, 0,
  0, 0, 0, 130, 130, 68, 40, 16, 40, 68, 130, 130, 130, 0, 0, 0,
  0, 0, 0, 130, 130, 130, 68, 40, 16, 16, 16, 16, 16, 0, 0, 0,
  0, 0, 0, 254, 2, 4, 8, 16, 32, 64, 128, 128, 254, 0, 0, 0,
  0, 0, 0, 56, 32, 32, 32, 32, 32, 32, 32, 32, 56, 0, 0, 0,
  0, 0, 0, 0, 0, 0, 128, 64, 32, 16, 8, 4, 2, 0, 0, 0,
  0, 0, 0, 56, 8, 8, 8, 8, 8, 8, 8, 8, 56, 0, 0, 0,
  0, 16, 40, 68, 130, 0, 0, 0, 0, 0, 0, 0, 0, 0, 0, 0,
  0, 0, 0, 0, 0, 0, 0, 0, 0, 0, 0, 0, 0, 0, 254, 0,
  0, 0, 32, 32, 32, 16, 0, 0, 0, 0, 0, 0, 0, 0, 0, 0,
  0, 0, 0, 0, 0, 0, 120, 4, 4, 124, 132, 132, 126, 0, 0, 0,
  0, 0, 0, 128, 128, 128, 188, 194, 130, 130, 130, 130, 252, 0, 0, 0,
  0, 0, 0, 0, 0, 0, 124, 130, 128, 128, 128, 130, 124, 0, 0, 0,
  0, 0, 0, 2, 2, 2, 122, 134, 130, 130, 130, 130, 126, 0, 0, 0,
  0, 0, 0, 0, 0, 0, 124, 130, 130, 254, 128, 128, 124, 0, 0, 0,
  0, 0, 0, 28, 32, 32, 248, 32, 32, 32, 32, 32, 32, 0, 0, 0,
  0, 0, 0, 0, 0, 0, 126, 130, 130, 130, 130, 134, 122, 2, 2, 124,
  0, 0, 0, 128, 128, 128, 188, 194, 130, 130, 130, 130, 130, 0, 0, 0,
  0, 0, 0, 16, 16, 0, 112, 16, 16, 16, 16, 16, 124, 0, 0, 0,
  0, 0, 0, 8, 8, 0, 56, 8, 8, 8, 8, 8, 8, 8, 8, 112,
  0, 0, 0, 128, 128, 128, 134, 152, 224, 144, 136, 132, 130, 0, 0, 0,
  0, 0, 0, 96, 32, 32, 32, 32, 32, 32, 32, 32, 28, 0, 0, 0,
  0, 0, 0, 0, 0, 0, 236, 146, 146, 146, 146, 146, 146, 0, 0, 0,
  0, 0, 0, 0, 0, 0, 188, 194, 130, 130, 130, 130, 130, 0, 0, 0,
  0, 0, 0, 0, 0, 0, 124, 130, 130, 130, 130, 130, 124, 0, 0, 0,
  0, 0, 0, 0, 0, 0, 188, 194, 130, 130, 130, 194, 188, 128, 128, 128,
  0, 0, 0, 0, 0, 0, 126, 130, 130, 130, 130, 134, 122, 2, 2, 2,
  0, 0, 0, 0, 0, 0, 188, 194, 128, 128, 128, 128, 128, 0, 0, 0,
  0, 0, 0, 0, 0, 0, 126, 128, 128, 124, 2, 2, 252, 0, 0, 0,
  0, 0, 0, 0, 32, 32, 252, 32, 32, 32, 32, 32, 28, 0, 0, 0,
  0, 0, 0, 0, 0, 0, 130, 130, 130, 130, 130, 134, 122, 0, 0, 0,
  0, 0, 0, 0, 0, 0, 130, 130, 130, 130, 68, 40, 16, 0, 0, 0,
  0, 0, 0, 0, 0, 0, 130, 130, 130, 146, 146, 146, 108, 0, 0, 0,
  0, 0, 0, 0, 0, 0, 130, 68, 40, 16, 40, 68, 130, 0, 0, 0,
  0, 0, 0, 0, 0, 0, 130, 130, 130, 130, 130, 134, 122, 2, 2, 124,
  0, 0, 0, 0, 0, 0, 254, 4, 8, 16, 32, 64, 254, 0, 0, 0,
  0, 0, 0, 12, 16, 16, 16, 96, 16, 16, 16, 16, 12, 0, 0, 0,
  0, 0, 16, 16, 16, 16, 16, 16, 16, 16, 16, 16, 16, 16, 16, 16,
  0, 0, 0, 96, 16, 16, 16, 12, 16, 16, 16, 16, 96, 0, 0, 0,
  0, 0, 0, 98, 146, 140, 0, 0, 0, 0, 0, 0, 0, 0, 0, 0,
  0, 0, 0, 0, 0, 0, 16, 40, 68, 130, 130, 130, 254, 0, 0, 0]"

fun drawRow :: "nat \<Rightarrow> u8 \<Rightarrow> nat \<Rightarrow> tty \<Rightarrow> u8 list \<Rightarrow> u8 list option" where
  "drawRow 0 b off t fb = Some fb"
| "drawRow (Suc n) b off t fb =
     do { fb' \<leftarrow> put32 off (if b AND 0x80 \<noteq> 0 then t_fg t else t_bg t) fb; drawRow n (push_bit 1 b) (off + 4) t fb' }"

fun drawGlyph :: "u8 list \<Rightarrow> nat \<Rightarrow> tty \<Rightarrow> u8 list \<Rightarrow> u8 list option" where
  "drawGlyph [] off t fb = Some fb"
| "drawGlyph (b # bs) off t fb =
     do { fb' \<leftarrow> drawRow FONT_WIDTH b off t fb; drawGlyph bs (off + unat (t_pitch t)) t fb' }"

text \<open>The byte offset of the cell at the cursor; its pixel coordinates have 16 bits, the first product 32.\<close>

definition cellOffset :: "tty \<Rightarrow> nat" where
  "cellOffset t = unat (ucast (t_posy t * of_nat FONT_HEIGHT) * t_pitch t) + unat (t_posx t * of_nat FONT_WIDTH) * unat (t_bytesPerPixel t)"

definition ttyPutGlyph :: "nat \<Rightarrow> tty \<Rightarrow> tty option" where
  "ttyPutGlyph c t =
     do { let i = (c - FONT_MIN_GLYPH) * FONT_HEIGHT;
          fb \<leftarrow> (if i + FONT_HEIGHT \<le> length font then drawGlyph (take FONT_HEIGHT (drop i font)) (cellOffset t) t (t_fb t) else None);
          ttyCheckBoundaries (t\<lparr>t_fb := fb, t_posx := t_posx t + 1\<rparr>) }"

definition ESC :: char where "ESC = CHR 0x1B"

definition ttyPutc :: "char \<Rightarrow> tty \<Rightarrow> tty option" where
  "ttyPutc c t =
     (if c = CHR 0x0A then do {
        t1 \<leftarrow> ttyRedraw (uint (t_posy t + 1) - 1) (t\<lparr>t_posx := 0, t_posy := t_posy t + 1\<rparr>);
        ttyCheckBoundaries t1 }
      else if c = CHR 0x0D then Some (t\<lparr>t_posx := 0\<rparr>)
      else if c = ESC then Some (t\<lparr>t_escape := [], t_escaping := True\<rparr>)
      else if t_escaping t then
        (if length (t_escape t) \<ge> 256 then None
         else let t1 = t\<lparr>t_escape := t_escape t @ [c]\<rparr>
              in if c = CHR ''m'' then ttyParseEscape (t1\<lparr>t_escaping := False\<rparr>) else Some t1)
      else if of_char c < FONT_MIN_GLYPH \<or> of_char c > FONT_MAX_GLYPH then Some t
      else ttyPutGlyph (of_char c) t)"

fun ttyPuts :: "string \<Rightarrow> tty \<Rightarrow> tty option" where
  "ttyPuts [] t = Some t"
| "ttyPuts (c # s) t = do { t' \<leftarrow> ttyPutc c t; ttyPuts s t' }"

section \<open>Formatted output\<close>

text \<open>
  \<open>vprintf()\<close> as the characters it gives to the terminal and the length it returns. An argument is a number of 64 bits or a string; taking an
  argument that is not there, writing past the 16 characters kept of a directive, or a format that ends inside a
  directive is \<open>None\<close>.
\<close>

definition DECIMAL :: int where "DECIMAL = 10"

datatype arg = Num u64 | Str string

definition padding :: "string \<Rightarrow> nat \<Rightarrow> string" where
  "padding format n = replicate (nat (atoi format - int n)) (if format \<noteq> [] \<and> hd format = CHR ''0'' then CHR ''0'' else CHR '' '')"

definition upcase :: "char \<Rightarrow> char" where
  "upcase c = (if 97 \<le> (of_char c :: nat) \<and> (of_char c :: nat) \<le> 102 then char_of ((of_char c :: nat) - 0x20) else c)"

definition printNumber :: "string \<Rightarrow> int \<Rightarrow> bool \<Rightarrow> u64 \<Rightarrow> (int \<times> string) option" where
  "printNumber format radix upper n =
     do { digits \<leftarrow> ltoa (sint n) radix;
          case digits of None \<Rightarrow> None
          | Some s \<Rightarrow> (let p = padding format (length s) in
              Some (int (length p + length s), p @ (if upper then map upcase s else s))) }"

text \<open>The directive that ends with the letter \<open>c\<close>: what it prints, the length it counts, the remaining arguments.\<close>

definition directive :: "string \<Rightarrow> char \<Rightarrow> arg list \<Rightarrow> (int \<times> string \<times> arg list) option" where
  "directive format c args =
     (if c = CHR ''c'' then (case args of Num n # rest \<Rightarrow> Some (0, [char_of (unat n)], rest) | _ \<Rightarrow> None)
      else if c = CHR ''s'' then (case args of Str s # rest \<Rightarrow> Some (int (length s), s, rest) | _ \<Rightarrow> None)
      else if c = CHR ''d'' \<or> c = CHR ''i'' \<or> c = CHR ''u'' then
        (case args of Num n # rest \<Rightarrow> do { (l, s) \<leftarrow> printNumber format DECIMAL False n; Some (l, s, rest) } | _ \<Rightarrow> None)
      else if c = CHR ''x'' then
        (case args of Num n # rest \<Rightarrow> do { (l, s) \<leftarrow> printNumber format HEX False n; Some (l, s, rest) } | _ \<Rightarrow> None)
      else if c = CHR ''X'' then
        (case args of Num n # rest \<Rightarrow> do { (l, s) \<leftarrow> printNumber format HEX True n; Some (l, s, rest) } | _ \<Rightarrow> None)
      else if length format < 16 then Some (0, format, args)
      else None)"

fun vprintf_loop :: "bool \<Rightarrow> string \<Rightarrow> string \<Rightarrow> arg list \<Rightarrow> (int \<times> string) option" where
  "vprintf_loop False format [] args = Some (0, [])"
| "vprintf_loop True format [] args = (if format = [] then None else Some (0, []))"
| "vprintf_loop False format (c # f) args =
     (if c = CHR ''%'' then vprintf_loop True [] f args
      else do { (l, out) \<leftarrow> vprintf_loop False format f args; Some (l + 1, c # out) })"
| "vprintf_loop True format (c # f) args =
     (if c = CHR ''%'' then do { (l, out) \<leftarrow> vprintf_loop False format f args; Some (l, CHR ''%'' # out) }
      else if length format \<ge> 16 then None
      else if 65 \<le> (of_char c :: nat) \<and> (of_char c :: nat) \<le> 122 then do {
        (l, out, rest) \<leftarrow> directive (format @ [c]) c args;
        (l', out') \<leftarrow> vprintf_loop False [] f rest;
        Some (l + l', out @ out') }
      else vprintf_loop True (format @ [c]) f args)"

definition vprintf :: "string \<Rightarrow> arg list \<Rightarrow> (int \<times> string) option" where
  "vprintf f args = vprintf_loop False [] f args"

text \<open>The other output functions; \<open>printf()\<close> puts the characters of \<open>vprintf()\<close> on the terminal one by one.\<close>

definition putchar :: "char \<Rightarrow> tty \<Rightarrow> (char \<times> tty) option" where
  "putchar c t = do { t' \<leftarrow> ttyPutc c t; Some (c, t') }"

definition print :: "string \<Rightarrow> tty \<Rightarrow> (int \<times> tty) option" where
  "print s t = do { t' \<leftarrow> ttyPuts s t; Some (int (length s), t') }"

definition puts :: "string \<Rightarrow> tty \<Rightarrow> (int \<times> tty) option" where
  "puts s t = do { (len, t1) \<leftarrow> print s t; (_, t2) \<leftarrow> print [CHR 0x0A] t1; Some (len + 1, t2) }"

definition printf :: "string \<Rightarrow> arg list \<Rightarrow> tty \<Rightarrow> (int \<times> tty) option" where
  "printf f args t = do { (len, out) \<leftarrow> vprintf f args; t' \<leftarrow> ttyPuts out t; Some (len, t') }"

section \<open>The log\<close>

text \<open>
  The line of the kernel's log for one message: the time, the kind of its author, a color for its level, the author's
  name and the message. The first parameter is the number of timer ticks since the start.
\<close>

definition KPRINTF_LEVEL_DEBUG :: int where "KPRINTF_LEVEL_DEBUG = 0"
definition KPRINTF_LEVEL_WARNING :: int where "KPRINTF_LEVEL_WARNING = 1"
definition KPRINTF_LEVEL_ERROR :: int where "KPRINTF_LEVEL_ERROR = 2"
definition KPRINTF_LEVEL_PANIC :: int where "KPRINTF_LEVEL_PANIC = 3"

definition levelColor :: "int \<Rightarrow> string" where
  "levelColor level = ESC # (if level = KPRINTF_LEVEL_DEBUG then ''[92m'' else if level = KPRINTF_LEVEL_WARNING then ''[93m'' else ''[91m'')"

definition logPrefix :: "u64 \<Rightarrow> string \<Rightarrow> int \<Rightarrow> (int \<times> string) option" where
  "logPrefix uptime author level =
     do { (l1, o1) \<leftarrow> vprintf (ESC # ''[37m[%3d.%08d] '') [Num (uptime div 100 div 60), Num uptime];
          (l2, o2) \<leftarrow> vprintf (ESC # author) [];
          (l3, o3) \<leftarrow> vprintf (levelColor level) [];
          Some (l1 + l2 + l3, o1 @ o2 @ o3) }"

definition silenced :: "bool \<Rightarrow> int \<Rightarrow> bool" where
  "silenced verbose level \<longleftrightarrow> \<not> verbose \<and> level \<noteq> KPRINTF_LEVEL_ERROR \<and> level \<noteq> KPRINTF_LEVEL_PANIC"

definition kprintf :: "u64 \<Rightarrow> bool \<Rightarrow> int \<Rightarrow> string \<Rightarrow> string \<Rightarrow> arg list \<Rightarrow> (int \<times> string) option" where
  "kprintf uptime verbose level src f args =
     (if silenced verbose level then Some (0, [])
      else do {
        (l1, o1) \<leftarrow> logPrefix uptime ''[96mkernel '' level;
        (l2, o2) \<leftarrow> vprintf (''%s: '' @ ESC # ''[37m'') [Str src];
        (l3, o3) \<leftarrow> vprintf f args;
        Some (l1 + l2 + l3, o1 @ o2 @ o3) })"

definition ksprintLine :: "u64 \<Rightarrow> bool \<Rightarrow> int \<Rightarrow> string \<Rightarrow> string \<Rightarrow> (int \<times> string) option" where
  "ksprintLine uptime verbose level name msg =
     (if silenced verbose level then Some (0, [])
      else do {
        (l1, o1) \<leftarrow> logPrefix uptime ''[95mserver '' level;
        (l2, o2) \<leftarrow> vprintf (''%s: '' @ ESC # ''[37m%s'') [Str name, Str msg];
        Some (l1 + l2, o1 @ o2) })"

section \<open>Specification vocabulary\<close>

text \<open>Numbers as they should be printed, and the pieces a format is made of: their text, their arguments and what they print.\<close>

fun numeral_of :: "nat \<Rightarrow> nat \<Rightarrow> string" where
  "numeral_of b n = (if b < 2 \<or> n < b then [''0123456789abcdef'' ! n] else numeral_of b (n div b) @ [''0123456789abcdef'' ! (n mod b)])"

datatype piece = Text string | Percent | Chr u64 | Word string | Dec string u64 | Hex string u64 | UHex string u64

fun piece_ok :: "piece \<Rightarrow> bool" where
  "piece_ok (Text s) = (CHR ''%'' \<notin> set s)"
| "piece_ok (Dec w n) = (length w < 16 \<and> list_all (isDigit 10) w)"
| "piece_ok (Hex w n) = (length w < 16 \<and> list_all (isDigit 10) w)"
| "piece_ok (UHex w n) = (length w < 16 \<and> list_all (isDigit 10) w)"
| "piece_ok _ = True"

fun format_of :: "piece \<Rightarrow> string" where
  "format_of (Text s) = s"
| "format_of Percent = ''%%''"
| "format_of (Chr n) = ''%c''"
| "format_of (Word s) = ''%s''"
| "format_of (Dec w n) = ''%'' @ w @ ''d''"
| "format_of (Hex w n) = ''%'' @ w @ ''x''"
| "format_of (UHex w n) = ''%'' @ w @ ''X''"

fun args_of :: "piece \<Rightarrow> arg list" where
  "args_of (Chr n) = [Num n]"
| "args_of (Word s) = [Str s]"
| "args_of (Dec w n) = [Num n]"
| "args_of (Hex w n) = [Num n]"
| "args_of (UHex w n) = [Num n]"
| "args_of _ = []"

definition justify :: "string \<Rightarrow> string \<Rightarrow> string" where
  "justify w s = replicate (nat (horner 10 w) - length s) (if w \<noteq> [] \<and> hd w = CHR ''0'' then CHR ''0'' else CHR '' '') @ s"

fun render :: "piece \<Rightarrow> string" where
  "render (Text s) = s"
| "render Percent = ''%''"
| "render (Chr n) = [char_of (unat n)]"
| "render (Word s) = s"
| "render (Dec w n) = justify w (numeral_of 10 (unat n))"
| "render (Hex w n) = justify w (numeral_of 16 (unat n))"
| "render (UHex w n) = justify w (map upcase (numeral_of 16 (unat n)))"

text \<open>The length that is counted: single characters and percent signs are not.\<close>

fun counted :: "piece \<Rightarrow> int" where
  "counted Percent = 0"
| "counted (Chr n) = 0"
| "counted p = int (length (render p))"

text \<open>
  A terminal in order: its size in characters fits the screen, the cursor is on the screen, the pixels are 32 bits and
  a line of the screen is at least as long as its pixels, and both buffers have the size of the screen.
\<close>

definition tty_ok :: "tty \<Rightarrow> bool" where
  "tty_ok t \<longleftrightarrow> t_wc t = t_w t div 8 \<and> t_hc t = t_h t div 16 \<and> t_posx t < t_wc t \<and> t_posy t < t_hc t \<and> t_bytesPerPixel t = 4 \<and>
     4 * unat (t_w t) \<le> unat (t_pitch t) \<and> unat (t_pitch t) * unat (t_h t) < 2 ^ 32 \<and>
     length (t_fb t) = unat (t_pitch t) * unat (t_h t) \<and>
     (case t_hw t of None \<Rightarrow> True | Some hw \<Rightarrow> length hw = unat (t_pitch t) * unat (t_h t))"

text \<open>The same but for the cursor, which may have left the screen to the right or below.\<close>

definition tty_fits :: "tty \<Rightarrow> bool" where
  "tty_fits t \<longleftrightarrow> tty_ok (t\<lparr>t_posx := 0, t_posy := 0\<rparr>)"

declare numeral_of.simps [simp del]

section \<open>Formatted numbers\<close>

lemma digitChar_numeral:
  assumes "unat d < 16"
  shows "digitChar d = ''0123456789abcdef'' ! unat d"
proof -
  have "\<forall>i < 16. char_of (if i \<ge> (10::nat) then 97 + i - 10 else 48 + i) = ''0123456789abcdef'' ! i"
    by code_simp
  with assms show ?thesis by (simp add: digitChar_def word_le_nat_alt)
qed

lemma ltoa_loop_numeral:
  assumes r: "2 \<le> unat radix" "unat radix \<le> 16" and "un \<noteq> 0"
  shows "ltoa_loop radix un = Some (rev (numeral_of (unat radix) (unat un)))"
  using assms(3)
proof (induction "unat un" arbitrary: un rule: less_induct)
  case less
  have pos: "0 < unat un" using less(2) by (simp add: unat_gt_0)
  have "unat un mod unat radix < unat radix" using r(1) by simp
  then have m: "unat (un mod radix) < 16" using r(2) by (simp add: unat_mod)
  show ?case
  proof (cases "un div radix = 0")
    case True
    then have "unat un div unat radix = 0" by (metis unat_div unat_0)
    then have l: "unat un < unat radix" using r(1) by (simp add: div_eq_0_iff)
    then have "unat un < 16" "un mod radix = un" using r(2) by (simp_all add: word_unat_eq_iff unat_mod)
    with True less(2) l digitChar_numeral [of un] show ?thesis
      by (simp add: ltoa_loop.simps [of radix un] ltoa_loop.simps [of radix 0] numeral_of.simps [of "unat radix" "unat un"])
  next
    case False
    then have l: "\<not> unat un < unat radix" by (metis div_less unat_div unat_0 word_unat_eq_iff)
    have "unat (un div radix) < unat un" using r(1) pos by (simp add: unat_div)
    with less(1) False have "ltoa_loop radix (un div radix) = Some (rev (numeral_of (unat radix) (unat (un div radix))))" by blast
    with less(2) l r(1) digitChar_numeral [OF m] show ?thesis
      by (simp add: ltoa_loop.simps [of radix un] numeral_of.simps [of "unat radix" "unat un"] unat_div unat_mod)
  qed
qed

lemma ltoa_numeral:
  assumes "2 \<le> radix" "radix \<le> 16"
  shows "ltoa (sint (n::u64)) radix = Some (Some (numeral_of (nat radix) (unat n)))"
proof (cases "n = 0")
  case True
  with assms show ?thesis by (simp add: ltoa_def HEX_def numeral_of.simps)
next
  case False
  have u: "unat (of_int radix :: u64) = nat radix" using assms by (simp add: unat_eq_nat_uint uint_word_of_int)
  have "(of_int (sint n) :: u64) = n" by simp
  with False have "sint n \<noteq> 0" by (metis of_int_0)
  moreover have "ltoa_loop (of_int radix) n = Some (rev (numeral_of (nat radix) (unat n)))"
    using ltoa_loop_numeral [of "of_int radix" n] assms False unfolding u by simp
  ultimately show ?thesis using assms by (simp add: ltoa_def HEX_def)
qed

lemma atoi_width:
  assumes "list_all (isDigit 10) w" "\<not> isDigit 10 c"
  shows "atoi (w @ [c]) = horner 10 w"
proof -
  have "takeWhile (isDigit 10) (w @ [c]) = w" using assms by (induction w) auto
  then show ?thesis by (simp add: atoi_def atol_horner)
qed

lemma horner_nonneg: "list_all (isDigit 10) w \<Longrightarrow> 0 \<le> horner 10 w"
proof (induction w rule: rev_induct)
  case (snoc c w)
  then show ?case by (simp add: horner_snoc isDigit_def)
qed (simp add: horner_def)

lemma printNumber_justify:
  assumes w: "list_all (isDigit 10) w" "\<not> isDigit 10 c" "c \<noteq> CHR ''0''" and r: "2 \<le> radix" "radix \<le> 16"
    and s: "s = (if upper then map upcase else id) (numeral_of (nat radix) (unat n))"
  shows "printNumber (w @ [c]) radix upper n = Some (int (length (justify w s)), justify w s)"
proof -
  have l: "length s = length (numeral_of (nat radix) (unat n))" by (simp add: s)
  have "nat (horner 10 w - int m) = nat (horner 10 w) - m" for m by linarith
  with w show ?thesis
    unfolding printNumber_def ltoa_numeral [OF r] padding_def justify_def atoi_width [OF w(1,2)]
    by (simp add: Let_def s) (cases w; simp)
qed

lemma digit_code: "isDigit 10 c \<Longrightarrow> (of_char c :: nat) < 65 \<and> c \<noteq> CHR ''%''"
  by (auto simp: isDigit_def digitOf_def)

lemma loop_width:
  "list_all (isDigit 10) w \<Longrightarrow> length format + length w < 16 \<Longrightarrow>
   vprintf_loop True format (w @ f) args = vprintf_loop True (format @ w) f args"
proof (induction w arbitrary: format)
  case (Cons c w)
  then show ?case using digit_code [of c] by simp
qed simp

lemma loop_text: "CHR ''%'' \<notin> set s \<Longrightarrow> vprintf_loop False format (s @ f) args =
    map_option (\<lambda>(l, out). (int (length s) + l, s @ out)) (vprintf_loop False format f args)"
proof (induction s)
  case (Cons c s)
  then show ?case by (cases "vprintf_loop False format f args") auto
qed (cases "vprintf_loop False format f args", auto)

lemma loop_format: "vprintf_loop False format f args = vprintf_loop False [] f args"
proof (induction f arbitrary: args)
  case (Cons c f)
  show ?case using Cons.IH [of args] by simp
qed simp

lemma vprintf_pieces:
  assumes "list_all piece_ok ps"
  shows "vprintf (concat (map format_of ps)) (concat (map args_of ps)) =
    Some (sum_list (map counted ps), concat (map render ps))"
  unfolding vprintf_def using assms
proof (induction ps)
  case (Cons p ps)
  then have ih: "vprintf_loop False format (concat (map format_of ps)) (concat (map args_of ps)) =
      Some (sum_list (map counted ps), concat (map render ps))" for format by (simp add: loop_format [of format])
  have w: "vprintf_loop True [] (w @ c # f) args = vprintf_loop True w (c # f) args" if "length w < 16 \<and> list_all (isDigit 10) w" for w c f args
    using that loop_width [of w "[]" "c # f" args] by simp
  show ?case
  proof (cases p)
    case (Text s)
    with Cons.prems show ?thesis by (simp add: loop_text ih)
  next
    case (Dec x n)
    with Cons.prems show ?thesis by (simp add: w directive_def printNumber_justify isDigit_def digitOf_def DECIMAL_def ih)
  next
    case (Hex x n)
    with Cons.prems show ?thesis by (simp add: w directive_def printNumber_justify isDigit_def digitOf_def HEX_def ih)
  next
    case (UHex x n)
    with Cons.prems show ?thesis by (simp add: w directive_def printNumber_justify isDigit_def digitOf_def HEX_def ih)
  qed (simp_all add: directive_def ih)
qed simp



section \<open>The terminal stays inside its buffers\<close>

lemma put32_fits: "off + 4 \<le> length fb \<Longrightarrow> \<exists>fb'. put32 off v fb = Some fb' \<and> length fb' = length fb"
  by (simp add: put32_def)

lemma fillLine_fits: "off + 4 * n \<le> length fb \<Longrightarrow> \<exists>fb'. fillLine n off color fb = Some fb' \<and> length fb' = length fb"
proof (induction n arbitrary: off fb)
  case (Suc n)
  with put32_fits [of off fb color] obtain fb' where "put32 off color fb = Some fb'" "length fb' = length fb" by auto
  with Suc.prems Suc.IH [of "off + 4" fb'] show ?case by simp
qed simp

lemma fillLines_fits:
  "(\<And>i. i < rows \<Longrightarrow> off + i * pitch + 4 * w \<le> length fb) \<Longrightarrow>
   \<exists>fb'. fillLines rows w off pitch color fb = Some fb' \<and> length fb' = length fb"
proof (induction rows arbitrary: off fb)
  case (Suc rows)
  from Suc.prems [of 0] fillLine_fits [of off w fb color] obtain fb' where
    fb: "fillLine w off color fb = Some fb'" "length fb' = length fb" by auto
  have "off + pitch + i * pitch + 4 * w \<le> length fb'" if "i < rows" for i
    using Suc.prems [of "Suc i"] that fb(2) by (simp add: algebra_simps)
  with Suc.IH [of "off + pitch" fb'] fb show ?case by simp
qed simp

lemma drawRow_fits: "off + 4 * n \<le> length fb \<Longrightarrow> \<exists>fb'. drawRow n b off t fb = Some fb' \<and> length fb' = length fb"
proof (induction n arbitrary: off fb b)
  case (Suc n)
  with put32_fits [of off fb "if b AND 0x80 \<noteq> 0 then t_fg t else t_bg t"] obtain fb' where
    "put32 off (if b AND 0x80 \<noteq> 0 then t_fg t else t_bg t) fb = Some fb'" "length fb' = length fb" by auto
  with Suc.prems Suc.IH [of "off + 4" fb' "push_bit 1 b"] show ?case by simp
qed simp

lemma drawGlyph_fits:
  "(\<And>i. i < length bs \<Longrightarrow> off + i * unat (t_pitch t) + 32 \<le> length fb) \<Longrightarrow>
   \<exists>fb'. drawGlyph bs off t fb = Some fb' \<and> length fb' = length fb"
proof (induction bs arbitrary: off fb)
  case (Cons b bs)
  from Cons.prems [of 0] drawRow_fits [of off FONT_WIDTH fb b t] obtain fb' where
    fb: "drawRow FONT_WIDTH b off t fb = Some fb'" "length fb' = length fb" by (auto simp: FONT_WIDTH_def)
  have "off + unat (t_pitch t) + i * unat (t_pitch t) + 32 \<le> length fb'" if "i < length bs" for i
    using Cons.prems [of "Suc i"] that fb(2) by (simp add: algebra_simps)
  with Cons.IH [of "off + unat (t_pitch t)" fb'] fb show ?case by simp
qed simp

lemma unat_widen: "unat (ucast (x::u16) :: u32) = unat x"
  using unsigned_less [of x, where ?'a = nat] by (simp add: unsigned_ucast_eq take_bit_nat_eq_self)

text \<open>The sizes of a terminal as natural numbers.\<close>

lemma unat_mult_small: "unat (x::'a::len word) * unat y < 2 ^ LENGTH('a) \<Longrightarrow> unat (x * y) = unat x * unat y"
  by (simp add: unat_word_ariths)

lemma tty_fits_size:
  assumes "tty_fits t"
  shows "8 * unat (t_wc t) \<le> unat (t_w t)" "16 * unat (t_hc t) \<le> unat (t_h t)" "0 < unat (t_wc t)" "0 < unat (t_hc t)"
    "4 * unat (t_w t) \<le> unat (t_pitch t)" "unat (t_pitch t) * unat (t_h t) < 2 ^ 32" "length (t_fb t) = unat (t_pitch t) * unat (t_h t)"
    "frameSize t = unat (t_pitch t) * unat (t_h t)"
proof -
  have "unat (t_w t div 8) = unat (t_w t) div 8" "unat (t_h t div 16) = unat (t_h t) div 16" by (simp_all add: unat_div)
  with assms show "8 * unat (t_wc t) \<le> unat (t_w t)" "16 * unat (t_hc t) \<le> unat (t_h t)" "0 < unat (t_wc t)" "0 < unat (t_hc t)"
    "4 * unat (t_w t) \<le> unat (t_pitch t)" "length (t_fb t) = unat (t_pitch t) * unat (t_h t)"
    and l: "unat (t_pitch t) * unat (t_h t) < 2 ^ 32"
    by (auto simp: tty_fits_def tty_ok_def word_less_nat_alt)
  with unat_mult_small [of "t_pitch t" "ucast (t_h t)"]
  show "frameSize t = unat (t_pitch t) * unat (t_h t)" by (simp add: frameSize_def unat_widen)
qed

lemma tty_pitch16:
  assumes "tty_fits t"
  shows "unat (t_pitch t * of_nat FONT_HEIGHT) = 16 * unat (t_pitch t)" "unat (of_nat FONT_HEIGHT * t_pitch t) = 16 * unat (t_pitch t)"
proof -
  note z = tty_fits_size [OF assms]
  have "unat (t_pitch t) * 16 \<le> unat (t_pitch t) * unat (t_h t)" using z(2,4) by (intro mult_left_mono) auto
  then have "unat (t_pitch t) * 16 < 2 ^ 32" using z(6) by linarith
  then show "unat (t_pitch t * of_nat FONT_HEIGHT) = 16 * unat (t_pitch t)"
    using unat_mult_small [of "t_pitch t" 16] by (simp add: FONT_HEIGHT_def)
  then show "unat (of_nat FONT_HEIGHT * t_pitch t) = 16 * unat (t_pitch t)" by (simp only: mult.commute)
qed

lemma tty_fits_hw: "tty_fits t \<Longrightarrow> t_hw t = Some hw \<Longrightarrow> length hw = length (t_fb t)"
  by (simp add: tty_fits_def tty_ok_def)

lemma tty_fits_cong:
  assumes "tty_fits t" "t_w t' = t_w t" "t_h t' = t_h t" "t_wc t' = t_wc t" "t_hc t' = t_hc t" "t_bytesPerPixel t' = t_bytesPerPixel t"
    "t_pitch t' = t_pitch t" "length (t_fb t') = length (t_fb t)" "map_option length (t_hw t') = map_option length (t_hw t)"
  shows "tty_fits t'"
  using assms by (cases "t_hw t"; cases "t_hw t'") (simp_all add: tty_fits_def tty_ok_def)

lemma tty_ok_iff: "tty_ok t \<longleftrightarrow> tty_fits t \<and> t_posx t < t_wc t \<and> t_posy t < t_hc t"
  by (auto simp: tty_fits_def tty_ok_def word_less_nat_alt split: option.splits)

lemma ttyRedraw_fits:
  assumes "tty_fits t" "line < 0 \<or> nat line < unat (t_hc t)"
  shows "\<exists>hw. ttyRedraw line t = Some (t\<lparr>t_hw := hw\<rparr>) \<and> tty_fits (t\<lparr>t_hw := hw\<rparr>)"
proof (cases "t_hw t")
  case None
  then have "tty_fits (t\<lparr>t_hw := None\<rparr>)" by (intro tty_fits_cong [OF assms(1)]) simp_all
  with None show ?thesis by (intro exI [of _ None]) (simp add: ttyRedraw_def)
next
  case (Some hw)
  note z = tty_fits_size [OF assms(1)]
  have l: "length hw = length (t_fb t)" using tty_fits_hw [OF assms(1) Some] .
  have fit: "\<exists>hw'. copyRange off n (t_fb t) hw = Some hw' \<and> length hw' = length (t_fb t)" if "off + n \<le> length (t_fb t)" for off n
    using that l by (simp add: copyRange_def)
  have fin: "tty_fits (t\<lparr>t_hw := Some hw'\<rparr>)" if "length hw' = length (t_fb t)" for hw'
    using assms(1) that l Some by (rule_tac tty_fits_cong [OF assms(1)]) simp_all
  show ?thesis
  proof (cases "line < 0")
    case True
    with fit [of 0 "frameSize t"] z obtain hw' where "copyRange 0 (frameSize t) (t_fb t) hw = Some hw'" "length hw' = length (t_fb t)" by auto
    with True Some fin show ?thesis by (intro exI [of _ "Some hw'"]) (simp add: ttyRedraw_def)
  next
    case False
    let ?n = "unat (t_pitch t * of_nat FONT_HEIGHT)"
    have n: "?n = 16 * unat (t_pitch t)" by (rule tty_pitch16 [OF assms(1)])
    have "(nat line + 1) * 16 \<le> unat (t_h t)" using assms(2) False z(2) by simp
    then have "(nat line + 1) * 16 * unat (t_pitch t) \<le> unat (t_h t) * unat (t_pitch t)" by (rule mult_right_mono) simp
    then have "nat line * ?n + ?n \<le> length (t_fb t)" unfolding n z(7) by (simp add: algebra_simps)
    from fit [OF this] obtain hw' where "copyRange (nat line * ?n) ?n (t_fb t) hw = Some hw'" "length hw' = length (t_fb t)" by blast
    with False Some fin show ?thesis by (intro exI [of _ "Some hw'"]) (simp add: ttyRedraw_def Let_def)
  qed
qed

lemma ttyScroll_fits:
  assumes "tty_fits t"
  shows "\<exists>t'. ttyScroll t = Some t' \<and> tty_ok t' \<and> t_escaping t' = t_escaping t"
proof -
  note z = tty_fits_size [OF assms]
  let ?p = "unat (t_pitch t)" and ?c = "unat (t_hc t)"
  let ?n = "unat ((ucast (t_hc t) - 1) * of_nat FONT_HEIGHT * t_pitch t)"
  have area: "16 * ?c * ?p \<le> ?p * unat (t_h t)" using z(2) by (simp add: mult.commute)
  have uc: "unat (ucast (t_hc t) :: u32) = ?c" by (rule unat_widen)
  have c1: "unat ((ucast (t_hc t) :: u32) - 1) = ?c - 1"
    using z(4) uc unat_minus_one [of "ucast (t_hc t) :: u32"] by (metis less_irrefl unat_0)
  have c: "?c < 65536" using unsigned_less [of "t_hc t", where ?'a = nat] by simp
  have c16: "unat (((ucast (t_hc t) :: u32) - 1) * of_nat FONT_HEIGHT) = (?c - 1) * 16"
    using unat_mult_small [of "(ucast (t_hc t) :: u32) - 1" 16] c unfolding c1 by (simp add: FONT_HEIGHT_def)
  have split: "16 * ?c * ?p = (?c - 1) * 16 * ?p + 16 * ?p" using z(4) by (cases ?c) (simp_all add: algebra_simps)
  have "(?c - 1) * 16 * ?p < 2 ^ 32" using split area z(6) by linarith
  then have n: "?n = (?c - 1) * 16 * ?p"
    using unat_mult_small [of "((ucast (t_hc t) :: u32) - 1) * of_nat FONT_HEIGHT" "t_pitch t"] unfolding c16 by simp
  note p16 = tty_pitch16(2) [OF assms]
  have "16 * ?p + ?n \<le> length (t_fb t)" unfolding n z(7) using split area by simp
  then obtain fb1 where fb1: "moveDown (unat (of_nat FONT_HEIGHT * t_pitch t)) ?n (t_fb t) = Some fb1" "length fb1 = length (t_fb t)"
    unfolding p16 by (auto simp: moveDown_def)
  have "?n + i * ?p + 4 * unat (t_w t) \<le> length fb1" if "i < FONT_HEIGHT" for i
  proof -
    have "(i + 1) * ?p \<le> 16 * ?p" using that by (intro mult_right_mono) (simp_all add: FONT_HEIGHT_def)
    then have "?n + (i + 1) * ?p \<le> length fb1" unfolding fb1(2) n z(7) using split area by linarith
    then show ?thesis using z(5) by simp
  qed
  from fillLines_fits [of FONT_HEIGHT, OF this] obtain fb2 where
    fb2: "fillLines FONT_HEIGHT (unat (t_w t)) ?n ?p (t_bg t) fb1 = Some fb2" "length fb2 = length (t_fb t)"
    unfolding fb1(2) by blast
  let ?t = "t\<lparr>t_fb := fb2, t_posx := 0, t_posy := t_hc t - 1\<rparr>"
  have "tty_fits ?t" using assms by (rule tty_fits_cong) (simp_all add: fb2)
  with ttyRedraw_fits [of ?t "- 1"] obtain hw where
    hw: "ttyRedraw (- 1) ?t = Some (?t\<lparr>t_hw := hw\<rparr>)" "tty_fits (?t\<lparr>t_hw := hw\<rparr>)" by auto
  moreover have "t_hc t - 1 < t_hc t" using z(4) by (simp add: word_less_nat_alt unat_gt_0 unat_minus_one)
  moreover have "0 < t_wc t" using z(3) by (simp add: word_less_nat_alt)
  ultimately show ?thesis using fb1 fb2 by (simp add: ttyScroll_def Let_def tty_ok_iff)
qed

lemma ttyCheckBoundaries_fits:
  assumes "tty_fits t" "t_posy t < t_hc t"
  shows "\<exists>t'. ttyCheckBoundaries t = Some t' \<and> tty_ok t' \<and> t_escaping t' = t_escaping t"
proof (cases "t_posx t \<ge> t_wc t")
  case True
  let ?t = "t\<lparr>t_posx := 0, t_posy := t_posy t + 1\<rparr>"
  have f: "tty_fits ?t" using assms(1) by (rule tty_fits_cong) simp_all
  show ?thesis
  proof (cases "t_posy t + 1 \<ge> t_hc t")
    case s: True
    with True ttyScroll_fits [OF f] show ?thesis by (simp add: ttyCheckBoundaries_def Let_def)
  next
    case False
    moreover have "0 < t_wc t" using tty_fits_size(3) [OF f] by (simp add: word_less_nat_alt)
    moreover have "t_posy t + 1 < t_hc t" using False by (simp only: not_le)
    ultimately show ?thesis using True f by (simp add: ttyCheckBoundaries_def Let_def tty_ok_iff)
  qed
next
  case False
  with assms show ?thesis by (auto simp: ttyCheckBoundaries_def tty_ok_iff not_le)
qed

lemma ttyCheckBoundaries_below:
  assumes "tty_fits t" "t_posx t < t_wc t"
  shows "\<exists>t'. ttyCheckBoundaries t = Some t' \<and> tty_ok t' \<and> t_escaping t' = t_escaping t"
  using assms ttyScroll_fits [OF assms(1)] by (auto simp: ttyCheckBoundaries_def tty_ok_iff not_le)

lemma length_font: "length font = 1536"
  unfolding font_def by simp

lemma cell_inside:
  assumes "tty_ok t" "i < 16"
  shows "cellOffset t + i * unat (t_pitch t) + 32 \<le> length (t_fb t)"
proof -
  have f: "tty_fits t" "unat (t_posx t) < unat (t_wc t)" "unat (t_posy t) < unat (t_hc t)" "t_bytesPerPixel t = 4"
    using assms(1) by (auto simp: tty_ok_iff word_less_nat_alt) (simp add: tty_fits_def tty_ok_def)
  note z = tty_fits_size [OF f(1)]
  let ?p = "unat (t_pitch t)"
  have w: "unat (t_w t) < 65536" "unat (t_h t) < 65536"
    using unsigned_less [of "t_w t", where ?'a = nat] unsigned_less [of "t_h t", where ?'a = nat] by simp_all
  have x: "unat (t_posx t * of_nat FONT_WIDTH) = unat (t_posx t) * 8"
    using unat_mult_small [of "t_posx t" 8] f(2) z(1) w(1) by (simp add: FONT_WIDTH_def)
  have y: "unat (t_posy t * of_nat FONT_HEIGHT) = unat (t_posy t) * 16"
    using unat_mult_small [of "t_posy t" 16] f(3) z(2) w(2) by (simp add: FONT_HEIGHT_def)
  have "unat (t_posy t) * 16 + 16 \<le> unat (t_h t)" using f(3) z(2) by linarith
  then have r: "(unat (t_posy t) * 16 + 16) * ?p \<le> unat (t_h t) * ?p" by (rule mult_right_mono) simp
  have "unat (ucast (t_posy t * of_nat FONT_HEIGHT) :: u32) * ?p < 2 ^ 32"
    using r z(6) unfolding unat_widen y by (simp add: algebra_simps)
  then have "unat (ucast (t_posy t * of_nat FONT_HEIGHT) * t_pitch t) = unat (t_posy t) * 16 * ?p"
    using unat_mult_small [of "ucast (t_posy t * of_nat FONT_HEIGHT)" "t_pitch t"] unfolding unat_widen y by simp
  then have c: "cellOffset t = unat (t_posy t) * 16 * ?p + unat (t_posx t) * 32"
    unfolding cellOffset_def x f(4) by simp
  have "unat (t_posx t) * 32 + 32 \<le> ?p" using f(2) z(1,5) by linarith
  moreover have "(i + 1) * ?p \<le> 16 * ?p" using assms(2) by (intro mult_right_mono) simp_all
  then have "i * ?p + ?p \<le> 16 * ?p" by (simp only: distrib_right mult_1)
  moreover have "unat (t_posy t) * 16 * ?p + 16 * ?p \<le> ?p * unat (t_h t)"
    using r by (simp only: distrib_right mult.commute [of "unat (t_h t)"])
  ultimately show ?thesis unfolding c z(7) by linarith
qed

lemma ttyPutGlyph_fits:
  assumes "tty_ok t" "c \<le> FONT_MAX_GLYPH"
  shows "\<exists>t'. ttyPutGlyph c t = Some t' \<and> tty_ok t' \<and> t_escaping t' = t_escaping t"
proof -
  let ?i = "(c - FONT_MIN_GLYPH) * FONT_HEIGHT"
  have i: "?i + FONT_HEIGHT \<le> length font"
    using assms(2) by (simp add: length_font FONT_MIN_GLYPH_def FONT_MAX_GLYPH_def FONT_HEIGHT_def)
  have "cellOffset t + j * unat (t_pitch t) + 32 \<le> length (t_fb t)" if "j < length (take FONT_HEIGHT (drop ?i font))" for j
    using that by (intro cell_inside [OF assms(1)]) (simp add: FONT_HEIGHT_def)
  from drawGlyph_fits [OF this] obtain fb where
    fb: "drawGlyph (take FONT_HEIGHT (drop ?i font)) (cellOffset t) t (t_fb t) = Some fb" "length fb = length (t_fb t)" by blast
  let ?t = "t\<lparr>t_fb := fb, t_posx := t_posx t + 1\<rparr>"
  have "tty_fits ?t" using assms(1) fb(2) by (auto simp: tty_ok_iff intro: tty_fits_cong)
  moreover have "t_posy ?t < t_hc ?t" using assms(1) by (simp add: tty_ok_iff)
  ultimately have "\<exists>t'. ttyCheckBoundaries ?t = Some t' \<and> tty_ok t' \<and> t_escaping t' = t_escaping ?t" by (rule ttyCheckBoundaries_fits)
  then show ?thesis using i fb(1) by (simp add: ttyPutGlyph_def Let_def)
qed

lemma ttyPutc_fits:
  assumes "tty_ok t" "\<not> t_escaping t" "c \<noteq> ESC"
  shows "\<exists>t'. ttyPutc c t = Some t' \<and> tty_ok t' \<and> \<not> t_escaping t'"
proof -
  have f: "tty_fits t" "t_posy t < t_hc t" "t_posx t < t_wc t" using assms(1) by (simp_all add: tty_ok_iff)
  consider "c = CHR 0x0A" | "c = CHR 0x0D" | "c \<noteq> CHR 0x0A" "c \<noteq> CHR 0x0D" "of_char c < FONT_MIN_GLYPH \<or> of_char c > FONT_MAX_GLYPH"
    | "c \<noteq> CHR 0x0A" "c \<noteq> CHR 0x0D" "\<not> (of_char c < FONT_MIN_GLYPH \<or> of_char c > FONT_MAX_GLYPH)" by blast
  then show ?thesis
  proof cases
    case 1
    let ?t = "t\<lparr>t_posx := 0, t_posy := t_posy t + 1\<rparr>"
    have t: "tty_fits ?t" using f(1) by (rule tty_fits_cong) simp_all
    have "unat (t_posy t) + 1 < 2 ^ 16"
      using f(2) unsigned_less [of "t_hc t", where ?'a = nat] by (simp add: word_less_nat_alt)
    then have "unat (t_posy t + 1) = unat (t_posy t) + 1" by (simp add: unat_word_ariths)
    then have "uint (t_posy t + 1) - 1 = uint (t_posy t)" unfolding uint_nat by simp
    with ttyRedraw_fits [OF t, of "uint (t_posy t)"] f(2) obtain hw where
      hw: "ttyRedraw (uint (t_posy t + 1) - 1) ?t = Some (?t\<lparr>t_hw := hw\<rparr>)" "tty_fits (?t\<lparr>t_hw := hw\<rparr>)"
      by (auto simp: word_less_nat_alt)
    have "0 < t_wc t" using tty_fits_size(3) [OF f(1)] by (simp add: word_less_nat_alt)
    with ttyCheckBoundaries_below [OF hw(2)] hw(1) 1 assms(2) show ?thesis by (simp add: ttyPutc_def)
  next
    case 2
    have "0 < t_wc t" using tty_fits_size(3) [OF f(1)] by (simp add: word_less_nat_alt)
    moreover have "tty_fits (t\<lparr>t_posx := 0\<rparr>)" using f(1) by (rule tty_fits_cong) simp_all
    ultimately show ?thesis using 2 f assms(2) by (simp add: ttyPutc_def tty_ok_iff)
  next
    case 3
    with assms show ?thesis by (simp add: ttyPutc_def)
  next
    case 4
    with assms ttyPutGlyph_fits [OF assms(1), of "of_char c"] show ?thesis by (simp add: ttyPutc_def)
  qed
qed

lemma ttyPuts_fits:
  assumes "tty_ok t" "\<not> t_escaping t" "ESC \<notin> set s"
  shows "\<exists>t'. ttyPuts s t = Some t' \<and> tty_ok t' \<and> \<not> t_escaping t'"
  using assms
proof (induction s arbitrary: t)
  case (Cons c s)
  then obtain t1 where "ttyPutc c t = Some t1" "tty_ok t1" "\<not> t_escaping t1" using ttyPutc_fits [of t c] by auto
  with Cons.IH [of t1] Cons.prems(3) show ?case by simp
qed simp

text \<open>Formatted output on a terminal in order: the rendered text is written completely and the terminal stays in order.\<close>

lemma printf_prints:
  assumes "list_all piece_ok ps" "tty_ok t" "\<not> t_escaping t" "ESC \<notin> set (concat (map render ps))"
  shows "\<exists>t'. printf (concat (map format_of ps)) (concat (map args_of ps)) t = Some (sum_list (map counted ps), t') \<and>
    ttyPuts (concat (map render ps)) t = Some t' \<and> tty_ok t'"
  using vprintf_pieces [OF assms(1)] ttyPuts_fits [OF assms(2-4)] by (auto simp: printf_def)

lemma ttyPuts_append: "ttyPuts (s @ s') t = do { t' \<leftarrow> ttyPuts s t; ttyPuts s' t' }"
proof (induction s arbitrary: t)
  case (Cons c s)
  then show ?case by (cases "ttyPutc c t") simp_all
qed simp

lemma puts_prints:
  assumes "tty_ok t" "\<not> t_escaping t" "ESC \<notin> set s"
  shows "\<exists>t'. puts s t = Some (int (length s) + 1, t') \<and> ttyPuts (s @ [CHR 0x0A]) t = Some t' \<and> tty_ok t'"
proof -
  have "ESC \<notin> set (s @ [CHR 0x0A])" using assms(3) by (simp add: ESC_def)
  from ttyPuts_fits [OF assms(1,2) this] show ?thesis unfolding ttyPuts_append by (auto simp: puts_def print_def split: Option.bind_splits)
qed

text \<open>
  C40: writing to the terminal. From a terminal in order, any text without escape sequences is written completely: every access to the two
  buffers and to the font is inside them, wherever the cursor is and however often the screen scrolls, and the terminal
  is in order again, with its cursor on the screen. An escape sequence is only as safe as its length: 257
  characters after an escape, none of which ends the sequence or the line, leave the terminal's array.
\<close>

theorem ttyPuts_stays_inside:
  assumes "tty_ok t" "\<not> t_escaping t" "ESC \<notin> set s"
  shows "(\<exists>t'. ttyPuts s t = Some t' \<and> tty_ok t' \<and> \<not> t_escaping t') \<and>
    (length s = 257 \<and> set s \<inter> {CHR ''m'', CHR 0x0A, CHR 0x0D} = {} \<longrightarrow> ttyPuts (ESC # s) t = None)"
proof
  show "\<exists>t'. ttyPuts s t = Some t' \<and> tty_ok t' \<and> \<not> t_escaping t'" using assms by (rule ttyPuts_fits)
  have "ttyPuts s u = (if length (t_escape u) + length s \<le> 256 then Some (u\<lparr>t_escape := t_escape u @ s\<rparr>) else None)"
    if "t_escaping u" "length (t_escape u) \<le> 256" "set s \<inter> {CHR ''m'', CHR 0x0A, CHR 0x0D, ESC} = {}" for u s
    using that
  proof (induction s arbitrary: u)
    case (Cons c s)
    then show ?case by (auto simp: ttyPutc_def Let_def)
  qed simp
  from this [of "t\<lparr>t_escape := [], t_escaping := True\<rparr>" s] assms(3)
  show "length s = 257 \<and> set s \<inter> {CHR ''m'', CHR 0x0A, CHR 0x0D} = {} \<longrightarrow> ttyPuts (ESC # s) t = None"
    by (auto simp: ttyPutc_def ESC_def)
qed

text \<open>A screen of 16 by 16 pixels: two characters on one line.\<close>

theorem ttyPuts_stays_inside_witness:
  "\<exists>t t'. ttyInit 16 16 32 64 (replicate 1024 0) = Some t \<and> ttyPuts ''abc'' t = Some t' \<and> tty_ok t' \<and>
    ttyPuts (ESC # replicate 257 CHR ''a'') t = None"
proof -
  obtain fb where fb: "fillLines 16 16 0 64 (ttyColors ! 0) (replicate 1024 0) = Some fb" "length fb = 1024"
    using fillLines_fits [of 16 0 64 16 "replicate 1024 0" "ttyColors ! 0"] by auto
  define t where "t = \<lparr>t_w = 16, t_h = 16, t_wc = 2, t_hc = 1, t_bpp = 32, t_bytesPerPixel = 4, t_posx = 0, t_posy = 0,
    t_fg = ttyColors ! 7, t_bg = ttyColors ! 0, t_pitch = 64, t_fb = fb, t_hw = None, t_escape = [], t_escaping = False\<rparr>"
  have i: "ttyInit 16 16 32 64 (replicate 1024 0) = Some t"
    using fb(1) by (simp add: ttyInit_def t_def FONT_WIDTH_def FONT_HEIGHT_def)
  have ok: "tty_ok t" "\<not> t_escaping t" using fb(2) by (simp_all add: t_def tty_ok_def)
  show ?thesis
    using i ttyPuts_stays_inside [OF ok, of "''abc''"] ttyPuts_stays_inside [OF ok, of "replicate 257 CHR ''a''"]
    by (auto simp: ESC_def)
qed

end
