(* ===== verification/Exec.thy ===== *)
theory Exec
  imports Memory Libc
begin

text \<open>
  Programs: the user heap of \<^verbatim>\<open>src/src/libc/stdlib.c\<close> (\<open>umalloc()\<close>, \<open>uxmalloc()\<close>, \<open>free()\<close>), the set-up of a
  user thread in \<^verbatim>\<open>platform/x86_64/ipc/signal.c\<close> and \<^verbatim>\<open>platform/x86_64/sched/context.c\<close>, the ELF loader of
  \<^verbatim>\<open>src/src/sched/elf.c\<close> and the \<open>exec\<close> calls of \<^verbatim>\<open>src/src/sched/exec.c\<close>. Every access of the kernel to user
  memory first makes the pages present, through the page-fault handler, and \<open>None\<close> is a fault that
  cannot be served, or a read outside the image of the program. The parameter \<open>sigstub\<close> is the assembled
  code of \<^verbatim>\<open>sigstub.asm\<close>. A context is part of its thread, so replacing it also frees it; the heap lock
  is taken and released inside each call.
\<close>

section \<open>Access to user memory\<close>

definition touch :: "u32 \<Rightarrow> u64 \<Rightarrow> kernel \<Rightarrow> kernel option" where
  "touch access a k =
     do { (s, _) \<leftarrow> vmmPageStatus (k_vm k) a;
          if s AND PLATFORM_PAGE_PRESENT \<noteq> 0 then Some k
          else do { (r, v) \<leftarrow> vmmPageFault (k_vm k) a access; if r = 0 then Some (k\<lparr>k_vm := v\<rparr>) else None } }"

definition load8 :: "u64 \<Rightarrow> kernel \<Rightarrow> (u8 \<times> kernel) option" where
  "load8 a k = do { k' \<leftarrow> touch 0 a k; Some (user_get k' a, k') }"

definition load64 :: "u64 \<Rightarrow> kernel \<Rightarrow> (u64 \<times> kernel) option" where
  "load64 a k = do { k1 \<leftarrow> touch 0 a k; k2 \<leftarrow> touch 0 (a + 7) k1; Some (user_read64 k2 a, k2) }"

text \<open>A C string, read byte by byte up to its terminator.\<close>

partial_function (option) loadString :: "u64 \<Rightarrow> kernel \<Rightarrow> (string \<times> kernel) option" where
  "loadString a k =
     do { (b, k1) \<leftarrow> load8 a k;
          if b = 0 then Some ([], k1)
          else do { (s, k2) \<leftarrow> loadString (a + 1) k1; Some (char_of (unat b) # s, k2) } }"

text \<open>A vector of pointers, read up to the null pointer: \<open>for(argc = 0; argv[argc]; argc++)\<close>.\<close>

partial_function (option) loadVector :: "u64 \<Rightarrow> kernel \<Rightarrow> (u64 list \<times> kernel) option" where
  "loadVector a k =
     do { (p, k1) \<leftarrow> load64 a k;
          if p = 0 then Some ([], k1)
          else do { (ps, k2) \<leftarrow> loadVector (a + 8) k1; Some (p # ps, k2) } }"

text \<open>\<open>memcpy()\<close> and \<open>memset()\<close> to user addresses, page by page.\<close>

definition pagesTouched :: "u64 \<Rightarrow> nat \<Rightarrow> nat" where
  "pagesTouched a n = (if n = 0 then 0 else (unat (a AND (PAGE_SIZE - 1)) + n + 4095) div 4096)"

definition put_user :: "u64 \<Rightarrow> u8 list \<Rightarrow> kernel \<Rightarrow> kernel option" where
  "put_user a bs k =
     do { v \<leftarrow> touchPages (pagesTouched a (length bs)) (k_vm k) (pageBase a);
          Some (user_write a bs (k\<lparr>k_vm := v\<rparr>)) }"

section \<open>The heap of the kernel in user space\<close>

definition sizeof_mallocHeader :: u64 where "sizeof_mallocHeader = 16"

definition heapAllocate :: "u32 \<Rightarrow> u64 \<Rightarrow> kernel \<Rightarrow> (u64 \<times> kernel) option" where
  "heapAllocate flags n k =
     (if n = 0 then Some (0, k) else do {
        let pageSize = (n + sizeof_mallocHeader + PAGE_SIZE - 1) div PAGE_SIZE;
        (ptr, v) \<leftarrow> vmmAllocate (k_vm k) USER_HEAP_BASE USER_HEAP_LIMIT pageSize flags;
        if ptr = 0 then Some (0, k\<lparr>k_vm := v\<rparr>)
        else do {
          k1 \<leftarrow> put_user ptr (bytesOf n @ bytesOf pageSize) (k\<lparr>k_vm := v\<rparr>);
          (_, v') \<leftarrow> platformMapPage (k_vm k1) (ptr + pageSize * PAGE_SIZE) 0 0;
          Some (ptr + sizeof_mallocHeader, k1\<lparr>k_vm := v'\<rparr>) } })"

definition umalloc :: "u64 \<Rightarrow> kernel \<Rightarrow> (u64 \<times> kernel) option" where
  "umalloc = heapAllocate (VMM_WRITE OR VMM_USER)"

definition uxmalloc :: "u64 \<Rightarrow> kernel \<Rightarrow> (u64 \<times> kernel) option" where
  "uxmalloc = heapAllocate (VMM_WRITE OR VMM_USER OR VMM_EXEC)"

definition ufree :: "u64 \<Rightarrow> kernel \<Rightarrow> kernel option" where
  "ufree ptr k =
     (if ptr = 0 then Some k else do {
        (n, k1) \<leftarrow> load64 (pageBase ptr + 8) k;
        (_, v) \<leftarrow> vmmFree (k_vm k1) (pageBase ptr) n;
        Some (k1\<lparr>k_vm := v\<rparr>) })"

section \<open>User threads\<close>

definition sizeof_siginfo :: u64 where "sizeof_siginfo = 40"
definition PLATFORM_CONTEXT_SIZE :: u64 where "PLATFORM_CONTEXT_SIZE = 8876"

definition platformSignalSetup :: "u8 list \<Rightarrow> ptr \<Rightarrow> kernel \<Rightarrow> (int \<times> kernel) option" where
  "platformSignalSetup sigstub t k =
     do { (trampoline, k1) \<leftarrow> uxmalloc (of_nat (length sigstub)) k;
          if trampoline = 0 then Some (-1, k1) else do {
          (siginfo, k2) \<leftarrow> umalloc sizeof_siginfo k1;
          if siginfo = 0 then do { k3 \<leftarrow> ufree trampoline k2; Some (-1, k3) } else do {
          (sigctx, k3) \<leftarrow> umalloc PLATFORM_CONTEXT_SIZE k2;
          if sigctx = 0 then do { k4 \<leftarrow> ufree trampoline k3; k5 \<leftarrow> ufree siginfo k4; Some (-1, k5) } else do {
          k4 \<leftarrow> put_user trampoline sigstub k3;
          Some (0, upd_thread t (\<lambda>x. x\<lparr>th_signalTrampoline := trampoline, th_siginfo := siginfo,
            th_signalUserContext := sigctx\<rparr>) k4) }}}}"

text \<open>
  Argument vectors reach \<open>platformSetContext()\<close> as copies in the kernel's heap, as an address in user
  memory, or not at all.
\<close>

datatype argv = NoArgs | Copied "string list" | Vector u64

definition argCount :: "argv \<Rightarrow> kernel \<Rightarrow> (nat \<times> kernel) option" where
  "argCount v k =
     (case v of NoArgs \<Rightarrow> Some (0, k) | Copied ss \<Rightarrow> Some (length ss, k)
      | Vector a \<Rightarrow> do { (ps, k') \<leftarrow> loadVector a k; Some (length ps, k') })"

definition argString :: "argv \<Rightarrow> nat \<Rightarrow> kernel \<Rightarrow> (string \<times> kernel) option" where
  "argString v i k =
     (case v of NoArgs \<Rightarrow> None | Copied ss \<Rightarrow> if i < length ss then Some (ss ! i, k) else None
      | Vector a \<Rightarrow> do { (p, k') \<leftarrow> load64 (a + 8 * of_nat i) k; loadString p k' })"

text \<open>The loop over the arguments: a page each, the string into it, its address into the vector.\<close>

fun copyArgs :: "nat list \<Rightarrow> argv \<Rightarrow> u64 \<Rightarrow> u64 \<Rightarrow> kernel \<Rightarrow> (bool \<times> kernel) option" where
  "copyArgs [] v base args k = Some (True, k)"
| "copyArgs (i # is) v base args k =
     do { (p, m) \<leftarrow> vmmAllocate (k_vm k) base USER_LIMIT_ADDRESS 1 (VMM_WRITE OR VMM_USER);
          k1 \<leftarrow> put_user (args + 8 * of_nat i) (bytesOf p) (k\<lparr>k_vm := m\<rparr>);
          if p = 0 then Some (False, k1)
          else do {
            (s, k2) \<leftarrow> argString v i k1;
            k3 \<leftarrow> put_user p (stringBytes s) k2;
            copyArgs is v base args k3 } }"

text \<open>One vector: its address, zero when memory ran out. No vector is passed on as it is.\<close>

definition passVector :: "argv \<Rightarrow> u64 \<Rightarrow> kernel \<Rightarrow> (u64 option \<times> kernel) option" where
  "passVector v base k =
     (if v = NoArgs then Some (Some 0, k) else do {
        (argc, k1) \<leftarrow> argCount v k;
        (args, m) \<leftarrow> vmmAllocate (k_vm k1) base USER_LIMIT_ADDRESS 1 (VMM_WRITE OR VMM_USER);
        let k2 = k1\<lparr>k_vm := m\<rparr>;
        if args = 0 then Some (None, k2) else do {
        (ok, k3) \<leftarrow> copyArgs [0..<argc] v base args k2;
        if \<not> ok then Some (None, k3) else do {
        k4 \<leftarrow> put_user (args + 8 * of_nat argc) (bytesOf 0) k3;
        Some (Some args, k4) }}})"

definition setRegs :: "ptr \<Rightarrow> (ThreadContext \<Rightarrow> ThreadContext) \<Rightarrow> kernel \<Rightarrow> kernel" where
  "setRegs t f = upd_thread t (\<lambda>x. x\<lparr>th_context := f (th_context x)\<rparr>)"

definition platformSetContext :: "u8 list \<Rightarrow> ptr \<Rightarrow> u64 \<Rightarrow> u64 \<Rightarrow> argv \<Rightarrow> argv \<Rightarrow> kernel \<Rightarrow> (int \<times> kernel) option" where
  "platformSetContext sigstub t entry highest argv envp k =
     do { (s, k1) \<leftarrow> platformSignalSetup sigstub t k;
          if s \<noteq> 0 then Some (-1, k1) else do {
          let k2 = setRegs t (\<lambda>c. c\<lparr>cx_rip := entry\<rparr>) k1;
          let base = pageBase (highest + (PAGE_SIZE - 1)) + PAGE_SIZE;
          (args, k3) \<leftarrow> passVector argv base k2;
          case args of None \<Rightarrow> Some (-1, k3) | Some args \<Rightarrow> do {
          (envs, k4) \<leftarrow> passVector envp base (setRegs t (\<lambda>c. c\<lparr>cx_rdi := args\<rparr>) k3);
          case envs of None \<Rightarrow> Some (-1, k4) | Some envs \<Rightarrow> do {
          let k5 = setRegs t (\<lambda>c. c\<lparr>cx_rsi := envs\<rparr>) k4;
          let pages = (PLATFORM_THREAD_STACK + PAGE_SIZE - 1) div PAGE_SIZE + 1;
          (stack, v) \<leftarrow> vmmAllocate (k_vm k5) base USER_LIMIT_ADDRESS pages (VMM_WRITE OR VMM_USER);
          let k6 = k5\<lparr>k_vm := v\<rparr>;
          if stack = 0 then Some (-1, k6) else do {
          k7 \<leftarrow> clearPages stack pages k6;
          let top = stack + PLATFORM_THREAD_STACK;
          Some (0, upd_thread t (\<lambda>x. x\<lparr>th_highest := top + PAGE_SIZE,
             th_pages := int32 (uint ((top + PAGE_SIZE - USER_BASE_ADDRESS + PAGE_SIZE - 1) div PAGE_SIZE))\<rparr>)
             (setRegs t (\<lambda>c. c\<lparr>cx_rsp := top\<rparr>) k7)) }}}}}"

section \<open>The ELF loader\<close>

text \<open>The field of \<open>n\<close> bytes at an offset of the image, little endian.\<close>

definition elf_field :: "u8 list \<Rightarrow> u64 \<Rightarrow> nat \<Rightarrow> u64 option" where
  "elf_field img off n =
     (if unat off + n \<le> length img then Some (fromBytes (take n (drop (unat off) img))) else None)"

record ELFFileHeader =
  eh_magic :: "u64 list"
  eh_isaWidth :: u64
  eh_type :: u64
  eh_isa :: u64
  eh_entryPoint :: u64
  eh_headerTable :: u64
  eh_headerEntrySize :: u64
  eh_headerEntryCount :: u64

record ELFProgramHeader =
  ph_segmentType :: u64
  ph_flags :: u64
  ph_fileOffset :: u64
  ph_virtualAddress :: u64
  ph_fileSize :: u64
  ph_memorySize :: u64

definition sizeof_ELFFileHeader :: int where "sizeof_ELFFileHeader = 64"
definition ELF_ISA_WIDTH_64 :: u64 where "ELF_ISA_WIDTH_64 = 2"
definition ELF_ARCHITECTURE :: u64 where "ELF_ARCHITECTURE = 0x3E"
definition ELF_TYPE_EXEC :: u64 where "ELF_TYPE_EXEC = 2"
definition ELF_SEGMENT_TYPE_NULL :: u64 where "ELF_SEGMENT_TYPE_NULL = 0"
definition ELF_SEGMENT_TYPE_LOAD :: u64 where "ELF_SEGMENT_TYPE_LOAD = 1"
definition ELF_SEGMENT_FLAGS_EXEC :: u64 where "ELF_SEGMENT_FLAGS_EXEC = 1"
definition ELF_SEGMENT_FLAGS_WRITE :: u64 where "ELF_SEGMENT_FLAGS_WRITE = 2"

definition fileHeader :: "u8 list \<Rightarrow> ELFFileHeader option" where
  "fileHeader img =
     do { m0 \<leftarrow> elf_field img 0 1; m1 \<leftarrow> elf_field img 1 1; m2 \<leftarrow> elf_field img 2 1; m3 \<leftarrow> elf_field img 3 1;
          w \<leftarrow> elf_field img 4 1; ty \<leftarrow> elf_field img 16 2; isa \<leftarrow> elf_field img 18 2; entry \<leftarrow> elf_field img 24 8;
          table \<leftarrow> elf_field img 32 8; sz \<leftarrow> elf_field img 54 2; n \<leftarrow> elf_field img 56 2;
          Some \<lparr>eh_magic = [m0, m1, m2, m3], eh_isaWidth = w, eh_type = ty, eh_isa = isa, eh_entryPoint = entry,
            eh_headerTable = table, eh_headerEntrySize = sz, eh_headerEntryCount = n\<rparr> }"

definition programHeader :: "u8 list \<Rightarrow> u64 \<Rightarrow> ELFProgramHeader option" where
  "programHeader img off =
     do { ty \<leftarrow> elf_field img off 4; fl \<leftarrow> elf_field img (off + 4) 4; fo \<leftarrow> elf_field img (off + 8) 8;
          va \<leftarrow> elf_field img (off + 16) 8; fs \<leftarrow> elf_field img (off + 32) 8; ms \<leftarrow> elf_field img (off + 40) 8;
          Some \<lparr>ph_segmentType = ty, ph_flags = fl, ph_fileOffset = fo, ph_virtualAddress = va, ph_fileSize = fs,
            ph_memorySize = ms\<rparr> }"

text \<open>\<open>loadELF()\<close> refuses a file before it maps anything:\<close>

definition elfAccepted :: "ELFFileHeader \<Rightarrow> bool" where
  "elfAccepted h \<longleftrightarrow> eh_magic h = [0x7F, 0x45, 0x4C, 0x46] \<and> eh_isaWidth h = ELF_ISA_WIDTH_64 \<and>
     eh_isa h = ELF_ARCHITECTURE \<and> eh_type h = ELF_TYPE_EXEC \<and> eh_headerEntryCount h \<noteq> 0"

definition segmentPages :: "ELFProgramHeader \<Rightarrow> u64" where
  "segmentPages h = (ph_memorySize h + PAGE_SIZE - 1) div PAGE_SIZE +
     (if ph_virtualAddress h mod PAGE_SIZE \<noteq> 0 then 1 else 0)"

definition segmentFlags :: "ELFProgramHeader \<Rightarrow> u32" where
  "segmentFlags h = VMM_USER OR VMM_WRITE OR (if ph_flags h AND ELF_SEGMENT_FLAGS_EXEC \<noteq> 0 then VMM_EXEC else 0)"

definition segmentInUser :: "ELFProgramHeader \<Rightarrow> bool" where
  "segmentInUser h \<longleftrightarrow> ph_virtualAddress h \<ge> USER_BASE_ADDRESS \<and>
     ph_virtualAddress h + ph_memorySize h \<le> USER_LIMIT_ADDRESS"

text \<open>One segment. \<open>overlap\<close> stays set once a segment did not get the pages it asked for; \<open>None\<close> in the result is \<open>return 0\<close>.\<close>

definition loadSegment :: "u8 list \<Rightarrow> ELFProgramHeader \<Rightarrow> bool \<Rightarrow> kernel \<Rightarrow> (bool option \<times> kernel) option" where
  "loadSegment img h overlap k =
     (if \<not> segmentInUser h then Some (None, k)
      else do {
        let va = ph_virtualAddress h; let pages = segmentPages h; let flags = segmentFlags h;
        (vp, v) \<leftarrow> vmmAllocate (k_vm k) va USER_LIMIT_ADDRESS pages flags;
        let k1 = k\<lparr>k_vm := v\<rparr>;
        if vp = 0 then Some (None, k1) else do {
        let overlap' = (overlap \<or> vp \<noteq> va AND NOT (PAGE_SIZE - 1));
        k2 \<leftarrow> put_user va (replicate (unat (ph_memorySize h)) 0) k1;
        if unat (ph_fileOffset h) + unat (ph_fileSize h) > length img then None else do {
        k3 \<leftarrow> put_user va (take (unat (ph_fileSize h)) (drop (unat (ph_fileOffset h)) img)) k2;
        let flags' = (if ph_flags h AND ELF_SEGMENT_FLAGS_WRITE = 0 then flags AND NOT VMM_WRITE else flags);
        if overlap' then Some (Some overlap', k3)
        else do { (_, v') \<leftarrow> vmmSetFlags (k_vm k3) va pages flags'; Some (Some overlap', k3\<lparr>k_vm := v'\<rparr>) } }}})"

text \<open>The loop over the program headers: the highest address, \<open>None\<close> when a header makes it give up.\<close>

fun loadSegments :: "nat \<Rightarrow> u8 list \<Rightarrow> u64 \<Rightarrow> u64 \<Rightarrow> u64 \<Rightarrow> bool \<Rightarrow> kernel \<Rightarrow> (u64 option \<times> kernel) option" where
  "loadSegments 0 img off entrySize addr overlap k = Some (Some addr, k)"
| "loadSegments (Suc n) img off entrySize addr overlap k =
     do { h \<leftarrow> programHeader img off;
          if ph_segmentType h = ELF_SEGMENT_TYPE_NULL
          then loadSegments n img (off + entrySize) entrySize addr overlap k
          else if ph_segmentType h = ELF_SEGMENT_TYPE_LOAD then do {
            (r, k1) \<leftarrow> loadSegment img h overlap k;
            case r of None \<Rightarrow> Some (None, k1)
            | Some overlap' \<Rightarrow> loadSegments n img (off + entrySize) entrySize
                (max addr (ph_virtualAddress h + ph_memorySize h)) overlap' k1 }
          else Some (None, k) }"

text \<open>The entry point, and the highest address when \<open>*highest\<close> was written.\<close>

definition loadELF :: "u8 list \<Rightarrow> kernel \<Rightarrow> (u64 \<times> u64 option \<times> kernel) option" where
  "loadELF img k =
     do { h \<leftarrow> fileHeader img;
          if \<not> elfAccepted h then Some (0, None, k)
          else do {
            (r, k1) \<leftarrow> loadSegments (unat (eh_headerEntryCount h)) img (eh_headerTable h) (eh_headerEntrySize h) 0 False k;
            Some (case r of None \<Rightarrow> (0, None, k1) | Some addr \<Rightarrow> (eh_entryPoint h, Some addr, k1)) } }"

section \<open>exec\<close>

definition COMMAND_EXEC :: u16 where "COMMAND_EXEC = 0x800F"
definition sizeof_ExecCommand :: u64 where "sizeof_ExecCommand = 2112"

text \<open>
  \<open>execveMemory()\<close>, the start of the first user program. \<open>junk\<close> is what the uninitialised variable
  \<open>highest\<close> holds when the loader does not write it.
\<close>

definition execFail :: "ptr \<Rightarrow> ptr \<Rightarrow> kernel \<Rightarrow> (int \<times> kernel) option" where
  "execFail p t k = Some (0, schedRelease (freeProcess p (freeThread t k)))"

definition execveMemory :: "u8 list \<Rightarrow> int list \<Rightarrow> u64 \<Rightarrow> u8 list \<Rightarrow> argv \<Rightarrow> argv \<Rightarrow> kernel \<Rightarrow> (int \<times> kernel) option" where
  "execveMemory sigstub rs junk img argv envp k =
     do { k1 \<leftarrow> schedLock k;
          (pid, k2) \<leftarrow> processCreate rs k1;
          if pid = 0 then Some (0, schedRelease k2) else do {
          p \<leftarrow> getProcess k2 pid;
          _ \<leftarrow> k_proc k2 p;
          let k3 = upd_proc p (\<lambda>x. x\<lparr>pr_command := ''lumen''\<rparr>) k2;
          let (ts, k4) = kalloc k3;
          if ts = 0 then Some (0, schedRelease (freeProcess p k4)) else do {
          let (t, k5) = kalloc k4;
          if t = 0 then Some (0, schedRelease (freeProcess p k5)) else do {
          let k6 = upd_proc p (\<lambda>x. x\<lparr>pr_threads := [t]\<rparr>)
            (k5\<lparr>k_thread := (k_thread k5)(t \<mapsto> thread0\<lparr>th_status := THREAD_QUEUED, th_pid := pid, th_tid := pid\<rparr>)\<rparr>);
          let (cx, k7) = kalloc k6;
          if cx = 0 then execFail p t k7 else do {
          (c, k8) \<leftarrow> platformCreateContext True 0 0 k7;
          case c of None \<Rightarrow> execFail p t k8
          | Some c \<Rightarrow> do {
              (_, k9) \<leftarrow> threadUseContext pid (upd_thread t (\<lambda>x. x\<lparr>th_context := c\<rparr>) k8);
              (entry, highest, k10) \<leftarrow> loadELF img k9;
              (s, k11) \<leftarrow> platformSetContext sigstub t entry (case highest of None \<Rightarrow> junk | Some h \<Rightarrow> h) argv envp k10;
              if s \<noteq> 0 then do { (_, k12) \<leftarrow> threadUseContext (getTid k11) k11; execFail p t k12 }
              else do {
                y \<leftarrow> k_thread k11 t;
                let k12 = upd_proc p (\<lambda>x. x\<lparr>pr_pages := th_pages y\<rparr>) k11;
                (_, k13) \<leftarrow> threadUseContext (getTid k12)
                  (k12\<lparr>k_processes := k_processes k12 + 1, k_threads := k_threads k12 + 1\<rparr>);
                Some (pid, schedRelease k13) } } }}}}}"

definition execve :: "ptr \<Rightarrow> u64 \<Rightarrow> string \<Rightarrow> kernel \<Rightarrow> (int \<times> kernel) option" where
  "execve t i name k =
     (if length name > MAX_PATH then Some (- ENAMETOOLONG, k)
      else (let (c, k1) = kalloc k in
        if c = 0 then Some (- ENOMEM, k1)
        else withProcess t (\<lambda>p px. do {
          path \<leftarrow> absolutePath px name;
          requestServer t 0 sizeof_ExecCommand
            (CExec \<lparr>mh_command = COMMAND_EXEC, mh_length = sizeof_ExecCommand, mh_response = False, mh_latency = 0,
               mh_status = 0, mh_requester = 0, sh_id = ucast i, exec_path = path, exec_uid = pr_user px,
               exec_gid = pr_group px, exec_elf = []\<rparr>) k1 }) k1))"

text \<open>The loop over the descriptors that are closed on \<open>exec\<close>; the objects behind them keep their references.\<close>

fun closeOnExec :: "nat list \<Rightarrow> ptr \<Rightarrow> kernel \<Rightarrow> kernel option" where
  "closeOnExec [] p k = Some k"
| "closeOnExec (i # is) p k =
     do { x \<leftarrow> k_proc k p;
          let d = pr_io x ! i;
          closeOnExec is p (if io_valid d \<and> io_flags d AND O_CLOEXEC \<noteq> 0
            then upd_proc p (\<lambda>x. x\<lparr>pr_iodCount := pr_iodCount x - 1\<rparr>) (upd_io p i (\<lambda>_. iod0) k) else k) }"

text \<open>\<open>execmve()\<close>: \<open>junk\<close> is the content of the memory for the new signal handlers.\<close>

definition execmve :: "u8 list \<Rightarrow> sigaction list \<Rightarrow> ptr \<Rightarrow> u8 list \<Rightarrow> argv \<Rightarrow> argv \<Rightarrow> kernel \<Rightarrow> (int \<times> kernel) option" where
  "execmve sigstub junk t img argv envp k =
     do { x \<leftarrow> k_thread k t;
          let (cx, k1) = kalloc k;
          if cx = 0 then Some (-1, k1) else do {
          (c, k2) \<leftarrow> platformCreateContext True 0 0 k1;
          case c of None \<Rightarrow> Some (-1, k2)
          | Some c \<Rightarrow> do {
              (_, k3) \<leftarrow> threadUseContext (th_tid x) (upd_thread t (\<lambda>x. x\<lparr>th_context := c\<rparr>) k2);
              (entry, highest, k4) \<leftarrow> loadELF img k3;
              let restored = upd_thread t (\<lambda>y. y\<lparr>th_context := th_context x\<rparr>);
              if entry = 0 \<or> highest = None \<or> highest = Some 0 then Some (-1, schedRelease (restored k4))
              else do {
                (s, k5) \<leftarrow> platformSetContext sigstub t entry (the highest) argv envp k4;
                if s \<noteq> 0 then Some (-1, restored k5)
                else do {
                  p \<leftarrow> getProcess k5 (th_tid x);
                  _ \<leftarrow> k_proc k5 p;
                  k6 \<leftarrow> closeOnExec [0..<MAX_IO_DESCRIPTORS] p (upd_proc p (\<lambda>x. x\<lparr>pr_umask := 0\<rparr>) k5);
                  let (sigs, k7) = signalDefaults junk k6;
                  v \<leftarrow> platformCleanThread (th_context x) (th_highest x) (k_vm k7);
                  k8 \<leftarrow> schedAdjustTimeslice (upd_thread t (\<lambda>y. y\<lparr>th_signals := sigs, th_signalMask := 0,
                    th_status := THREAD_QUEUED\<rparr>) (k7\<lparr>k_vm := v\<rparr>));
                  Some (0, k8) } } } } }"

text \<open>
  \<open>execveHandle()\<close>: the answer to \<open>execve()\<close>. Arguments and environment are copied out of the memory of
  the calling thread. The command line of the process is rebuilt from them; a name or command line that
  overruns its array is a fault.
\<close>

fun copyVector :: "u64 list \<Rightarrow> kernel \<Rightarrow> (string list option \<times> kernel) option" where
  "copyVector [] k = Some (Some [], k)"
| "copyVector (a # as) k =
     (let (m, k1) = kalloc k in
      if m = 0 then Some (None, k1)
      else do { (s, k2) \<leftarrow> loadString a k1; (r, k3) \<leftarrow> copyVector as k2; Some (map_option ((#) s) r, k3) })"

definition COMMAND_MAX :: nat where "COMMAND_MAX = 128 * 32"

text \<open>The loop over the arguments, which also builds \<open>p->name\<close> and \<open>p->command\<close>.\<close>

fun copyArgv :: "ptr \<Rightarrow> bool \<Rightarrow> u64 list \<Rightarrow> kernel \<Rightarrow> (string list option \<times> kernel) option" where
  "copyArgv p first [] k = Some (Some [], k)"
| "copyArgv p first (a # as) k =
     (let (m, k1) = kalloc k in
      if m = 0 then Some (None, k1)
      else do {
        (s, k2) \<leftarrow> loadString a k1;
        px \<leftarrow> k_proc k2 p;
        name \<leftarrow> (if first then fits MAX_PATH s else Some (pr_name px));
        command \<leftarrow> fits COMMAND_MAX (if first then s else pr_command px @ '' '' @ s);
        (r, k3) \<leftarrow> copyArgv p False as (upd_proc p (\<lambda>x. x\<lparr>pr_name := name, pr_command := command\<rparr>) k2);
        Some (map_option ((#) s) r, k3) })"

definition execveHandle :: "u8 list \<Rightarrow> sigaction list \<Rightarrow> ExecCommand \<Rightarrow> kernel \<Rightarrow> (int \<times> kernel) option" where
  "execveHandle sigstub junk cmd k =
     do { t \<leftarrow> getThread k (mh_requester cmd);
          if t = 0 then Some (- ESRCH, k) else do {
          x \<leftarrow> k_thread k t;
          p \<leftarrow> getProcess k (th_pid x);
          if p = 0 then Some (- ESRCH, k) else do {
          (_, k1) \<leftarrow> threadUseContext (th_tid x) k;
          (as, k2) \<leftarrow> loadVector (rq_params (th_syscall x) ! 1) k1;
          (es, k3) \<leftarrow> loadVector (rq_params (th_syscall x) ! 2) k2;
          let (m1, k4) = kalloc k3;
          let (m2, k5) = kalloc k4;
          if m1 = 0 \<or> m2 = 0 then Some (- ENOMEM, k5) else do {
          (argv, k6) \<leftarrow> copyArgv p True as (upd_proc p (\<lambda>x. x\<lparr>pr_command := []\<rparr>) k5);
          case argv of None \<Rightarrow> Some (- ENOMEM, k6)
          | Some argv \<Rightarrow> do {
              (envp, k7) \<leftarrow> copyVector es k6;
              case envp of None \<Rightarrow> Some (- ENOMEM, k7)
              | Some envp \<Rightarrow> execmve sigstub junk t (exec_elf cmd) (Copied argv) (Copied envp) k7 } }}}}"

text \<open>
  \<open>execrdv()\<close>: a program from the ramdisk. The argument vector is an address in the memory of the
  caller, but \<open>execmve()\<close> follows it after the switch to the new address space. The size is compared as
  an unsigned number: a missing file, of size \<open>-1\<close>, passes the test.
\<close>

definition execrdv :: "u8 list \<Rightarrow> sigaction list \<Rightarrow> ptr \<Rightarrow> string \<Rightarrow> u64 \<Rightarrow> kernel \<Rightarrow> (int \<times> kernel) option" where
  "execrdv sigstub junk t name argv k =
     do { k1 \<leftarrow> schedLock k;
          x \<leftarrow> k_thread k1 t;
          p \<leftarrow> getProcess k1 (th_pid x);
          if p = 0 then Some (- ESRCH, schedRelease k1) else do {
          n \<leftarrow> fits MAX_PATH name;
          let k2 = upd_proc p (\<lambda>x. x\<lparr>pr_name := n, pr_command := n\<rparr>) k1;
          len \<leftarrow> ramdiskFileSize (k_ramdisk k2) (stringBytes name);
          if 0 \<le> len \<and> len \<le> sizeof_ELFFileHeader then Some (-1, schedRelease k2) else do {
          let (m, k3) = kalloc k2;
          if m = 0 then Some (-1, schedRelease k3) else do {
          (got, img) \<leftarrow> ramdiskRead (k_ramdisk k3) (stringBytes name) (if len < 0 then 2 ^ 64 - 1 else nat len);
          if int got \<noteq> len then Some (-1, schedRelease k3) else do {
          (status, k4) \<leftarrow> execmve sigstub junk t img (if argv = 0 then NoArgs else Vector argv) NoArgs k3;
          Some (status, schedRelease k4) } } } } }"

section \<open>Specification vocabulary\<close>

definition blank_image :: "u8 list" where "blank_image = replicate 64 0"

section \<open>Bounds of segments\<close>

text \<open>
  The range check on segments. Where address plus size does not overflow, a segment is accepted exactly
  when it lies inside user space; but the sum is taken modulo \<open>2\<^sup>64\<close>, and every address above the
  limit of user space, the kernel's included, is accepted with a size that wraps around.
\<close>

theorem segment_check_wraps:
  "(unat (ph_virtualAddress h) + unat (ph_memorySize h) < 2 ^ 64 \<longrightarrow>
     (segmentInUser h \<longleftrightarrow> unat USER_BASE_ADDRESS \<le> unat (ph_virtualAddress h) \<and>
        unat (ph_virtualAddress h) + unat (ph_memorySize h) \<le> unat USER_LIMIT_ADDRESS)) \<and>
   (USER_LIMIT_ADDRESS < ph_virtualAddress h \<longrightarrow>
     segmentInUser (h\<lparr>ph_memorySize := - ph_virtualAddress h\<rparr>))"
proof -
  have "unat (ph_virtualAddress h + ph_memorySize h) = unat (ph_virtualAddress h) + unat (ph_memorySize h)"
    if "unat (ph_virtualAddress h) + unat (ph_memorySize h) < 2 ^ 64"
    using that by (simp add: unat_word_ariths)
  moreover have "USER_BASE_ADDRESS \<le> USER_LIMIT_ADDRESS" by (simp add: layout_defs)
  ultimately show ?thesis by (auto simp: segmentInUser_def word_le_nat_alt word_less_nat_alt)
qed

section \<open>Refused programs\<close>

lemma loadELF_refused:
  "fileHeader img = Some h \<Longrightarrow> \<not> elfAccepted h \<Longrightarrow> loadELF img k = Some (0, None, k)"
  by (simp add: loadELF_def)

lemma platformCreateContext_user:
  assumes "platformCloneKernelSpace (k_pagingRoot k) (k_vm k) = Some (space, v)"
  shows "\<exists>c. platformCreateContext True e a k = Some (Some c, k\<lparr>k_vm := v\<rparr>) \<and> cx_cr3 c = space - KERNEL_BASE_ADDRESS"
  using assms by (simp add: platformCreateContext_def Let_def)


section \<open>Witnesses\<close>

theorem segment_check_wraps_witness:
  "segmentInUser \<lparr>ph_segmentType = 1, ph_flags = 5, ph_fileOffset = 0, ph_virtualAddress = 0xFFFF800000000000,
     ph_fileSize = 0, ph_memorySize = - 0xFFFF800000000000\<rparr>"
  using segment_check_wraps [of "\<lparr>ph_segmentType = 1, ph_flags = 5, ph_fileOffset = 0,
    ph_virtualAddress = 0xFFFF800000000000, ph_fileSize = 0, ph_memorySize = 0\<rparr>"]
  by (simp add: layout_defs)

lemma blank_image_field: "unat off + n \<le> 64 \<Longrightarrow> elf_field blank_image off n = Some (fromBytes (replicate n 0))"
  by (simp add: elf_field_def blank_image_def del: replicate.simps)

lemma blank_image_header: "\<exists>h. fileHeader blank_image = Some h \<and> \<not> elfAccepted h"
  by (simp add: fileHeader_def blank_image_field elfAccepted_def fromBytes_def del: replicate.simps)

lemma platformCloneKernelSpace_returns:
  assumes "paging_inv v lv" "root < KERNEL_MMIO_LIMIT"
  shows "\<exists>r v'. platformCloneKernelSpace root v = Some (r, v')"
proof -
  obtain a pm where al: "pmmAllocate (vm_pmm v) = Some (a, pm)"
    using pool.alloc_returns paging_invD(1) [OF assms(1)] by blast
  show ?thesis
  proof (cases "a = 0")
    case False
    have "table_page (v\<lparr>vm_pmm := pm\<rparr>) a \<or> pageBase a = a \<and> a < KERNEL_MMIO_LIMIT"
      using alloc_table_page [OF paging_invD(1,3) [OF assms(1)] al False] by (auto simp: table_page_def)
    then show ?thesis
      using al copyPage_page [of a root "v\<lparr>vm_pmm := pm\<rparr>"] assms(2) False
      by (auto simp: platformCloneKernelSpace_def table_page_def)
  qed (use al in \<open>simp add: platformCloneKernelSpace_def\<close>)
qed


end
