(* ===== verification/Irq.thy ===== *)
theory Irq
  imports Procs
begin

text \<open>
  Interrupts as the rest of the kernel sees them: the table of handlers and their notification in
  \<^verbatim>\<open>src/src/irq.c\<close>, \<open>serverSocket()\<close> of \<^verbatim>\<open>src/src/servers/handle.c\<close>, and processor exceptions in
  \<^verbatim>\<open>platform/x86_64/cpu/exception.c\<close>. The table is \<open>None\<close> until the first handler is installed, then a list of the
  handlers of each pin; the number of devices is its length. Log output is left out.
\<close>

section \<open>Servers by name\<close>

definition serverSocket :: "string \<Rightarrow> kernel \<Rightarrow> int" where
  "serverSocket path k = (case find (\<lambda>(_, name). name = path) (k_connections k) of None \<Rightarrow> - 1 | Some (sd, _) \<Rightarrow> sd)"

section \<open>Interrupt handlers\<close>

definition COMMAND_IRQ :: u16 where "COMMAND_IRQ = 0xC000"
definition sizeof_IRQCommand :: u64 where "sizeof_IRQCommand = 56"

definition installIRQ :: "ptr \<Rightarrow> int \<Rightarrow> IRQHandler \<Rightarrow> kernel \<Rightarrow> (int \<times> kernel) option" where
  "installIRQ t0 pin h k =
     do { let t = (if t0 = 0 then k_kthread k else t0);
          x \<leftarrow> k_thread k t;
          p \<leftarrow> getProcess k (th_pid x);
          if p = 0 then Some (- ESRCH, k) else do {
          px \<leftarrow> k_proc k p;
          if pr_user px \<noteq> 0 then Some (- EPERM, k)
          else if ih_kernel h \<noteq> 0 \<and> t \<noteq> k_kthread k then Some (- EPERM, k)
          else if pin < 0 \<or> pin > platformGetMaxIRQ (k_apic k) then Some (- EIO, k)
          else do {
          let (ok, k1) = (case k_irqs k of
              Some _ \<Rightarrow> (True, k)
            | None \<Rightarrow> (let (m, k') = kalloc k in
                if m = 0 then (False, k')
                else (True, k'\<lparr>k_irqs := Some (replicate (nat (platformGetMaxIRQ (k_apic k)) + 1) [])\<rparr>)));
          if \<not> ok then Some (- ENOMEM, k1)
          else if k_irqLock k1 then None
          else do {
            (actual, a) \<leftarrow> platformConfigureIRQ pin (ih_level h) (ih_high h) (k_apic k1);
            let k2 = k1\<lparr>k_apic := a\<rparr>;
            if actual < 0 then Some (actual, k2)
            else (let (m, k3) = kalloc k2 in
              if m = 0 then Some (- ENOMEM, k3)
              else do {
                irqs \<leftarrow> k_irqs k3;
                if nat pin < length irqs
                then Some (actual, k3\<lparr>k_irqs := Some (irqs[nat pin := irqs ! nat pin @ [h]])\<rparr>)
                else None }) } } } }"

text \<open>The loop of \<open>dispatchIRQ()\<close>: one message to each driver that is connected.\<close>

fun notifyDrivers :: "IRQHandler list \<Rightarrow> payload \<Rightarrow> kernel \<Rightarrow> kernel option" where
  "notifyDrivers [] msg k = Some k"
| "notifyDrivers (h # hs) msg k =
     do { let sd = serverSocket (ih_driver h) k;
          k1 \<leftarrow> (if sd > 0 then map_option snd (send (k_kthread k) sd msg sizeof_IRQCommand k) else Some k);
          notifyDrivers hs msg k1 }"

definition irqMessage :: "u64 \<Rightarrow> payload" where
  "irqMessage pin = CIrq \<lparr>mh_command = COMMAND_IRQ, mh_length = sizeof_IRQCommand, mh_response = False, mh_latency = 0,
     mh_status = 0, mh_requester = 0, irq_pin = pin\<rparr>"

definition acknowledge :: "kernel \<Rightarrow> kernel" where
  "acknowledge k = k\<lparr>k_apic := platformAcknowledgeIRQ (k_apic k)\<rparr>"

definition dispatchIRQ :: "u64 \<Rightarrow> kernel \<Rightarrow> kernel option" where
  "dispatchIRQ pin k =
     do { irqs \<leftarrow> k_irqs k;
          if unat pin \<ge> length irqs then None
          else if irqs ! unat pin = [] then Some (acknowledge k)
          else do { k1 \<leftarrow> notifyDrivers (irqs ! unat pin) (irqMessage pin) k; Some (acknowledge k1) } }"

section \<open>Exceptions\<close>

definition PF_PRESENT :: u64 where "PF_PRESENT = 0x01"
definition PF_WRITE :: u64 where "PF_WRITE = 0x02"
definition PF_USER :: u64 where "PF_USER = 0x04"
definition PF_FETCH :: u64 where "PF_FETCH = 0x10"

text \<open>\<open>stubs\<close> are the entry points of the handlers in assembly code, by the number of the exception.\<close>

definition installExceptions :: "(nat \<Rightarrow> u64) \<Rightarrow> apic \<Rightarrow> apic" where
  "installExceptions stubs a =
     foldl (\<lambda>a i. installInterrupt (stubs i) (ucast GDT_KERNEL_CODE) PRIVILEGE_KERNEL INTERRUPT_TYPE_TRAP i a) a
       [0x00, 0x01, 0x02, 0x03, 0x04, 0x05, 0x06, 0x07, 0x08, 0x0A, 0x0B, 0x0C, 0x0D, 0x0E, 0x10, 0x11, 0x12, 0x13, 0x14, 0x15]"

definition faultAccess :: "u64 \<Rightarrow> u32" where
  "faultAccess code = (if code AND PF_FETCH \<noteq> 0 then VMM_PAGE_FAULT_FETCH else 0) OR
     (if code AND PF_USER \<noteq> 0 then VMM_PAGE_FAULT_USER else 0) OR (if code AND PF_WRITE \<noteq> 0 then VMM_PAGE_FAULT_WRITE else 0)"

text \<open>
  \<open>exception()\<close>: whether the interrupted code goes on (\<open>True\<close>) or the processor is given to another thread.
  An exception with no current process stops the kernel.
\<close>

definition exception :: "u64 \<Rightarrow> u64 \<Rightarrow> u64 \<Rightarrow> kernel \<Rightarrow> (bool \<times> kernel) option" where
  "exception number code cr2 k =
     do { (served, k1) \<leftarrow> (if number = 14 \<and> code AND PF_PRESENT = 0 then do {
              (r, v) \<leftarrow> vmmPageFault (k_vm k) cr2 (faultAccess code);
              Some (r = 0, k\<lparr>k_vm := v\<rparr>) }
            else Some (False, k));
          if served then Some (True, k1)
          else do {
            let k2 = setScheduling False k1;
            if getPid k2 > 0 then do {
              (killed, k3) \<leftarrow> schedException (getTid k2) k2;
              Some (killed = 0, setScheduling True k3) }
            else None } }"

section \<open>Specification vocabulary\<close>

text \<open>The handlers installed for a pin.\<close>

definition handlers :: "kernel \<Rightarrow> int \<Rightarrow> IRQHandler list" where
  "handlers k pin = (case k_irqs k of None \<Rightarrow> [] | Some irqs \<Rightarrow> irqs ! nat pin)"

definition irq_ok :: "kernel \<Rightarrow> bool" where
  "irq_ok k \<longleftrightarrow> (case k_irqs k of None \<Rightarrow> True | Some irqs \<Rightarrow> length irqs = nat (platformGetMaxIRQ (k_apic k)) + 1)"

section \<open>Installing handlers\<close>

lemma configure_returns:
  assumes "0 \<le> pin" "pin < 224" "ioapicFindIRQ pin a = Some i" "ac_cpus a \<noteq> []"
  shows "\<exists>a'. platformConfigureIRQ pin level high a = Some (pin, a') \<and> ac_max a' = ac_max a"
proof -
  obtain a' where a': "platformConfigureIRQ pin level high a = Some (pin, a')" using configure_routes [OF assms] by blast
  then have "ac_max a' = ac_max a"
    by (auto simp: platformConfigureIRQ_def ioapicWrite_def Let_def split: option.splits if_splits Option.bind_splits prod.splits)
  with a' show ?thesis by blast
qed

text \<open>
  C35: A driver run by root installs a handler: if some I/O APIC serves the pin and memory lasts, the call returns the pin and
  the handler is the last one of that pin, with those of all other pins and the size of the table unchanged. A program
  that is not run by root is refused and changes nothing.
\<close>

theorem installIRQ_appends:
  assumes t: "k_thread k t = Some x" "t \<noteq> 0" "getProcess k (th_pid x) = Some p" "p \<noteq> 0" "k_proc k p = Some px"
    and h: "ih_kernel h = 0" and pin: "0 \<le> pin" "pin \<le> platformGetMaxIRQ (k_apic k)" "pin < 224"
    and a: "ioapicFindIRQ pin (k_apic k) = Some i" "ac_cpus (k_apic k) \<noteq> []"
    and ok: "irq_ok k" "\<not> k_irqLock k" "k_fresh k \<noteq> 0" "\<And>m. \<not> k_oom k m"
  shows "if pr_user px \<noteq> 0 then installIRQ t pin h k = Some (- EPERM, k)
    else \<exists>k'. installIRQ t pin h k = Some (pin, k') \<and> irq_ok k' \<and> handlers k' pin = handlers k pin @ [h] \<and>
      (\<forall>q. 0 \<le> q \<longrightarrow> q \<le> platformGetMaxIRQ (k_apic k) \<longrightarrow> q \<noteq> pin \<longrightarrow> handlers k' q = handlers k q)"
proof (cases "pr_user px = 0")
  case True
  obtain a' where a': "platformConfigureIRQ pin (ih_level h) (ih_high h) (k_apic k) = Some (pin, a')"
      "ac_max a' = ac_max (k_apic k)"
    using configure_returns [OF pin(1,3) a] by blast
  note s = installIRQ_def handlers_def irq_ok_def kalloc_def platformGetMaxIRQ_def
  show ?thesis
  proof (cases "k_irqs k")
    case None
    then show ?thesis
      using t h pin a' ok True
      by (auto simp: s nth_list_update nat_less_iff zless_nat_eq_int_zless simp del: replicate.simps)
  next
    case (Some irqs)
    then show ?thesis
      using t h pin a' ok True
      by (auto simp: s nth_list_update nat_less_iff eq_nat_nat_iff)
  qed
next
  case False
  with t show ?thesis by (simp add: installIRQ_def)
qed

theorem installIRQ_appends_witness:
  "\<exists>k'. installIRQ 21 30 \<lparr>ih_name = ''nic'', ih_driver = ''lux:///ksnet'', ih_kernel = 0, ih_khandler = 0, ih_level = 1, ih_high = 0\<rparr>
     (kernel_ex\<lparr>k_apic := apic_ex\<rparr>) = Some (30, k') \<and> map ih_name (handlers k' 30) = [''nic'']"
proof -
  let ?k = "kernel_ex\<lparr>k_apic := apic_ex\<rparr>"
  let ?h = "\<lparr>ih_name = ''nic'', ih_driver = ''lux:///ksnet'', ih_kernel = 0, ih_khandler = 0, ih_level = 1, ih_high = 0\<rparr>"
  have "k_thread ?k 21 = Some (thread0\<lparr>th_pid := 2, th_tid := 2\<rparr>)" "getProcess ?k 2 = Some 20"
    "k_proc ?k 20 = Some (process0\<lparr>pr_pid := 2, pr_parent := 1, pr_threads := [21]\<rparr>)"
    "ioapicFindIRQ 30 (k_apic ?k) = Some 0" "ac_cpus (k_apic ?k) \<noteq> []" "30 \<le> platformGetMaxIRQ (k_apic ?k)"
    "irq_ok ?k" "\<not> k_irqLock ?k" "k_fresh ?k \<noteq> 0" "\<And>m. \<not> k_oom ?k m" "k_irqs ?k = None" "pr_user process0 = 0"
    by (simp_all add: kernel_ex_def kernel0_def getProcess_def process0_def irq_ok_def ioapicFindIRQ_def apic_ex_def
        apic0_def serves_def platformGetMaxIRQ_def)
  then show ?thesis
    using installIRQ_appends [of ?k 21 "thread0\<lparr>th_pid := 2, th_tid := 2\<rparr>" 20
        "process0\<lparr>pr_pid := 2, pr_parent := 1, pr_threads := [21]\<rparr>" ?h 30 0]
    by (auto simp: handlers_def)
qed

end
