(* ===== verification/Requests.thy ===== *)
theory Requests
  imports Procs
begin

text \<open>
  The queue of system call requests, \<open>syscallEnqueue()\<close>, \<open>syscallDequeue()\<close> and \<open>getSyscall()\<close> of
  \<^verbatim>\<open>src/src/syscalls/queue.c\<close>, with \<open>platformCreateSyscallContext()\<close> of \<^verbatim>\<open>platform/x86_64/sched/context.c\<close>. The requests are
  part of their threads and linked through \<open>next\<close>; a request is named by the pointer of its thread. Walking
  a list that never reaches a null pointer is \<open>None\<close>.
\<close>

section \<open>Queue\<close>

definition request :: "kernel \<Rightarrow> ptr \<Rightarrow> SyscallRequest option" where
  "request k t = map_option th_syscall (k_thread k t)"

partial_function (option) lastRequest :: "kernel \<Rightarrow> ptr \<Rightarrow> ptr option" where
  "lastRequest k q = do { r \<leftarrow> request k q; if rq_next r = 0 then Some q else lastRequest k (rq_next r) }"

definition syscallEnqueue :: "ptr \<Rightarrow> kernel \<Rightarrow> kernel option" where
  "syscallEnqueue t k =
     do { k1 \<leftarrow> schedLock k;
          x \<leftarrow> k_thread k1 t;
          let k2 = upd_req t (\<lambda>r. r\<lparr>rq_queued := True, rq_unblock := False, rq_busy := False\<rparr>) k1;
          k3 \<leftarrow> (if k_requests k2 = 0 then Some (k2\<lparr>k_requests := t\<rparr>)
                 else do { q \<leftarrow> lastRequest k2 (k_requests k2); Some (upd_req q (\<lambda>r. r\<lparr>rq_next := t\<rparr>) k2) });
          Some (schedRelease (if th_status x = THREAD_BLOCKED then upd_req t (\<lambda>r. r\<lparr>rq_retry := True\<rparr>) k3 else k3)) }"

text \<open>The request taken out, zero when the queue is empty.\<close>

definition syscallDequeue :: "kernel \<Rightarrow> (ptr \<times> kernel) option" where
  "syscallDequeue k =
     do { k1 \<leftarrow> schedLock k;
          if k_requests k1 = 0 then Some (0, schedRelease k1)
          else do {
            let t = k_requests k1;
            r \<leftarrow> request k1 t;
            Some (t, schedRelease (upd_req t (\<lambda>r. r\<lparr>rq_busy := True, rq_queued := False\<rparr>) (k1\<lparr>k_requests := rq_next r\<rparr>))) } }"

definition getSyscall :: "int \<Rightarrow> kernel \<Rightarrow> ptr option" where
  "getSyscall tid k = getThread k tid"

section \<open>Requests\<close>

definition platformCreateSyscallContext :: "ptr \<Rightarrow> kernel \<Rightarrow> kernel option" where
  "platformCreateSyscallContext t k =
     do { x \<leftarrow> k_thread k t;
          let c = th_context x;
          Some (upd_req t (\<lambda>r. r\<lparr>rq_next := 0, rq_busy := False, rq_function := cx_rax c,
            rq_params := [cx_rdi c, cx_rsi c, cx_rdx c, cx_r8 c], rq_retry := False\<rparr>) k) }"

section \<open>Specification vocabulary\<close>

text \<open>The requests in the list that starts at \<open>q\<close> are those of \<open>ts\<close>.\<close>

fun linked :: "kernel \<Rightarrow> ptr \<Rightarrow> ptr list \<Rightarrow> bool" where
  "linked k q [] \<longleftrightarrow> q = 0"
| "linked k q (t # ts) \<longleftrightarrow> q = t \<and> t \<noteq> 0 \<and> (\<exists>r. request k t = Some r \<and> linked k (rq_next r) ts)"

definition queue_put :: "ptr \<Rightarrow> kernel \<Rightarrow> kernel option" where
  "queue_put t k = syscallEnqueue t (upd_req t (\<lambda>r. r\<lparr>rq_next := 0\<rparr>) k)"

definition queue_get :: "kernel \<Rightarrow> (ptr \<times> kernel) option" where
  "queue_get k = do { (t, k') \<leftarrow> syscallDequeue k; if t = 0 then None else Some (t, k') }"

text \<open>
  \<open>waiting ms k\<close>: the scheduler is not locked, no request is in the queue twice, and the threads of \<open>ms\<close>, which
  exist, are neither queued nor named twice.
\<close>

partial_function (option) requestList :: "kernel \<Rightarrow> ptr \<Rightarrow> ptr list option" where
  "requestList k q =
     (if q = 0 then Some []
      else do { r \<leftarrow> request k q; ts \<leftarrow> requestList k (rq_next r); Some (q # ts) })"

definition pending :: "kernel \<Rightarrow> ptr list" where
  "pending k = (case requestList k (k_requests k) of None \<Rightarrow> [] | Some ts \<Rightarrow> ts)"

definition waiting :: "ptr list \<Rightarrow> kernel \<Rightarrow> bool" where
  "waiting ms k \<longleftrightarrow> \<not> k_lock k \<and> (\<exists>ts. linked k (k_requests k) ts \<and> distinct (ts @ ms)) \<and>
     (\<forall>t \<in> set ms. t \<noteq> 0 \<and> k_thread k t \<noteq> None)"

text \<open>The link of a request, if its thread exists.\<close>

definition link_of :: "kernel \<Rightarrow> ptr \<Rightarrow> ptr option" where
  "link_of k t = map_option rq_next (request k t)"

text \<open>The requests of threads 11 and 21 wait, in this order.\<close>

definition queue_ex :: kernel where
  "queue_ex = kernel_ex\<lparr>k_requests := 11, k_thread := (k_thread kernel_ex)
     (11 \<mapsto> thread0\<lparr>th_pid := 1, th_tid := 1, th_syscall := request0\<lparr>rq_next := 21\<rparr>\<rparr>)\<rparr>"

section \<open>Linked requests\<close>

lemma linked_cong:
  "(\<And>t. t \<in> set ts \<Longrightarrow> map_option rq_next (request k' t) = map_option rq_next (request k t)) \<Longrightarrow>
   linked k' q ts = linked k q ts"
proof (induction ts arbitrary: q)
  case (Cons t ts)
  then have "map_option rq_next (request k' t) = map_option rq_next (request k t)" "linked k' n ts = linked k n ts" for n
    by simp_all
  then show ?case by (cases "request k t"; cases "request k' t") auto
qed simp

lemma request_upd: "request (upd_req t f k) u = (if u = t then map_option f (request k t) else request k u)"
  by (cases "k_thread k t") (simp_all add: request_def upd_req_def upd_thread_def)

lemma upd_req_keeps [simp]:
  "k_requests (upd_req v h k) = k_requests k" "k_lock (upd_req v h k) = k_lock k"
  "(k_thread (upd_req v h k) u = None) = (k_thread k u = None)"
  by (simp_all add: upd_req_def upd_thread_def)

lemma request_more [simp]:
  "request (k\<lparr>k_lock := b\<rparr>) = request k" "request (k\<lparr>k_requests := q\<rparr>) = request k"
  by (simp_all add: request_def fun_eq_iff)

lemma linked_last: "linked k q (ts @ [t]) \<Longrightarrow> lastRequest k q = Some t"
proof (induction ts arbitrary: q)
  case Nil
  then show ?case by (auto simp: lastRequest.simps)
next
  case (Cons u ts)
  then obtain r where r: "request k u = Some r" "q = u" "linked k (rq_next r) (ts @ [t])" by auto
  moreover have "rq_next r \<noteq> 0" using r(3) by (cases ts) auto
  ultimately show ?case using Cons.IH by (subst lastRequest.simps) simp
qed

lemma linked_list: "linked k q ts \<Longrightarrow> requestList k q = Some ts"
proof (induction ts arbitrary: q)
  case (Cons t ts)
  then obtain r where "request k t = Some r" "q = t" "t \<noteq> 0" "linked k (rq_next r) ts" by auto
  with Cons.IH show ?case by (subst requestList.simps) simp
qed (simp add: requestList.simps)

lemma linked_exists: "linked k q ts \<Longrightarrow> t \<in> set ts \<Longrightarrow> t \<noteq> 0 \<and> request k t \<noteq> None"
  by (induction ts arbitrary: q) auto

lemma linked_snoc:
  "linked k q (ts @ [u]) \<Longrightarrow> distinct (ts @ [u]) \<Longrightarrow> t \<notin> set (ts @ [u]) \<Longrightarrow> t \<noteq> 0 \<Longrightarrow> request k t = Some r \<Longrightarrow> rq_next r = 0 \<Longrightarrow>
   linked (upd_req u (\<lambda>r. r\<lparr>rq_next := t\<rparr>) k) q (ts @ [u, t])"
proof (induction ts arbitrary: q)
  case Nil
  then show ?case by (auto simp: request_upd)
next
  case (Cons v ts)
  then obtain rv where "request k v = Some rv" "linked k (rq_next rv) (ts @ [u])" by auto
  with Cons show ?case by (auto simp: request_upd)
qed

text \<open>What \<open>syscallEnqueue()\<close> writes before and after it walks the list leaves the links alone.\<close>

lemma linked_upd:
  assumes "\<And>r. rq_next (f r) = rq_next r"
  shows "linked (upd_req t f k) q ts = linked k q ts"
  by (rule linked_cong) (simp add: request_upd option.map_comp comp_def assms)

lemma lastRequest_cong:
  assumes f: "\<And>u. link_of k' u = link_of k u" and r: "lastRequest k q = Some l"
  shows "lastRequest k' q = Some l"
proof -
  have "k0 = k \<longrightarrow> lastRequest k' q' = Some l'" if "lastRequest k0 q' = Some l'" for k0 q' l'
    using that
  proof (rule lastRequest.raw_induct [rotated], intro impI)
    fix last k0 q' l'
    assume IH: "\<And>k0 q y. last k0 q = Some y \<Longrightarrow> k0 = k \<longrightarrow> lastRequest k' q = Some y"
      and b: "(do { r \<leftarrow> request k0 q'; if rq_next r = 0 then Some q' else last k0 (rq_next r) }) = Some l'" and "k0 = k"
    then show "lastRequest k' q' = Some l'"
      using f [of q']
      by (subst lastRequest.simps) (cases "request k' q'"; auto simp: link_of_def split: Option.bind_splits if_splits)
  qed
  with r show ?thesis by simp
qed

section \<open>The queue\<close>

lemma enqueue_back:
  assumes l: "\<not> k_lock k" "linked k (k_requests k) ts" "distinct (t # ts)"
    and t: "t \<noteq> 0" "request k t = Some r" "rq_next r = 0"
  shows "\<exists>k'. syscallEnqueue t k = Some k' \<and> \<not> k_lock k' \<and> linked k' (k_requests k') (ts @ [t]) \<and>
    (\<forall>u. (k_thread k' u = None) = (k_thread k u = None))"
proof -
  obtain x where x: "k_thread k t = Some x" "th_syscall x = r" using t(2) by (auto simp: request_def)
  let ?f = "\<lambda>r. r\<lparr>rq_queued := True, rq_unblock := False, rq_busy := False\<rparr>"
  let ?k2 = "upd_req t ?f (k\<lparr>k_lock := True\<rparr>)"
  define g where "g = (\<lambda>k. schedRelease (if th_status x = THREAD_BLOCKED then upd_req t (\<lambda>r. r\<lparr>rq_retry := True\<rparr>) k else k))"
  have l2: "linked ?k2 q us = linked k q us" for q us
    using linked_upd [of ?f t "k\<lparr>k_lock := True\<rparr>"] linked_cong [of us "k\<lparr>k_lock := True\<rparr>" k q] by simp
  have lg: "linked (g k3) q us = linked k3 q us" for k3 q us
    using linked_upd [of "\<lambda>r. r\<lparr>rq_retry := True\<rparr>" t k3] linked_cong [of us "k3\<lparr>k_lock := False\<rparr>" k3 q]
      linked_cong [of us "(upd_req t (\<lambda>r. r\<lparr>rq_retry := True\<rparr>) k3)\<lparr>k_lock := False\<rparr>" "upd_req t (\<lambda>r. r\<lparr>rq_retry := True\<rparr>) k3" q]
    by (simp add: g_def schedRelease_def)
  have q: "k_requests (g k3) = k_requests k3" "\<not> k_lock (g k3)"
    "(k_thread (g k3) u = None) = (k_thread k3 u = None)" for k3 u
    by (simp_all add: g_def schedRelease_def)
  have r2: "request ?k2 t = Some (?f r)" using t(2) by (simp add: request_upd)
  show ?thesis
  proof (cases ts rule: rev_cases)
    case Nil
    then have "k_requests k = 0" using l(2) by simp
    then have "syscallEnqueue t k = Some (g (?k2\<lparr>k_requests := t\<rparr>))"
      using l(1) x by (simp add: syscallEnqueue_def schedLock_def g_def)
    moreover have "linked (?k2\<lparr>k_requests := t\<rparr>) t [t]" using r2 t by simp
    ultimately show ?thesis using Nil q lg by (simp del: linked.simps)
  next
    case (snoc us u)
    then have l3: "linked ?k2 (k_requests k) (us @ [u])" using l(2) l2 by simp
    then have "k_requests k \<noteq> 0" by (cases us) auto
    then have "syscallEnqueue t k = Some (g (upd_req u (\<lambda>r. r\<lparr>rq_next := t\<rparr>) ?k2))"
      using l(1) x linked_last [OF l3] by (simp add: syscallEnqueue_def schedLock_def g_def)
    moreover have "linked (upd_req u (\<lambda>r. r\<lparr>rq_next := t\<rparr>) ?k2) (k_requests k) (us @ [u, t])"
      using linked_snoc [OF l3, of t "?f r"] l(3) snoc r2 t by auto
    ultimately show ?thesis using snoc q lg by (simp del: linked.simps)
  qed
qed

lemma dequeue_front:
  assumes "\<not> k_lock k" "linked k (k_requests k) (t # ts)"
  shows "\<exists>k'. syscallDequeue k = Some (t, k') \<and> \<not> k_lock k' \<and> linked k' (k_requests k') ts \<and>
    (\<forall>u. (k_thread k' u = None) = (k_thread k u = None)) \<and> map_option rq_next (request k' t) = Some (k_requests k')"
proof -
  obtain r where r: "request k t = Some r" "k_requests k = t" "t \<noteq> 0" "linked k (rq_next r) ts" using assms(2) by auto
  let ?f = "\<lambda>r. r\<lparr>rq_busy := True, rq_queued := False\<rparr>"
  let ?k = "schedRelease (upd_req t ?f (k\<lparr>k_lock := True, k_requests := rq_next r\<rparr>))"
  have "syscallDequeue k = Some (t, ?k)" using assms(1) r by (simp add: syscallDequeue_def schedLock_def)
  moreover have "request ?k u = (if u = t then map_option ?f (request k t) else request k u)" for u
    by (simp add: schedRelease_def request_upd)
  moreover from this have "linked ?k (rq_next r) ts" using r(1,4) by (subst linked_cong [of ts ?k k]) (auto split: if_splits)
  ultimately show ?thesis using r by (simp add: schedRelease_def upd_req_def upd_thread_def)
qed

lemma queue_put_back:
  assumes "waiting (m # ms) k"
  shows "\<exists>k'. queue_put m k = Some k' \<and> waiting ms k' \<and> pending k' = pending k @ [m]"
proof -
  obtain ts where ts: "linked k (k_requests k) ts" "distinct (ts @ m # ms)" and k: "\<not> k_lock k"
      "\<forall>t \<in> set (m # ms). t \<noteq> 0 \<and> k_thread k t \<noteq> None"
    using assms by (auto simp: waiting_def)
  let ?k = "upd_req m (\<lambda>r. r\<lparr>rq_next := 0\<rparr>) k"
  have l: "linked ?k (k_requests ?k) ts"
    using ts by (subst linked_cong [of ts ?k k]) (auto simp: request_upd)
  obtain x where "k_thread k m = Some x" using k(2) by auto
  then have r: "request ?k m = Some ((th_syscall x)\<lparr>rq_next := 0\<rparr>)" by (simp add: request_upd) (simp add: request_def)
  obtain k' where k': "syscallEnqueue m ?k = Some k'" "\<not> k_lock k'" "linked k' (k_requests k') (ts @ [m])"
      "\<forall>u. (k_thread k' u = None) = (k_thread ?k u = None)"
    using enqueue_back [OF _ l _ _ r] k ts(2) by auto
  have "pending k = ts" "pending k' = ts @ [m]" using linked_list [OF ts(1)] linked_list [OF k'(3)] by (simp_all add: pending_def)
  moreover have "distinct ((ts @ [m]) @ ms)" using ts(2) by auto
  then have "waiting ms k'" using k' k(2) unfolding waiting_def by (intro conjI exI [of _ "ts @ [m]"]) auto
  ultimately show ?thesis using k'(1) by (simp add: queue_put_def)
qed

lemma queue_get_front:
  assumes w: "waiting ms k" and c: "pending k = c # cs"
  shows "\<exists>k'. queue_get k = Some (c, k') \<and> waiting ms k' \<and> pending k' = cs"
proof -
  obtain ts where ts: "linked k (k_requests k) ts" "distinct (ts @ ms)" using w by (auto simp: waiting_def)
  have "ts = c # cs" using linked_list [OF ts(1)] c by (simp add: pending_def)
  then obtain k' where k': "syscallDequeue k = Some (c, k')" "\<not> k_lock k'" "linked k' (k_requests k') cs"
      "\<forall>u. (k_thread k' u = None) = (k_thread k u = None)" "c \<noteq> 0"
    using dequeue_front [of k c cs] ts(1) w by (auto simp: waiting_def)
  moreover have "waiting ms k'" using k' w ts(2) \<open>ts = c # cs\<close> by (auto simp: waiting_def)
  ultimately show ?thesis using linked_list [OF k'(3)] by (simp add: queue_get_def pending_def)
qed

lemma queue_get_empty:
  assumes w: "waiting ms k" and c: "pending k = []"
  shows "queue_get k = None"
proof -
  obtain ts where ts: "linked k (k_requests k) ts" using w by (auto simp: waiting_def)
  then have "k_requests k = 0" using linked_list [OF ts] c by (simp add: pending_def)
  then show ?thesis using w by (simp add: queue_get_def syscallDequeue_def schedLock_def waiting_def)
qed

interpretation requests: fifo queue_put queue_get pending waiting
  using queue_put_back queue_get_front queue_get_empty by unfold_locales blast+

text \<open>
  C2: System calls are served in the order they were made. Whatever the order in which requests enter the queue, with their
  links cleared as the system call entry does, and are taken out of it, the requests taken out followed by those
  still waiting are the requests that waited at first followed by the new ones.
\<close>

theorem syscall_queue_fifo:
  assumes "waiting (puts ops) k"
  shows "\<exists>out k'. queue_run queue_put queue_get ops k = Some (out, k') \<and> waiting [] k' \<and>
    out @ pending k' = pending k @ puts ops"
  using assms by (rule requests.history)

section \<open>A request that is queued again\<close>

lemma lastRequest_cycle:
  assumes c: "\<And>u. u \<in> S \<Longrightarrow> \<exists>n \<in> S. link_of k u = Some n \<and> n \<noteq> 0" and "q \<in> S"
  shows "lastRequest k q = None"
proof (cases "lastRequest k q")
  case (Some l)
  have "k' = k \<longrightarrow> q' \<notin> S" if "lastRequest k' q' = Some l'" for k' q' l'
    using that
    by (rule lastRequest.raw_induct [rotated]) (use c in \<open>fastforce simp: link_of_def split: Option.bind_splits if_splits\<close>)
  from this [OF Some] assms(2) show ?thesis by simp
qed simp

lemma linked_link: "linked k q (ts @ [w]) \<Longrightarrow> link_of k w = Some 0 \<and> (\<forall>v \<in> set ts. \<exists>n \<in> set (ts @ [w]). link_of k v = Some n)"
proof (induction ts arbitrary: q)
  case (Cons v ts)
  then obtain r where "request k v = Some r" "linked k (rq_next r) (ts @ [w])" by auto
  moreover from this have "rq_next r \<in> set (ts @ [w])" by (cases ts) auto
  ultimately show ?case using Cons.IH by (auto simp: link_of_def)
qed (auto simp: link_of_def)

lemma enqueue_links:
  assumes k: "\<not> k_lock k" "k_requests k \<noteq> 0" "lastRequest k (k_requests k) = Some w" and t: "request k t \<noteq> None"
  shows "\<exists>k'. syscallEnqueue t k = Some k' \<and> k_requests k' = k_requests k \<and>
    (\<forall>v. link_of k' v = (if v = w then map_option (\<lambda>_. t) (link_of k w) else link_of k v))"
proof -
  obtain x where x: "k_thread k t = Some x" using t by (auto simp: request_def)
  let ?f = "\<lambda>r. r\<lparr>rq_queued := True, rq_unblock := False, rq_busy := False\<rparr>"
  have "lastRequest (upd_req t ?f (k\<lparr>k_lock := True\<rparr>)) (k_requests k) = Some w"
    by (rule lastRequest_cong [OF _ k(3)]) (simp add: link_of_def request_upd option.map_comp comp_def)
  then show ?thesis
    using k x
    by (auto simp: syscallEnqueue_def schedLock_def schedRelease_def link_of_def request_upd option.map_comp comp_def Let_def)
qed

lemma enqueue_ring:
  assumes S: "\<And>v. v \<in> S \<Longrightarrow> \<exists>n \<in> S. link_of k v = Some n \<and> n \<noteq> 0" and q: "k_requests k \<in> S" "k_requests k \<noteq> 0"
  shows "syscallEnqueue v k = None"
proof (cases "k_lock k \<or> k_thread k v = None")
  case False
  let ?k = "upd_req v (\<lambda>r. r\<lparr>rq_queued := True, rq_unblock := False, rq_busy := False\<rparr>) (k\<lparr>k_lock := True\<rparr>)"
  have "link_of ?k u = link_of k u" for u by (simp add: link_of_def request_upd option.map_comp comp_def)
  then have "lastRequest ?k (k_requests k) = None"
    using S q(1) by (intro lastRequest_cycle [of S]) auto
  with False q(2) show ?thesis by (auto simp: syscallEnqueue_def schedLock_def)
qed (auto simp: syscallEnqueue_def schedLock_def)

text \<open>
  A request put back without clearing its link. When a signal handler has made the thread of a dequeued request runnable,
  \<open>syscallProcess()\<close> queues the request again while it still points to its successor. If another request is waiting, the
  list becomes a ring: the next system call to be queued, whoever makes it, never returns from \<open>syscallEnqueue()\<close>.
\<close>

theorem requeue_makes_ring:
  assumes l: "\<not> k_lock k" "linked k (k_requests k) (t # u # us)" "distinct (t # u # us)"
  shows "\<exists>k1 k2. syscallDequeue k = Some (t, k1) \<and> syscallEnqueue t k1 = Some k2 \<and> (\<forall>v. syscallEnqueue v k2 = None)"
proof -
  obtain k1 where k1: "syscallDequeue k = Some (t, k1)" "\<not> k_lock k1" "linked k1 (k_requests k1) (u # us)"
      "link_of k1 t = Some (k_requests k1)" "t \<noteq> 0" "u \<noteq> 0"
    using dequeue_front [OF l(1,2)] l(2) by (auto simp: link_of_def)
  obtain vs w where vw: "u # us = vs @ [w]" by (cases "u # us" rule: rev_cases) auto
  have u: "k_requests k1 = u" using k1(3) by simp
  note w = linked_link [OF k1(3) [unfolded vw]]
  have "request k1 t \<noteq> None" using k1(4) by (auto simp: link_of_def)
  then obtain k2 where k2: "syscallEnqueue t k1 = Some k2" "k_requests k2 = u"
      "\<forall>v. link_of k2 v = (if v = w then map_option (\<lambda>_. t) (link_of k1 w) else link_of k1 v)"
    using enqueue_links [OF k1(2) _ linked_last [OF k1(3) [unfolded vw]]] k1(6) u by auto
  let ?S = "insert t (set (vs @ [w]))"
  have nz: "0 \<notin> ?S" using linked_exists [OF k1(3)] k1(5) vw by auto
  have "t \<noteq> w" using l(3) vw by (metis distinct.simps(2) in_set_conv_decomp)
  then have "link_of k2 t = Some u" using k2(3) k1(4) u by simp
  moreover have "\<exists>n \<in> ?S. link_of k2 v = Some n" if "v \<in> set (vs @ [w])" for v
    using that w k2(3) by (cases "v = w") auto
  moreover have "u \<in> ?S" using vw by (metis insertCI list.set_intros(1))
  ultimately have "\<forall>v \<in> ?S. \<exists>n \<in> ?S. link_of k2 v = Some n" by auto
  then have "syscallEnqueue v k2 = None" for v
    using enqueue_ring [of ?S k2 v] nz \<open>u \<in> ?S\<close> k2(2) k1(6) by (metis (full_types))
  with k1(1) k2(1) show ?thesis by blast
qed

section \<open>Witnesses\<close>

theorem syscall_queue_fifo_witness:
  "\<exists>out k'. queue_run queue_put queue_get [Put 21, Get, Put 11] kernel_ex = Some (out, k') \<and> out @ pending k' = [21, 11]"
proof -
  have p: "pending kernel_ex = []" by (simp add: pending_def requestList.simps kernel_ex_def kernel0_def)
  have "waiting (puts [Put 21, Get, Put 11]) kernel_ex"
    unfolding waiting_def by (intro conjI exI [of _ "[]"]) (simp_all add: kernel_ex_def kernel0_def)
  from syscall_queue_fifo [OF this] show ?thesis by (simp add: p) blast
qed

theorem requeue_makes_ring_witness:
  "\<exists>k1 k2. syscallDequeue queue_ex = Some (11, k1) \<and> syscallEnqueue 11 k1 = Some k2 \<and> syscallEnqueue 21 k2 = None"
proof -
  have "\<not> k_lock queue_ex" "linked queue_ex (k_requests queue_ex) [11, 21]" "distinct [11, 21 :: nat]"
    by (simp_all add: queue_ex_def kernel_ex_def kernel0_def request_def thread0_def request0_def)
  from requeue_makes_ring [OF this] show ?thesis by blast
qed

end
