(* ===== verification/Dispatch.thy ===== *)
theory Dispatch
  imports Exec Irq Requests
begin

text \<open>
  The dispatcher of system calls, \<^verbatim>\<open>src/src/syscalls/dispatch.c\<close>: the check of user pointers, one wrapper per system
  call and the dispatch table. A wrapper takes the thread of the request and returns the new state of the kernel;
  the result of the call is in the request. User memory is that of the current address space. The record \<open>env\<close> holds
  what the wrappers need from outside the modelled code: the assembled signal trampoline, the random numbers for
  process identifiers, the content of fresh memory and the image of a message in memory.
\<close>

record env =
  e_sigstub :: "u8 list"
  e_rs :: "int list"
  e_junk :: "sigaction list"
  e_bytes :: "payload \<Rightarrow> u8 list"

section \<open>Common parts\<close>

definition syscallVerifyPointer :: "ptr \<Rightarrow> u64 \<Rightarrow> u64 \<Rightarrow> kernel \<Rightarrow> (bool \<times> kernel) option" where
  "syscallVerifyPointer t base len k =
     (if base < USER_BASE_ADDRESS \<or> base + len > USER_LIMIT_ADDRESS
      then do { k' \<leftarrow> terminateThread t (-1) False k; Some (False, k') }
      else Some (True, k))"

text \<open>A chain of checks, and the rest of the wrapper when all of them hold.\<close>

fun verified :: "ptr \<Rightarrow> (u64 \<times> u64) list \<Rightarrow> (kernel \<Rightarrow> kernel option) \<Rightarrow> kernel \<Rightarrow> kernel option" where
  "verified t [] f k = f k"
| "verified t ((base, len) # ps) f k =
     do { (ok, k1) \<leftarrow> syscallVerifyPointer t base len k; if ok then verified t ps f k1 else Some k1 }"

definition withParams :: "ptr \<Rightarrow> (u64 \<Rightarrow> u64 \<Rightarrow> u64 \<Rightarrow> u64 \<Rightarrow> kernel \<Rightarrow> kernel option) \<Rightarrow> kernel \<Rightarrow> kernel option" where
  "withParams t f k =
     do { r \<leftarrow> request k t; f (rq_params r ! 0) (rq_params r ! 1) (rq_params r ! 2) (rq_params r ! 3) k }"

text \<open>\<open>req->ret = r; req->unblock = true;\<close>\<close>

definition complete :: "ptr \<Rightarrow> u64 \<Rightarrow> kernel \<Rightarrow> kernel" where
  "complete t r = upd_req t (\<lambda>q. q\<lparr>rq_ret := r, rq_unblock := True\<rparr>)"

text \<open>The end of a call that a server answers: an error code at once, otherwise block until completion.\<close>

definition answer :: "ptr \<Rightarrow> int \<Rightarrow> kernel \<Rightarrow> kernel" where
  "answer t status =
     upd_req t (\<lambda>q. if status \<noteq> 0 then q\<lparr>rq_external := False, rq_ret := of_int status, rq_unblock := True\<rparr>
                    else q\<lparr>rq_external := True, rq_unblock := False\<rparr>)"

definition newID :: "ptr \<Rightarrow> kernel \<Rightarrow> (u64 \<times> kernel) option" where
  "newID t k = do { (i, k1) \<leftarrow> syscallID k; Some (ucast i, upd_req t (\<lambda>q. q\<lparr>rq_requestID := i\<rparr>) k1) }"

definition serverCall :: "ptr \<Rightarrow> (u64 \<Rightarrow> kernel \<Rightarrow> (int \<times> kernel) option) \<Rightarrow> kernel \<Rightarrow> kernel option" where
  "serverCall t call k = do { (i, k1) \<leftarrow> newID t k; (status, k2) \<leftarrow> call i k1; Some (answer t status k2) }"

text \<open>Put the request back in the queue; some calls also mark it as a retry themselves.\<close>

definition requeue :: "bool \<Rightarrow> ptr \<Rightarrow> kernel \<Rightarrow> kernel option" where
  "requeue retry t k =
     syscallEnqueue t (upd_req t (\<lambda>q. q\<lparr>rq_unblock := False, rq_busy := False, rq_queued := True, rq_next := 0,
       rq_retry := (retry \<or> rq_retry q)\<rparr>) k)"

definition wouldBlock :: "int \<Rightarrow> bool" where
  "wouldBlock status \<longleftrightarrow> status = - EWOULDBLOCK \<or> status = - EAGAIN"

text \<open>\<open>p->io[req->params[0]].flags & O_NONBLOCK\<close>, an index of 64 bits.\<close>

definition nonblocking :: "ptr \<Rightarrow> u64 \<Rightarrow> kernel \<Rightarrow> bool option" where
  "nonblocking t fd k =
     do { x \<leftarrow> k_thread k t; p \<leftarrow> getProcess k (th_pid x); px \<leftarrow> k_proc k p;
          if unat fd < MAX_IO_DESCRIPTORS then Some (io_flags (pr_io px ! unat fd) AND O_NONBLOCK \<noteq> 0) else None }"

definition onString :: "u64 \<Rightarrow> (string \<Rightarrow> kernel \<Rightarrow> (int \<times> kernel) option) \<Rightarrow> kernel \<Rightarrow> (int \<times> kernel) option" where
  "onString a f k = do { (s, k1) \<leftarrow> loadString a k; f s k1 }"

definition finishInt :: "ptr \<Rightarrow> (int \<times> kernel) option \<Rightarrow> kernel option" where
  "finishInt t r = do { (v, k) \<leftarrow> r; Some (complete t (of_int v) k) }"

definition finish64 :: "ptr \<Rightarrow> (u64 \<times> kernel) option \<Rightarrow> kernel option" where
  "finish64 t r = do { (v, k) \<leftarrow> r; Some (complete t v k) }"

section \<open>Group 1: scheduler\<close>

definition syscallDispatchExit :: "ptr \<Rightarrow> kernel \<Rightarrow> kernel option" where
  "syscallDispatchExit t = withParams t (\<lambda>a _ _ _ k. exit t (asInt a) k)"

definition syscallDispatchFork :: "env \<Rightarrow> ptr \<Rightarrow> kernel \<Rightarrow> kernel option" where
  "syscallDispatchFork e t k = finishInt t (fork (e_rs e) (e_junk e) t k)"

definition syscallDispatchYield :: "ptr \<Rightarrow> kernel \<Rightarrow> kernel option" where
  "syscallDispatchYield t k = Some (complete t 0 k)"

definition syscallDispatchWaitPID :: "ptr \<Rightarrow> kernel \<Rightarrow> kernel option" where
  "syscallDispatchWaitPID t = withParams t (\<lambda>a b c _. verified t [(b, 4)] (\<lambda>k.
     do { (status, st, k1) \<leftarrow> waitpid t (asInt a) k;
          let k2 = (case st of None \<Rightarrow> k1 | Some v \<Rightarrow> user_write32 b v k1);
          if status = 0 \<and> c AND WNOHANG = 0 then requeue True t k2
          else Some (complete t (of_int status) k2) }))"

definition syscallDispatchExecve :: "ptr \<Rightarrow> kernel \<Rightarrow> kernel option" where
  "syscallDispatchExecve t = withParams t (\<lambda>a b c _. verified t [(a, of_nat MAX_FILE_PATH), (b, 1024), (c, 1024)]
     (serverCall t (\<lambda>i. onString a (execve t i))))"

definition syscallDispatchExecrdv :: "env \<Rightarrow> ptr \<Rightarrow> kernel \<Rightarrow> kernel option" where
  "syscallDispatchExecrdv e t = withParams t (\<lambda>a b _ _ k.
     finishInt t (onString a (\<lambda>s. execrdv (e_sigstub e) (e_junk e) t s b) k))"

definition syscallDispatchGetPID :: "ptr \<Rightarrow> kernel \<Rightarrow> kernel option" where
  "syscallDispatchGetPID t k = do { x \<leftarrow> k_thread k t; Some (complete t (of_int (th_pid x)) k) }"

definition syscallDispatchGetTID :: "ptr \<Rightarrow> kernel \<Rightarrow> kernel option" where
  "syscallDispatchGetTID t k = do { x \<leftarrow> k_thread k t; Some (complete t (of_int (th_tid x)) k) }"

definition ownerOf :: "(Process \<Rightarrow> int) \<Rightarrow> ptr \<Rightarrow> kernel \<Rightarrow> kernel option" where
  "ownerOf f t k =
     do { x \<leftarrow> k_thread k t; p \<leftarrow> getProcess k (th_pid x);
          if p = 0 then Some (complete t (of_int (-1)) k)
          else do { px \<leftarrow> k_proc k p; Some (complete t (of_int (f px)) k) } }"

definition syscallDispatchGetUID :: "ptr \<Rightarrow> kernel \<Rightarrow> kernel option" where
  "syscallDispatchGetUID = ownerOf pr_user"

definition syscallDispatchGetGID :: "ptr \<Rightarrow> kernel \<Rightarrow> kernel option" where
  "syscallDispatchGetGID = ownerOf pr_group"

definition syscallDispatchMSleep :: "ptr \<Rightarrow> kernel \<Rightarrow> kernel option" where
  "syscallDispatchMSleep t = withParams t (\<lambda>a _ _ _ k. finish64 t (msleep t a k))"

definition syscallDispatchGetTimeOfDay :: "ptr \<Rightarrow> kernel \<Rightarrow> kernel option" where
  "syscallDispatchGetTimeOfDay t = withParams t (\<lambda>a _ _ _. verified t [(a, 16)] (\<lambda>k.
     do { ((sec, usec), k1) \<leftarrow> gettimeofday k;
          Some (complete t 0 (user_write a (bytesOf (of_int sec) @ bytesOf (of_int usec)) k1)) }))"

text \<open>\<open>getpgrp()\<close> and \<open>setpgrp()\<close> look the process up by the thread's number and do not test the result.\<close>

definition syscallDispatchGetPgrp :: "ptr \<Rightarrow> kernel \<Rightarrow> kernel option" where
  "syscallDispatchGetPgrp t k =
     do { x \<leftarrow> k_thread k t; p \<leftarrow> getProcess k (th_tid x); px \<leftarrow> k_proc k p; Some (complete t (of_int (pr_pgrp px)) k) }"

definition syscallDispatchSetPgrp :: "ptr \<Rightarrow> kernel \<Rightarrow> kernel option" where
  "syscallDispatchSetPgrp t k =
     do { x \<leftarrow> k_thread k t; p \<leftarrow> getProcess k (th_tid x); px \<leftarrow> k_proc k p;
          Some (complete t (of_int (pr_pid px)) (upd_proc p (\<lambda>y. y\<lparr>pr_pgrp := pr_pid px\<rparr>) k)) }"

section \<open>Group 2: file system\<close>

definition syscallDispatchOpen :: "ptr \<Rightarrow> kernel \<Rightarrow> kernel option" where
  "syscallDispatchOpen t = withParams t (\<lambda>a b c _. verified t [(a, of_nat MAX_FILE_PATH)]
     (serverCall t (\<lambda>i. onString a (\<lambda>s. open_file t i s (asInt b) (ucast c)))))"

definition syscallDispatchClose :: "ptr \<Rightarrow> kernel \<Rightarrow> kernel option" where
  "syscallDispatchClose t = withParams t (\<lambda>a _ _ _ k.
     do { (i, k1) \<leftarrow> newID t k;
          (status, k2) \<leftarrow> close t i (asInt a) k1;
          Some (if status = 1 then upd_req t (\<lambda>q. q\<lparr>rq_external := False, rq_ret := 0, rq_unblock := True\<rparr>) k2
                else answer t status k2) })"

definition requestIdentifier :: "ptr \<Rightarrow> kernel \<Rightarrow> (u64 \<times> kernel) option" where
  "requestIdentifier t k = do { r \<leftarrow> request k t; if rq_retry r then Some (ucast (rq_requestID r), k) else newID t k }"

definition syscallDispatchRead :: "env \<Rightarrow> ptr \<Rightarrow> kernel \<Rightarrow> kernel option" where
  "syscallDispatchRead e t = withParams t (\<lambda>a b c _. verified t [(b, c)] (\<lambda>k.
     do { (i, k1) \<leftarrow> requestIdentifier t k;
          (status, k2) \<leftarrow> read (e_bytes e) t i (asInt a) b c k1;
          if wouldBlock status then do { n \<leftarrow> nonblocking t a k2; if n then Some k2 else requeue True t k2 }
          else Some (answer t status k2) }))"

definition syscallDispatchWrite :: "ptr \<Rightarrow> kernel \<Rightarrow> kernel option" where
  "syscallDispatchWrite t = withParams t (\<lambda>a b c _. verified t [(b, c)] (\<lambda>k.
     do { (i, k1) \<leftarrow> requestIdentifier t k;
          (status, k2) \<leftarrow> write_fd t i (asInt a) b c k1;
          if wouldBlock status then do { n \<leftarrow> nonblocking t a k2; if n then Some k2 else requeue True t k2 }
          else if status \<noteq> 0 then Some (answer t status k2)
          else do {
            x \<leftarrow> k_thread k2 t; p \<leftarrow> getProcess k2 (th_pid x); px \<leftarrow> k_proc k2 p;
            if unat a \<ge> MAX_IO_DESCRIPTORS then None
            else if io_type (pr_io px ! unat a) = IO_FILE then do {
              f \<leftarrow> k_file k2 (io_data (pr_io px ! unat a));
              Some (if fd_charDev f then upd_req t (\<lambda>q. q\<lparr>rq_ret := c, rq_external := False, rq_unblock := True\<rparr>) k2
                    else answer t 0 k2) }
            else Some (answer t 0 k2) } }))"

definition syscallDispatchLStat :: "ptr \<Rightarrow> kernel \<Rightarrow> kernel option" where
  "syscallDispatchLStat t = withParams t (\<lambda>a b _ _. verified t [(a, of_nat MAX_FILE_PATH), (b, 96)]
     (serverCall t (\<lambda>i. onString a (lstat t i))))"

definition syscallDispatchFStat :: "ptr \<Rightarrow> kernel \<Rightarrow> kernel option" where
  "syscallDispatchFStat t = withParams t (\<lambda>a b _ _. verified t [(b, 96)] (\<lambda>k.
     do { (i, k1) \<leftarrow> newID t k;
          (status, k2) \<leftarrow> fstat t i (asInt a) b k1;
          Some (if status < 0 then answer t status k2
                else if status = 1 then complete t 0 k2
                else upd_req t (\<lambda>q. q\<lparr>rq_external := True, rq_unblock := False\<rparr>) k2) }))"

definition syscallDispatchLSeek :: "ptr \<Rightarrow> kernel \<Rightarrow> kernel option" where
  "syscallDispatchLSeek t = withParams t (\<lambda>a b c _ k. finishInt t (lseek t (asInt a) (sint b) (asInt c) k))"

definition syscallDispatchChown :: "ptr \<Rightarrow> kernel \<Rightarrow> kernel option" where
  "syscallDispatchChown t = withParams t (\<lambda>a b c _. verified t [(a, of_nat MAX_FILE_PATH)]
     (serverCall t (\<lambda>i. onString a (\<lambda>s. chown t i s (asInt b) (asInt c)))))"

definition syscallDispatchChmod :: "ptr \<Rightarrow> kernel \<Rightarrow> kernel option" where
  "syscallDispatchChmod t = withParams t (\<lambda>a b _ _. verified t [(a, of_nat MAX_FILE_PATH)]
     (serverCall t (\<lambda>i. onString a (\<lambda>s. chmod t i s (ucast b)))))"

definition syscallDispatchLink :: "ptr \<Rightarrow> kernel \<Rightarrow> kernel option" where
  "syscallDispatchLink t = withParams t (\<lambda>a b _ _. verified t [(a, of_nat MAX_FILE_PATH), (b, of_nat MAX_FILE_PATH)]
     (serverCall t (\<lambda>i. onString a (\<lambda>s. onString b (link t i s)))))"

definition syscallDispatchUnlink :: "ptr \<Rightarrow> kernel \<Rightarrow> kernel option" where
  "syscallDispatchUnlink t = withParams t (\<lambda>a _ _ _. verified t [(a, of_nat MAX_FILE_PATH)]
     (serverCall t (\<lambda>i. onString a (unlink t i))))"

definition syscallDispatchSymlink :: "ptr \<Rightarrow> kernel \<Rightarrow> kernel option" where
  "syscallDispatchSymlink t = withParams t (\<lambda>a b _ _. verified t [(a, of_nat MAX_FILE_PATH), (b, of_nat MAX_FILE_PATH)]
     (serverCall t (\<lambda>i. onString a (\<lambda>s. onString b (symlink t i s)))))"

definition syscallDispatchReadLink :: "ptr \<Rightarrow> kernel \<Rightarrow> kernel option" where
  "syscallDispatchReadLink t = withParams t (\<lambda>a b c _. verified t [(a, of_nat MAX_FILE_PATH), (b, c)]
     (serverCall t (\<lambda>i. onString a (readlink t i))))"

definition syscallDispatchUmask :: "ptr \<Rightarrow> kernel \<Rightarrow> kernel option" where
  "syscallDispatchUmask t = withParams t (\<lambda>a _ _ _ k.
     do { (m, k1) \<leftarrow> umask t (ucast a) k; Some (complete t (ucast m) k1) })"

definition syscallDispatchMkdir :: "ptr \<Rightarrow> kernel \<Rightarrow> kernel option" where
  "syscallDispatchMkdir t = withParams t (\<lambda>a b _ _. verified t [(a, of_nat MAX_FILE_PATH)]
     (serverCall t (\<lambda>i. onString a (\<lambda>s. mkdir t i s (ucast b)))))"

definition syscallDispatchUtime :: "ptr \<Rightarrow> kernel \<Rightarrow> kernel option" where
  "syscallDispatchUtime t = withParams t (\<lambda>a b _ _.
     verified t ((a, of_nat MAX_FILE_PATH) # (if b \<noteq> 0 then [(b, 16)] else []))
       (serverCall t (\<lambda>i. onString a (\<lambda>s k.
          utime t i s (if b = 0 then None else Some (sint (user_read64 k b), sint (user_read64 k (b + 8)))) k))))"

definition syscallDispatchChdir :: "ptr \<Rightarrow> kernel \<Rightarrow> kernel option" where
  "syscallDispatchChdir t = withParams t (\<lambda>a _ _ _. verified t [(a, of_nat MAX_FILE_PATH)]
     (serverCall t (\<lambda>i. onString a (chdir t i))))"

definition syscallDispatchGetCWD :: "ptr \<Rightarrow> kernel \<Rightarrow> kernel option" where
  "syscallDispatchGetCWD t = withParams t (\<lambda>a b _ _ k. finish64 t (getcwd t a b k))"

definition syscallDispatchMount :: "ptr \<Rightarrow> kernel \<Rightarrow> kernel option" where
  "syscallDispatchMount t = withParams t (\<lambda>a b c d.
     verified t [(a, of_nat MAX_FILE_PATH), (b, of_nat MAX_FILE_PATH), (c, 32)]
       (serverCall t (\<lambda>i. onString a (\<lambda>s. onString b (\<lambda>g. onString c (\<lambda>y. mount t i s g y (asInt d)))))))"

definition syscallDispatchFcntl :: "ptr \<Rightarrow> kernel \<Rightarrow> kernel option" where
  "syscallDispatchFcntl t = withParams t (\<lambda>a b c _.
     verified t (if b \<noteq> of_int F_GETPATH then [] else [(c, of_nat MAX_FILE_PATH)])
       (\<lambda>k. finishInt t (fcntl t (asInt a) (asInt b) c k)))"

definition syscallDispatchOpendir :: "ptr \<Rightarrow> kernel \<Rightarrow> kernel option" where
  "syscallDispatchOpendir t = withParams t (\<lambda>a _ _ _. verified t [(a, of_nat MAX_FILE_PATH)]
     (serverCall t (\<lambda>i. onString a (opendir t i))))"

definition syscallDispatchClosedir :: "ptr \<Rightarrow> kernel \<Rightarrow> kernel option" where
  "syscallDispatchClosedir t = withParams t (\<lambda>a _ _ _ k. finishInt t (closedir t a k))"

definition syscallDispatchReaddir :: "ptr \<Rightarrow> kernel \<Rightarrow> kernel option" where
  "syscallDispatchReaddir t = withParams t (\<lambda>a b c _. verified t [(b, 8), (c, 8)]
     (serverCall t (\<lambda>i. readdir_r t i a)))"

definition syscallDispatchSeekdir :: "ptr \<Rightarrow> kernel \<Rightarrow> kernel option" where
  "syscallDispatchSeekdir t = withParams t (\<lambda>a b _ _ k.
     do { k1 \<leftarrow> seekdir t a (sint b) k; Some (upd_req t (\<lambda>q. q\<lparr>rq_unblock := True\<rparr>) k1) })"

definition syscallDispatchTelldir :: "ptr \<Rightarrow> kernel \<Rightarrow> kernel option" where
  "syscallDispatchTelldir t = withParams t (\<lambda>a _ _ _ k. finishInt t (telldir t a k))"

definition syscallDispatchFsync :: "ptr \<Rightarrow> kernel \<Rightarrow> kernel option" where
  "syscallDispatchFsync t = withParams t (\<lambda>a _ _ _. serverCall t (\<lambda>i. fsync t i (asInt a)))"

definition syscallDispatchStatvfs :: "ptr \<Rightarrow> kernel \<Rightarrow> kernel option" where
  "syscallDispatchStatvfs t = withParams t (\<lambda>a b _ _. verified t [(a, of_nat MAX_FILE_PATH), (b, 88)]
     (serverCall t (\<lambda>i. onString a (statvfs t i))))"

definition syscallDispatchFStatvfs :: "ptr \<Rightarrow> kernel \<Rightarrow> kernel option" where
  "syscallDispatchFStatvfs t = withParams t (\<lambda>a b _ _. verified t [(b, 88)]
     (serverCall t (\<lambda>i. fstatvfs t i (asInt a))))"

section \<open>Group 3: interprocess communication\<close>

text \<open>Socket addresses and signal actions in user memory.\<close>

definition sockaddrAt :: "u64 \<Rightarrow> kernel \<Rightarrow> sockaddr" where
  "sockaddrAt a k = \<lparr>sa_family = ucast (fromBytes (user_read k a 2)),
     sa_data = map (\<lambda>b. char_of (unat b)) (user_read k (a + 2) 512)\<rparr>"

definition sockaddrBytes :: "sockaddr \<Rightarrow> u8 list" where
  "sockaddrBytes s = take 2 (bytesOf (ucast (sa_family s))) @ map of_char (sa_data s)"

definition sigactionAt :: "u64 \<Rightarrow> kernel \<Rightarrow> sigaction" where
  "sigactionAt a k = \<lparr>sa_handler = user_read64 k a, sa_mask = user_read64 k (a + 8), sa_flags = user_read32 k (a + 16)\<rparr>"

definition writeSigaction :: "u64 \<Rightarrow> sigaction \<Rightarrow> kernel \<Rightarrow> kernel" where
  "writeSigaction a s k =
     user_write32 (a + 16) (sa_flags s) (user_write a (bytesOf (sa_handler s) @ bytesOf (sa_mask s)) k)"

definition syscallDispatchSocket :: "ptr \<Rightarrow> kernel \<Rightarrow> kernel option" where
  "syscallDispatchSocket t = withParams t (\<lambda>a b c _ k. finishInt t (socket t (asInt a) (asInt b) (asInt c) k))"

definition syscallDispatchConnect :: "ptr \<Rightarrow> kernel \<Rightarrow> kernel option" where
  "syscallDispatchConnect t = withParams t (\<lambda>a b c _. verified t [(b, c)] (\<lambda>k.
     do { (status, k1) \<leftarrow> connect t (asInt a) (sockaddrAt b k) c k;
          if wouldBlock status \<or> status = - EINPROGRESS then requeue False t k1
          else Some (complete t (of_int status) k1) }))"

definition syscallDispatchBind :: "ptr \<Rightarrow> kernel \<Rightarrow> kernel option" where
  "syscallDispatchBind t = withParams t (\<lambda>a b c _. verified t [(b, c)] (\<lambda>k.
     finishInt t (bind_socket t (asInt a) (sockaddrAt b k) c k)))"

definition syscallDispatchListen :: "ptr \<Rightarrow> kernel \<Rightarrow> kernel option" where
  "syscallDispatchListen t = withParams t (\<lambda>a b _ _ k. finishInt t (listen t (asInt a) (asInt b) k))"

text \<open>The peer's address goes to the caller's buffer, cut to the length that the caller gave.\<close>

definition storeAddress :: "u64 \<Rightarrow> u64 \<Rightarrow> sockaddr option \<Rightarrow> kernel \<Rightarrow> kernel" where
  "storeAddress addr len s k =
     (case s of None \<Rightarrow> k
      | Some s \<Rightarrow>
          if addr = 0 \<or> len = 0 then k
          else (let n = user_read64 k len;
                    k1 = (if n > SOCKADDR_SIZE then user_write len (bytesOf SOCKADDR_SIZE) k else k)
                in user_write addr (take (unat (min n SOCKADDR_SIZE)) (sockaddrBytes s)) k1))"

text \<open>The end of \<open>accept()\<close>, \<open>recv()\<close> and \<open>send()\<close>: wait, unless the descriptor says otherwise.\<close>

definition blockOr :: "ptr \<Rightarrow> u64 \<Rightarrow> int \<Rightarrow> kernel \<Rightarrow> kernel option" where
  "blockOr t fd status k =
     do { n \<leftarrow> (if wouldBlock status then nonblocking t fd k else Some True);
          if n then Some (complete t (of_int status) k) else requeue False t k }"

definition syscallDispatchAccept :: "ptr \<Rightarrow> kernel \<Rightarrow> kernel option" where
  "syscallDispatchAccept t = withParams t (\<lambda>a b c _ k.
     do { (status, k2) \<leftarrow> (if b = 0 then do { (s, _, k1) \<leftarrow> accept t (asInt a) k; Some (s, k1) }
            else do {
              (ok, k1) \<leftarrow> syscallVerifyPointer t b SOCKADDR_SIZE k;
              (ok2, k2) \<leftarrow> (if ok then syscallVerifyPointer t c 8 k1 else Some (False, k1));
              if ok2 then do { (s, addr, k3) \<leftarrow> accept t (asInt a) k2; Some (s, storeAddress b c addr k3) }
              else Some (- EWOULDBLOCK, k2) });
          blockOr t a status k2 })"

definition syscallDispatchRecv :: "env \<Rightarrow> ptr \<Rightarrow> kernel \<Rightarrow> kernel option" where
  "syscallDispatchRecv e t = withParams t (\<lambda>a b c d. verified t [(b, c)] (\<lambda>k.
     do { (status, k1) \<leftarrow> map_option (deliver (e_bytes e) b) (recv t (asInt a) c (asInt d) k);
          blockOr t a status k1 }))"

definition syscallDispatchSend :: "ptr \<Rightarrow> kernel \<Rightarrow> kernel option" where
  "syscallDispatchSend t = withParams t (\<lambda>a b c _. verified t [(b, c)] (\<lambda>k.
     do { (status, k1) \<leftarrow> send t (asInt a) (Raw (user_read k b (unat c))) c k; blockOr t a status k1 }))"

definition syscallDispatchKill :: "ptr \<Rightarrow> kernel \<Rightarrow> kernel option" where
  "syscallDispatchKill t = withParams t (\<lambda>a b _ _ k. finishInt t (kill t (asInt a) (asInt b) k))"

text \<open>A null pointer is passed on, any other is checked.\<close>

definition checks :: "u64 \<Rightarrow> u64 \<Rightarrow> (u64 \<times> u64) list" where
  "checks a len = (if a = 0 then [] else [(a, len)])"

definition syscallDispatchSigAction :: "ptr \<Rightarrow> kernel \<Rightarrow> kernel option" where
  "syscallDispatchSigAction t = withParams t (\<lambda>a b c _. verified t (checks b 24 @ checks c 24) (\<lambda>k.
     do { (status, old, k1) \<leftarrow> sigaction_call t (asInt a) (if b = 0 then None else Some (sigactionAt b k)) (c \<noteq> 0) k;
          Some (complete t (of_int status) (case old of None \<Rightarrow> k1 | Some s \<Rightarrow> writeSigaction c s k1)) }))"

definition syscallDispatchSigreturn :: "ptr \<Rightarrow> kernel \<Rightarrow> kernel option" where
  "syscallDispatchSigreturn t k = do { k1 \<leftarrow> sigreturn t k; Some (upd_req t (\<lambda>q. q\<lparr>rq_unblock := True\<rparr>) k1) }"

definition syscallDispatchSigprocmask :: "ptr \<Rightarrow> kernel \<Rightarrow> kernel option" where
  "syscallDispatchSigprocmask t = withParams t (\<lambda>a b c _. verified t (checks b 8 @ checks c 8) (\<lambda>k.
     do { (status, old, k1) \<leftarrow> sigprocmask t (asInt a) (if b = 0 then None else Some (user_read64 k b)) k;
          Some (complete t (of_int status)
            (case old of None \<Rightarrow> k1 | Some s \<Rightarrow> if c = 0 then k1 else user_write c (bytesOf s) k1)) }))"

section \<open>Group 4: memory management\<close>

definition syscallDispatchSBrk :: "ptr \<Rightarrow> kernel \<Rightarrow> kernel option" where
  "syscallDispatchSBrk t = withParams t (\<lambda>a _ _ _ k. finish64 t (sbrk t (sint a) k))"

definition syscallDispatchMmap :: "ptr \<Rightarrow> kernel \<Rightarrow> kernel option" where
  "syscallDispatchMmap t = withParams t (\<lambda>a _ _ _. verified t [(a, 40)] (\<lambda>k.
     do { (i, k1) \<leftarrow> newID t k;
          (status, k2) \<leftarrow> mmap t i (user_read64 k1 a) (user_read64 k1 (a + 8)) (of_int (user_read32 k1 (a + 16)))
            (of_int (user_read32 k1 (a + 20))) (user_read32 k1 (a + 24)) (sint (user_read64 k1 (a + 32))) k1;
          Some (if status \<noteq> 0 then complete t status k2
                else upd_req t (\<lambda>q. q\<lparr>rq_external := True, rq_unblock := False\<rparr>) k2) }))"

definition syscallDispatchMunmap :: "ptr \<Rightarrow> kernel \<Rightarrow> kernel option" where
  "syscallDispatchMunmap t = withParams t (\<lambda>a b _ _ k. finishInt t (munmap t a b k))"

definition syscallDispatchMsync :: "ptr \<Rightarrow> kernel \<Rightarrow> kernel option" where
  "syscallDispatchMsync t = withParams t (\<lambda>a b c _ k.
     do { (i, k1) \<leftarrow> newID t k;
          (status, k2) \<leftarrow> msync t i a b (ucast c) k1;
          Some (if status = 0 then upd_req t (\<lambda>q. q\<lparr>rq_external := True, rq_unblock := False\<rparr>) k2
                else if status = 1 then complete t 0 k2 else complete t (of_int status) k2) })"

section \<open>Group 5: drivers\<close>

definition syscallDispatchIoperm :: "ptr \<Rightarrow> kernel \<Rightarrow> kernel option" where
  "syscallDispatchIoperm t = withParams t (\<lambda>a b c _ k. finishInt t (ioperm t a b (asInt c \<noteq> 0) k))"

definition irqHandlerAt :: "u64 \<Rightarrow> kernel \<Rightarrow> IRQHandler" where
  "irqHandlerAt a k =
     \<lparr>ih_name = cstring (map (\<lambda>b. char_of (unat b)) (user_read k a 256)),
      ih_driver = cstring (map (\<lambda>b. char_of (unat b)) (user_read k (a + 256) 256)),
      ih_kernel = user_read32 k (a + 512), ih_khandler = user_read64 k (a + 520),
      ih_level = user_read32 k (a + 528), ih_high = user_read32 k (a + 532)\<rparr>"

definition syscallDispatchIRQ :: "ptr \<Rightarrow> kernel \<Rightarrow> kernel option" where
  "syscallDispatchIRQ t = withParams t (\<lambda>a b _ _. verified t [(b, 536)] (\<lambda>k.
     finishInt t (installIRQ t (asInt a) (irqHandlerAt b k) k)))"

definition syscallDispatchIoctl :: "ptr \<Rightarrow> kernel \<Rightarrow> kernel option" where
  "syscallDispatchIoctl t = withParams t (\<lambda>a b c _ k.
     do { (i, k1) \<leftarrow> newID t k;
          (ok, k2) \<leftarrow> (if b AND IOCTL_OUT_PARAM \<noteq> 0 then syscallVerifyPointer t c 8 k1 else Some (True, k1));
          (status, k3) \<leftarrow> (if ok then ioctl t i (asInt a) b c k2 else Some (-1, k2));
          Some (answer t status k3) })"

definition syscallDispatchMMIO :: "ptr \<Rightarrow> kernel \<Rightarrow> kernel option" where
  "syscallDispatchMMIO t = withParams t (\<lambda>a b c _ k. finish64 t (mmio t a (sint b) (ucast c) k))"

definition syscallDispatchPContig :: "ptr \<Rightarrow> kernel \<Rightarrow> kernel option" where
  "syscallDispatchPContig t = withParams t (\<lambda>a b c _ k. finish64 t (pcontig t a (sint b) (ucast c) k))"

definition syscallDispatchVToP :: "ptr \<Rightarrow> kernel \<Rightarrow> kernel option" where
  "syscallDispatchVToP t = withParams t (\<lambda>a _ _ _ k. do { v \<leftarrow> vtop t a k; Some (complete t v k) })"

section \<open>The dispatch table\<close>

definition MAX_SYSCALL :: u64 where "MAX_SYSCALL = 66"

definition syscallDispatchTable :: "env \<Rightarrow> (ptr \<Rightarrow> kernel \<Rightarrow> kernel option) option list" where
  "syscallDispatchTable e =
     [Some syscallDispatchExit, Some (syscallDispatchFork e), Some syscallDispatchYield, Some syscallDispatchWaitPID,
      Some syscallDispatchExecve, Some (syscallDispatchExecrdv e), Some syscallDispatchGetPID, Some syscallDispatchGetTID,
      Some syscallDispatchGetUID, Some syscallDispatchGetGID, None, None, Some syscallDispatchMSleep,
      Some syscallDispatchGetTimeOfDay, Some syscallDispatchGetPgrp, Some syscallDispatchSetPgrp,
      Some syscallDispatchOpen, Some syscallDispatchClose, Some (syscallDispatchRead e), Some syscallDispatchWrite,
      Some syscallDispatchLStat, Some syscallDispatchFStat, Some syscallDispatchLSeek, Some syscallDispatchChown,
      Some syscallDispatchChmod, Some syscallDispatchLink, Some syscallDispatchUnlink, Some syscallDispatchSymlink,
      Some syscallDispatchReadLink, Some syscallDispatchUmask, Some syscallDispatchMkdir, Some syscallDispatchUtime,
      None, Some syscallDispatchChdir, Some syscallDispatchGetCWD, Some syscallDispatchMount, None,
      Some syscallDispatchFcntl, Some syscallDispatchOpendir, Some syscallDispatchClosedir, Some syscallDispatchReaddir,
      Some syscallDispatchSeekdir, Some syscallDispatchTelldir, Some syscallDispatchFsync, Some syscallDispatchStatvfs,
      Some syscallDispatchFStatvfs,
      Some syscallDispatchSocket, Some syscallDispatchConnect, Some syscallDispatchBind, Some syscallDispatchListen,
      Some syscallDispatchAccept, Some (syscallDispatchRecv e), Some syscallDispatchSend, Some syscallDispatchKill,
      Some syscallDispatchSigAction, Some syscallDispatchSigreturn, Some syscallDispatchSigprocmask,
      Some syscallDispatchSBrk, Some syscallDispatchMmap, Some syscallDispatchMunmap, Some syscallDispatchMsync,
      Some syscallDispatchIoperm, Some syscallDispatchIRQ, Some syscallDispatchIoctl, Some syscallDispatchMMIO,
      Some syscallDispatchPContig, Some syscallDispatchVToP]"

end
