(* ===== verification/Syscalls.thy ===== *)
theory Syscalls
  imports Dispatch
begin

text \<open>
  The entry and the kernel's side of system calls, \<open>syscallHandle()\<close> and \<open>syscallProcess()\<close> of
  \<^verbatim>\<open>src/src/syscalls/queue.c\<close>. Calls of a few groups run at once in the context of the caller, the others wait in the
  queue until a kernel thread takes them.
\<close>

definition SYSCALL_IPC_START :: u64 where "SYSCALL_IPC_START = 48"
definition SYSCALL_IPC_END :: u64 where "SYSCALL_IPC_END = 52"
definition SYSCALL_RW_START :: u64 where "SYSCALL_RW_START = 18"
definition SYSCALL_RW_END :: u64 where "SYSCALL_RW_END = 19"
definition SYSCALL_LSEEK :: u64 where "SYSCALL_LSEEK = 22"

definition immediate :: "u64 \<Rightarrow> bool" where
  "immediate f \<longleftrightarrow> SYSCALL_IPC_START \<le> f \<and> f \<le> SYSCALL_IPC_END \<or> SYSCALL_RW_START \<le> f \<and> f \<le> SYSCALL_RW_END \<or> f = SYSCALL_LSEEK"

text \<open>The entry of the dispatch table for a function number, \<open>None\<close> for a null entry or a number out of range.\<close>

definition handlerOf :: "env \<Rightarrow> u64 \<Rightarrow> (ptr \<Rightarrow> kernel \<Rightarrow> kernel option) option" where
  "handlerOf e f = (if f > MAX_SYSCALL then None else syscallDispatchTable e ! unat f)"

text \<open>
  \<open>syscallHandle()\<close>: \<open>True\<close> when it returns straight to the caller, \<open>False\<close> when it goes on to the scheduler. A null entry of the
  table cannot be reached here.
\<close>

definition syscallHandle :: "env \<Rightarrow> ThreadContext \<Rightarrow> kernel \<Rightarrow> (bool \<times> kernel) option" where
  "syscallHandle e ctx k =
     do { let k1 = setLocalSched False k;
          t \<leftarrow> getThread k1 (getTid k1);
          if t = 0 then Some (False, k1) else do {
          k2 \<leftarrow> platformCreateSyscallContext t (saveContext t ctx k1);
          r \<leftarrow> request k2 t;
          if immediate (rq_function r) then do {
            f \<leftarrow> handlerOf e (rq_function r);
            k3 \<leftarrow> f t k2;
            r' \<leftarrow> request k3 t;
            x \<leftarrow> k_thread k3 t;
            if rq_unblock r'
            then Some (True, platformUseContext (th_context x) (platformSetContextStatus t (rq_ret r') (setStatus t THREAD_RUNNING k3)))
            else Some (False, setStatus t THREAD_BLOCKED k3) }
          else do {
            k3 \<leftarrow> syscallEnqueue t k2;
            Some (False, setStatus t THREAD_BLOCKED k3) } } }"

text \<open>The result is zero when nothing was done.\<close>

definition dispatchRequest :: "env \<Rightarrow> ptr \<Rightarrow> kernel \<Rightarrow> (bool \<times> kernel) option" where
  "dispatchRequest e t k =
     do { r \<leftarrow> request k t;
          case handlerOf e (rq_function r) of
            None \<Rightarrow> do { k1 \<leftarrow> schedLock k; k2 \<leftarrow> terminateThread t (-1) False k1; Some (False, schedRelease k2) }
          | Some f \<Rightarrow> do {
              k1 \<leftarrow> signalHandle t k;
              x \<leftarrow> k_thread k1 t;
              case th_status x of
                THREAD_ZOMBIE \<Rightarrow> Some (True, k1)
              | THREAD_QUEUED \<Rightarrow> do { k2 \<leftarrow> syscallEnqueue t k1; Some (False, k2) }
              | THREAD_BLOCKED \<Rightarrow> do {
                  (_, k2) \<leftarrow> threadUseContext (th_tid x) k1;
                  k3 \<leftarrow> f t k2;
                  r' \<leftarrow> request k3 t;
                  Some (False, platformSetContextStatus t (rq_ret r') k3) }
              | _ \<Rightarrow> Some (False, k1) } }"

definition syscallProcess :: "env \<Rightarrow> kernel \<Rightarrow> (int \<times> kernel) option" where
  "syscallProcess e k =
     (if k_requests k = 0 then Some (0, k)
      else do {
        (t, k1) \<leftarrow> syscallDequeue k;
        if t = 0 then Some (0, k1) else do {
        x \<leftarrow> k_thread k1 t;
        if th_status x \<noteq> THREAD_BLOCKED then Some (0, k1) else do {
        (zombie, k2) \<leftarrow> dispatchRequest e t (setLocalSched False k1);
        if zombie then Some (1, setLocalSched True k2) else do {
        y \<leftarrow> k_thread k2 t;
        k3 \<leftarrow> (if th_status y = THREAD_BLOCKED \<and> rq_unblock (th_syscall y)
               then do { k3 \<leftarrow> resetTime t (setStatus t THREAD_QUEUED k2); Some (upd_req t (\<lambda>q. q\<lparr>rq_busy := False\<rparr>) k3) }
               else Some k2);
        Some (1, setLocalSched True k3) }}}})"

section \<open>Specification vocabulary\<close>

text \<open>The thread as the entry of a system call leaves it, before the call is carried out.\<close>

definition entered :: "ThreadContext \<Rightarrow> Thread \<Rightarrow> Thread" where
  "entered ctx x = x\<lparr>th_context := ctx\<lparr>cx_iopl := cx_iopl (th_context x), cx_ioports := cx_ioports (th_context x),
       cx_cr3 := cx_cr3 (th_context x)\<rparr>,
     th_syscall := (th_syscall x)\<lparr>rq_next := 0, rq_busy := False, rq_function := cx_rax ctx,
       rq_params := [cx_rdi ctx, cx_rsi ctx, cx_rdx ctx, cx_r8 ctx], rq_retry := False\<rparr>\<rparr>"

definition entry :: "ptr \<Rightarrow> ThreadContext \<Rightarrow> kernel \<Rightarrow> kernel" where
  "entry t ctx k = k\<lparr>k_localSched := False, k_thread := (k_thread k)(t := map_option (entered ctx) (k_thread k t))\<rparr>"

text \<open>The number the trampoline of \<^verbatim>\<open>sigstub.asm\<close> puts into \<open>rax\<close>.\<close>

definition SYSCALL_SIGRETURN :: u64 where "SYSCALL_SIGRETURN = 49"

text \<open>Thread 21 runs and has completed a system call before.\<close>

definition caller :: Thread where
  "caller = thread0\<lparr>th_pid := 2, th_tid := 2, th_handlingSignal := True, th_syscall := request0\<lparr>rq_unblock := True, rq_function := 10\<rparr>\<rparr>"

definition env_ex :: env where
  "env_ex = \<lparr>e_sigstub = [0xB8, 49, 0, 0, 0, 0x0F, 0x05], e_rs = [], e_junk = [], e_bytes = (\<lambda>m. case m of Raw bs \<Rightarrow> bs | _ \<Rightarrow> [])\<rparr>"

definition caller_ex :: kernel where
  "caller_ex = kernel_ex\<lparr>k_curThread := 21, k_thread := (k_thread kernel_ex)(21 \<mapsto> caller)\<rparr>"

section \<open>User pointers\<close>


section \<open>Entry\<close>

lemma entry_request:
  assumes x: "k_thread k t = Some x"
  shows "platformCreateSyscallContext t (saveContext t ctx (setLocalSched False k)) = Some (entry t ctx k)"
    and "request (entry t ctx k) t = Some (th_syscall (entered ctx x))"
  using x by (simp_all add: platformCreateSyscallContext_def saveContext_def setLocalSched_def upd_req_def upd_thread_def
      entry_def entered_def request_def)

lemma syscallHandle_immediate:
  assumes x: "k_thread k t = Some x" "t \<noteq> 0" "k_curThread k = t" "getThread k (th_tid x) = Some t"
    and f: "immediate (cx_rax ctx)" "handlerOf e (cx_rax ctx) = Some f"
  shows "syscallHandle e ctx k =
    do { k3 \<leftarrow> f t (entry t ctx k);
         y \<leftarrow> k_thread k3 t;
         if rq_unblock (th_syscall y)
         then Some (True, platformUseContext (th_context y)
           (platformSetContextStatus t (rq_ret (th_syscall y)) (setStatus t THREAD_RUNNING k3)))
         else Some (False, setStatus t THREAD_BLOCKED k3) }"
proof -
  have "getTid (setLocalSched False k) = th_tid x" using x by (simp add: getTid_def setLocalSched_def)
  moreover have "getThread (setLocalSched False k) (th_tid x) = Some t"
    using x(4) getThread_tids [of k "setLocalSched False k"] by (simp add: same_tids_def setLocalSched_def)
  moreover have "rq_function (th_syscall (entered ctx x)) = cx_rax ctx" by (simp add: entered_def)
  ultimately show ?thesis
    using x(2) f entry_request [OF x(1)]
    by (simp add: syscallHandle_def) (auto simp: request_def split: Option.bind_splits)
qed

lemma handlerOf_simps:
  "handlerOf e 18 = Some (syscallDispatchRead e)" "handlerOf e 19 = Some syscallDispatchWrite"
  "handlerOf e 49 = Some syscallDispatchListen" "handlerOf e 55 = Some syscallDispatchSigreturn"
  by (simp_all add: handlerOf_def MAX_SYSCALL_def syscallDispatchTable_def)

section \<open>A caller that was terminated\<close>

lemma kwf_cong:
  assumes "k_proc k' = k_proc k" "k_list k' = k_list k" "\<And>u. (k_thread k' u = None) = (k_thread k u = None)"
  shows "kwf k' = kwf k"
  unfolding kwf_def assms ..

lemma entry_wf: "kwf k \<Longrightarrow> kwf (entry t ctx k)"
  by (subst kwf_cong [of _ k]) (simp_all add: entry_def)

lemma rw_verifies:
  assumes "cx_rax ctx = 18 \<or> cx_rax ctx = 19" "request k t = Some r"
  shows "\<exists>f g. handlerOf e (cx_rax ctx) = Some f \<and> f t k = verified t [(rq_params r ! 1, rq_params r ! 2)] g k"
  using assms
  by (auto simp: handlerOf_simps syscallDispatchRead_def syscallDispatchWrite_def withParams_def simp del: verified.simps)

lemma bad_pointer_kills:
  assumes wf: "kwf k" and x: "k_thread k t = Some x" and lumen: "th_pid x \<noteq> k_lumen k" "th_tid x \<noteq> k_lumen k"
    and p: "getProcess k (th_pid x) = Some p" "p \<noteq> 0" "k_proc k p = Some px" "pr_threads px = [t]" "t \<noteq> 0"
    and bad: "base < USER_BASE_ADDRESS"
  shows "\<exists>k'. verified t [(base, len)] g (entry t ctx k) = Some k' \<and>
    k_thread k' t = Some (zombie (-1) False (entered ctx x)) \<and> map_option pr_zombie (k_proc k' p) = Some True"
proof -
  have e: "k_thread (entry t ctx k) t = Some (entered ctx x)" "k_lumen (entry t ctx k) = k_lumen k"
    "k_proc (entry t ctx k) = k_proc k" "th_pid (entered ctx x) = th_pid x" "th_tid (entered ctx x) = th_tid x"
    using x by (simp_all add: entry_def entered_def)
  have g: "getProcess (entry t ctx k) (th_pid x) = Some p"
    using p(1) getProcess_cong [of "entry t ctx k" k] by (simp add: entry_def)
  obtain k' z where k': "terminateThread t (-1) False (entry t ctx k) = Some k'"
      "k_thread k' = (k_thread (entry t ctx k))(t \<mapsto> zombie (-1) False (entered ctx x))"
      "z = (\<forall>u \<in> set (pr_threads px). map_option th_status (k_thread k' u) = Some THREAD_ZOMBIE)"
      "\<forall>c. k_proc k' c = map_option (if z \<and> c \<in> set (pr_children px) then adopt (k_lumen (entry t ctx k)) else id)
         (((k_proc (entry t ctx k))(p \<mapsto> px\<lparr>pr_zombie := z\<rparr>)) c)"
    using terminateThread_spec [OF entry_wf [OF wf] e(1), of p px "-1" False] lumen p g e by auto
  have "z" using k'(2,3) p(4) by (simp add: zombie_def)
  then have "map_option pr_zombie (k_proc k' p) = Some True" using k'(4) by (simp add: adopt_def)
  with k'(1,2) bad show ?thesis by (simp add: syscallVerifyPointer_def)
qed

text \<open>
  A caller that was terminated and yet goes on. When \<open>read()\<close> or \<open>write()\<close> is given a pointer below user space, the caller
  and with it its process are marked as terminated; but the result of the previous system call is still in the request, and
  \<open>syscallHandle()\<close> acts on it: if that call had unblocked the thread, as every completed call does, the terminated thread is
  marked as running and returns to the program, otherwise it is marked as blocked. In neither case does it stay a zombie.
\<close>

theorem terminated_caller_returns:
  assumes wf: "kwf k" and x: "k_thread k t = Some x" "k_curThread k = t" "getThread k (th_tid x) = Some t"
    and lumen: "th_pid x \<noteq> k_lumen k" "th_tid x \<noteq> k_lumen k"
    and p: "getProcess k (th_pid x) = Some p" "p \<noteq> 0" "k_proc k p = Some px" "pr_threads px = [t]" "t \<noteq> 0"
    and bad: "cx_rax ctx = 18 \<or> cx_rax ctx = 19" "cx_rsi ctx < USER_BASE_ADDRESS"
  shows "\<exists>k' y. syscallHandle e ctx k = Some (rq_unblock (th_syscall x), k') \<and> k_thread k' t = Some y \<and>
    th_status y = (if rq_unblock (th_syscall x) then THREAD_RUNNING else THREAD_BLOCKED) \<and>
    th_exitStatus y = 0xFF \<and> map_option pr_zombie (k_proc k' p) = Some True"
proof -
  have i: "immediate (cx_rax ctx)"
    using bad(1) by (auto simp: immediate_def SYSCALL_RW_START_def SYSCALL_RW_END_def)
  have r: "request (entry t ctx k) t = Some (th_syscall (entered ctx x))" using entry_request [OF x(1)] by simp
  obtain f g where f: "handlerOf e (cx_rax ctx) = Some f"
      and g: "f t (entry t ctx k) = verified t [(cx_rsi ctx, cx_rdx ctx)] g (entry t ctx k)"
    using rw_verifies [OF bad(1) r, of e] by (simp add: entered_def del: verified.simps) blast
  obtain k' where k': "verified t [(cx_rsi ctx, cx_rdx ctx)] g (entry t ctx k) = Some k'"
      "k_thread k' t = Some (zombie (-1) False (entered ctx x))" "map_option pr_zombie (k_proc k' p) = Some True"
    using bad_pointer_kills [OF wf x(1) lumen p bad(2)] by blast
  have u: "rq_unblock (th_syscall (zombie (-1) False (entered ctx x))) = rq_unblock (th_syscall x)"
    "th_exitStatus (zombie (-1) False (entered ctx x)) = 0xFF"
    by (simp_all add: zombie_def entered_def)
  show ?thesis
    unfolding syscallHandle_immediate [OF x(1) p(5) x(2,3) i f] g k'(1)
    using k' u
    by (auto simp: setStatus_def platformUseContext_def platformSetContextStatus_def upd_thread_def)
qed

section \<open>Undefined system calls\<close>

lemma handlerOf_None: "handlerOf e f = None \<longleftrightarrow> f > MAX_SYSCALL \<or> f \<in> {10, 11, 32, 36}"
proof (cases "f > MAX_SYSCALL")
  case False
  then have "unat f \<le> 66" by (simp add: MAX_SYSCALL_def word_le_nat_alt word_less_nat_alt)
  then have "unat f \<in> set [0..<67]" by simp
  moreover have "\<forall>n \<in> set [0..<67]. (syscallDispatchTable e ! n = None) = (n \<in> {10, 11, 32, 36})"
    by (simp add: syscallDispatchTable_def upt_rec)
  ultimately have "(handlerOf e f = None) = (unat f \<in> {10, 11, 32, 36})" using False by (simp add: handlerOf_def)
  moreover have "(unat f \<in> {10, 11, 32, 36}) = (f \<in> {10, 11, 32, 36})" by (auto simp: word_unat_eq_iff)
  ultimately show ?thesis using False by simp
qed (simp add: handlerOf_def)


section \<open>Return from a signal handler\<close>

lemma listen_threads: "listen t sd n k = Some (r, k') \<Longrightarrow> k_thread k' = k_thread k"
  by (auto simp: listen_def socketLock_def socketRelease_def kalloc_def upd_sock_def Let_def
      split: Option.bind_splits sum.splits if_splits prod.splits)

text \<open>
  The end of a signal handler. The trampoline makes system call 49, which the dispatch table gives to \<open>listen()\<close>; the wrapper
  of \<open>sigreturn()\<close> is number 55. So the thread comes back from the trampoline's call still marked as handling a signal,
  and the context that the signal interrupted is not restored.
\<close>

theorem trampoline_calls_listen:
  assumes x: "k_thread k t = Some x" "t \<noteq> 0" "k_curThread k = t" "getThread k (th_tid x) = Some t"
    and c: "cx_rax ctx = SYSCALL_SIGRETURN" "th_handlingSignal x"
    and l: "listen t (asInt (cx_rdi ctx)) (asInt (cx_rsi ctx)) (entry t ctx k) = Some (r, k1)"
  shows "handlerOf e 55 = Some syscallDispatchSigreturn \<and>
    (\<exists>k' y. syscallHandle e ctx k = Some (True, k') \<and> k_thread k' t = Some y \<and> th_handlingSignal y \<and>
      th_signalContext y = th_signalContext x \<and> cx_rip (th_context y) = cx_rip ctx \<and> cx_rax (th_context y) = of_int r)"
proof -
  have "immediate (cx_rax ctx)" using c(1) by (simp add: immediate_def SYSCALL_SIGRETURN_def SYSCALL_IPC_START_def SYSCALL_IPC_END_def)
  moreover have h: "handlerOf e (cx_rax ctx) = Some syscallDispatchListen" using c(1) by (simp add: handlerOf_simps SYSCALL_SIGRETURN_def)
  moreover have "syscallDispatchListen t (entry t ctx k) = Some (complete t (of_int r) k1)"
    using l entry_request(2) [OF x(1), of ctx]
    by (simp add: syscallDispatchListen_def withParams_def finishInt_def entered_def)
  moreover have "k_thread k1 t = Some (entered ctx x)" using listen_threads [OF l] x(1) by (simp add: entry_def)
  then have "k_thread (complete t (of_int r) k1) t = Some ((entered ctx x)\<lparr>th_syscall := (th_syscall (entered ctx x))\<lparr>rq_ret := of_int r, rq_unblock := True\<rparr>\<rparr>)"
    by (simp add: complete_def upd_req_def upd_thread_def)
  ultimately show ?thesis
    using syscallHandle_immediate [OF x, of ctx e] c(2)
    by (simp add: handlerOf_simps setStatus_def platformUseContext_def platformSetContextStatus_def upd_thread_def entered_def)
qed

section \<open>Witnesses\<close>

lemma caller_ex_facts:
  "kwf caller_ex" "k_thread caller_ex 21 = Some caller" "k_curThread caller_ex = 21" "getThread caller_ex (th_tid caller) = Some 21"
  "th_pid caller \<noteq> k_lumen caller_ex" "th_tid caller \<noteq> k_lumen caller_ex" "getProcess caller_ex (th_pid caller) = Some 20"
  "k_proc caller_ex 20 = Some (process0\<lparr>pr_pid := 2, pr_parent := 1, pr_threads := [21]\<rparr>)"
  by (simp_all add: caller_ex_def kernel_ex_def kernel0_def caller_def thread0_def process0_def kwf_def getThread_def getProcess_def)


theorem terminated_caller_returns_witness:
  "\<exists>k'. syscallHandle env_ex (context0\<lparr>cx_rax := 18\<rparr>) caller_ex = Some (True, k') \<and> map_option pr_zombie (k_proc k' 20) = Some True"
proof -
  have "cx_rax (context0\<lparr>cx_rax := 18\<rparr>) = 18 \<or> cx_rax (context0\<lparr>cx_rax := 18\<rparr>) = 19"
    "cx_rsi (context0\<lparr>cx_rax := 18\<rparr>) < USER_BASE_ADDRESS" "rq_unblock (th_syscall caller)"
    by (simp_all add: context0_def layout_defs caller_def)
  with terminated_caller_returns [OF caller_ex_facts(1-7) _ caller_ex_facts(8), of "context0\<lparr>cx_rax := 18\<rparr>" env_ex]
  show ?thesis by auto
qed


theorem trampoline_calls_listen_witness:
  "\<exists>k' y. syscallHandle env_ex (context0\<lparr>cx_rax := 49, cx_rdi := 0xFFFFFFFF\<rparr>) caller_ex = Some (True, k') \<and>
     k_thread k' 21 = Some y \<and> th_handlingSignal y"
proof -
  let ?c = "context0\<lparr>cx_rax := 49, cx_rdi := 0xFFFFFFFF\<rparr>"
  have "\<exists>r k1. listen 21 (asInt (cx_rdi ?c)) (asInt (cx_rsi ?c)) (entry 21 ?c caller_ex) = Some (r, k1)"
    by (simp add: listen_def socketOf_def validDescriptor_def asInt_def)
  then obtain r k1 where "listen 21 (asInt (cx_rdi ?c)) (asInt (cx_rsi ?c)) (entry 21 ?c caller_ex) = Some (r, k1)" by blast
  from trampoline_calls_listen [OF caller_ex_facts(2) _ caller_ex_facts(3,4) _ _ this, of env_ex]
  show ?thesis by (auto simp: SYSCALL_SIGRETURN_def caller_def)
qed

end
