(* ===== verification/Servers.thy ===== *)
theory Servers
  imports Syscalls Console
begin

text \<open>
  The kernel's side of the protocol with the servers, \<^verbatim>\<open>src/src/servers\<close>, and the kernel thread that drives
  it, \<^verbatim>\<open>src/src/main.c\<close>: the responses that complete a system call (\<^verbatim>\<open>syscalls.c\<close>), the requests the
  kernel serves itself (\<^verbatim>\<open>general.c\<close>), the accept and receive loop (\<^verbatim>\<open>handle.c\<close>) and the start of the system.
  A message is one of the structures of \<^verbatim>\<open>kernel/servers.h\<close>; a response whose structure does not belong to its
  command is \<open>None\<close>, since the code would read the bytes of one structure as another. The function \<open>parse\<close> stands
  for the layout of those structures in memory: it gives the structure the received bytes hold.
\<close>

section \<open>Messages\<close>

fun messageHeader :: "payload \<Rightarrow> MessageHeader option" where
  "messageHeader (Raw bs) = None"
| "messageHeader (General h) = Some h"
| "messageHeader (CMount c) = Some (MessageHeader.truncate c)"
| "messageHeader (CStat c) = Some (MessageHeader.truncate c)"
| "messageHeader (CFsync c) = Some (MessageHeader.truncate c)"
| "messageHeader (COpen c) = Some (MessageHeader.truncate c)"
| "messageHeader (CRW c) = Some (MessageHeader.truncate c)"
| "messageHeader (CIoctl c) = Some (MessageHeader.truncate c)"
| "messageHeader (COpendir c) = Some (MessageHeader.truncate c)"
| "messageHeader (CReaddir c) = Some (MessageHeader.truncate c)"
| "messageHeader (CChmod c) = Some (MessageHeader.truncate c)"
| "messageHeader (CChown c) = Some (MessageHeader.truncate c)"
| "messageHeader (CLink c) = Some (MessageHeader.truncate c)"
| "messageHeader (CUnlink c) = Some (MessageHeader.truncate c)"
| "messageHeader (CReadLink c) = Some (MessageHeader.truncate c)"
| "messageHeader (CMkdir c) = Some (MessageHeader.truncate c)"
| "messageHeader (CUtime c) = Some (MessageHeader.truncate c)"
| "messageHeader (CExec c) = Some (MessageHeader.truncate c)"
| "messageHeader (CChdir c) = Some (MessageHeader.truncate c)"
| "messageHeader (CStatvfs c) = Some (MessageHeader.truncate c)"
| "messageHeader (CMmap c) = Some (MessageHeader.truncate c)"
| "messageHeader (CMsync c) = Some (MessageHeader.truncate c)"
| "messageHeader (CLog c) = Some (MessageHeader.truncate c)"
| "messageHeader (CRand c) = Some (MessageHeader.truncate c)"
| "messageHeader (CSysInfo c) = Some (MessageHeader.truncate c)"
| "messageHeader (CFramebuffer c) = Some (MessageHeader.truncate c)"
| "messageHeader (CIrq c) = Some (MessageHeader.truncate c)"

section \<open>Responses to system calls\<close>

text \<open>
  Each part below is one case of the switch in \<open>handleSyscallResponse()\<close>, for the thread \<open>t\<close> of the
  request and its process \<open>p\<close>. The flag in the result says whether the function goes on to wake the thread;
  a case that returns early leaves it blocked or replaced.
\<close>

definition setRequestRet :: "ptr \<Rightarrow> u64 \<Rightarrow> kernel \<Rightarrow> kernel" where
  "setRequestRet t v = upd_req t (\<lambda>q. q\<lparr>rq_ret := v\<rparr>)"

text \<open>\<open>threadUseContext(req->thread->tid)\<close> and a copy to the memory of the caller.\<close>

definition copyToCaller :: "ptr \<Rightarrow> u64 \<Rightarrow> u8 list \<Rightarrow> kernel \<Rightarrow> kernel option" where
  "copyToCaller t a bs k =
     do { x \<leftarrow> k_thread k t; (_, k1) \<leftarrow> threadUseContext (th_tid x) k; put_user a bs k1 }"

text \<open>\<open>p->io[i]\<close> read, for any index the caller passed.\<close>

definition ioEntry :: "ptr \<Rightarrow> nat \<Rightarrow> kernel \<Rightarrow> IODescriptor option" where
  "ioEntry p i k = do { x \<leftarrow> k_proc k p; if i < MAX_IO_DESCRIPTORS then Some (pr_io x ! i) else None }"

definition respondOpen :: "int \<Rightarrow> ptr \<Rightarrow> ptr \<Rightarrow> OpenCommand \<Rightarrow> kernel \<Rightarrow> kernel option" where
  "respondOpen sd t p c k =
     do { (fd, k1) \<leftarrow> openIO p k;
          if fd < 0 then None
          else do {
            let (file, k2) = kalloc k1;
            let k3 = upd_io p (nat fd) (\<lambda>d. d\<lparr>io_type := IO_FILE, io_flags := of_int (open_flags c), io_data := file\<rparr>) k2;
            if file = 0 then Some (setRequestRet t (of_int (- ENOMEM)) (closeIO p (nat fd) k3))
            else do {
              abspath \<leftarrow> fits MAX_FILE_PATH (open_abspath c);
              device \<leftarrow> fits MAX_FILE_PATH (open_device c);
              path \<leftarrow> fits MAX_FILE_PATH (open_path c);
              Some (setRequestRet t (of_int fd) (k3\<lparr>k_file := (k_file k3)(file \<mapsto>
                \<lparr>fd_process = p, fd_abspath = abspath, fd_device = device, fd_path = path, fd_position = 0,
                 fd_id = open_id c, fd_charDev = open_charDev c, fd_refCount = 1, fd_sd = sd\<rparr>)\<rparr>)) } } }"

definition respondOpendir :: "int \<Rightarrow> ptr \<Rightarrow> ptr \<Rightarrow> OpendirCommand \<Rightarrow> kernel \<Rightarrow> kernel option" where
  "respondOpendir sd t p c k =
     do { (dd, k1) \<leftarrow> openIO p k;
          if dd < 0 then None
          else do {
            let (dir, k2) = kalloc k1;
            let k3 = upd_io p (nat dd) (\<lambda>d. d\<lparr>io_type := IO_DIRECTORY, io_data := dir\<rparr>) k2;
            if dir = 0 then Some (setRequestRet t (of_int (- ENOMEM)) (closeIO p (nat dd) k3))
            else do {
              path \<leftarrow> fits MAX_FILE_PATH (opendir_path c);
              device \<leftarrow> fits MAX_FILE_PATH (opendir_device c);
              Some (setRequestRet t (of_int dd OR DIRECTORY_DESCRIPTOR_FLAG) (k3\<lparr>k_dir := (k_dir k3)(dir \<mapsto>
                \<lparr>dd_process = p, dd_path = path, dd_device = device, dd_position = 0, dd_sd = sd\<rparr>)\<rparr>)) } } }"

text \<open>The new position of the file that descriptor \<open>fd\<close> of the process names.\<close>

definition setPosition :: "ptr \<Rightarrow> u64 \<Rightarrow> int \<Rightarrow> kernel \<Rightarrow> kernel option" where
  "setPosition p fd pos k =
     do { d \<leftarrow> ioEntry p (unat fd) k; _ \<leftarrow> k_file k (io_data d); Some (upd_file (io_data d) (\<lambda>f. f\<lparr>fd_position := pos\<rparr>) k) }"

definition respondRead :: "ptr \<Rightarrow> ptr \<Rightarrow> RWCommand \<Rightarrow> kernel \<Rightarrow> (bool \<times> kernel) option" where
  "respondRead t p c k =
     do { r \<leftarrow> request k t;
          let status = sint (mh_status c);
          let fd = rq_params r ! 0;
          again \<leftarrow> (if wouldBlock status then map_option Not (nonblocking t fd k) else Some False);
          if again then do { k1 \<leftarrow> requeue True t (setStatus t THREAD_BLOCKED k); Some (False, k1) }
          else if status < 0 then Some (True, k)
          else if unat (mh_status c) > length (rw_data c) then None
          else do {
            k1 \<leftarrow> copyToCaller t (rq_params r ! 1) (take (unat (mh_status c)) (rw_data c)) k;
            k2 \<leftarrow> setPosition p fd (rw_position c) k1;
            Some (True, k2) } }"

definition respondWrite :: "ptr \<Rightarrow> ptr \<Rightarrow> RWCommand \<Rightarrow> kernel \<Rightarrow> (bool \<times> kernel) option" where
  "respondWrite t p c k =
     do { r \<leftarrow> request k t;
          let status = sint (mh_status c);
          let fd = rq_params r ! 0;
          again \<leftarrow> (if wouldBlock status then map_option Not (nonblocking t fd k) else Some False);
          if again then do { k1 \<leftarrow> requeue True t (setStatus t THREAD_BLOCKED k); Some (False, k1) }
          else if status < 0 then Some (True, k)
          else do { k1 \<leftarrow> setPosition p fd (rw_position c) k; Some (True, k1) } }"

definition respondIoctl :: "ptr \<Rightarrow> IOCTLCommand \<Rightarrow> kernel \<Rightarrow> kernel option" where
  "respondIoctl t c k =
     do { r \<leftarrow> request k t;
          if sint (mh_status c) \<ge> 0 \<and> ioctl_opcode c AND IOCTL_OUT_PARAM \<noteq> 0
          then copyToCaller t (rq_params r ! 2) (bytesOf (ioctl_parameter c)) k
          else Some k }"

text \<open>\<open>sizeof(struct dirent) + strlen(entry.d_name) + 1\<close> bytes of the entry.\<close>

definition direntBytes :: "u8 list \<Rightarrow> u8 list option" where
  "direntBytes bs = (let name = takeWhile (\<lambda>b. b \<noteq> 0) (drop 8 bs) in
     if 8 + length name < length bs then Some (take (8 + length name + 1) bs) else None)"

definition respondReaddir :: "ptr \<Rightarrow> ptr \<Rightarrow> ReaddirCommand \<Rightarrow> kernel \<Rightarrow> kernel option" where
  "respondReaddir t p c k =
     do { r \<leftarrow> request k t;
          let dd = dirDescriptor (rq_params r ! 0);
          if dd < 0 then None else do {
          d \<leftarrow> ioEntry p (nat dd) k;
          _ \<leftarrow> k_dir k (io_data d);
          let k1 = upd_dir (io_data d) (\<lambda>x. x\<lparr>dd_position := readdir_position c\<rparr>) k;
          if readdir_end c then copyToCaller t (rq_params r ! 2) (bytesOf 0) k1
          else do {
            bs \<leftarrow> direntBytes (readdir_entry c);
            k2 \<leftarrow> copyToCaller t (rq_params r ! 1) bs k1;
            put_user (rq_params r ! 2) (bytesOf (rq_params r ! 1)) k2 } } }"

text \<open>On failure the lock that was taken for the replacement is not released here.\<close>

definition respondExec :: "env \<Rightarrow> ptr \<Rightarrow> ExecCommand \<Rightarrow> kernel \<Rightarrow> (bool \<times> kernel) option" where
  "respondExec e t c k =
     do { k1 \<leftarrow> schedLock k;
          (status, k2) \<leftarrow> execveHandle (e_sigstub e) (e_junk e) c k1;
          Some (if status = 0 then (False, schedRelease k2) else (True, setRequestRet t (of_int status) k2)) }"

definition respondChdir :: "ptr \<Rightarrow> ChdirCommand \<Rightarrow> kernel \<Rightarrow> kernel option" where
  "respondChdir p c k =
     do { path \<leftarrow> fits MAX_PATH (chdir_path c); _ \<leftarrow> k_proc k p; Some (upd_proc p (\<lambda>x. x\<lparr>pr_cwd := path\<rparr>) k) }"

definition respondMmap :: "ptr \<Rightarrow> MmapCommand \<Rightarrow> kernel \<Rightarrow> kernel option" where
  "respondMmap t c k = do { x \<leftarrow> k_thread k t; (_, k1) \<leftarrow> threadUseContext (th_tid x) k; mmapHandle c t k1 }"

text \<open>The status is an unsigned number, so the test \<open>status <= 0\<close> only finds zero.\<close>

definition respondReadlink :: "ptr \<Rightarrow> ReadLinkCommand \<Rightarrow> kernel \<Rightarrow> kernel option" where
  "respondReadlink t c k =
     do { r \<leftarrow> request k t;
          if mh_status c \<le> 0 then Some k
          else do {
            let linkLength = (if mh_status c > rq_params r ! 2 then rq_params r ! 2 else mh_status c);
            if unat linkLength > length (readlink_path c) then None
            else copyToCaller t (rq_params r ! 1) (map of_char (take (unat linkLength) (readlink_path c)))
              (setRequestRet t linkLength k) } }"

definition respondFsync :: "ptr \<Rightarrow> ptr \<Rightarrow> FsyncCommand \<Rightarrow> kernel \<Rightarrow> kernel option" where
  "respondFsync t p c k =
     (if \<not> fsync_close c then Some k
      else do {
        r \<leftarrow> request k t;
        d \<leftarrow> ioEntry p (unat (rq_params r ! 0)) k;
        if io_data d = 0 then Some k
        else do { k1 \<leftarrow> dropFile (io_data d) k; Some (closeIO p (unat (rq_params r ! 0)) k1) } })"

definition wake :: "kernel option \<Rightarrow> (bool \<times> kernel) option" where
  "wake r = map_option (\<lambda>k. (True, k)) r"

definition respond :: "env \<Rightarrow> int \<Rightarrow> ptr \<Rightarrow> ptr \<Rightarrow> payload \<Rightarrow> MessageHeader \<Rightarrow> kernel \<Rightarrow> (bool \<times> kernel) option" where
  "respond e sd t p msg h k =
     (if mh_command h = COMMAND_STAT then
        (if mh_status h \<noteq> 0 then Some (True, k)
         else case msg of CStat c \<Rightarrow> do { r \<leftarrow> request k t; wake (copyToCaller t (rq_params r ! 1) (stat_buffer c) k) } | _ \<Rightarrow> None)
      else if mh_command h = COMMAND_STATVFS then
        (if mh_status h \<noteq> 0 then Some (True, k)
         else case msg of CStatvfs c \<Rightarrow> do { r \<leftarrow> request k t; wake (copyToCaller t (rq_params r ! 1) (statvfs_buffer c) k) } | _ \<Rightarrow> None)
      else if mh_command h = COMMAND_OPEN then
        (if mh_status h \<noteq> 0 then Some (True, k) else case msg of COpen c \<Rightarrow> wake (respondOpen sd t p c k) | _ \<Rightarrow> None)
      else if mh_command h = COMMAND_READ then (case msg of CRW c \<Rightarrow> respondRead t p c k | _ \<Rightarrow> None)
      else if mh_command h = COMMAND_WRITE then (case msg of CRW c \<Rightarrow> respondWrite t p c k | _ \<Rightarrow> None)
      else if mh_command h = COMMAND_IOCTL then (case msg of CIoctl c \<Rightarrow> wake (respondIoctl t c k) | _ \<Rightarrow> None)
      else if mh_command h = COMMAND_OPENDIR then
        (if mh_status h \<noteq> 0 then Some (True, k) else case msg of COpendir c \<Rightarrow> wake (respondOpendir sd t p c k) | _ \<Rightarrow> None)
      else if mh_command h = COMMAND_READDIR then
        (if mh_status h \<noteq> 0 then Some (True, k) else case msg of CReaddir c \<Rightarrow> wake (respondReaddir t p c k) | _ \<Rightarrow> None)
      else if mh_command h = COMMAND_EXEC then
        (if mh_status h \<noteq> 0 then Some (True, k) else case msg of CExec c \<Rightarrow> respondExec e t c k | _ \<Rightarrow> None)
      else if mh_command h = COMMAND_CHDIR then
        (if mh_status h \<noteq> 0 then Some (True, k) else case msg of CChdir c \<Rightarrow> wake (respondChdir p c k) | _ \<Rightarrow> None)
      else if mh_command h = COMMAND_MMAP then
        (if mh_status h \<noteq> 0 then Some (True, k) else case msg of CMmap c \<Rightarrow> wake (respondMmap t c k) | _ \<Rightarrow> None)
      else if mh_command h = COMMAND_READLINK then (case msg of CReadLink c \<Rightarrow> wake (respondReadlink t c k) | _ \<Rightarrow> None)
      else if mh_command h = COMMAND_FSYNC then
        (if mh_status h \<noteq> 0 then Some (True, k) else case msg of CFsync c \<Rightarrow> wake (respondFsync t p c k) | _ \<Rightarrow> None)
      else Some (True, k))"

definition handleSyscallResponse :: "env \<Rightarrow> int \<Rightarrow> payload \<Rightarrow> kernel \<Rightarrow> kernel option" where
  "handleSyscallResponse e sd msg k =
     do { h \<leftarrow> messageHeader msg;
          t \<leftarrow> getSyscall (mh_requester h) k;
          if t = 0 then Some k else do {
          x \<leftarrow> k_thread k t;
          if \<not> rq_external (th_syscall x) \<or> th_status x \<noteq> THREAD_BLOCKED then Some k else do {
          p \<leftarrow> getProcess k (th_pid x);
          (finish, k1) \<leftarrow> respond e sd t p msg h
            (upd_req t (\<lambda>q. q\<lparr>rq_ret := mh_status h, rq_external := False, rq_unblock := True\<rparr>) k);
          if \<not> finish then Some k1 else do {
          r \<leftarrow> request k1 t;
          Some (setStatus t THREAD_QUEUED (platformSetContextStatus t (rq_ret r) k1)) }}}}"

section \<open>Requests the kernel serves\<close>

definition MAX_GENERAL_COMMAND :: u16 where "MAX_GENERAL_COMMAND = 0x0007"
definition MAX_SYSCALL_COMMAND :: u16 where "MAX_SYSCALL_COMMAND = 0x8017"
definition sizeof_MessageHeader :: u64 where "sizeof_MessageHeader = 48"
definition sizeof_SysInfoResponse :: u64 where "sizeof_SysInfoResponse = 216"
definition sizeof_RandCommand :: u64 where "sizeof_RandCommand = 56"
definition sizeof_FramebufferResponse :: u64 where "sizeof_FramebufferResponse = 72"

text \<open>The log, as the lines that were given to the console.\<close>

definition ksprint :: "int \<Rightarrow> string \<Rightarrow> string \<Rightarrow> kernel \<Rightarrow> kernel option" where
  "ksprint level name msg k =
     do { (_, line) \<leftarrow> ksprintLine (platformUptime k) (k_verbose k) level name msg; Some (k\<lparr>k_log := k_log k @ [line]\<rparr>) }"

definition loggerSetVerbose :: "bool \<Rightarrow> kernel \<Rightarrow> kernel" where
  "loggerSetVerbose v k = k\<lparr>k_verbose := v\<rparr>"

definition serverLog :: "payload \<Rightarrow> kernel \<Rightarrow> kernel option" where
  "serverLog msg k = (case msg of CLog c \<Rightarrow> ksprint (log_level c) (log_server c) (log_message c) k | _ \<Rightarrow> None)"

text \<open>The parameter is the string \<open>KERNEL_VERSION\<close>, which contains the date of the build.\<close>

definition serverSysinfo :: "string \<Rightarrow> int \<Rightarrow> MessageHeader \<Rightarrow> kernel \<Rightarrow> kernel option" where
  "serverSysinfo version sd h k =
     do { let s = pmmStatus (vm_pmm (k_vm k));
          name \<leftarrow> fits 64 version;
          cpu \<leftarrow> fits 64 (k_cpuModel k);
          (_, k') \<leftarrow> send 0 sd (CSysInfo (MessageHeader.extend
            (h\<lparr>mh_response := True, mh_status := 0, mh_length := sizeof_SysInfoResponse\<rparr>)
            (SysInfoResponse.fields (platformUptime k) MAX_PID (int MAX_IO_DESCRIPTORS) (int MAX_IO_DESCRIPTORS)
              (k_processes k) (k_threads k) (uint PAGE_SIZE) (asInt (usablePages s)) (asInt (usedPages s)) name cpu)))
            sizeof_SysInfoResponse k;
          Some k' }"

definition serverRand :: "int \<Rightarrow> MessageHeader \<Rightarrow> kernel \<Rightarrow> kernel option" where
  "serverRand sd h k =
     do { let (number, k1) = platformRand k;
          (_, k2) \<leftarrow> send 0 sd (CRand (MessageHeader.extend
            (h\<lparr>mh_response := True, mh_length := sizeof_RandCommand\<rparr>) (RandCommand.fields number))) sizeof_RandCommand k1;
          Some k2 }"

text \<open>The size of the frame buffer is computed with 32 bits; the result of each mapping is ignored.\<close>

definition getFramebuffer :: "ptr \<Rightarrow> int \<Rightarrow> MessageHeader \<Rightarrow> kernel \<Rightarrow> kernel option" where
  "getFramebuffer t sd h k =
     do { x \<leftarrow> k_thread k t;
          (r, k1) \<leftarrow> threadUseContext (th_tid x) k;
          if r \<noteq> 0 then Some k1 else do {
          let tty = k_tty k1;
          let phys = tty_fbhw tty - KERNEL_MMIO_BASE;
          let pages = (ucast (ucast (tty_h tty) * tty_pitch tty + ucast PAGE_SIZE - 1) :: u64) div PAGE_SIZE;
          (base, v) \<leftarrow> vmmAllocate (k_vm k1) USER_MMIO_BASE USER_LIMIT_ADDRESS pages (VMM_USER OR VMM_WRITE);
          if base = 0 then Some (k1\<lparr>k_vm := v\<rparr>) else do {
          v' \<leftarrow> mapPages (unat pages) base phys (PLATFORM_PAGE_PRESENT OR PLATFORM_PAGE_USER OR PLATFORM_PAGE_WRITE) v;
          (_, k2) \<leftarrow> send 0 sd (CFramebuffer (MessageHeader.extend
            (h\<lparr>mh_response := True, mh_length := sizeof_FramebufferResponse\<rparr>)
            (FramebufferResponse.fields base phys (tty_w tty) (tty_h tty) (ucast (tty_pitch tty)) (ucast (tty_bpp tty)))))
            sizeof_FramebufferResponse (k1\<lparr>k_vm := v'\<rparr>);
          Some k2 }}}"

definition handleGeneralRequest :: "string \<Rightarrow> int \<Rightarrow> payload \<Rightarrow> kernel \<Rightarrow> kernel option" where
  "handleGeneralRequest version sd msg k =
     do { h \<leftarrow> messageHeader msg;
          if mh_response h \<or> mh_requester h = 0 \<or> mh_length h < sizeof_MessageHeader then Some k else do {
          t \<leftarrow> getThread k (mh_requester h);
          if t = 0 then Some k else do {
          allowed \<leftarrow> (if mh_requester h = k_lumen k then Some True
                     else do { x \<leftarrow> k_thread k t; p \<leftarrow> getProcess k (th_pid x);
                               if p = 0 then Some False
                               else do { px \<leftarrow> k_proc k p; Some (pr_parent px = k_lumen k) } });
          if \<not> allowed then Some k
          else if mh_command h = 0 then serverLog msg k
          else if mh_command h = 1 then serverSysinfo version sd h k
          else if mh_command h = 2 then serverRand sd h k
          else if mh_command h = 7 then getFramebuffer t sd h k
          else if mh_command h \<le> MAX_GENERAL_COMMAND then Some k
          else None }}}"

section \<open>The server loop\<close>

definition SERVER_MAX_CONNECTIONS :: nat where "SERVER_MAX_CONNECTIONS = 128"
definition SERVER_MAX_SIZE :: u64 where "SERVER_MAX_SIZE = 0x8000"
definition SERVER_KERNEL_PATH :: string where "SERVER_KERNEL_PATH = ''lux:///kernel''"
definition SOCK_DGRAM :: int where "SOCK_DGRAM = 2"
definition SOCK_NONBLOCK :: int where "SOCK_NONBLOCK = 0x100"

text \<open>
  \<open>serverInit()\<close>. The address is a local variable: what follows the terminator of its path, the parameter
  \<open>rest\<close>, was never written. An error stops the machine.
\<close>

definition serverInit :: "string \<Rightarrow> kernel \<Rightarrow> kernel option" where
  "serverInit rest k =
     do { (sd, k1) \<leftarrow> socket 0 (uint AF_UNIX) (SOCK_DGRAM OR SOCK_NONBLOCK) 0 k;
          if sd < 0 then None else do {
          (s1, k2) \<leftarrow> bind_socket 0 sd \<lparr>sa_family = AF_UNIX, sa_data = take 512 (SERVER_KERNEL_PATH @ CHR 0x00 # rest)\<rparr> SOCKADDR_SIZE
            (k1\<lparr>k_kernelSocket := sd\<rparr>);
          if s1 \<noteq> 0 then None else do {
          (s2, k3) \<leftarrow> listen 0 sd (int SERVER_MAX_CONNECTIONS) k2;
          if s2 \<noteq> 0 then None else do {
          let (m1, k4) = kalloc k3;
          let (m2, k5) = kalloc k4;
          let (m3, k6) = kalloc k5;
          let (m4, k7) = kalloc k6;
          let (m5, k8) = kalloc k7;
          if m1 = 0 \<or> m2 = 0 \<or> m3 = 0 \<or> m4 = 0 \<or> m5 = 0 then None else Some k8 }}}}"

text \<open>The message in the buffer, as the structure its bytes hold.\<close>

fun received :: "(u8 list \<Rightarrow> payload) \<Rightarrow> payload \<Rightarrow> payload" where
  "received parse (Raw bs) = parse bs"
| "received parse msg = msg"

definition handleMessage :: "env \<Rightarrow> string \<Rightarrow> int \<Rightarrow> payload \<Rightarrow> kernel \<Rightarrow> kernel option" where
  "handleMessage e version sd msg k =
     do { h \<leftarrow> messageHeader msg;
          if mh_command h \<le> MAX_GENERAL_COMMAND then handleGeneralRequest version sd msg k
          else if 0x8000 \<le> mh_command h \<and> mh_command h \<le> MAX_SYSCALL_COMMAND then handleSyscallResponse e sd msg k
          else Some k }"

text \<open>
  The inner loop of \<open>serverIdle()\<close>: look at the next message, take it out of the queue with the length its
  header claims, handle it. A message that claims to be short still leaves in the buffer what the first look copied.
\<close>

partial_function (option) drain :: "env \<Rightarrow> string \<Rightarrow> (u8 list \<Rightarrow> payload) \<Rightarrow> int \<Rightarrow> kernel \<Rightarrow> kernel option" where
  "drain e version parse sd k =
     do { (s, peeked, k1) \<leftarrow> recv 0 sd SERVER_MAX_SIZE MSG_PEEK k;
          if s > 0 \<and> s \<le> uint SERVER_MAX_SIZE then do {
            first \<leftarrow> map_option (received parse) peeked;
            h \<leftarrow> messageHeader first;
            (m, k2) \<leftarrow> (if mh_length h > SERVER_MAX_SIZE then Some (kalloc k1) else Some (1, k1));
            if m = 0 then None else do {
            (_, full, k3) \<leftarrow> recv 0 sd (mh_length h) 0 k2;
            msg \<leftarrow> (if mh_length h > SERVER_MAX_SIZE then map_option (received parse) full else Some first);
            k4 \<leftarrow> handleMessage e version sd msg k3;
            drain e version parse sd k4 } }
          else Some k1 }"

fun drainAll :: "env \<Rightarrow> string \<Rightarrow> (u8 list \<Rightarrow> payload) \<Rightarrow> int list \<Rightarrow> kernel \<Rightarrow> kernel option" where
  "drainAll e version parse [] k = Some k"
| "drainAll e version parse (sd # sds) k = do { k' \<leftarrow> drain e version parse sd k; drainAll e version parse sds k' }"

text \<open>
  \<open>serverIdle()\<close>. The arrays of connections have 128 entries and their count is never compared with it: at the limit
  the first assignment is already outside.
\<close>

definition acceptConnection :: "kernel \<Rightarrow> kernel option" where
  "acceptConnection k =
     (if length (k_connections k) \<ge> SERVER_MAX_CONNECTIONS then None
      else do {
        (sd, addr, k1) \<leftarrow> accept 0 (k_kernelSocket k) k;
        Some (if sd > 0 \<and> sd < int MAX_IO_DESCRIPTORS then
                k1\<lparr>k_connections := k_connections k1 @ [(sd, case addr of None \<Rightarrow> [] | Some a \<Rightarrow> cstring (sa_data a))],
                   k_lumenSocket := (if k_lumenConnected k1 then k_lumenSocket k1 else sd), k_lumenConnected := True\<rparr>
              else k1) })"

definition serverIdle :: "env \<Rightarrow> string \<Rightarrow> (u8 list \<Rightarrow> payload) \<Rightarrow> kernel \<Rightarrow> kernel option" where
  "serverIdle e version parse k =
     do { k1 \<leftarrow> acceptConnection (setLocalSched False k);
          k2 \<leftarrow> drainAll e version parse (map fst (k_connections k1)) k1;
          Some (setLocalSched True k2) }"

section \<open>The start of the system\<close>

definition socketInit :: "kernel \<Rightarrow> kernel option" where
  "socketInit k = (let (m, k1) = kalloc k in if m = 0 then None else Some (k1\<lparr>k_sockets := (\<lambda>_. 0), k_socketCount := 0\<rparr>))"

definition schedInit :: "kernel \<Rightarrow> kernel option" where
  "schedInit k =
     (let (m, k1) = kalloc k in
      if m = 0 then None
      else Some (k1\<lparr>k_pidBitmap := (\<lambda>_. 0)(0 := 1), k_processes := 0, k_threads := 0, k_list := []\<rparr>))"

definition idleThreshold :: "nat \<Rightarrow> int" where
  "idleThreshold cpus = (if cpus > 16 then 2 else if cpus > 8 then 4 else 8)"

text \<open>
  The kernel thread up to its loop, and the body of the loop, with the counter that decides when to idle. Waiting
  for an interrupt changes nothing here. The errors stop the machine. The parameter \<open>junk\<close> is the local variable
  \<open>highest\<close> of \<open>execveMemory()\<close> before it is written.
\<close>

definition kernelThread :: "env \<Rightarrow> string \<Rightarrow> u64 \<Rightarrow> kernel \<Rightarrow> kernel option" where
  "kernelThread e rest junk k =
     do { let k0 = setScheduling False (setLocalSched False k);
          k1 \<leftarrow> setKernelPID (getPid k0) k0;
          k2 \<leftarrow> serverInit rest k1;
          len \<leftarrow> ramdiskFileSize (k_ramdisk k2) (stringBytes ''lumen'');
          if len \<le> 9 then None else do {
          let (m, k3) = kalloc k2;
          if m = 0 then None else do {
          (got, img) \<leftarrow> ramdiskRead (k_ramdisk k3) (stringBytes ''lumen'') (nat len);
          if int got \<noteq> len then None else do {
          (pid, k4) \<leftarrow> execveMemory (e_sigstub e) (e_rs e) junk img NoArgs NoArgs k3;
          if pid = 0 then None
          else Some (setScheduling True (setLocalSched True (setLumenPID pid k4))) }}}}"

definition idleCount :: "int \<Rightarrow> int \<Rightarrow> int" where
  "idleCount threshold count = (if count + 1 \<ge> threshold then 0 else count + 1)"

definition kernelThread_loop :: "env \<Rightarrow> string \<Rightarrow> (u8 list \<Rightarrow> payload) \<Rightarrow> int \<Rightarrow> int \<times> kernel \<Rightarrow> (int \<times> kernel) option" where
  "kernelThread_loop e version parse threshold s =
     do { k1 \<leftarrow> serverIdle e version parse (snd s);
          (_, k2) \<leftarrow> syscallProcess e k1;
          Some (idleCount threshold (fst s), k2) }"

definition idleThread_loop :: "env \<Rightarrow> int \<Rightarrow> int \<times> kernel \<Rightarrow> (int \<times> kernel) option" where
  "idleThread_loop e threshold s = do { (_, k1) \<leftarrow> syscallProcess e (snd s); Some (idleCount threshold (fst s), k1) }"

text \<open>\<open>main()\<close>: the two entry points are addresses of the kernel; \<open>rs\<close> gives the random numbers of each creation.\<close>

fun createIdle :: "(nat \<Rightarrow> int list) \<Rightarrow> u64 \<Rightarrow> nat \<Rightarrow> kernel \<Rightarrow> kernel option" where
  "createIdle rs start 0 k = Some k"
| "createIdle rs start (Suc n) k = do { (_, k') \<leftarrow> kthreadCreate (rs (Suc n)) start 0 k; createIdle rs start n k' }"

definition main :: "(nat \<Rightarrow> int list) \<Rightarrow> u64 \<Rightarrow> u64 \<Rightarrow> kernel \<Rightarrow> kernel option" where
  "main rs kernelEntry idleEntry k =
     do { k1 \<leftarrow> socketInit k;
          k2 \<leftarrow> schedInit k1;
          (_, k3) \<leftarrow> kthreadCreate (rs 0) kernelEntry 0 k2;
          k4 \<leftarrow> createIdle rs idleEntry (platformCountCPU (k_apic k3)) k3;
          Some (setScheduling True k4) }"

section \<open>Specification vocabulary\<close>

text \<open>
  The kernel's end \<open>b\<close> of a connection at descriptor \<open>sd\<close> of the kernel process, the other end \<open>a\<close>, in a kernel that does not run
  out of heap; and the messages queued at an end.
\<close>

definition session :: "int \<Rightarrow> ptr \<Rightarrow> ptr \<Rightarrow> kernel \<Rightarrow> bool" where
  "session sd b a k \<longleftrightarrow>
     (\<exists>p. socketOf 0 sd k = Some (Inr (p, b))) \<and> a \<noteq> 0 \<and> a \<noteq> b \<and>
     (\<exists>x y. k_sock k b = Some x \<and> so_peer x = a \<and> sa_family (so_address x) = AF_UNIX \<and> k_sock k a = Some y) \<and>
     k_oom k = (\<lambda>_. False) \<and> k_fresh k \<noteq> 0"

definition queued :: "ptr \<Rightarrow> kernel \<Rightarrow> (u64 \<times> payload) list" where
  "queued s k = (case k_sock k s of None \<Rightarrow> [] | Some x \<Rightarrow> (case so_inbound x of None \<Rightarrow> [] | Some ms \<Rightarrow> ms))"

text \<open>A request for a random number, sent by the router itself; what the kernel answers to a list of them.\<close>

definition wants_random :: "kernel \<Rightarrow> MessageHeader \<Rightarrow> bool" where
  "wants_random k h \<longleftrightarrow> mh_command h = 2 \<and> \<not> mh_response h \<and> mh_requester h = k_lumen k \<and> k_lumen k \<noteq> 0 \<and>
     sizeof_MessageHeader \<le> mh_length h \<and> mh_length h \<le> SERVER_MAX_SIZE \<and> (\<exists>t. getThread k (k_lumen k) = Some t \<and> t \<noteq> 0)"

fun random_answers :: "MessageHeader list \<Rightarrow> kernel \<Rightarrow> (u64 \<times> payload) list" where
  "random_answers [] k = []"
| "random_answers (h # hs) k =
     (sizeof_RandCommand, CRand (MessageHeader.extend (h\<lparr>mh_response := True, mh_length := sizeof_RandCommand\<rparr>)
        (RandCommand.fields (fst (platformRand k))))) # random_answers hs (snd (platformRand k))"

text \<open>A kernel process with a connected pair of sockets, and a router that has queued a request.\<close>

definition random_header :: MessageHeader where
  "random_header = \<lparr>mh_command = 2, mh_length = 48, mh_response = False, mh_latency = 0, mh_status = 0, mh_requester = 2\<rparr>"

definition session_ex :: kernel where
  "session_ex = pair_ex\<lparr>k_lumen := 2, k_list := [10, 20],
     k_proc := (k_proc pair_ex)(20 \<mapsto> process0\<lparr>pr_pid := 2, pr_threads := [21]\<rparr>),
     k_thread := [21 \<mapsto> thread0\<lparr>th_tid := 2, th_pid := 2\<rparr>],
     k_sock := (k_sock pair_ex)(51 := map_option (\<lambda>x. x\<lparr>so_inbound := Some [(48, Raw [2, 0])]\<rparr>) (k_sock pair_ex 51))\<rparr>"

text \<open>The thread a response is for, and whether it waits for one.\<close>

definition awaits :: "kernel \<Rightarrow> int \<Rightarrow> ptr \<Rightarrow> Thread \<Rightarrow> bool" where
  "awaits k tid t x \<longleftrightarrow> getThread k tid = Some t \<and> t \<noteq> 0 \<and> k_thread k t = Some x \<and>
     rq_external (th_syscall x) \<and> th_status x = THREAD_BLOCKED"

text \<open>The state a response leaves when it completes the call of \<open>t\<close> with the value \<open>v\<close>.\<close>

definition completed :: "u64 \<Rightarrow> Thread \<Rightarrow> Thread" where
  "completed v x = x\<lparr>th_status := THREAD_QUEUED, th_context := (th_context x)\<lparr>cx_rax := v\<rparr>,
     th_syscall := (th_syscall x)\<lparr>rq_ret := v, rq_external := False, rq_unblock := True\<rparr>\<rparr>"

text \<open>An address space with one page present at \<open>0x400000\<close>, and a thread that waits for the answer to a call on a file.\<close>

definition vm_present_ex :: vm where
  "vm_present_ex = vm_page_ex\<lparr>vm_mem := (vm_mem vm_page_ex)(slot 0x4000 0 := 0x5007)\<rparr>"

definition waiter :: Thread where
  "waiter = thread0\<lparr>th_tid := 2, th_pid := 2, th_status := THREAD_BLOCKED, th_context := context0\<lparr>cx_cr3 := 0x1000\<rparr>,
     th_syscall := request0\<lparr>rq_external := True, rq_params := [3, 0x400000, 2, 0]\<rparr>\<rparr>"

definition waiter_process :: Process where
  "waiter_process = process0\<lparr>pr_pid := 2, pr_threads := [21], pr_io := (replicate MAX_IO_DESCRIPTORS iod0)[3 := iod0\<lparr>io_data := 30\<rparr>]\<rparr>"

definition waiter_file :: FileDescriptor where
  "waiter_file = \<lparr>fd_process = 20, fd_abspath = [], fd_device = [], fd_path = [], fd_position = 0, fd_id = 0, fd_charDev = False,
     fd_refCount = 1, fd_sd = 1\<rparr>"

definition waiter_ex :: kernel where
  "waiter_ex = kernel0\<lparr>k_list := [20], k_proc := [20 \<mapsto> waiter_process], k_thread := [21 \<mapsto> waiter], k_file := [30 \<mapsto> waiter_file],
     k_vm := vm_present_ex\<rparr>"

definition read_answer :: RWCommand where
  "read_answer = \<lparr>mh_command = COMMAND_READ, mh_length = 0, mh_response = True, mh_latency = 0, mh_status = 2, mh_requester = 2, sh_id = 7,
     rw_silent = False, rw_path = [], rw_device = [], rw_id = 0, rw_flags = 0, rw_uid = 0, rw_gid = 0, rw_position = 2, rw_length = 2,
     rw_data = [104, 105]\<rparr>"

definition readlink_answer :: ReadLinkCommand where
  "readlink_answer = \<lparr>mh_command = COMMAND_READLINK, mh_length = 0, mh_response = True, mh_latency = 0, mh_status = - 2, mh_requester = 2,
     sh_id = 7, readlink_path = ''/dev'', readlink_uid = 0, readlink_gid = 0\<rparr>"

section \<open>Sessions\<close>

lemma platformRand_parts:
  "snd (platformRand k) = k\<lparr>k_reads := k_reads (snd (platformRand k)), k_seed := k_seed (snd (platformRand k))\<rparr>"
  by (simp add: platformRand_def lapicTimer_def Let_def)

lemma platformRand_cong:
  assumes "k_seed k' = k_seed k" "k_reads k' = k_reads k" "k_lapic k' = k_lapic k"
  shows "fst (platformRand k') = fst (platformRand k)" "k_seed (snd (platformRand k')) = k_seed (snd (platformRand k))"
    "k_reads (snd (platformRand k')) = k_reads (snd (platformRand k))" "k_lapic (snd (platformRand k')) = k_lapic k"
  using assms by (simp_all add: platformRand_def lapicTimer_def Let_def)

lemma random_answers_cong:
  "k_seed k' = k_seed k \<Longrightarrow> k_reads k' = k_reads k \<Longrightarrow> k_lapic k' = k_lapic k \<Longrightarrow> random_answers hs k' = random_answers hs k"
proof (induction hs arbitrary: k k')
  case (Cons h hs)
  note c = platformRand_cong [OF Cons.prems]
  have "k_lapic (snd (platformRand k)) = k_lapic k" using platformRand_cong(4) [of k k] by simp
  with c Cons.IH [of "snd (platformRand k')" "snd (platformRand k)"] show ?case by simp
qed simp

lemma getThread_cong:
  assumes "k_proc k' = k_proc k" "k_thread k' = k_thread k" "k_list k' = k_list k"
  shows "getThread k' i = getThread k i"
  using getThread_tids [of k k' i] assms by (simp add: same_tids_def)

lemma session_cong:
  assumes "session sd b a k" "k_proc k' = k_proc k" "k_thread k' = k_thread k" "k_list k' = k_list k" "k_kernel k' = k_kernel k"
    "k_oom k' = k_oom k" "k_fresh k' \<noteq> 0" "map_option (\<lambda>x. (so_peer x, so_address x)) (k_sock k' b) = map_option (\<lambda>x. (so_peer x, so_address x)) (k_sock k b)"
    "k_sock k' a \<noteq> None"
  shows "session sd b a k'"
  using assms(1,6-) unfolding session_def socketOf_cong [OF assms(2-5), of 0 sd] by auto

lemma recv_session:
  assumes "session sd b a k" "queued b k = (n, m) # ms"
  shows "recv 0 sd cap MSG_PEEK k = Some (sint (min n cap), Some (truncatePayload (min n cap) m), k)"
    and "recv 0 sd cap 0 k = Some (sint (min n cap), Some (truncatePayload (min n cap) m), upd_sock b (\<lambda>s. s\<lparr>so_inbound := Some ms\<rparr>) k)"
  using assms by (auto simp: session_def queued_def recv_def MSG_PEEK_def Let_def split: option.splits)

lemma recv_session_empty:
  assumes "session sd b a k" "queued b k = []"
  shows "recv 0 sd cap flags k = Some (- EWOULDBLOCK, None, k)"
  using assms by (auto simp: session_def queued_def recv_def split: option.splits)

lemma send_session:
  assumes "session sd b a k"
  shows "\<exists>y f. send 0 sd msg len k = Some (sint len, k\<lparr>k_sock := (k_sock k)(a \<mapsto> y), k_fresh := f\<rparr>) \<and> f \<noteq> 0 \<and>
    so_inbound y = Some (queued a k @ [(len, msg)])"
proof -
  from assms obtain p x y where s: "socketOf 0 sd k = Some (Inr (p, b))" "a \<noteq> 0" "k_sock k b = Some x" "so_peer x = a"
      "sa_family (so_address x) = AF_UNIX" and y: "k_sock k a = Some y" and h: "k_oom k = (\<lambda>_. False)" "k_fresh k \<noteq> 0"
    unfolding session_def by blast
  obtain n f where g: "growInbound y k = (Some (n, queued a k), k\<lparr>k_fresh := f\<rparr>)" "f \<noteq> 0"
    using growInbound_ok [OF h, of y] y by (auto simp: queued_def)
  have "send 0 sd msg len k = Some (sint len, k\<lparr>k_sock := (k_sock k)(a \<mapsto>
      y\<lparr>so_inboundMax := n, so_inbound := Some (queued a k @ [(len, msg)])\<rparr>), k_fresh := Suc f\<rparr>)"
    using s y g h by (simp add: send_def Let_def kalloc_def upd_sock_def)
  then show ?thesis
    by (intro exI [of _ "y\<lparr>so_inboundMax := n, so_inbound := Some (queued a k @ [(len, msg)])\<rparr>"] exI [of _ "Suc f"]) simp
qed

lemma serverRand_answers:
  assumes "session sd b a k"
  shows "\<exists>k'. serverRand sd h k = Some k' \<and> session sd b a k' \<and> queued b k' = queued b k \<and>
    queued a k' = queued a k @ random_answers [h] k \<and> random_answers hs k' = random_answers hs (snd (platformRand k)) \<and>
    k_lumen k' = k_lumen k \<and> getThread k' = getThread k"
proof -
  let ?k = "snd (platformRand k)"
  let ?m = "CRand (MessageHeader.extend (h\<lparr>mh_response := True, mh_length := sizeof_RandCommand\<rparr>) (RandCommand.fields (fst (platformRand k))))"
  have r: "k_proc ?k = k_proc k" "k_thread ?k = k_thread k" "k_list ?k = k_list k" "k_kernel ?k = k_kernel k" "k_oom ?k = k_oom k"
      "k_fresh ?k = k_fresh k" "k_sock ?k = k_sock k" "k_lumen ?k = k_lumen k"
    by (subst platformRand_parts, simp)+
  have s: "session sd b a ?k"
    using assms by (rule session_cong) (use assms r in \<open>auto simp: session_def\<close>)
  from send_session [OF s, of ?m sizeof_RandCommand] obtain y f where
    y: "send 0 sd ?m sizeof_RandCommand ?k = Some (sint sizeof_RandCommand, ?k\<lparr>k_sock := (k_sock ?k)(a \<mapsto> y), k_fresh := f\<rparr>)" "f \<noteq> 0"
       "so_inbound y = Some (queued a ?k @ [(sizeof_RandCommand, ?m)])" by blast
  let ?k' = "?k\<lparr>k_sock := (k_sock ?k)(a \<mapsto> y), k_fresh := f\<rparr>"
  have "serverRand sd h k = Some ?k'" using y(1) by (simp add: serverRand_def Let_def split_beta)
  moreover have "session sd b a ?k'"
    using s by (rule session_cong) (use s y(2) in \<open>auto simp: session_def\<close>)
  moreover have "queued b ?k' = queued b k" using assms r(7) by (auto simp: queued_def session_def)
  moreover have "queued a ?k' = queued a k @ random_answers [h] k" using y(3) r(7) by (simp add: queued_def)
  moreover have "random_answers hs ?k' = random_answers hs ?k" by (rule random_answers_cong) simp_all
  moreover have "getThread ?k' = getThread k" by (rule ext) (rule getThread_cong, use r in simp_all)
  ultimately show ?thesis using r(8) by (intro exI [of _ ?k']) simp
qed

lemma handleMessage_random:
  assumes "wants_random k h"
  shows "handleMessage e version sd (General h) k = serverRand sd h k"
  using assms by (auto simp: wants_random_def handleMessage_def handleGeneralRequest_def MAX_GENERAL_COMMAND_def not_less)

lemma peek_length:
  assumes "n \<noteq> 0"
  shows "0 < sint (min n SERVER_MAX_SIZE) \<and> sint (min n SERVER_MAX_SIZE) \<le> uint SERVER_MAX_SIZE"
proof
  have "min n SERVER_MAX_SIZE \<noteq> 0" using assms by (simp add: min_def SERVER_MAX_SIZE_def)
  then have u: "0 < uint (min n SERVER_MAX_SIZE)" by (simp add: word_neq_0_conv word_less_def)
  have l: "uint (min n SERVER_MAX_SIZE) \<le> 0x8000"
    using min.cobounded2 [of n SERVER_MAX_SIZE] by (simp add: SERVER_MAX_SIZE_def word_le_def)
  have "sint (min n SERVER_MAX_SIZE) = uint (min n SERVER_MAX_SIZE)"
    unfolding sint_uint using u l by (intro signed_take_bit_int_eq_self) simp_all
  with u l show "0 < sint (min n SERVER_MAX_SIZE)" "sint (min n SERVER_MAX_SIZE) \<le> uint SERVER_MAX_SIZE"
    by (simp_all add: SERVER_MAX_SIZE_def)
qed

text \<open>
  C4: the kernel's loop over a connection ends, having taken every request for a random number that the router had queued,
  and having sent one answer to each, in the order of the requests: the same header marked as a response, with
  the successive numbers of the generator. The requests may be any bytes that hold such headers.
\<close>

theorem drain_answers_in_order:
  assumes "session sd b a k" "map (\<lambda>(n, m). received parse (truncatePayload (min n SERVER_MAX_SIZE) m)) (queued b k) = map General hs"
    and "\<forall>(n, m)\<in>set (queued b k). n \<noteq> 0" "\<forall>h\<in>set hs. wants_random k h"
  shows "\<exists>k'. drain e version parse sd k = Some k' \<and> queued b k' = [] \<and> queued a k' = queued a k @ random_answers hs k"
  using assms
proof (induction hs arbitrary: k)
  case Nil
  then show ?case by (subst drain.simps) (simp add: recv_session_empty EWOULDBLOCK_def)
next
  case (Cons h hs)
  from Cons.prems(2) obtain n m ms where q: "queued b k = (n, m) # ms"
      "received parse (truncatePayload (min n SERVER_MAX_SIZE) m) = General h"
      "map (\<lambda>(n, m). received parse (truncatePayload (min n SERVER_MAX_SIZE) m)) ms = map General hs"
    by (auto simp: map_eq_Cons_conv)
  let ?k = "upd_sock b (\<lambda>s. s\<lparr>so_inbound := Some ms\<rparr>) k"
  have s: "session sd b a ?k"
    using Cons.prems(1) by (rule session_cong) (use Cons.prems(1) in \<open>auto simp: session_def\<close>)
  have qa: "queued a ?k = queued a k" "queued b ?k = ms" using Cons.prems(1) by (auto simp: queued_def session_def)
  have w: "wants_random ?k h' = wants_random k h'" for h'
    using getThread_cong [of ?k k "k_lumen k"] by (simp add: wants_random_def upd_sock_def)
  have ra: "random_answers hs' ?k = random_answers hs' k" for hs' by (rule random_answers_cong) (simp_all add: upd_sock_def)
  have gt: "getThread ?k = getThread k" by (rule ext) (rule getThread_cong, simp_all)
  have lm: "k_lumen ?k = k_lumen k" by (simp add: upd_sock_def)
  from serverRand_answers [OF s, of h hs] obtain k' where k': "serverRand sd h ?k = Some k'" "session sd b a k'" "queued b k' = ms"
      "queued a k' = queued a k @ random_answers [h] k" "random_answers hs k' = random_answers hs (snd (platformRand ?k))"
      "k_lumen k' = k_lumen k" "getThread k' = getThread k" 
    unfolding qa ra gt lm by blast
  have hm: "handleMessage e version sd (General h) ?k = Some k'"
    using handleMessage_random [of ?k h] Cons.prems(4) w k'(1) by simp
  have hl: "\<not> mh_length h > SERVER_MAX_SIZE" using Cons.prems(4) by (auto simp: wants_random_def not_less)
  have "drain e version parse sd k = drain e version parse sd k'"
    using recv_session [OF Cons.prems(1) q(1)] q(2) peek_length [of n] Cons.prems(3) q(1) hl hm
    by (subst drain.simps) simp
  moreover have "wants_random k' h'" if "h' \<in> set hs" for h'
    using Cons.prems(4) that k'(6,7) by (simp add: wants_random_def)
  moreover have "random_answers hs (snd (platformRand ?k)) = random_answers hs (snd (platformRand k))"
    using ra [of "h # hs"] by simp
  ultimately show ?case
    using Cons.IH [OF k'(2)] q(3) Cons.prems(3) q(1) k'(3-5) by simp
qed

lemma session_ex_ok: "session 1 51 50 session_ex" "queued 51 session_ex = [(48, Raw [2, 0])]" "wants_random session_ex random_header"
proof -
  have "socketOf 0 1 session_ex = Some (Inr (10, 51))"
    by (simp add: socketOf_def callerProcess_def validDescriptor_def getProcess_def session_ex_def pair_ex_def
      MAX_IO_DESCRIPTORS_def process0_def kernel0_def)
  then show "session 1 51 50 session_ex"
    by (simp add: session_def session_ex_def pair_ex_def AF_UNIX_def kernel0_def socket0_def)
  show "queued 51 session_ex = [(48, Raw [2, 0])]"
    by (simp add: queued_def session_ex_def pair_ex_def)
  show "wants_random session_ex random_header"
    by (simp add: wants_random_def random_header_def session_ex_def pair_ex_def getThread_def sizeof_MessageHeader_def
      SERVER_MAX_SIZE_def process0_def thread0_def)
qed

theorem drain_answers_in_order_witness:
  "\<exists>k'. drain env_ex [] (\<lambda>_. General random_header) 1 session_ex = Some k' \<and> queued 51 k' = [] \<and>
     queued 50 k' = queued 50 session_ex @ random_answers [random_header] session_ex"
  using drain_answers_in_order [of 1 51 50 session_ex "\<lambda>_. General random_header" "[random_header]" env_ex "[]"]
  by (simp add: session_ex_ok)

section \<open>Responses\<close>

lemma getThread_upd_req [simp]: "getThread (upd_req t f k) i = getThread k i"
  by (rule getThread_tids) (auto simp: same_tids_def upd_req_def upd_thread_def option.map_comp comp_def)

lemma findThread_tid: "findThread k ts i = Some t \<Longrightarrow> t \<noteq> 0 \<Longrightarrow> map_option th_tid (k_thread k t) = Some i"
  by (induction ts) (auto split: if_splits Option.bind_splits)

lemma getThread_tid: "getThread k i = Some t \<Longrightarrow> t \<noteq> 0 \<Longrightarrow> map_option th_tid (k_thread k t) = Some i"
proof -
  have "findThreadIn k ps i = Some t \<Longrightarrow> t \<noteq> 0 \<Longrightarrow> map_option th_tid (k_thread k t) = Some i" for ps
    by (induction ps) (auto split: if_splits Option.bind_splits dest: findThread_tid)
  then show "getThread k i = Some t \<Longrightarrow> t \<noteq> 0 \<Longrightarrow> map_option th_tid (k_thread k t) = Some i"
    by (auto simp: getThread_def split: if_splits)
qed

lemma user_read_write:
  assumes "length bs \<le> 2 ^ 64"
  shows "user_read (user_write a bs k) a (length bs) = bs"
proof (rule nth_equalityI)
  fix i assume "i < length (user_read (user_write a bs k) a (length bs))"
  then have i: "i < length bs" by (simp add: user_read_def)
  then have "unat (of_nat i :: u64) = i" using assms by (simp add: unat_of_nat)
  with i show "user_read (user_write a bs k) a (length bs) ! i = bs ! i"
    by (simp add: user_read_def user_get_def user_write_def)
qed (simp add: user_read_def)

lemmas command_values = COMMAND_STAT_def COMMAND_STATVFS_def COMMAND_OPEN_def COMMAND_READ_def COMMAND_WRITE_def COMMAND_IOCTL_def
  COMMAND_OPENDIR_def COMMAND_READDIR_def COMMAND_EXEC_def COMMAND_CHDIR_def COMMAND_MMAP_def COMMAND_READLINK_def COMMAND_FSYNC_def

lemma signed_unsigned_order:
  fixes v w :: u64
  assumes "0 \<le> sint v" "sint w < 0"
  shows "v < w"
proof -
  have half: "bit (uint u) 63 \<longleftrightarrow> 2 ^ 63 \<le> uint u" for u :: u64
  proof -
    have "uint u div 2 ^ 63 < 2" using unsigned_less [of u, where ?'a = int] by simp
    moreover have "0 \<le> uint u div 2 ^ 63" by (rule div_int_pos_iff [THEN iffD2]) simp
    ultimately have "uint u div 2 ^ 63 = 0 \<or> uint u div 2 ^ 63 = 1" by arith
    then show ?thesis by (auto simp: bit_iff_odd zdiv_eq_0_iff)
  qed
  have "\<not> bit (uint v) 63" "bit (uint w) 63" using assms by (simp_all add: sint_uint signed_take_bit_nonnegative_iff not_le [symmetric] del: not_le)
  then show ?thesis unfolding half by (simp add: word_less_def)
qed

lemma wouldBlock_neg: "wouldBlock status \<Longrightarrow> status < 0"
  by (auto simp: wouldBlock_def EWOULDBLOCK_def EAGAIN_def)

lemma copyToCaller_present:
  assumes "getThread k (th_tid x) = Some t" "t \<noteq> 0" "k_thread k t = Some x"
    and "touchPages (pagesTouched a (length bs)) ((k_vm k)\<lparr>vm_cr3 := cx_cr3 (th_context x)\<rparr>) (pageBase a) =
      Some ((k_vm k)\<lparr>vm_cr3 := cx_cr3 (th_context x)\<rparr>)"
  shows "copyToCaller t a bs k = Some (user_write a bs (platformUseContext (th_context x) k))"
  using assms by (simp add: copyToCaller_def threadUseContext_def put_user_def platformUseContext_def)

text \<open>
  C3: the answer to \<open>read()\<close>. A file server's successful answer to a thread that waits for it is handled to the end: the
  bytes are in the caller's buffer in the caller's address space, the position of the file is the one the
  server reported, and the thread is ready to run with the number of bytes as its result. The buffer's pages are present
  and the answer carries as many bytes as it claims.
\<close>

theorem read_response_completes:
  assumes aw: "awaits k (mh_requester c) t x" and cmd: "mh_command c = COMMAND_READ"
    and p: "getProcess k (th_pid x) = Some p" "k_proc k p = Some px"
    and prm: "rq_params (th_syscall x) = [fd, buf, len, z]" "unat fd < MAX_IO_DESCRIPTORS"
    and f: "k_file k (io_data (pr_io px ! unat fd)) = Some f"
    and st: "0 \<le> sint (mh_status c)" "unat (mh_status c) \<le> length (rw_data c)"
    and pg: "touchPages (pagesTouched buf (unat (mh_status c))) ((k_vm k)\<lparr>vm_cr3 := cx_cr3 (th_context x)\<rparr>) (pageBase buf) =
      Some ((k_vm k)\<lparr>vm_cr3 := cx_cr3 (th_context x)\<rparr>)"
  shows "\<exists>k'. handleSyscallResponse e sd (CRW c) k = Some k' \<and> k_thread k' t = Some (completed (mh_status c) x) \<and>
    vm_cr3 (k_vm k') = cx_cr3 (th_context x) \<and>
    user_read k' buf (unat (mh_status c)) = take (unat (mh_status c)) (rw_data c) \<and>
    k_file k' (io_data (pr_io px ! unat fd)) = Some (f\<lparr>fd_position := rw_position c\<rparr>)"
proof -
  let ?g = "\<lambda>q. q\<lparr>rq_ret := mh_status c, rq_external := False, rq_unblock := True\<rparr>"
  let ?x = "x\<lparr>th_syscall := ?g (th_syscall x)\<rparr>"
  let ?bs = "take (unat (mh_status c)) (rw_data c)"
  let ?file = "io_data (pr_io px ! unat fd)"
  define k1 where "k1 = upd_req t ?g k"
  define k2 where "k2 = user_write buf ?bs (platformUseContext (th_context x) k1)"
  define k3 where "k3 = upd_file ?file (\<lambda>f. f\<lparr>fd_position := rw_position c\<rparr>) k2"
  have a: "getThread k (mh_requester c) = Some t" "t \<noteq> 0" "k_thread k t = Some x" "rq_external (th_syscall x)"
    "th_status x = THREAD_BLOCKED" using aw by (simp_all add: awaits_def)
  have tid: "th_tid x = mh_requester c" using getThread_tid [OF a(1,2)] a(3) by simp
  have t1: "k_thread k1 t = Some ?x" "request k1 t = Some (?g (th_syscall x))" "k_proc k1 = k_proc k" "k_vm k1 = k_vm k" "k_file k1 = k_file k"
    using a(3) by (simp_all add: k1_def upd_req_def upd_thread_def request_def)
  have len: "length ?bs = unat (mh_status c)" using st(2) by simp
  have "getThread k1 (mh_requester c) = Some t" using a(1) by (simp add: k1_def)
  then have cp: "copyToCaller t buf ?bs k1 = Some k2"
    unfolding k2_def using copyToCaller_present [of k1 ?x t buf ?bs] a(2) tid t1(1,4) pg len by simp
  have k2: "k_proc k2 = k_proc k" "k_file k2 = k_file k" "k_thread k2 = k_thread k1" "k_vm k2 = (k_vm k)\<lparr>vm_cr3 := cx_cr3 (th_context x)\<rparr>"
    using t1 by (simp_all add: k2_def user_write_def platformUseContext_def)
  have sp: "setPosition p fd (rw_position c) k2 = Some k3"
    using p(2) prm(2) f k2 by (simp add: setPosition_def ioEntry_def k3_def)
  have nb: "\<not> wouldBlock (sint (mh_status c))" using wouldBlock_neg st(1) by fastforce
  have rr: "respondRead t p c k1 = Some (True, k3)"
    using nb st cp sp prm(1) by (simp add: respondRead_def t1(2) Let_def not_less)
  let ?k = "setStatus t THREAD_QUEUED (platformSetContextStatus t (mh_status c) k3)"
  have t3: "k_thread k3 t = Some ?x" using k2(3) t1(1) by (simp add: k3_def upd_file_def)
  have h: "handleSyscallResponse e sd (CRW c) k = Some ?k"
    using a p(1) cmd rr t3
    by (simp add: handleSyscallResponse_def getSyscall_def MessageHeader.truncate_def respond_def request_def
      flip: k1_def, simp add: command_values)
  have vm: "k_vm ?k = k_vm k2" "k_user ?k = k_user k2" "k_file ?k = k_file k3"
    by (simp_all add: k3_def upd_file_def setStatus_def platformSetContextStatus_def upd_thread_def)
  have "user_read ?k buf (unat (mh_status c)) = user_read k2 buf (length ?bs)"
    unfolding len using vm by (simp add: user_read_def user_get_def)
  also have "\<dots> = ?bs"
    unfolding k2_def using u64_bound [of "mh_status c"] by (intro user_read_write) (simp add: len)
  finally show ?thesis
    using h vm k2 f t3 by (intro exI [of _ ?k]) (simp add: k3_def upd_file_def setStatus_def platformSetContextStatus_def upd_thread_def completed_def)
qed

text \<open>
  C25: unsolicited messages change nothing: a response to a thread that does not exist or does not wait for a server is dropped, and so
  is a general request whose sender is neither the router nor a thread of one of its children.
\<close>

theorem unsolicited_messages_dropped:
  assumes h: "messageHeader msg = Some h" and t: "getThread k (mh_requester h) = Some t"
    and x: "t \<noteq> 0 \<Longrightarrow> k_thread k t = Some x \<and> getProcess k (th_pid x) = Some p"
  shows "(\<not> awaits k (mh_requester h) t x \<longrightarrow> handleSyscallResponse e sd msg k = Some k) \<and>
    (mh_requester h \<noteq> k_lumen k \<and> (t \<noteq> 0 \<and> p \<noteq> 0 \<longrightarrow> (\<exists>px. k_proc k p = Some px \<and> pr_parent px \<noteq> k_lumen k)) \<longrightarrow>
      handleGeneralRequest version sd msg k = Some k)"
proof (cases "t = 0")
  case True
  with t show ?thesis by (simp add: handleSyscallResponse_def handleGeneralRequest_def h getSyscall_def)
next
  case False
  with t x show ?thesis by (auto simp: handleSyscallResponse_def handleGeneralRequest_def h getSyscall_def awaits_def)
qed

text \<open>
  a failed \<open>readlink()\<close> is reported as a success. The status of a message is unsigned, so an error code of the server passes the test
  \<open>status <= 0\<close>, is cut to the size of the caller's buffer, and the thread resumes with that size as its result
  and whatever the path field of the answer holds in its buffer.
\<close>

theorem readlink_error_reads_as_length:
  assumes aw: "awaits k (mh_requester c) t x" and cmd: "mh_command c = COMMAND_READLINK"
    and p: "getProcess k (th_pid x) = Some p"
    and prm: "rq_params (th_syscall x) = [path, buf, len, z]" "0 \<le> sint len" "unat len \<le> length (readlink_path c)"
    and st: "sint (mh_status c) < 0"
    and pg: "touchPages (pagesTouched buf (unat len)) ((k_vm k)\<lparr>vm_cr3 := cx_cr3 (th_context x)\<rparr>) (pageBase buf) =
      Some ((k_vm k)\<lparr>vm_cr3 := cx_cr3 (th_context x)\<rparr>)"
  shows "\<exists>k'. handleSyscallResponse e sd (CReadLink c) k = Some k' \<and> k_thread k' t = Some (completed len x) \<and>
    user_read k' buf (unat len) = map of_char (take (unat len) (readlink_path c))"
proof -
  let ?g = "\<lambda>q. q\<lparr>rq_ret := mh_status c, rq_external := False, rq_unblock := True\<rparr>"
  let ?x = "x\<lparr>th_syscall := (?g (th_syscall x))\<lparr>rq_ret := len\<rparr>\<rparr>"
  let ?bs = "map of_char (take (unat len) (readlink_path c)) :: u8 list"
  define k1 where "k1 = upd_req t ?g k"
  define k2 where "k2 = setRequestRet t len k1"
  define k3 where "k3 = user_write buf ?bs (platformUseContext (th_context x) k2)"
  have a: "getThread k (mh_requester c) = Some t" "t \<noteq> 0" "k_thread k t = Some x" "rq_external (th_syscall x)"
    "th_status x = THREAD_BLOCKED" using aw by (simp_all add: awaits_def)
  have tid: "th_tid x = mh_requester c" using getThread_tid [OF a(1,2)] a(3) by simp
  have t2: "k_thread k2 t = Some ?x" "request k1 t = Some (?g (th_syscall x))" "k_vm k2 = k_vm k"
    using a(3) by (simp_all add: k1_def k2_def setRequestRet_def upd_req_def upd_thread_def request_def)
  have le: "length ?bs = unat len" using prm(3) by simp
  have "getThread k2 (mh_requester c) = Some t" using a(1) by (simp add: k1_def k2_def setRequestRet_def)
  then have cp: "copyToCaller t buf ?bs k2 = Some k3"
    unfolding k3_def using copyToCaller_present [of k2 ?x t buf ?bs] a(2) tid t2(1,3) pg le by simp
  have big: "mh_status c > len" "mh_status c \<noteq> 0"
    using st prm(2) signed_unsigned_order [of len "mh_status c"] by auto
  have rr: "respondReadlink t c k1 = Some k3"
    using big cp prm(1,3) by (simp add: respondReadlink_def t2(2) Let_def not_less word_le_0_iff flip: k2_def)
  let ?k = "setStatus t THREAD_QUEUED (platformSetContextStatus t len k3)"
  have t3: "k_thread k3 t = Some ?x" using t2(1) by (simp add: k3_def user_write_def platformUseContext_def)
  have h: "handleSyscallResponse e sd (CReadLink c) k = Some ?k"
    using a p cmd rr t3
    by (simp add: handleSyscallResponse_def getSyscall_def MessageHeader.truncate_def respond_def request_def wake_def
      flip: k1_def, simp add: command_values)
  have vm: "k_vm ?k = k_vm k3" "k_user ?k = k_user k3"
    by (simp_all add: setStatus_def platformSetContextStatus_def upd_thread_def)
  have "user_read ?k buf (unat len) = user_read k3 buf (length ?bs)"
    unfolding le using vm by (simp add: user_read_def user_get_def)
  also have "\<dots> = ?bs"
    unfolding k3_def using u64_bound [of len] by (intro user_read_write) (simp add: le)
  finally show ?thesis
    using h t3 by (intro exI [of _ ?k]) (simp add: setStatus_def platformSetContextStatus_def upd_thread_def completed_def)
qed

section \<open>Instances\<close>

lemma present_page: "touchPages (pagesTouched 0x400000 2) vm_present_ex (pageBase 0x400000) = Some vm_present_ex"
proof -
  have "pagesTouched 0x400000 2 = 1" "pageBase 0x400000 = 0x400000" by code_simp+
  moreover have "map_option (\<lambda>r. fst r AND PLATFORM_PAGE_PRESENT) (vmmPageStatus vm_present_ex 0x400000) = Some PLATFORM_PAGE_PRESENT"
    by code_simp
  ultimately show ?thesis by (auto simp: PLATFORM_PAGE_PRESENT_def)
qed

lemma waiter_ex_awaits: "awaits waiter_ex 2 21 waiter" "getProcess waiter_ex 2 = Some 20" "k_proc waiter_ex 20 = Some waiter_process"
  by (simp_all add: awaits_def waiter_ex_def waiter_def waiter_process_def getThread_def getProcess_def process0_def thread0_def request0_def)

lemma waiter_ex_vm: "(k_vm waiter_ex)\<lparr>vm_cr3 := cx_cr3 (th_context waiter)\<rparr> = vm_present_ex"
  by (simp add: waiter_ex_def waiter_def thread0_def context0_def vm_present_ex_def vm_page_ex_def)

theorem read_response_completes_witness:
  "\<exists>k'. handleSyscallResponse env_ex 1 (CRW read_answer) waiter_ex = Some k' \<and> k_thread k' 21 = Some (completed 2 waiter) \<and>
    vm_cr3 (k_vm k') = 0x1000 \<and> user_read k' 0x400000 2 = [104, 105] \<and> k_file k' 30 = Some (waiter_file\<lparr>fd_position := 2\<rparr>)"
  using read_response_completes [of waiter_ex read_answer 21 waiter 20 waiter_process 3 "0x400000" 2 0 waiter_file env_ex 1]
  using waiter_ex_awaits present_page unfolding waiter_ex_vm
  by (simp add: read_answer_def waiter_def thread0_def context0_def waiter_process_def process0_def MAX_IO_DESCRIPTORS_def waiter_ex_def)

theorem unsolicited_messages_dropped_witness:
  "handleSyscallResponse env_ex 1 (CRW read_answer) session_ex = Some session_ex \<and>
   handleGeneralRequest [] 1 (General (random_header\<lparr>mh_requester := 9\<rparr>)) session_ex = Some session_ex"
  using unsolicited_messages_dropped [of "CRW read_answer" "MessageHeader.truncate read_answer" session_ex 21 "thread0\<lparr>th_tid := 2, th_pid := 2\<rparr>" 20 env_ex 1]
  using unsolicited_messages_dropped [of "General (random_header\<lparr>mh_requester := 9\<rparr>)" "random_header\<lparr>mh_requester := 9\<rparr>" session_ex 0 thread0 0 env_ex 1 "[]"]
  by (simp add: read_answer_def random_header_def MessageHeader.truncate_def awaits_def session_ex_def pair_ex_def getThread_def getProcess_def
    process0_def thread0_def)

theorem readlink_error_reads_as_length_witness:
  "\<exists>k'. handleSyscallResponse env_ex 1 (CReadLink readlink_answer) waiter_ex = Some k' \<and> k_thread k' 21 = Some (completed 2 waiter) \<and>
    user_read k' 0x400000 2 = [47, 100]"
  using readlink_error_reads_as_length [of waiter_ex readlink_answer 21 waiter 20 3 "0x400000" 2 0 env_ex 1]
  using waiter_ex_awaits present_page unfolding waiter_ex_vm
  by (simp add: readlink_answer_def waiter_def thread0_def of_char_def)

end
