(* ===== verification/Firmware.thy ===== *)
theory Firmware
  imports Paging Console
begin

text \<open>
  What the boot loader and the firmware leave in memory: the ACPI tables, \<^verbatim>\<open>src/src/acpi/tables.c\<close>, the boot modules,
  \<^verbatim>\<open>src/src/modules/modules.c\<close>, and the place of the ramdisk, \<open>ramdiskInit()\<close> of \<^verbatim>\<open>src/src/modules/ramdisk.c\<close>.
  Physical memory is a function from addresses to bytes, seen through the window that \<open>vmmMMIO()\<close> gives pointers into; a read
  outside of the window, the null pointer included, is \<open>None\<close>, the fault. The log lines are left out, but what they read is read.
\<close>

section \<open>Memory behind the window\<close>

type_synonym bytes = "u64 \<Rightarrow> u8"

definition peek :: "bytes \<Rightarrow> u64 \<Rightarrow> u8 option" where
  "peek M p = (if KERNEL_MMIO_BASE \<le> p \<and> p - KERNEL_MMIO_BASE < KERNEL_MMIO_LIMIT then Some (M (p - KERNEL_MMIO_BASE)) else None)"

fun peekBytes :: "bytes \<Rightarrow> u64 \<Rightarrow> nat \<Rightarrow> u8 list option" where
  "peekBytes M p 0 = Some []"
| "peekBytes M p (Suc n) = do { b \<leftarrow> peek M p; bs \<leftarrow> peekBytes M (p + 1) n; Some (b # bs) }"

text \<open>A little-endian number of \<open>n\<close> bytes.\<close>

fun littleEndian :: "u8 list \<Rightarrow> u64" where
  "littleEndian [] = 0"
| "littleEndian (b # bs) = ucast b + 256 * littleEndian bs"

definition peekWord :: "nat \<Rightarrow> bytes \<Rightarrow> u64 \<Rightarrow> u64 option" where
  "peekWord n M p = map_option littleEndian (peekBytes M p n)"

text \<open>The loops of \<open>strlen()\<close> and \<open>strcmp()\<close> on a string behind the window.\<close>

lemma peek_next:
  assumes "peek M p = Some c"
  shows "unat (KERNEL_MMIO_BASE + KERNEL_MMIO_LIMIT - (p + 1)) < unat (KERNEL_MMIO_BASE + KERNEL_MMIO_LIMIT - p)"
proof -
  define d where "d = p - KERNEL_MMIO_BASE"
  have d: "d < KERNEL_MMIO_LIMIT" using assms by (simp add: peek_def d_def split: if_splits)
  have 1: "KERNEL_MMIO_BASE + KERNEL_MMIO_LIMIT - p = KERNEL_MMIO_LIMIT - d" by (simp add: d_def)
  have 2: "KERNEL_MMIO_BASE + KERNEL_MMIO_LIMIT - (p + 1) = (KERNEL_MMIO_LIMIT - d) - 1" by (simp add: d_def)
  from d have "KERNEL_MMIO_LIMIT - d \<noteq> 0" by auto
  then show ?thesis unfolding 1 2 by (metis diff_less less_one unat_0 unat_gt_0 unat_minus_one)
qed

function strlenAt :: "bytes \<Rightarrow> u64 \<Rightarrow> nat option" where
  "strlenAt M p = (case peek M p of None \<Rightarrow> None | Some c \<Rightarrow> if c = 0 then Some 0 else map_option Suc (strlenAt M (p + 1)))"
  by pat_completeness auto
termination
  by (relation "measure (\<lambda>(M, p). unat (KERNEL_MMIO_BASE + KERNEL_MMIO_LIMIT - p))") (auto simp: peek_next)

declare strlenAt.simps [simp del]

fun strcmpAt :: "bytes \<Rightarrow> u64 \<Rightarrow> u8 list \<Rightarrow> int option" where
  "strcmpAt M p [] = None"
| "strcmpAt M p (b # s) =
     do { a \<leftarrow> peek M p;
          if a = b then if a = 0 then Some 0 else strcmpAt M (p + 1) s else Some (sint a - sint b) }"

section \<open>Boot information\<close>

record BootInfo = KernelBootInfo +
  boot_acpiRSDP :: u64
  boot_ramdisk :: u64
  boot_ramdiskSize :: u64
  boot_moduleCount :: u8
  boot_modules :: "u64 list"
  boot_moduleSizes :: "u64 list"

section \<open>ACPI\<close>

record acpi =
  ac_version :: int
  ac_tableCount :: int
  ac_rsdt :: u64
  ac_xsdt :: u64

definition acpi_start :: acpi where
  "acpi_start = \<lparr>ac_version = 0, ac_tableCount = 0, ac_rsdt = 0, ac_xsdt = 0\<rparr>"

definition sizeof_ACPIStandardHeader :: u64 where "sizeof_ACPIStandardHeader = 36"

text \<open>What the log line of a table prints: signature, revision, author, address, length.\<close>

definition acpiDumpHeader :: "bytes \<Rightarrow> u64 \<Rightarrow> u64 \<Rightarrow> (u8 list \<times> u64 \<times> u8 list \<times> u64 \<times> u64) option" where
  "acpiDumpHeader M h phys =
     do { sig \<leftarrow> peekBytes M h 4;
          revision \<leftarrow> peekWord 1 M (h + 8);
          oem \<leftarrow> peekBytes M (h + 10) 6;
          len \<leftarrow> peekWord 4 M (h + 4);
          Some (sig, revision, oem, phys, len) }"

text \<open>\<open>tables[i]\<close> of the table in use: 64-bit addresses in an XSDT, 32-bit ones in an RSDT.\<close>

definition tableAt :: "bytes \<Rightarrow> acpi \<Rightarrow> nat \<Rightarrow> u64 option" where
  "tableAt M s i =
     (if ac_xsdt s \<noteq> 0 then peekWord 8 M (ac_xsdt s + sizeof_ACPIStandardHeader + 8 * of_nat i)
      else peekWord 4 M (ac_rsdt s + sizeof_ACPIStandardHeader + 4 * of_nat i))"

definition FACP :: "u8 list" where "FACP = [70, 65, 67, 80]"

text \<open>The count of entries, a \<open>size_t\<close> cut down to an \<open>int\<close>.\<close>

definition entryCount :: "u64 \<Rightarrow> u64 \<Rightarrow> int" where
  "entryCount len width = sint (ucast ((len - sizeof_ACPIStandardHeader) div width) :: u32)"

fun acpiInit_loop :: "bytes \<Rightarrow> nat list \<Rightarrow> acpi \<Rightarrow> acpi option" where
  "acpiInit_loop M [] s = Some s"
| "acpiInit_loop M (i # is) s =
     do { phys \<leftarrow> tableAt M s i;
          let h = vmmMMIO phys True;
          sig \<leftarrow> peekBytes M h 4;
          c \<leftarrow> memcmp sig FACP 4;
          s1 \<leftarrow> (if c = 0 then do { r \<leftarrow> peekWord 1 M (h + 8); Some (s\<lparr>ac_version := uint r\<rparr>) } else Some s);
          _ \<leftarrow> acpiDumpHeader M h phys;
          acpiInit_loop M is s1 }"

definition acpiInit :: "bytes \<Rightarrow> u64 \<Rightarrow> acpi \<Rightarrow> (int \<times> acpi) option" where
  "acpiInit M rsdpAddr s =
     (if rsdpAddr = 0 then Some (- 1, s)
      else do {
        let rsdp = vmmMMIO rsdpAddr True;
        revision \<leftarrow> peekWord 1 M (rsdp + 15);
        _ \<leftarrow> peekBytes M (rsdp + 9) 6;
        rsdtAddr \<leftarrow> peekWord 4 M (rsdp + 16);
        let s1 = s\<lparr>ac_rsdt := vmmMMIO rsdtAddr True\<rparr>;
        s2 \<leftarrow> (if revision \<ge> 2
               then do { x \<leftarrow> peekWord 8 M (rsdp + 24); Some (s1\<lparr>ac_xsdt := vmmMMIO x True, ac_version := 2\<rparr>) }
               else Some (s1\<lparr>ac_version := 1\<rparr>));
        _ \<leftarrow> acpiDumpHeader M (ac_rsdt s2) rsdtAddr;
        len \<leftarrow> peekWord 4 M (ac_rsdt s2 + 4);
        let s3 = s2\<lparr>ac_tableCount := entryCount len 4\<rparr>;
        s4 \<leftarrow> (if ac_xsdt s3 \<noteq> 0
               then do {
                 x \<leftarrow> peekWord 8 M (rsdp + 24);
                 _ \<leftarrow> acpiDumpHeader M (ac_xsdt s3) x;
                 xlen \<leftarrow> peekWord 4 M (ac_xsdt s3 + 4);
                 Some (s3\<lparr>ac_tableCount := entryCount xlen 8\<rparr>) }
               else Some s3);
        s5 \<leftarrow> acpiInit_loop M [0..<nat (ac_tableCount s4)] s4;
        Some (0, s5) })"

fun acpiFind_loop :: "bytes \<Rightarrow> nat list \<Rightarrow> acpi \<Rightarrow> u8 list \<Rightarrow> int \<Rightarrow> int \<Rightarrow> u64 option" where
  "acpiFind_loop M [] s sig index c = Some 0"
| "acpiFind_loop M (i # is) s sig index c =
     do { phys \<leftarrow> tableAt M s i;
          let h = vmmMMIO phys True;
          hsig \<leftarrow> peekBytes M h 4;
          d \<leftarrow> memcmp hsig sig 4;
          if d = 0 then if c + 1 > index then Some h else acpiFind_loop M is s sig index (c + 1)
          else acpiFind_loop M is s sig index c }"

definition acpiFindTable :: "bytes \<Rightarrow> acpi \<Rightarrow> u8 list \<Rightarrow> int \<Rightarrow> u64 option" where
  "acpiFindTable M s sig index = acpiFind_loop M [0..<nat (ac_tableCount s)] s sig index 0"

section \<open>Boot modules\<close>

definition MAX_MODULES :: nat where "MAX_MODULES = 16"

record modules =
  mod_modules :: "u64 list"
  mod_sizes :: "u64 list"

definition modules_start :: modules where
  "modules_start = \<lparr>mod_modules = replicate MAX_MODULES 0, mod_sizes = replicate MAX_MODULES 0\<rparr>"

text \<open>
  \<open>memset(modules, 0, MAX_MODULES * sizeof(uint8_t))\<close> clears the first 16 bytes, two pointers; the loop writes and reads
  past the arrays when the loader counts more than 16 modules.
\<close>

fun modules_loop :: "bytes \<Rightarrow> BootInfo \<Rightarrow> nat list \<Rightarrow> modules \<Rightarrow> modules option" where
  "modules_loop M boot [] s = Some s"
| "modules_loop M boot (i # is) s =
     (if i < MAX_MODULES then do {
        let p = vmmMMIO (boot_modules boot ! i) True;
        let s1 = s\<lparr>mod_modules := (mod_modules s)[i := p], mod_sizes := (mod_sizes s)[i := boot_moduleSizes boot ! i]\<rparr>;
        _ \<leftarrow> strlenAt M p;
        modules_loop M boot is s1 }
      else None)"

definition modulesInit :: "bytes \<Rightarrow> BootInfo \<Rightarrow> modules \<Rightarrow> modules option" where
  "modulesInit M boot s =
     modules_loop M boot [0..<unat (boot_moduleCount boot)]
       (s\<lparr>mod_modules := replicate 2 0 @ drop 2 (mod_modules s), mod_sizes := replicate MAX_MODULES 0\<rparr>)"

definition moduleCount :: "modules \<Rightarrow> nat" where
  "moduleCount s = length (filter (\<lambda>i. mod_sizes s ! i \<noteq> 0 \<and> mod_modules s ! i \<noteq> 0) [0..<MAX_MODULES])"

fun moduleFind_loop :: "bytes \<Rightarrow> modules \<Rightarrow> nat list \<Rightarrow> u8 list \<Rightarrow> int option" where
  "moduleFind_loop M s [] name = Some (- 1)"
| "moduleFind_loop M s (i # is) name =
     (if mod_modules s ! i \<noteq> 0
      then do { c \<leftarrow> strcmpAt M (mod_modules s ! i) name; if c = 0 then Some (int i) else moduleFind_loop M s is name }
      else moduleFind_loop M s is name)"

definition moduleFind :: "bytes \<Rightarrow> modules \<Rightarrow> u8 list \<Rightarrow> int option" where
  "moduleFind M s name = moduleFind_loop M s [0..<moduleCount s] name"

definition moduleQuery :: "bytes \<Rightarrow> modules \<Rightarrow> u8 list \<Rightarrow> u64 option" where
  "moduleQuery M s name = do { i \<leftarrow> moduleFind M s name; Some (if i < 0 then 0 else mod_sizes s ! nat i) }"

text \<open>\<open>moduleLoad()\<close> as the bytes it copies to the buffer, \<open>None\<close> inside for the null pointer it returns otherwise.\<close>

definition moduleLoad :: "bytes \<Rightarrow> modules \<Rightarrow> u8 list \<Rightarrow> u8 list option option" where
  "moduleLoad M s name =
     do { i \<leftarrow> moduleFind M s name;
          if i < 0 then Some None
          else do {
            n \<leftarrow> strlenAt M (mod_modules s ! nat i);
            if mod_sizes s ! nat i = 0 then Some None
            else do {
              data \<leftarrow> peekBytes M (mod_modules s ! nat i + of_nat n + 1) (unat (mod_sizes s ! nat i));
              Some (Some data) } } }"

section \<open>The ramdisk\<close>

text \<open>The archive that \<open>ramdiskFind()\<close> searches, empty when there is none.\<close>

definition ramdiskInit :: "bytes \<Rightarrow> BootInfo \<Rightarrow> u8 list option" where
  "ramdiskInit M boot =
     (if boot_ramdisk boot \<noteq> 0 \<and> boot_ramdiskSize boot \<noteq> 0 \<and> vmmMMIO (boot_ramdisk boot) True \<noteq> 0
      then peekBytes M (vmmMMIO (boot_ramdisk boot) True) (unat (boot_ramdiskSize boot))
      else Some [])"

section \<open>Specification vocabulary\<close>

text \<open>
  A table at a physical address with all of its header inside the window; its signature; a root table with the entries \<open>tabs\<close> of \<open>w\<close> bytes each.
\<close>

definition in_window :: "u64 \<Rightarrow> nat \<Rightarrow> bool" where
  "in_window a n \<longleftrightarrow> unat a + n \<le> 2 ^ 34"

definition bytes_at :: "bytes \<Rightarrow> u64 \<Rightarrow> nat \<Rightarrow> u8 list" where
  "bytes_at M a n = map (\<lambda>i. M (a + of_nat i)) [0..<n]"

definition number_at :: "bytes \<Rightarrow> u64 \<Rightarrow> nat \<Rightarrow> u64" where
  "number_at M a n = littleEndian (bytes_at M a n)"

definition root_table :: "bytes \<Rightarrow> u64 \<Rightarrow> nat \<Rightarrow> u64 list \<Rightarrow> bool" where
  "root_table M a w tabs \<longleftrightarrow>
     in_window a (36 + w * length tabs) \<and> length tabs < 2 ^ 28 \<and>
     number_at M (a + 4) 4 = 36 + of_nat w * of_nat (length tabs) \<and>
     (\<forall>i < length tabs. number_at M (a + 36 + of_nat (w * i)) w = tabs ! i \<and> in_window (tabs ! i) 36)"

text \<open>The two forms of the description: with an RSDT only, or with an XSDT behind a readable RSDT.\<close>

definition described :: "bytes \<Rightarrow> u64 \<Rightarrow> u64 list \<Rightarrow> bool" where
  "described M rsdp tabs \<longleftrightarrow>
     rsdp \<noteq> 0 \<and> in_window rsdp 36 \<and> 
     (if number_at M (rsdp + 15) 1 \<ge> 2
      then root_table M (number_at M (rsdp + 24) 8) 8 tabs
      else root_table M (number_at M (rsdp + 16) 4) 4 tabs)"

definition tables_signed :: "bytes \<Rightarrow> u8 list \<Rightarrow> u64 list \<Rightarrow> u64 list" where
  "tables_signed M sig tabs = filter (\<lambda>a. bytes_at M a 4 = sig) tabs"

text \<open>The revision of the last table with the signature of the FADT, otherwise the one assumed from the RSDP.\<close>

definition revision_of :: "bytes \<Rightarrow> u64 list \<Rightarrow> int \<Rightarrow> int" where
  "revision_of M tabs v = (if tables_signed M FACP tabs = [] then v else uint (M (last (tables_signed M FACP tabs) + 8)))"

section \<open>Specification vocabulary\<close>

definition lists :: "bytes \<Rightarrow> acpi \<Rightarrow> u64 list \<Rightarrow> bool" where
  "lists M s tabs \<longleftrightarrow> ac_tableCount s = int (length tabs) \<and> (\<forall>i < length tabs. tableAt M s i = Some (tabs ! i) \<and> in_window (tabs ! i) 36)"

text \<open>Firmware in two pages: an RSDP, an XSDT and three tables, two of them with the same signature.\<close>

definition table_bytes :: "string \<Rightarrow> u8 \<Rightarrow> u8 list" where
  "table_bytes sig r = map of_char sig @ [36, 0, 0, 0, r] @ replicate 27 0"

definition firmware_ex :: bytes where
  "firmware_ex a =
     (let image = replicate 15 0 @ [2, 128, 0, 0, 0, 36, 0, 0, 0, 64, 16, 0, 0, 0, 0, 0, 0] @ replicate 32 0 @
        map of_char ''XSDT'' @ [60, 0, 0, 0, 1] @ replicate 27 0 @
        [0, 17, 0, 0, 0, 0, 0, 0, 64, 17, 0, 0, 0, 0, 0, 0, 128, 17, 0, 0, 0, 0, 0, 0] @ replicate 132 0 @
        table_bytes ''SSDT'' 1 @ replicate 28 0 @ table_bytes ''FACP'' 6 @ replicate 28 0 @ table_bytes ''SSDT'' 2
      in if 0x1000 \<le> a \<and> unat (a - 0x1000) < length image then image ! unat (a - 0x1000) else 0)"

text \<open>The modules \<open>ms\<close>, names and contents, where the loader says they are: the name, a zero byte, the content.\<close>

definition modules_at :: "bytes \<Rightarrow> BootInfo \<Rightarrow> (u8 list \<times> u8 list) list \<Rightarrow> bool" where
  "modules_at M boot ms \<longleftrightarrow>
     unat (boot_moduleCount boot) = length ms \<and> length ms \<le> MAX_MODULES \<and>
     (\<forall>i < length ms. let (name, data) = ms ! i; a = boot_modules boot ! i in
        0 \<notin> set name \<and> in_window a (length name + 1 + length data) \<and> bytes_at M a (length name + 1 + length data) = name @ 0 # data \<and>
        boot_moduleSizes boot ! i = of_nat (length data))"

text \<open>Three modules, the second one empty.\<close>

definition modules_ex :: bytes where
  "modules_ex a = (let image = map of_char ''lumen'' @ [0, 7, 8, 9] @ map of_char ''vfs'' @ [0] @ map of_char ''lxfs'' @ [0, 5, 6]
     in if 0x2000 \<le> a \<and> unat (a - 0x2000) < length image then image ! unat (a - 0x2000) else 0)"

definition boot_modules_ex :: BootInfo where
  "boot_modules_ex = \<lparr>boot_highestPhysicalAddress = 0x100000, boot_memoryMap = [], boot_lowestFreeMemory = 0x80000,
     boot_acpiRSDP = 0, boot_ramdisk = 0, boot_ramdiskSize = 0, boot_moduleCount = 3,
     boot_modules = [0x2000, 0x2009, 0x200D] @ replicate 13 0, boot_moduleSizes = [3, 0, 2] @ replicate 13 0\<rparr>"

section \<open>Reading through the window\<close>

lemma window_limit: "x < KERNEL_MMIO_LIMIT \<longleftrightarrow> unat x < 2 ^ 34"
  by (simp add: layout_defs word_less_nat_alt)

lemma window_unat: "unat (a + of_nat i) = unat a + i" if "in_window a n" "i < n" for a :: u64
proof -
  have "unat a + i < 2 ^ 64" using that by (simp add: in_window_def)
  moreover have "unat (of_nat i :: u64) = i" using calculation by (simp add: unsigned_of_nat take_bit_nat_eq_self)
  ultimately show ?thesis by (subst unat_add_lem [THEN iffD1]) simp_all
qed

lemma window_pointer: "vmmMMIO a True = a + KERNEL_MMIO_BASE" "vmmMMIO a True \<noteq> 0" if "in_window a n" "0 < n"
proof -
  have "a < KERNEL_MMIO_LIMIT"
    using that by (simp add: in_window_def window_limit)
  then show "vmmMMIO a True = a + KERNEL_MMIO_BASE" by (simp add: vmmMMIO_def)
  moreover have "a + KERNEL_MMIO_BASE \<noteq> 0"
  proof
    assume "a + KERNEL_MMIO_BASE = 0"
    then have "a = - KERNEL_MMIO_BASE" by (simp add: eq_neg_iff_add_eq_0)
    with \<open>a < KERNEL_MMIO_LIMIT\<close> show False by (simp add: layout_defs)
  qed
  ultimately show "vmmMMIO a True \<noteq> 0" by simp
qed

lemma peek_window: "peek M (a + KERNEL_MMIO_BASE + of_nat i) = Some (M (a + of_nat i))" if "in_window a n" "i < n"
proof -
  define x where "x = a + of_nat i"
  have x: "unat x < 2 ^ 34" using window_unat [OF that] that by (simp add: in_window_def x_def)
  have "KERNEL_MMIO_BASE \<le> x + KERNEL_MMIO_BASE"
    using x by (intro word_le_nat_alt [THEN iffD2]) (simp add: layout_defs unat_word_ariths)
  then show ?thesis
    using x by (simp add: peek_def window_limit x_def ac_simps)
qed

lemma peekBytes_window:
  "peekBytes M (a + KERNEL_MMIO_BASE + of_nat k) n = Some (bytes_at M (a + of_nat k) n)" if "in_window a (k + n)"
  using that
proof (induction n arbitrary: k)
  case 0
  then show ?case by (simp add: bytes_at_def)
next
  case (Suc n)
  have "peek M (a + KERNEL_MMIO_BASE + of_nat k) = Some (M (a + of_nat k))"
    using Suc.prems by (rule peek_window) simp
  moreover have "peekBytes M (a + KERNEL_MMIO_BASE + of_nat k + 1) n = Some (bytes_at M (a + of_nat k + 1) n)"
    using Suc.IH [of "Suc k"] Suc.prems by (simp add: ac_simps)
  moreover have "bytes_at M (a + of_nat k) (Suc n) = M (a + of_nat k) # bytes_at M (a + of_nat k + 1) n"
    unfolding bytes_at_def upt_conv_Cons [OF zero_less_Suc] map_Suc_upt [symmetric] by (simp add: comp_def ac_simps)
  ultimately show ?case by simp
qed

lemma peekWord_window:
  "peekWord n M (a + KERNEL_MMIO_BASE + of_nat k) = Some (number_at M (a + of_nat k) n)" if "in_window a (k + n)"
  by (simp add: peekWord_def number_at_def peekBytes_window [OF that])

lemma in_window_mono: "in_window a n \<Longrightarrow> m \<le> n \<Longrightarrow> in_window a m"
  by (simp add: in_window_def)

text \<open>A header that lies in the window is read and printed without a fault.\<close>

lemma header_reads:
  assumes "in_window a 36"
  shows "peekBytes M (a + KERNEL_MMIO_BASE) 4 = Some (bytes_at M a 4)"
    and "peekWord 1 M (a + KERNEL_MMIO_BASE + 8) = Some (number_at M (a + 8) 1)"
    and "peekWord 4 M (a + KERNEL_MMIO_BASE + 4) = Some (number_at M (a + 4) 4)"
    and "acpiDumpHeader M (a + KERNEL_MMIO_BASE) phys =
      Some (bytes_at M a 4, number_at M (a + 8) 1, bytes_at M (a + 10) 6, phys, number_at M (a + 4) 4)"
proof -
  have r: "in_window a (k + n)" if "k + n \<le> 36" for k n using in_window_mono [OF assms that] .
  show 1: "peekBytes M (a + KERNEL_MMIO_BASE) 4 = Some (bytes_at M a 4)"
    using peekBytes_window [of a 0 4 M] r [of 0 4] by simp
  show 2: "peekWord 1 M (a + KERNEL_MMIO_BASE + 8) = Some (number_at M (a + 8) 1)"
    using peekWord_window [of a 8 1 M] r [of 8 1] by simp
  show 3: "peekWord 4 M (a + KERNEL_MMIO_BASE + 4) = Some (number_at M (a + 4) 4)"
    using peekWord_window [of a 4 4 M] r [of 4 4] by simp
  have 4: "peekBytes M (a + KERNEL_MMIO_BASE + 10) 6 = Some (bytes_at M (a + 10) 6)"
    using peekBytes_window [of a 10 6 M] r [of 10 6] by simp
  show "acpiDumpHeader M (a + KERNEL_MMIO_BASE) phys =
      Some (bytes_at M a 4, number_at M (a + 8) 1, bytes_at M (a + 10) 6, phys, number_at M (a + 4) 4)"
    unfolding acpiDumpHeader_def 1 2 3 4 by simp
qed

lemma bytes_at_length [simp]: "length (bytes_at M a n) = n"
  by (simp add: bytes_at_def)

lemma memcmp_eq: "length d1 = n \<Longrightarrow> length d2 = n \<Longrightarrow> \<exists>c. memcmp d1 d2 n = Some c \<and> (c = 0 \<longleftrightarrow> d1 = d2)"
  by (induction d1 d2 n rule: memcmp.induct) (auto simp: length_Suc_conv word_uint_eq_iff)

section \<open>The tables\<close>

lemma acpiFind_loop_signed:
  assumes "\<forall>i \<in> set is. tableAt M s i = Some (f i) \<and> in_window (f i) 36" "length sig = 4"
  shows "acpiFind_loop M is s sig index c =
    Some (let t = tables_signed M sig (map f is) in
      if nat (index - c) < length t then t ! nat (index - c) + KERNEL_MMIO_BASE else 0)"
  using assms(1)
proof (induction "is" arbitrary: c)
  case Nil
  then show ?case by (simp add: tables_signed_def)
next
  case (Cons i "is")
  have w: "in_window (f i) 36" "vmmMMIO (f i) True = f i + KERNEL_MMIO_BASE" using Cons.prems window_pointer(1) [of "f i" 36] by simp_all
  obtain d where d: "memcmp (bytes_at M (f i) 4) sig 4 = Some d" "d = 0 \<longleftrightarrow> bytes_at M (f i) 4 = sig"
    using memcmp_eq [of "bytes_at M (f i) 4" 4 sig] assms(2) by auto
  have IH: "acpiFind_loop M is s sig index c' = Some (let t = tables_signed M sig (map f is) in
      if nat (index - c') < length t then t ! nat (index - c') + KERNEL_MMIO_BASE else 0)" for c'
    using Cons by simp
  have n: "nat (index - c) = Suc (nat (index - (c + 1)))" if "\<not> c + 1 > index" using that by simp
  show ?case
    using Cons.prems d by (cases "c + 1 > index") (auto simp: w header_reads [OF w(1)] IH tables_signed_def Let_def n)
qed

lemma acpiFindTable_signed:
  assumes "lists M s tabs" "length sig = 4"
  shows "acpiFindTable M s sig index =
    Some (let t = tables_signed M sig tabs in if nat index < length t then vmmMMIO (t ! nat index) True else 0)"
proof -
  have "acpiFindTable M s sig index = Some (let t = tables_signed M sig tabs in
      if nat index < length t then t ! nat index + KERNEL_MMIO_BASE else 0)"
    using acpiFind_loop_signed [of "[0..<length tabs]" M s "(!) tabs" sig index 0] assms
    by (simp add: acpiFindTable_def lists_def map_nth Let_def)
  moreover have "in_window (tables_signed M sig tabs ! i) 36" if "i < length (tables_signed M sig tabs)" for i
  proof -
    have "tables_signed M sig tabs ! i \<in> set tabs" using nth_mem [OF that] by (simp add: tables_signed_def)
    then show ?thesis using assms(1) by (auto simp: lists_def in_set_conv_nth)
  qed
  ultimately show ?thesis using window_pointer(1) [of _ 36] by (simp add: Let_def)
qed

lemma number_1: "number_at M a 1 = ucast (M a)"
  by (simp add: number_at_def bytes_at_def)

lemma acpiInit_loop_version:
  assumes "\<forall>i \<in> set is. \<forall>v. tableAt M (s\<lparr>ac_version := v\<rparr>) i = Some (f i) \<and> in_window (f i) 36"
  shows "acpiInit_loop M is (s\<lparr>ac_version := v\<rparr>) = Some (s\<lparr>ac_version := revision_of M (map f is) v\<rparr>)"
  using assms
proof (induction "is" arbitrary: v)
  case Nil
  then show ?case by (simp add: revision_of_def tables_signed_def)
next
  case (Cons i "is")
  have t: "tableAt M (s\<lparr>ac_version := v\<rparr>) i = Some (f i)" and w: "in_window (f i) 36" using Cons.prems by auto
  have p: "vmmMMIO (f i) True = f i + KERNEL_MMIO_BASE" using window_pointer(1) [of "f i" 36] w by simp
  obtain d where d: "memcmp (bytes_at M (f i) 4) FACP 4 = Some d" "d = 0 \<longleftrightarrow> bytes_at M (f i) 4 = FACP"
    using memcmp_eq [of "bytes_at M (f i) 4" 4 FACP] by (auto simp: FACP_def)
  have IH: "acpiInit_loop M is (s\<lparr>ac_version := v\<rparr>) = Some (s\<lparr>ac_version := revision_of M (map f is) v\<rparr>)" for v
    using Cons by simp
  have "uint (number_at M (f i + 8) 1) = uint (M (f i + 8))"
    using unsigned_less [of "M (f i + 8)", where ?'a = int]
    by (simp only: number_1) (simp add: unsigned_ucast_eq take_bit_int_eq_self)
  then show ?case
    using t d by (auto simp: p header_reads [OF w] IH revision_of_def tables_signed_def simp del: One_nat_def)
qed

lemma entryCount_exact:
  assumes "n < 2 ^ 28" "w = 4 \<or> w = 8"
  shows "entryCount (36 + of_nat w * of_nat n) (of_nat w) = int n"
proof -
  have n: "(of_nat n :: u64) < 2 ^ 28" using assms(1) by (simp add: word_less_nat_alt unsigned_of_nat take_bit_nat_eq_self)
  have u: "unat (of_nat n :: u64) = n" using assms(1) by (simp add: unsigned_of_nat take_bit_nat_eq_self)
  have m: "unat ((of_nat w :: u64) * of_nat n) = w * n"
    using assms by (auto simp: unat_word_ariths u)
  have "(of_nat w * of_nat n :: u64) div of_nat w = of_nat n"
    using assms(2) by (intro word_unat_eq_iff [THEN iffD2]) (auto simp: unat_div u m [simplified])
  then have e: "(36 + of_nat w * of_nat n - sizeof_ACPIStandardHeader) div of_nat w = (of_nat n :: u64)"
    by (simp add: sizeof_ACPIStandardHeader_def)
  have "sint (ucast (of_nat n :: u64) :: u32) = int n"
    using assms(1) by (simp add: signed_of_nat unsigned_of_nat take_bit_nat_eq_self signed_take_bit_int_eq_self)
  then show ?thesis by (simp only: entryCount_def e)
qed

lemma root_reads:
  assumes "root_table M a w tabs" "i < length tabs"
  shows "peekWord w M (a + KERNEL_MMIO_BASE + 36 + of_nat (w * i)) = Some (tabs ! i)"
proof -
  have "36 + w * i + w \<le> 36 + w * length tabs"
    using assms(2) by (metis Suc_leI add.assoc add.commute add_le_cancel_left mult_Suc_right mult_le_mono2)
  then have "in_window a (36 + w * i + w)"
    using assms(1) in_window_mono by (auto simp: root_table_def)
  from peekWord_window [OF this, of M] show ?thesis
    using assms by (simp add: root_table_def ac_simps)
qed

lemma root_header: "root_table M a w tabs \<Longrightarrow> in_window a 36"
  by (auto simp: root_table_def elim: in_window_mono)

lemma lists_xsdt:
  assumes "root_table M a 8 tabs" "ac_xsdt s = a + KERNEL_MMIO_BASE" "ac_tableCount s = int (length tabs)"
  shows "lists M s tabs"
proof -
  have "ac_xsdt s \<noteq> 0" using assms(2) window_pointer [OF root_header [OF assms(1)]] by simp
  moreover have "in_window (tabs ! i) 36" if "i < length tabs" for i using assms(1) that by (simp add: root_table_def)
  ultimately show ?thesis
    using assms(2,3) root_reads [OF assms(1)] by (simp add: lists_def tableAt_def sizeof_ACPIStandardHeader_def)
qed

lemma lists_rsdt:
  assumes "root_table M a 4 tabs" "ac_xsdt s = 0" "ac_rsdt s = a + KERNEL_MMIO_BASE" "ac_tableCount s = int (length tabs)"
  shows "lists M s tabs"
proof -
  have "in_window (tabs ! i) 36" if "i < length tabs" for i using assms(1) that by (simp add: root_table_def)
  then show ?thesis
    using assms(2-4) root_reads [OF assms(1)] by (simp add: lists_def tableAt_def sizeof_ACPIStandardHeader_def)
qed

lemma number_4: "in_window (number_at M a 4) 36"
proof -
  have le: "unat (littleEndian bs) < 256 ^ length bs" if "length bs \<le> 4" for bs
    using that
  proof (induction bs)
    case (Cons b bs)
    have b: "unat b < 256" using unsigned_less [of b, where ?'a = nat] by simp
    have u: "unat (ucast b :: u64) = unat b" using b by (simp add: unsigned_ucast_eq take_bit_nat_eq_self)
    have l: "unat (littleEndian bs) < 256 ^ length bs" using Cons by simp
    have p: "256 ^ length bs \<le> (256 ^ 3 :: nat)" using Cons.prems by (intro power_increasing) simp_all
    have m: "unat (256 * littleEndian bs) = 256 * unat (littleEndian bs)"
      using l p by (simp add: unat_word_ariths)
    have "unat (ucast b + 256 * littleEndian bs) = unat b + 256 * unat (littleEndian bs)"
      using l p b by (simp add: unat_word_ariths u)
    then show ?case using l b by simp
  qed simp
  have "unat (number_at M a 4) < 256 ^ 4" using le [of "bytes_at M a 4"] by (simp add: number_at_def)
  then show ?thesis by (simp add: in_window_def)
qed

lemma rsdp_reads:
  assumes "in_window a 36"
  shows "peekWord 1 M (a + KERNEL_MMIO_BASE + 15) = Some (number_at M (a + 15) 1)"
    and "peekBytes M (a + KERNEL_MMIO_BASE + 9) 6 = Some (bytes_at M (a + 9) 6)"
    and "peekWord 4 M (a + KERNEL_MMIO_BASE + 16) = Some (number_at M (a + 16) 4)"
    and "peekWord 8 M (a + KERNEL_MMIO_BASE + 24) = Some (number_at M (a + 24) 8)"
proof -
  have r: "in_window a (k + n)" if "k + n \<le> 36" for k n using in_window_mono [OF assms that] .
  show "peekWord 1 M (a + KERNEL_MMIO_BASE + 15) = Some (number_at M (a + 15) 1)"
    using peekWord_window [of a 15 1 M] r [of 15 1] by simp
  show "peekBytes M (a + KERNEL_MMIO_BASE + 9) 6 = Some (bytes_at M (a + 9) 6)"
    using peekBytes_window [of a 9 6 M] r [of 9 6] by simp
  show "peekWord 4 M (a + KERNEL_MMIO_BASE + 16) = Some (number_at M (a + 16) 4)"
    using peekWord_window [of a 16 4 M] r [of 16 4] by simp
  show "peekWord 8 M (a + KERNEL_MMIO_BASE + 24) = Some (number_at M (a + 24) 8)"
    using peekWord_window [of a 24 8 M] r [of 24 8] by simp
qed

lemma lists_loop:
  assumes "lists M s tabs"
  shows "acpiInit_loop M [0..<nat (ac_tableCount s)] s = Some (s\<lparr>ac_version := revision_of M tabs (ac_version s)\<rparr>)"
proof -
  have "tableAt M (s\<lparr>ac_version := v\<rparr>) i = tableAt M s i" for v i by (simp add: tableAt_def)
  then show ?thesis
    using acpiInit_loop_version [of "[0..<length tabs]" M s "(!) tabs" "ac_version s"] assms
    by (simp add: lists_def map_nth)
qed

lemma lists_version: "lists M (s\<lparr>ac_version := v\<rparr>) tabs = lists M s tabs"
  by (simp add: lists_def tableAt_def)

lemma acpiInit_lists:
  assumes "described M rsdp tabs"
  shows "\<exists>s. acpiInit M rsdp acpi_start = Some (0, s) \<and> lists M s tabs \<and>
    ac_version s = revision_of M tabs (if number_at M (rsdp + 15) 1 \<ge> 2 then 2 else 1)"
proof -
  let ?r = "number_at M (rsdp + 16) 4" and ?x = "number_at M (rsdp + 24) 8"
  have w: "in_window rsdp 36" "rsdp \<noteq> 0" using assms by (simp_all add: described_def)
  have p: "vmmMMIO rsdp True = rsdp + KERNEL_MMIO_BASE" "vmmMMIO ?r True = ?r + KERNEL_MMIO_BASE"
    using window_pointer(1) [of _ 36] w number_4 by simp_all
  note reads = rsdp_reads [OF w(1)] header_reads [OF number_4]
  show ?thesis
  proof (cases "number_at M (rsdp + 15) 1 \<ge> 2")
    case True
    then have root: "root_table M ?x 8 tabs" using assms by (simp add: described_def)
    note xw = root_header [OF root]
    have px: "vmmMMIO ?x True = ?x + KERNEL_MMIO_BASE" "?x + KERNEL_MMIO_BASE \<noteq> 0" using window_pointer [OF xw] by simp_all
    have c: "entryCount (number_at M (?x + 4) 4) 8 = int (length tabs)"
      using entryCount_exact [of "length tabs" 8] root by (simp add: root_table_def)
    define s where "s = acpi_start\<lparr>ac_rsdt := ?r + KERNEL_MMIO_BASE, ac_xsdt := ?x + KERNEL_MMIO_BASE, ac_version := 2, ac_tableCount := int (length tabs)\<rparr>"
    have l: "lists M s tabs" by (rule lists_xsdt [OF root]) (simp_all add: s_def)
    have "acpiInit M rsdp acpi_start = Some (0, s\<lparr>ac_version := revision_of M tabs 2\<rparr>)"
      using lists_loop [OF l] True
      by (simp add: acpiInit_def w reads header_reads [OF xw] p px c s_def acpi_start_def Let_def del: One_nat_def)
    then show ?thesis using True l by (simp add: lists_version)
  next
    case False
    then have root: "root_table M ?r 4 tabs" using assms by (simp add: described_def)
    have c: "entryCount (number_at M (?r + 4) 4) 4 = int (length tabs)"
      using entryCount_exact [of "length tabs" 4] root by (simp add: root_table_def)
    define s where "s = acpi_start\<lparr>ac_rsdt := ?r + KERNEL_MMIO_BASE, ac_version := 1, ac_tableCount := int (length tabs)\<rparr>"
    have l: "lists M s tabs" by (rule lists_rsdt [OF root]) (simp_all add: s_def acpi_start_def)
    have "acpiInit M rsdp acpi_start = Some (0, s\<lparr>ac_version := revision_of M tabs 1\<rparr>)"
      using lists_loop [OF l] False
      by (simp add: acpiInit_def w reads p c s_def acpi_start_def Let_def del: One_nat_def)
    then show ?thesis using False l by (simp add: lists_version)
  qed
qed

text \<open>
  C29: on firmware whose root table, the XSDT from revision 2 of the RSDP on and the RSDT before, lists the tables \<open>tabs\<close> inside of the
  mapped 16 GiB, \<open>acpiInit()\<close> succeeds, takes the ACPI revision from the last FADT, and afterwards \<open>acpiFindTable()\<close> returns the table of that index among those with
  the signature, in the order they are listed, a pointer to its header, or the null pointer when there are not that many; a
  negative index counts as zero.
\<close>

theorem acpi_finds_tables:
  assumes "described M rsdp tabs"
  shows "\<exists>s. acpiInit M rsdp acpi_start = Some (0, s) \<and>
    ac_version s = revision_of M tabs (if number_at M (rsdp + 15) 1 \<ge> 2 then 2 else 1) \<and>
    (\<forall>sig index. length sig = 4 \<longrightarrow>
      acpiFindTable M s sig index =
        Some (let t = tables_signed M sig tabs in if nat index < length t then vmmMMIO (t ! nat index) True else 0))"
  using acpiInit_lists [OF assms] acpiFindTable_signed by blast

lemma firmware_ex_described: "described firmware_ex 0x1000 [0x1100, 0x1140, 0x1180]"
proof -
  have root: "root_table firmware_ex 0x1040 8 [0x1100, 0x1140, 0x1180]"
    unfolding root_table_def by (simp add: in_window_def All_less_Suc numeral_3_eq_3) code_simp
  have "number_at firmware_ex (0x1000 + 15) 1 = 2" "number_at firmware_ex (0x1000 + 24) 8 = 0x1040" by code_simp+
  with root show ?thesis by (simp add: described_def in_window_def)
qed

theorem acpi_finds_tables_witness:
  "\<exists>s. acpiInit firmware_ex 0x1000 acpi_start = Some (0, s) \<and> ac_version s = 6 \<and>
    acpiFindTable firmware_ex s (map of_char ''SSDT'') 1 = Some (vmmMMIO 0x1180 True) \<and>
    acpiFindTable firmware_ex s (map of_char ''APIC'') 0 = Some 0"
proof -
  have v: "revision_of firmware_ex [0x1100, 0x1140, 0x1180] 2 = 6" by code_simp
  have n: "(2::u64) \<le> number_at firmware_ex (0x1000 + 15) 1" by code_simp
  have t: "tables_signed firmware_ex (map of_char ''SSDT'') [0x1100, 0x1140, 0x1180] = [0x1100, 0x1180]"
    "tables_signed firmware_ex (map of_char ''APIC'') [0x1100, 0x1140, 0x1180] = []" by code_simp+
  obtain s where s: "acpiInit firmware_ex 0x1000 acpi_start = Some (0, s)" "ac_version s = 6"
    "\<And>sig index. length sig = 4 \<Longrightarrow> acpiFindTable firmware_ex s sig index =
        Some (let t = tables_signed firmware_ex sig [0x1100, 0x1140, 0x1180] in if nat index < length t then vmmMMIO (t ! nat index) True else 0)"
    using acpi_finds_tables [OF firmware_ex_described] v n by auto
  show ?thesis
    using s(1,2) s(3) [of "map of_char ''SSDT''" 1] s(3) [of "map of_char ''APIC''" 0] t by (intro exI [of _ s]) simp
qed

section \<open>The modules\<close>

lemma bytes_at_split: "bytes_at M a (m + n) = bytes_at M a m @ bytes_at M (a + of_nat m) n"
proof -
  have "map (\<lambda>i. M (a + of_nat i)) [m..<m + n] = map (\<lambda>i. M (a + of_nat m + of_nat i)) [0..<n]"
    by (intro nth_equalityI) (simp_all add: ac_simps)
  then show ?thesis unfolding bytes_at_def by (simp add: upt_add_eq_append [of 0 m n, simplified])
qed

lemma bytes_at_Suc: "bytes_at M a (Suc n) = M a # bytes_at M (a + 1) n"
  using bytes_at_split [of M a 1 n] by (simp add: bytes_at_def)

lemma strlenAt_window:
  assumes "bytes_at M (a + of_nat k) (Suc (length s)) = s @ [0]" "0 \<notin> set s" "in_window a (k + Suc (length s))"
  shows "strlenAt M (a + KERNEL_MMIO_BASE + of_nat k) = Some (length s)"
  using assms
proof (induction s arbitrary: k)
  case Nil
  have "peek M (a + KERNEL_MMIO_BASE + of_nat k) = Some (M (a + of_nat k))" using Nil(3) by (rule peek_window) simp
  then show ?case using Nil(1) by (subst strlenAt.simps) (simp add: bytes_at_Suc)
next
  case (Cons c s)
  have "peek M (a + KERNEL_MMIO_BASE + of_nat k) = Some (M (a + of_nat k))" using Cons.prems(3) by (rule peek_window) simp
  moreover have "M (a + of_nat k) = c" "c \<noteq> 0" using Cons.prems(1,2) by (auto simp: bytes_at_Suc)
  moreover have "strlenAt M (a + KERNEL_MMIO_BASE + of_nat (Suc k)) = Some (length s)"
    using Cons.prems by (intro Cons.IH) (auto simp: bytes_at_Suc ac_simps)
  ultimately show ?case by (subst strlenAt.simps) (simp add: ac_simps)
qed

lemma strcmpAt_window:
  assumes "bytes_at M (a + of_nat k) (Suc (length s)) = s @ [0]" "0 \<notin> set s" "0 \<notin> set t" "in_window a (k + Suc (length s))"
  shows "\<exists>c. strcmpAt M (a + KERNEL_MMIO_BASE + of_nat k) (t @ [0]) = Some c \<and> (c = 0 \<longleftrightarrow> s = t)"
  using assms
proof (induction s arbitrary: k t)
  case Nil
  have "peek M (a + KERNEL_MMIO_BASE + of_nat k) = Some (M (a + of_nat k))" using Nil(4) by (rule peek_window) simp
  then show ?case using Nil(1,3) by (cases t) (auto simp: bytes_at_Suc signed_eq_0_iff)
next
  case (Cons c s)
  have p: "peek M (a + KERNEL_MMIO_BASE + of_nat k) = Some c" "c \<noteq> 0"
    using peek_window [OF Cons.prems(4), of k] Cons.prems(1,2) by (auto simp: bytes_at_Suc)
  show ?case
  proof (cases t)
    case Nil
    then show ?thesis using p by (simp add: signed_eq_0_iff)
  next
    case t: (Cons d t')
    have "\<exists>e. strcmpAt M (a + KERNEL_MMIO_BASE + of_nat (Suc k)) (t' @ [0]) = Some e \<and> (e = 0 \<longleftrightarrow> s = t')"
      using Cons.prems t by (intro Cons.IH) (simp_all add: bytes_at_Suc ac_simps)
    then have "\<exists>e. strcmpAt M (a + KERNEL_MMIO_BASE + of_nat k + 1) (t' @ [0]) = Some e \<and> (e = 0 \<longleftrightarrow> s = t')"
      by (simp add: ac_simps)
    then show ?thesis using p t signed_word_eqI [of c d] by (cases "c = d") auto
  qed
qed

lemma modules_loop_sets:
  assumes "\<forall>i \<in> set is. i < MAX_MODULES \<and> strlenAt M (P i) \<noteq> None \<and> vmmMMIO (boot_modules boot ! i) True = P i"
    "length (mod_modules s) = MAX_MODULES" "length (mod_sizes s) = MAX_MODULES"
  shows "\<exists>s'. modules_loop M boot is s = Some s' \<and>
    (\<forall>j < MAX_MODULES. mod_modules s' ! j = (if j \<in> set is then P j else mod_modules s ! j) \<and>
      mod_sizes s' ! j = (if j \<in> set is then boot_moduleSizes boot ! j else mod_sizes s ! j))"
  using assms
proof (induction "is" arbitrary: s)
  case Nil
  then show ?case by simp
next
  case (Cons i "is")
  define s1 where "s1 = s\<lparr>mod_modules := (mod_modules s)[i := P i], mod_sizes := (mod_sizes s)[i := boot_moduleSizes boot ! i]\<rparr>"
  obtain s' where s': "modules_loop M boot is s1 = Some s'"
    "\<forall>j < MAX_MODULES. mod_modules s' ! j = (if j \<in> set is then P j else mod_modules s1 ! j) \<and>
      mod_sizes s' ! j = (if j \<in> set is then boot_moduleSizes boot ! j else mod_sizes s1 ! j)"
    using Cons.IH [of s1] Cons.prems by (auto simp: s1_def)
  have "modules_loop M boot (i # is) s = Some s'" using Cons.prems s'(1) by (auto simp: s1_def)
  then show ?case using s'(2) Cons.prems(2,3) by (auto simp: s1_def nth_list_update)
qed

lemma moduleFind_loop_index:
  assumes "\<forall>i \<in> set is. mod_modules s ! i \<noteq> 0 \<and> (\<exists>c. strcmpAt M (mod_modules s ! i) name = Some c \<and> (c = 0 \<longleftrightarrow> Q i))"
  shows "moduleFind_loop M s is name = Some (case find Q is of None \<Rightarrow> - 1 | Some i \<Rightarrow> int i)"
  using assms by (induction "is") auto

lemma find_map_list: "find P (map f xs) = map_option f (find (\<lambda>x. P (f x)) xs)"
  by (induction xs) auto

text \<open>The first pair with the key, by its position.\<close>

lemma find_fst: "map_option (\<lambda>i. snd (ms ! i)) (find (\<lambda>i. fst (ms ! i) = k) [0..<length ms]) = map_of ms k"
proof (induction ms)
  case (Cons m ms)
  have "find (\<lambda>i. fst ((m # ms) ! i) = k) (map Suc [0..<length ms]) = map_option Suc (find (\<lambda>i. fst (ms ! i) = k) [0..<length ms])"
    unfolding find_map_list by simp
  then show ?case using Cons
    by (cases m) (auto simp: upt_conv_Cons map_Suc_upt [symmetric] option.map_comp comp_def simp del: upt_Suc)
qed simp

lemma modulesAtD:
  assumes "modules_at M boot ms" "i < length ms"
  shows "0 \<notin> set (fst (ms ! i))" "in_window (boot_modules boot ! i) (length (fst (ms ! i)) + 1 + length (snd (ms ! i)))"
    "bytes_at M (boot_modules boot ! i) (length (fst (ms ! i)) + 1 + length (snd (ms ! i))) = fst (ms ! i) @ 0 # snd (ms ! i)"
    "boot_moduleSizes boot ! i = of_nat (length (snd (ms ! i)))" "i < MAX_MODULES"
  using assms by (auto simp: modules_at_def case_prod_unfold Let_def)

lemma module_reads:
  assumes "modules_at M boot ms" "i < length ms"
  defines "p \<equiv> boot_modules boot ! i + KERNEL_MMIO_BASE"
  shows "vmmMMIO (boot_modules boot ! i) True = p" "p \<noteq> 0" "strlenAt M p = Some (length (fst (ms ! i)))"
    "peekBytes M (p + of_nat (length (fst (ms ! i))) + 1) (length (snd (ms ! i))) = Some (snd (ms ! i))"
    "0 \<notin> set name \<Longrightarrow> \<exists>c. strcmpAt M p (name @ [0]) = Some c \<and> (c = 0 \<longleftrightarrow> fst (ms ! i) = name)"
proof -
  let ?a = "boot_modules boot ! i" and ?n = "fst (ms ! i)" and ?d = "snd (ms ! i)"
  note D = modulesAtD [OF assms(1,2)]
  have e: "bytes_at M ?a (Suc (length ?n)) @ bytes_at M (?a + of_nat (Suc (length ?n))) (length ?d) = (?n @ [0]) @ ?d"
    using D(3) bytes_at_split [of M ?a "Suc (length ?n)" "length ?d"] by simp
  have b: "bytes_at M ?a (Suc (length ?n)) = ?n @ [0]" "bytes_at M (?a + of_nat (Suc (length ?n))) (length ?d) = ?d"
    using append_eq_append_conv [THEN iffD1, OF _ e] by simp_all
  have w: "in_window ?a (0 + Suc (length ?n))" using in_window_mono [OF D(2)] by simp
  show "vmmMMIO ?a True = p" "p \<noteq> 0" unfolding p_def using window_pointer [OF D(2)] by simp_all
  show "strlenAt M p = Some (length ?n)" unfolding p_def using strlenAt_window [of M ?a 0 ?n] b(1) D(1) w by simp
  show "peekBytes M (p + of_nat (length ?n) + 1) (length ?d) = Some ?d"
    unfolding p_def using peekBytes_window [of ?a "Suc (length ?n)" "length ?d" M] D(2) b(2) by (simp add: ac_simps)
  show "\<exists>c. strcmpAt M p (name @ [0]) = Some c \<and> (c = 0 \<longleftrightarrow> ?n = name)" if "0 \<notin> set name"
    unfolding p_def using strcmpAt_window [of M ?a 0 ?n name] b(1) D(1) w that by simp
qed

lemma module_size:
  assumes "modules_at M boot ms" "i < length ms"
  shows "unat (boot_moduleSizes boot ! i) = length (snd (ms ! i))" "boot_moduleSizes boot ! i = 0 \<longleftrightarrow> snd (ms ! i) = []"
proof -
  have "length (snd (ms ! i)) < 2 ^ 64" using modulesAtD(2) [OF assms] by (simp add: in_window_def)
  then show u: "unat (boot_moduleSizes boot ! i) = length (snd (ms ! i))"
    using modulesAtD(4) [OF assms] by (simp add: unsigned_of_nat take_bit_nat_eq_self)
  show "boot_moduleSizes boot ! i = 0 \<longleftrightarrow> snd (ms ! i) = []"
    using u by (metis length_0_conv unat_0 unsigned_eq_0_iff)
qed

lemma modulesInit_sets:
  assumes "modules_at M boot ms"
  shows "\<exists>s. modulesInit M boot modules_start = Some s \<and>
    (\<forall>j < MAX_MODULES. mod_modules s ! j = (if j < length ms then boot_modules boot ! j + KERNEL_MMIO_BASE else 0) \<and>
      mod_sizes s ! j = (if j < length ms then boot_moduleSizes boot ! j else 0))"
proof -
  let ?s = "modules_start\<lparr>mod_modules := replicate 2 0 @ drop 2 (mod_modules modules_start), mod_sizes := replicate MAX_MODULES 0\<rparr>"
  have "?s = modules_start" by (simp add: modules_start_def MAX_MODULES_def numeral_eq_Suc)
  moreover have "unat (boot_moduleCount boot) = length ms" using assms by (simp add: modules_at_def)
  moreover have start: "mod_modules modules_start ! j = 0" "mod_sizes modules_start ! j = 0" if "j < MAX_MODULES" for j
    using that by (simp_all add: modules_start_def)
  moreover have "length (mod_modules modules_start) = MAX_MODULES" "length (mod_sizes modules_start) = MAX_MODULES"
    by (simp_all add: modules_start_def)
  moreover have "\<forall>i \<in> set [0..<length ms]. i < MAX_MODULES \<and> strlenAt M (boot_modules boot ! i + KERNEL_MMIO_BASE) \<noteq> None \<and>
      vmmMMIO (boot_modules boot ! i) True = boot_modules boot ! i + KERNEL_MMIO_BASE"
    using module_reads(1,3) [OF assms] modulesAtD(5) [OF assms] by simp
  ultimately obtain s where "modulesInit M boot modules_start = Some s"
    "\<forall>j < MAX_MODULES. mod_modules s ! j = (if j < length ms then boot_modules boot ! j + KERNEL_MMIO_BASE else mod_modules modules_start ! j) \<and>
      mod_sizes s ! j = (if j < length ms then boot_moduleSizes boot ! j else mod_sizes modules_start ! j)"
    using modules_loop_sets [of "[0..<length ms]" M "\<lambda>i. boot_modules boot ! i + KERNEL_MMIO_BASE" boot modules_start]
    by (auto simp: modulesInit_def)
  then show ?thesis by (intro exI [of _ s]) (simp add: start)
qed

lemma modules_counted:
  assumes "modules_at M boot ms"
    "\<forall>j < MAX_MODULES. mod_modules s ! j = (if j < length ms then boot_modules boot ! j + KERNEL_MMIO_BASE else 0) \<and>
      mod_sizes s ! j = (if j < length ms then boot_moduleSizes boot ! j else 0)"
  shows "moduleCount s = length (filter (\<lambda>m. snd m \<noteq> []) ms)"
proof -
  have le: "length ms \<le> MAX_MODULES" using assms(1) by (simp add: modules_at_def)
  have "[0..<MAX_MODULES] = [0..<length ms] @ [length ms..<MAX_MODULES]"
    using upt_add_eq_append [of 0 "length ms" "MAX_MODULES - length ms"] le by simp
  moreover have "filter (\<lambda>i. mod_sizes s ! i \<noteq> 0 \<and> mod_modules s ! i \<noteq> 0) [length ms..<MAX_MODULES] = []"
    using assms(2) by (auto simp: filter_empty_conv)
  moreover have "filter (\<lambda>i. mod_sizes s ! i \<noteq> 0 \<and> mod_modules s ! i \<noteq> 0) [0..<length ms] = filter (\<lambda>i. snd (ms ! i) \<noteq> []) [0..<length ms]"
    using assms(2) le module_size(2) [OF assms(1)] module_reads(2) [OF assms(1)] by (intro filter_cong) auto
  ultimately have "moduleCount s = length (filter (\<lambda>i. snd (ms ! i) \<noteq> []) [0..<length ms])" by (simp add: moduleCount_def)
  also have "\<dots> = length (filter (\<lambda>m. snd m \<noteq> []) (map ((!) ms) [0..<length ms]))"
    by (simp add: filter_map comp_def)
  finally show ?thesis by (simp add: map_nth)
qed

text \<open>
  C31: with modules as the loader describes them, at most 16 and each a name with a zero byte and its content, \<open>modulesInit()\<close>
  succeeds, \<open>moduleQuery()\<close> gives the size and \<open>moduleLoad()\<close> the content of the first module with the name, and
  zero and the null pointer for other names. But \<open>moduleCount()\<close>, the bound of the search, leaves out the empty modules: only the first
  \<open>moduleCount()\<close> ones are searched, so an empty module hides the last one.
\<close>

theorem modules_found:
  assumes "modules_at M boot ms"
  shows "\<exists>s. modulesInit M boot modules_start = Some s \<and> moduleCount s = length (filter (\<lambda>m. snd m \<noteq> []) ms) \<and>
    (\<forall>name. 0 \<notin> set name \<longrightarrow>
      (let found = map_of (take (moduleCount s) ms) name in
        moduleQuery M s (name @ [0]) = Some (case found of None \<Rightarrow> 0 | Some data \<Rightarrow> of_nat (length data)) \<and>
        moduleLoad M s (name @ [0]) = Some (case found of None \<Rightarrow> None | Some data \<Rightarrow> if data = [] then None else Some data)))"
proof -
  obtain s where s: "modulesInit M boot modules_start = Some s"
    "\<forall>j < MAX_MODULES. mod_modules s ! j = (if j < length ms then boot_modules boot ! j + KERNEL_MMIO_BASE else 0) \<and>
      mod_sizes s ! j = (if j < length ms then boot_moduleSizes boot ! j else 0)"
    using modulesInit_sets [OF assms] by blast
  let ?c = "moduleCount s"
  have count: "?c = length (filter (\<lambda>m. snd m \<noteq> []) ms)" by (rule modules_counted [OF assms s(2)])
  then have le: "?c \<le> length ms" by simp
  have "moduleQuery M s (name @ [0]) = Some (case map_of (take ?c ms) name of None \<Rightarrow> 0 | Some data \<Rightarrow> of_nat (length data)) \<and>
      moduleLoad M s (name @ [0]) = Some (case map_of (take ?c ms) name of None \<Rightarrow> None | Some data \<Rightarrow> if data = [] then None else Some data)"
    if name: "0 \<notin> set name" for name
  proof -
    define found where "found = find (\<lambda>i. fst (take ?c ms ! i) = name) [0..<length (take ?c ms)]"
    have m: "map_of (take ?c ms) name = map_option (\<lambda>i. snd (take ?c ms ! i)) found" unfolding found_def by (rule find_fst [symmetric])
    have f: "moduleFind M s (name @ [0]) = Some (case found of None \<Rightarrow> - 1 | Some i \<Rightarrow> int i)"
      unfolding moduleFind_def found_def using le s(2) module_reads [OF assms] modulesAtD(5) [OF assms] name
      by (subst moduleFind_loop_index [where Q = "\<lambda>i. fst (take ?c ms ! i) = name"]) (auto simp: min_def)
    show ?thesis
    proof (cases found)
      case None
      then show ?thesis by (simp add: m f moduleQuery_def moduleLoad_def)
    next
      case (Some i)
      then have i: "i < ?c" "i < length ms" using le by (auto simp: found_def find_Some_iff)
      note r = module_reads [OF assms i(2)] and D = modulesAtD [OF assms i(2)]
      have t: "take ?c ms ! i = ms ! i" using i(1) by simp
      show ?thesis
        using i s(2) D(5) D(4) r(3,4) Some module_size [OF assms i(2)] by (simp add: m f t moduleQuery_def moduleLoad_def del: of_nat_eq_0_iff)
    qed
  qed
  then show ?thesis using s(1) count by (intro exI [of _ s]) (simp add: Let_def)
qed

lemma modules_ex_at:
  "modules_at modules_ex boot_modules_ex [(map of_char ''lumen'', [7, 8, 9]), (map of_char ''vfs'', []), (map of_char ''lxfs'', [5, 6])]"
  unfolding modules_at_def by (simp add: in_window_def boot_modules_ex_def MAX_MODULES_def All_less_Suc numeral_3_eq_3) code_simp

theorem modules_found_witness:
  "\<exists>s. modulesInit modules_ex boot_modules_ex modules_start = Some s \<and>
    moduleLoad modules_ex s (map of_char ''lumen'' @ [0]) = Some (Some [7, 8, 9]) \<and>
    moduleQuery modules_ex s (map of_char ''lxfs'' @ [0]) = Some 0"
proof -
  have n: "0 \<notin> set (map of_char ''lumen'' :: u8 list)" "0 \<notin> set (map of_char ''lxfs'' :: u8 list)" by code_simp+
  obtain s where s: "modulesInit modules_ex boot_modules_ex modules_start = Some s" "moduleCount s = 2"
    "\<And>name. 0 \<notin> set name \<Longrightarrow>
      (let found = map_of (take 2 [(map of_char ''lumen'', [7, 8, 9]), (map of_char ''vfs'', []), (map of_char ''lxfs'', [5, 6])]) name in
        moduleQuery modules_ex s (name @ [0]) = Some (case found of None \<Rightarrow> 0 | Some data \<Rightarrow> of_nat (length data)) \<and>
        moduleLoad modules_ex s (name @ [0]) = Some (case found of None \<Rightarrow> None | Some data \<Rightarrow> if data = [] then None else Some data))"
    using modules_found [OF modules_ex_at] by auto
  show ?thesis using s(1) s(3) [OF n(1)] s(3) [OF n(2)] by (intro exI [of _ s]) simp
qed

end
