(* ===== verification/Cpu.thy ===== *)
theory Cpu
  imports Irq Firmware
begin

text \<open>
  Setting up the processors: segment descriptors and control registers in \<^verbatim>\<open>platform/x86_64/cpu/setup.c\<close>, the task state segment in \<^verbatim>\<open>tss.c\<close>,
  the local APIC timer in \<^verbatim>\<open>apic/timer.c\<close>, per-processor data, system call registers and the start of the other processors in
  \<^verbatim>\<open>apic/smp.c\<close>, all of \<open>apicInit()\<close> in \<^verbatim>\<open>apic/apic.c\<close>, and the search for the quiet option in \<^verbatim>\<open>platform/x86_64/main.c\<close>.
  The state is what the running processor sees: its registers, the tables they point to, the shared interrupt hardware and
  the page tables. What the hardware answers is a parameter: \<open>hardware\<close> has the results of CPUID, the readings of the two timers and whether other
  processors react; \<open>image\<close> has addresses chosen by the linker. The results of the kernel's allocator are a list in the order of the calls, zero for
  a failed one. \<open>None\<close> is a machine that stops in an endless loop, or a fault.
\<close>

section \<open>State\<close>

record CPUIDRegisters =
  r_eax :: u32
  r_ebx :: u32
  r_ecx :: u32
  r_edx :: u32

record hardware =
  hw_cpuid :: "u32 \<Rightarrow> CPUIDRegisters"
  hw_pit :: "u16 list"
  hw_timerBefore :: u32
  hw_timerAfter :: u32
  hw_delivers :: "u32 \<Rightarrow> u32 \<Rightarrow> bool"
  hw_starts :: "u8 \<Rightarrow> bool"
  hw_devices :: "u64 \<Rightarrow> u32 \<Rightarrow> u32"

record image =
  im_gdt :: u64
  im_idt :: u64
  im_syscallEntry :: u64
  im_timerHandlerStub :: u64
  im_apMain :: u64
  im_irqStubs :: "nat \<Rightarrow> u64"

record GDTEntry =
  g_limit :: u16
  g_baseLo :: u16
  g_baseMi :: u8
  g_access :: u8
  g_flagsLimitHi :: u8
  g_baseHi :: u8

record TSS =
  tss_rsp0 :: u64
  tss_rsp1 :: u64
  tss_rsp2 :: u64
  tss_ist :: "u64 list"
  tss_iomap :: u16
  tss_ioports :: "u8 list"
  tss_ones :: u8

record KernelCPUInfo =
  ci_kernelStack :: u64
  ci_kernelSwitchStack :: u64
  ci_cpu :: nat
  ci_uptime :: u64
  ci_tss :: u64
  ci_irqcmd :: u64
  ci_cpuIndex :: nat

record machine =
  m_cr0 :: u64
  m_cr4 :: u64
  m_msr :: "u32 \<Rightarrow> u64"
  m_gdtr :: "u16 \<times> u64"
  m_idtr :: "u16 \<times> u64"
  m_cs :: u64
  m_tr :: u16
  m_irqs :: bool
  m_gdts :: "u64 \<Rightarrow> GDTEntry list"
  m_tsses :: "u64 \<rightharpoonup> TSS"
  m_infos :: "u64 \<rightharpoonup> KernelCPUInfo"
  m_irqcmds :: "u64 \<rightharpoonup> u16 \<times> u64"
  m_bootCPUInfo :: u64
  m_heap :: "u64 list"
  m_apic :: apic
  m_vm :: vm
  m_pagingRoot :: u64
  m_low :: "(u16 \<times> u64) \<times> (u16 \<times> u64)"
  m_apEntryVars :: "nat \<Rightarrow> u32"
  m_running :: nat
  m_ports :: "(u16 \<times> u8) list"
  m_sent :: "(u32 \<times> u32) list"
  m_apicFrequency :: u64

definition allocated :: "machine \<Rightarrow> (u64 \<times> machine) option" where
  "allocated m = (case m_heap m of [] \<Rightarrow> None | p # ps \<Rightarrow> if p = 0 then None else Some (p, m\<lparr>m_heap := ps\<rparr>))"

definition writeMSR :: "u32 \<Rightarrow> u64 \<Rightarrow> machine \<Rightarrow> machine" where
  "writeMSR r v m = m\<lparr>m_msr := (m_msr m)(r := v)\<rparr>"

definition onLapic :: "u32 \<Rightarrow> u32 \<Rightarrow> machine \<Rightarrow> machine" where
  "onLapic r v m = m\<lparr>m_apic := lapicWrite r v (m_apic m)\<rparr>"

definition outb :: "u16 \<Rightarrow> u8 \<Rightarrow> machine \<Rightarrow> machine" where
  "outb port v m = m\<lparr>m_ports := m_ports m @ [(port, v)]\<rparr>"

section \<open>Segments\<close>

definition GDT_ENTRIES :: nat where "GDT_ENTRIES = 7"
definition GDT_TSS_LOW :: u64 where "GDT_TSS_LOW = 5"
definition GDT_TSS_HIGH :: u64 where "GDT_TSS_HIGH = 6"
definition GDT_ACCESS_RW :: u8 where "GDT_ACCESS_RW = 0x02"
definition GDT_ACCESS_EXEC :: u8 where "GDT_ACCESS_EXEC = 0x08"
definition GDT_ACCESS_CODE_DATA :: u8 where "GDT_ACCESS_CODE_DATA = 0x10"
definition GDT_ACCESS_PRESENT :: u8 where "GDT_ACCESS_PRESENT = 0x80"
definition GDT_ACCESS_TSS :: u8 where "GDT_ACCESS_TSS = 0x09"
definition GDT_ACCESS_DPL_SHIFT :: nat where "GDT_ACCESS_DPL_SHIFT = 5"
definition GDT_ACCESS_DPL_USER :: u8 where "GDT_ACCESS_DPL_USER = 3"
definition GDT_FLAGS_64_BIT :: u8 where "GDT_FLAGS_64_BIT = 0x20"
definition GDT_FLAGS_PAGE_GRAN :: u8 where "GDT_FLAGS_PAGE_GRAN = 0x80"
definition CR0_NOT_WRITE_THROUGH :: u64 where "CR0_NOT_WRITE_THROUGH = 0x20000000"
definition CR0_CACHE_DISABLE :: u64 where "CR0_CACHE_DISABLE = 0x40000000"
definition CR0_WRITE_PROTECT :: u64 where "CR0_WRITE_PROTECT = 0x00010000"

definition nullDescriptor :: GDTEntry where
  "nullDescriptor = \<lparr>g_limit = 0, g_baseLo = 0, g_baseMi = 0, g_access = 0, g_flagsLimitHi = 0, g_baseHi = 0\<rparr>"

definition flatDescriptor :: "u8 \<Rightarrow> u8 \<Rightarrow> GDTEntry" where
  "flatDescriptor access flags = nullDescriptor\<lparr>g_limit := 0xFFFF, g_flagsLimitHi := flags OR 0x0F, g_access := access\<rparr>"

definition bootGDT :: "GDTEntry list" where
  "bootGDT = (replicate GDT_ENTRIES nullDescriptor)
     [unat GDT_KERNEL_CODE := flatDescriptor (GDT_ACCESS_PRESENT OR GDT_ACCESS_CODE_DATA OR GDT_ACCESS_EXEC OR GDT_ACCESS_RW)
        (GDT_FLAGS_64_BIT OR GDT_FLAGS_PAGE_GRAN),
      unat GDT_KERNEL_DATA := flatDescriptor (GDT_ACCESS_PRESENT OR GDT_ACCESS_CODE_DATA OR GDT_ACCESS_RW) GDT_FLAGS_PAGE_GRAN,
      unat GDT_USER_CODE := flatDescriptor (GDT_ACCESS_PRESENT OR GDT_ACCESS_CODE_DATA OR GDT_ACCESS_EXEC OR GDT_ACCESS_RW
        OR push_bit GDT_ACCESS_DPL_SHIFT GDT_ACCESS_DPL_USER) (GDT_FLAGS_64_BIT OR GDT_FLAGS_PAGE_GRAN),
      unat GDT_USER_DATA := flatDescriptor (GDT_ACCESS_PRESENT OR GDT_ACCESS_CODE_DATA OR GDT_ACCESS_RW
        OR push_bit GDT_ACCESS_DPL_SHIFT GDT_ACCESS_DPL_USER) GDT_FLAGS_PAGE_GRAN]"

text \<open>The name of the processor, 48 characters and a zero byte, from CPUID.\<close>

definition wordBytes :: "u32 \<Rightarrow> u8 list" where
  "wordBytes w = [ucast w, ucast (drop_bit 8 w), ucast (drop_bit 16 w), ucast (drop_bit 24 w)]"

definition allRegisters :: "CPUIDRegisters \<Rightarrow> u8 list" where
  "allRegisters r = wordBytes (r_eax r) @ wordBytes (r_ebx r) @ wordBytes (r_ecx r) @ wordBytes (r_edx r)"

definition platformCPUModel :: "hardware \<Rightarrow> u8 list" where
  "platformCPUModel hw =
     (if r_eax (hw_cpuid hw 0x80000000) < 0x80000004
      then (let r = hw_cpuid hw 0 in wordBytes (r_ebx r) @ wordBytes (r_edx r) @ wordBytes (r_ecx r) @ replicate 37 0)
      else allRegisters (hw_cpuid hw 0x80000002) @ allRegisters (hw_cpuid hw 0x80000003) @ allRegisters (hw_cpuid hw 0x80000004) @ [0])"

definition platformCPUSetup :: "hardware \<Rightarrow> image \<Rightarrow> machine \<Rightarrow> u8 list \<times> machine" where
  "platformCPUSetup hw im m =
     (platformCPUModel hw,
      m\<lparr>m_gdts := (m_gdts m)(im_gdt im := bootGDT), m_gdtr := (8 * of_nat GDT_ENTRIES - 1, im_gdt im), m_cs := GDT_KERNEL_CODE,
        m_idtr := (16 * 256 - 1, im_idt im), m_apic := (m_apic m)\<lparr>ac_idt := ac_idt apic0\<rparr>,
        m_cr0 := m_cr0 m AND NOT CR0_NOT_WRITE_THROUGH AND NOT CR0_CACHE_DISABLE AND NOT CR0_WRITE_PROTECT, m_irqs := True\<rparr>)"

section \<open>The task state segment\<close>

definition MSR_EFER :: u32 where "MSR_EFER = 0xC0000080"
definition MSR_STAR :: u32 where "MSR_STAR = 0xC0000081"
definition MSR_LSTAR :: u32 where "MSR_LSTAR = 0xC0000082"
definition MSR_CSTAR :: u32 where "MSR_CSTAR = 0xC0000083"
definition MSR_SFMASK :: u32 where "MSR_SFMASK = 0xC0000084"
definition MSR_FS_BASE :: u32 where "MSR_FS_BASE = 0xC0000100"
definition MSR_GS_BASE :: u32 where "MSR_GS_BASE = 0xC0000101"
definition MSR_GS_BASE_KERNEL :: u32 where "MSR_GS_BASE_KERNEL = 0xC0000102"
definition MSR_EFER_SYSCALL :: u64 where "MSR_EFER_SYSCALL = 0x00000001"
definition MSR_EFER_FFXSR :: u64 where "MSR_EFER_FFXSR = 0x00004000"

lemmas msr_defs = MSR_EFER_def MSR_STAR_def MSR_LSTAR_def MSR_CSTAR_def MSR_SFMASK_def MSR_FS_BASE_def MSR_GS_BASE_def MSR_GS_BASE_KERNEL_def

definition KENREL_STACK_SIZE :: u64 where "KENREL_STACK_SIZE = 32768"
definition sizeof_TSS :: u64 where "sizeof_TSS = 8297"

definition newTSS :: "u64 \<Rightarrow> TSS" where
  "newTSS stack =
     \<lparr>tss_rsp0 = stack + KENREL_STACK_SIZE, tss_rsp1 = stack + KENREL_STACK_SIZE, tss_rsp2 = stack + KENREL_STACK_SIZE,
      tss_ist = replicate 7 (stack + KENREL_STACK_SIZE - 16), tss_iomap = 0x68, tss_ioports = replicate 8192 0xFF, tss_ones = 0xFF\<rparr>"

text \<open>The two entries that hold the address of the segment; the second one is written as a 64-bit number.\<close>

definition tssLow :: "u64 \<Rightarrow> GDTEntry \<Rightarrow> GDTEntry" where
  "tssLow tss g = g\<lparr>g_baseLo := ucast tss, g_baseMi := ucast (drop_bit 16 tss), g_baseHi := ucast (drop_bit 24 tss),
     g_limit := ucast (sizeof_TSS - 1), g_access := GDT_ACCESS_TSS OR GDT_ACCESS_PRESENT\<rparr>"

definition tssHigh :: "u64 \<Rightarrow> GDTEntry" where
  "tssHigh tss = (let h = drop_bit 32 tss in
     \<lparr>g_limit = ucast h, g_baseLo = ucast (drop_bit 16 h), g_baseMi = ucast (drop_bit 32 h), g_access = ucast (drop_bit 40 h),
      g_flagsLimitHi = ucast (drop_bit 48 h), g_baseHi = ucast (drop_bit 56 h)\<rparr>)"

definition getKernelCPUInfo :: "machine \<Rightarrow> KernelCPUInfo option" where
  "getKernelCPUInfo m = m_infos m (m_msr m MSR_GS_BASE_KERNEL)"

definition tssSetup :: "machine \<Rightarrow> machine option" where
  "tssSetup m =
     do { (gdt, m1) \<leftarrow> allocated m;
          (tss, m2) \<leftarrow> allocated m1;
          (stack, m3) \<leftarrow> allocated m2;
          let old = m_gdts m (snd (m_gdtr m));
          let new = old[unat GDT_TSS_LOW := tssLow tss (old ! unat GDT_TSS_LOW), unat GDT_TSS_HIGH := tssHigh tss];
          let m4 = m3\<lparr>m_gdts := (m_gdts m3)(gdt := new), m_gdtr := (fst (m_gdtr m), gdt), m_tsses := (m_tsses m3)(tss \<mapsto> newTSS stack),
            m_cs := GDT_KERNEL_CODE, m_tr := ucast (push_bit 3 GDT_TSS_LOW)\<rparr>;
          info \<leftarrow> getKernelCPUInfo m4;
          (stack1, m5) \<leftarrow> allocated m4;
          (stack2, m6) \<leftarrow> allocated m5;
          Some (m6\<lparr>m_infos := (m_infos m6)(m_msr m6 MSR_GS_BASE_KERNEL \<mapsto> info\<lparr>ci_kernelStack := stack1 + KENREL_STACK_SIZE - 16, ci_tss := tss,
            ci_kernelSwitchStack := stack2 + KENREL_STACK_SIZE div 2 - 16\<rparr>)\<rparr>) }"

section \<open>Per-processor data and system call registers\<close>

definition CR4_FSGSBASE :: u64 where "CR4_FSGSBASE = 0x00010000"
definition syscallSegments :: u64 where
  "syscallSegments =
     (let kernelSegmentBase = (ucast (push_bit 3 GDT_KERNEL_CODE) :: u16); userSegmentBase = (ucast (push_bit 3 GDT_USER_DATA - 8) :: u16)
      in push_bit 48 (ucast userSegmentBase) OR push_bit 32 (ucast kernelSegmentBase))"

definition syscallRegisters :: "hardware \<Rightarrow> image \<Rightarrow> machine \<Rightarrow> machine" where
  "syscallRegisters hw im m =
     (let m1 = m\<lparr>m_cr4 := m_cr4 m OR CR4_FSGSBASE\<rparr>;
          m2 = (if bit (r_edx (hw_cpuid hw 0x80000001)) 25 then writeMSR MSR_EFER (m_msr m1 MSR_EFER OR MSR_EFER_FFXSR) m1 else m1);
          m3 = writeMSR MSR_STAR syscallSegments m2;
          m4 = writeMSR MSR_LSTAR (im_syscallEntry im) m3;
          m5 = writeMSR MSR_CSTAR 0 m4;
          m6 = writeMSR MSR_SFMASK (NOT 2) m5
      in writeMSR MSR_EFER (m_msr m6 MSR_EFER OR MSR_EFER_SYSCALL) m6)"

definition cpuIndexOf :: "u8 \<Rightarrow> apic \<Rightarrow> nat option" where
  "cpuIndexOf apicID a = find (\<lambda>i. cpu_apicID (ac_cpus a ! i) = apicID) [0..<length (ac_cpus a)]"

definition smpCPUInfoSetup :: "hardware \<Rightarrow> image \<Rightarrow> machine \<Rightarrow> machine option" where
  "smpCPUInfoSetup hw im m =
     do { let apicID = (ucast (drop_bit 24 (r_ebx (hw_cpuid hw 1))) :: u8);
          let m1 = syscallRegisters hw im m;
          i \<leftarrow> cpuIndexOf apicID (m_apic m1);
          (info, m2) \<leftarrow> allocated m1;
          (irqcmd, m3) \<leftarrow> allocated m2;
          let cpu = ac_cpus (m_apic m3) ! i;
          let m4 = m3\<lparr>m_irqcmds := (m_irqcmds m3)(irqcmd \<mapsto> (COMMAND_IRQ, sizeof_IRQCommand)),
            m_infos := (m_infos m3)(info \<mapsto> \<lparr>ci_kernelStack = 0, ci_kernelSwitchStack = 0, ci_cpu = i, ci_uptime = 0, ci_tss = 0, ci_irqcmd = irqcmd, ci_cpuIndex = i\<rparr>)\<rparr>;
          let m5 = writeMSR MSR_GS_BASE_KERNEL info (writeMSR MSR_GS_BASE 0 (writeMSR MSR_FS_BASE 0 m4));
          let m6 = (if cpu_bootCPU cpu then m5\<lparr>m_bootCPUInfo := info\<rparr> else m5);
          m7 \<leftarrow> tssSetup m6;
          Some (m7\<lparr>m_apic := snd (lnmiConfigure (cpu_procID cpu) (m_apic m7))\<rparr>) }"

definition platformWhichCPU :: "machine \<Rightarrow> nat option" where
  "platformWhichCPU m = map_option ci_cpuIndex (getKernelCPUInfo m)"

definition platformGetIRQCommand :: "machine \<Rightarrow> (u16 \<times> u64) option" where
  "platformGetIRQCommand m = do { info \<leftarrow> getKernelCPUInfo m; m_irqcmds m (ci_irqcmd info) }"

section \<open>The local APIC timer\<close>

definition LAPIC_TPR :: u32 where "LAPIC_TPR = 0x080"
definition LAPIC_DEST_FORMAT :: u32 where "LAPIC_DEST_FORMAT = 0x0E0"
definition LAPIC_SPURIOUS_VECTOR :: u32 where "LAPIC_SPURIOUS_VECTOR = 0x0F0"
definition LAPIC_LVT_TIMER :: u32 where "LAPIC_LVT_TIMER = 0x320"
definition LAPIC_TIMER_INITIAL :: u32 where "LAPIC_TIMER_INITIAL = 0x380"
definition LAPIC_TIMER_DIVIDE :: u32 where "LAPIC_TIMER_DIVIDE = 0x3E0"
definition LAPIC_LVT_MASK :: u32 where "LAPIC_LVT_MASK = 0x10000"
definition LAPIC_TIMER_ONE_SHOT :: u32 where "LAPIC_TIMER_ONE_SHOT = 0"
definition LAPIC_TIMER_PERIODIC :: u32 where "LAPIC_TIMER_PERIODIC = 0x20000"
definition LAPIC_TIMER_IRQ :: nat where "LAPIC_TIMER_IRQ = 0xFE"
definition LAPIC_TIMER_DIVIDER_1 :: u32 where "LAPIC_TIMER_DIVIDER_1 = 0x0B"
definition MSR_LAPIC :: u32 where "MSR_LAPIC = 0x1B"
definition MSR_LAPIC_ENABLED :: u64 where "MSR_LAPIC_ENABLED = 0x800"

lemmas lapic_defs = LAPIC_TPR_def LAPIC_DEST_FORMAT_def LAPIC_SPURIOUS_VECTOR_def LAPIC_LVT_TIMER_def LAPIC_TIMER_INITIAL_def
  LAPIC_TIMER_DIVIDE_def

definition enableLapic :: "machine \<Rightarrow> machine" where
  "enableLapic m =
     (let v = m_msr m MSR_LAPIC;
          m1 = (if v AND MSR_LAPIC_ENABLED = 0 then writeMSR MSR_LAPIC (v OR MSR_LAPIC_ENABLED) m else m);
          m2 = onLapic LAPIC_TPR 0 m1;
          m3 = onLapic LAPIC_DEST_FORMAT (lapicRead LAPIC_DEST_FORMAT (m_apic m2) OR 0xF0000000) m2
      in onLapic LAPIC_SPURIOUS_VECTOR 0x1FF m3)"

definition pitFrequency :: u16 where "pitFrequency = 11931"

text \<open>The loop that waits for the PIT: it polls while the counter has neither grown nor reached zero. The result is the number of polls.\<close>

fun pitWait :: "u16 list \<Rightarrow> u16 \<Rightarrow> u16 \<Rightarrow> nat option" where
  "pitWait [] current old = (if current \<le> old \<and> current \<noteq> 0 then None else Some 0)"
| "pitWait (r # rs) current old = (if current \<le> old \<and> current \<noteq> 0 then map_option Suc (pitWait rs r current) else Some 0)"

fun latch :: "nat \<Rightarrow> machine \<Rightarrow> machine" where
  "latch 0 m = m"
| "latch (Suc n) m = latch n (outb 0x43 0x00 m)"

definition apicTimerInit :: "hardware \<Rightarrow> image \<Rightarrow> machine \<Rightarrow> (int \<times> machine) option" where
  "apicTimerInit hw im m =
     do { let m1 = onLapic LAPIC_TIMER_INITIAL 0 (enableLapic m);
          let m2 = onLapic LAPIC_LVT_TIMER (LAPIC_TIMER_ONE_SHOT OR LAPIC_LVT_MASK) m1;
          let m3 = onLapic LAPIC_TIMER_INITIAL 0xFFFFFFFF (onLapic LAPIC_TIMER_DIVIDE LAPIC_TIMER_DIVIDER_1 m2);
          let m4 = outb 0x40 (ucast (drop_bit 8 pitFrequency)) (outb 0x40 (ucast (pitFrequency AND 0xFF)) (outb 0x43 0x30 m3));
          polls \<leftarrow> pitWait (hw_pit hw) pitFrequency pitFrequency;
          let m5 = onLapic LAPIC_TIMER_INITIAL 0 (latch polls m4);
          let apicTicks = (ucast (hw_timerBefore hw) - ucast (hw_timerAfter hw) :: u64);
          let m6 = m5\<lparr>m_apicFrequency := apicTicks * 100\<rparr>;
          if m_apicFrequency m6 < PLATFORM_TIMER_FREQUENCY * 2 then None
          else do {
            let m7 = onLapic LAPIC_LVT_TIMER (LAPIC_TIMER_PERIODIC OR LAPIC_LVT_MASK OR of_nat LAPIC_TIMER_IRQ) m6;
            let m8 = onLapic LAPIC_TIMER_DIVIDE LAPIC_TIMER_DIVIDER_1 m7;
            let m9 = m8\<lparr>m_apic := installInterrupt (im_timerHandlerStub im) (ucast GDT_KERNEL_CODE) PRIVILEGE_KERNEL INTERRUPT_TYPE_INT
                          LAPIC_TIMER_IRQ (m_apic m8)\<rparr>;
            let m10 = onLapic LAPIC_LVT_TIMER (lapicRead LAPIC_LVT_TIMER (m_apic m9) AND NOT LAPIC_LVT_MASK) m9;
            Some (0, onLapic LAPIC_TIMER_INITIAL (ucast (m_apicFrequency m10 div PLATFORM_TIMER_FREQUENCY)) m10) } }"

definition apicTimerFrequency :: "machine \<Rightarrow> u64" where
  "apicTimerFrequency m = m_apicFrequency m"

section \<open>The other processors\<close>

definition apMain :: "hardware \<Rightarrow> image \<Rightarrow> machine \<Rightarrow> machine option" where
  "apMain hw im m =
     do { let m1 = m\<lparr>m_gdtr := (8 * of_nat GDT_ENTRIES - 1, im_gdt im), m_idtr := (16 * 256 - 1, im_idt im), m_cs := GDT_KERNEL_CODE,
            m_vm := (m_vm m)\<lparr>vm_cr3 := m_pagingRoot m\<rparr>,
            m_cr0 := m_cr0 m AND NOT CR0_NOT_WRITE_THROUGH AND NOT CR0_CACHE_DISABLE AND NOT CR0_WRITE_PROTECT\<rparr>;
          m2 \<leftarrow> smpCPUInfoSetup hw im m1;
          (_, m3) \<leftarrow> apicTimerInit hw im (enableLapic m2);
          Some (m3\<lparr>m_irqs := True\<rparr>) }"

definition LAPIC_INT_COMMAND_LOW :: u32 where "LAPIC_INT_COMMAND_LOW = 0x300"
definition LAPIC_INT_COMMAND_HIGH :: u32 where "LAPIC_INT_COMMAND_HIGH = 0x310"
definition LAPIC_INT_CMD_INIT :: u32 where "LAPIC_INT_CMD_INIT = 0x500"
definition LAPIC_INT_CMD_STARTUP :: u32 where "LAPIC_INT_CMD_STARTUP = 0x600"
definition LAPIC_INT_CMD_LEVEL_DEASSERT :: u32 where "LAPIC_INT_CMD_LEVEL_DEASSERT = 0"
definition LAPIC_INT_CMD_LEVEL_ASSERT :: u32 where "LAPIC_INT_CMD_LEVEL_ASSERT = 0x4000"
definition LAPIC_INT_CMD_LEVEL :: u32 where "LAPIC_INT_CMD_LEVEL = 0x8000"
definition AP_ENTRY_GDTR :: nat where "AP_ENTRY_GDTR = 1"
definition AP_ENTRY_IDTR :: nat where "AP_ENTRY_IDTR = 2"
definition AP_ENTRY_CR3 :: nat where "AP_ENTRY_CR3 = 3"
definition AP_ENTRY_STACK_LOW :: nat where "AP_ENTRY_STACK_LOW = 4"
definition AP_ENTRY_STACK_HIGH :: nat where "AP_ENTRY_STACK_HIGH = 5"
definition AP_ENTRY_NEXT_LOW :: nat where "AP_ENTRY_NEXT_LOW = 6"
definition AP_ENTRY_NEXT_HIGH :: nat where "AP_ENTRY_NEXT_HIGH = 7"
definition AP_STACK_SIZE :: u64 where "AP_STACK_SIZE = 32768"

text \<open>An interprocessor interrupt: both halves of the command register are written, then its delivery is awaited.\<close>

definition sendIPI :: "hardware \<Rightarrow> u8 \<Rightarrow> u32 \<Rightarrow> machine \<Rightarrow> machine option" where
  "sendIPI hw apicID low m =
     (let high = push_bit 24 (ucast apicID);
          m1 = onLapic LAPIC_INT_COMMAND_LOW low (onLapic LAPIC_INT_COMMAND_HIGH high m)
      in if hw_delivers hw high low then Some (m1\<lparr>m_sent := m_sent m1 @ [(high, low)]\<rparr>) else None)"

definition bootAP :: "hardware \<Rightarrow> nat \<Rightarrow> machine \<Rightarrow> machine option" where
  "bootAP hw i m =
     (case platformGetCPU i (m_apic m) of None \<Rightarrow> Some m
      | Some cpu \<Rightarrow>
          if cpu_bootCPU cpu \<or> cpu_running cpu then Some m
          else do {
            (stack, m1) \<leftarrow> allocated m;
            let stackPtr = stack + AP_STACK_SIZE;
            let m2 = m1\<lparr>m_apEntryVars := (m_apEntryVars m1)(AP_ENTRY_STACK_LOW := ucast stackPtr, AP_ENTRY_STACK_HIGH := ucast (drop_bit 32 stackPtr))\<rparr>;
            m3 \<leftarrow> sendIPI hw (cpu_apicID cpu) (LAPIC_INT_CMD_INIT OR LAPIC_INT_CMD_LEVEL OR LAPIC_INT_CMD_LEVEL_ASSERT) m2;
            m4 \<leftarrow> sendIPI hw (cpu_apicID cpu) (LAPIC_INT_CMD_INIT OR LAPIC_INT_CMD_LEVEL_DEASSERT) m3;
            m5 \<leftarrow> sendIPI hw (cpu_apicID cpu) (LAPIC_INT_CMD_STARTUP OR LAPIC_INT_CMD_LEVEL OR 0x01) m4;
            if hw_starts hw (cpu_apicID cpu)
            then Some (m5\<lparr>m_apic := (m_apic m5)\<lparr>ac_cpus := (ac_cpus (m_apic m5))[i := cpu\<lparr>cpu_running := True\<rparr>]\<rparr>, m_running := Suc (m_running m5)\<rparr>)
            else None })"

fun bootAPs :: "hardware \<Rightarrow> nat list \<Rightarrow> machine \<Rightarrow> machine option" where
  "bootAPs hw [] m = Some m"
| "bootAPs hw (i # is) m = do { m' \<leftarrow> bootAP hw i m; bootAPs hw is m' }"

fun identityMap :: "nat list \<Rightarrow> vm \<Rightarrow> vm option" where
  "identityMap [] v = Some v"
| "identityMap (i # is) v =
     do { (_, v') \<leftarrow> platformMapPage v (of_nat i * PAGE_SIZE) (of_nat i * PAGE_SIZE)
            (PLATFORM_PAGE_PRESENT OR PLATFORM_PAGE_EXEC OR PLATFORM_PAGE_WRITE OR PLATFORM_PAGE_NO_CACHE);
          identityMap is v' }"

definition smpBoot :: "hardware \<Rightarrow> image \<Rightarrow> machine \<Rightarrow> (nat \<times> machine) option" where
  "smpBoot hw im m =
     (if platformCountCPU (m_apic m) < 2 then Some (1, m)
      else do {
        let m1 = m\<lparr>m_low := ((8 * of_nat GDT_ENTRIES - 1, im_gdt im - KERNEL_BASE_ADDRESS), (16 * 256 - 1, im_idt im - KERNEL_BASE_ADDRESS))\<rparr>;
        (tempCR3, pm) \<leftarrow> pmmAllocate (vm_pmm (m_vm m1));
        if tempCR3 = 0 then None
        else do {
          v1 \<leftarrow> copyPage ((m_vm m1)\<lparr>vm_pmm := pm\<rparr>) (vmmMMIO tempCR3 True) (vmmMMIO (pageBase (vm_cr3 (m_vm m1))) True);
          v2 \<leftarrow> identityMap [0..<2048] (v1\<lparr>vm_cr3 := tempCR3\<rparr>);
          let m2 = m1\<lparr>m_vm := v2, m_apEntryVars := (m_apEntryVars m1)
            (AP_ENTRY_GDTR := ucast (vmmMMIO 0x2000 True - KERNEL_BASE_ADDRESS), AP_ENTRY_IDTR := ucast (vmmMMIO 0x2010 True - KERNEL_BASE_ADDRESS),
             AP_ENTRY_CR3 := ucast tempCR3, AP_ENTRY_NEXT_LOW := ucast (im_apMain im), AP_ENTRY_NEXT_HIGH := ucast (drop_bit 32 (im_apMain im)))\<rparr>;
          m3 \<leftarrow> bootAPs hw [0..<platformCountCPU (m_apic m2)] m2;
          Some (m_running m3, m3\<lparr>m_cr0 := m_cr0 m3 AND NOT (CR0_CACHE_DISABLE OR CR0_NOT_WRITE_THROUGH),
                                  m_vm := (m_vm m3)\<lparr>vm_cr3 := m_pagingRoot m3\<rparr>\<rparr>) } })"

section \<open>Discovery and start of the interrupt hardware\<close>

definition MADT_LEGACY_PIC_PRESENT :: u64 where "MADT_LEGACY_PIC_PRESENT = 1"

definition apicInit :: "hardware \<Rightarrow> image \<Rightarrow> bytes \<Rightarrow> acpi \<Rightarrow> machine \<Rightarrow> (int \<times> machine) option" where
  "apicInit hw im M s m =
     (if \<not> bit (r_ebx (hw_cpuid hw 7)) 0 \<or> \<not> bit (r_edx (hw_cpuid hw 0x80000001)) 11 then None
      else do {
        madt \<leftarrow> acpiFindTable M s (map of_char ''APIC'') 0;
        if madt = 0 then None
        else do {
          base \<leftarrow> peekWord 4 M (madt + 36);
          legacy \<leftarrow> peekWord 4 M (madt + 40);
          let m1 = m\<lparr>m_apic := (m_apic m)\<lparr>ac_localAPICBase := base\<rparr>\<rparr>;
          let m2 = (if legacy AND MADT_LEGACY_PIC_PRESENT \<noteq> 0 then outb 0xA1 0xFF (outb 0x21 0xFF m1) else m1);
          let bspID = (ucast (drop_bit 24 (r_ebx (hw_cpuid hw 1))) :: u8);
          len \<leftarrow> peekWord 4 M (madt + 4);
          tbl \<leftarrow> peekBytes M madt (unat len);
          a \<leftarrow> madtScan (hw_devices hw) bspID tbl 44 (m_apic m2);
          m3 \<leftarrow> smpCPUInfoSetup hw im (m2\<lparr>m_apic := a\<rparr>);
          (_, m4) \<leftarrow> apicTimerInit hw im m3;
          (_, m5) \<leftarrow> smpBoot hw im m4;
          (_, a') \<leftarrow> ioapicInit (im_irqStubs im) (m_apic m5);
          Some (0, m5\<lparr>m_apic := a'\<rparr>) } })"

section \<open>The quiet option\<close>

definition quietWord :: "u8 list" where "quietWord = map of_char '' quiet''"

fun quiet_loop :: "u8 list \<Rightarrow> nat list \<Rightarrow> bool option" where
  "quiet_loop args [] = Some False"
| "quiet_loop args (i # is) =
     do { c \<leftarrow> memcmp (drop i args) quietWord 6; if c = 0 then Some True else quiet_loop args is }"

text \<open>Whether the arguments, with their terminating zero, silence the log.\<close>

definition quietRequested :: "u8 list \<Rightarrow> bool option" where
  "quietRequested args =
     do { len \<leftarrow> strlen args; if len \<ge> 9 then quiet_loop args [0..<Suc (len - 6)] else Some False }"

section \<open>Specification vocabulary\<close>

text \<open>How the processor reads a descriptor: its kind, its privilege level, and the base address of a task state segment from two entries.\<close>

definition code64 :: "u8 \<Rightarrow> GDTEntry \<Rightarrow> bool" where
  "code64 ring g \<longleftrightarrow> bit (g_access g) 7 \<and> bit (g_access g) 4 \<and> bit (g_access g) 3 \<and> bit (g_flagsLimitHi g) 5 \<and> drop_bit 5 (g_access g) AND 3 = ring"

definition data_segment :: "u8 \<Rightarrow> GDTEntry \<Rightarrow> bool" where
  "data_segment ring g \<longleftrightarrow> bit (g_access g) 7 \<and> bit (g_access g) 4 \<and> \<not> bit (g_access g) 3 \<and> bit (g_access g) 1 \<and> drop_bit 5 (g_access g) AND 3 = ring"

definition tss_base :: "GDTEntry \<Rightarrow> GDTEntry \<Rightarrow> u64" where
  "tss_base low high = ucast (g_baseLo low) OR push_bit 16 (ucast (g_baseMi low)) OR push_bit 24 (ucast (g_baseHi low))
     OR push_bit 32 (ucast (g_limit high)) OR push_bit 48 (ucast (g_baseLo high))"

definition selected :: "machine \<Rightarrow> u16 \<Rightarrow> GDTEntry" where
  "selected m sel = m_gdts m (snd (m_gdtr m)) ! unat (drop_bit 3 sel)"

text \<open>The selectors that SYSCALL and SYSRET load, from the STAR register.\<close>

definition syscall_cs :: "machine \<Rightarrow> u16" where "syscall_cs m = ucast (drop_bit 32 (m_msr m MSR_STAR)) AND 0xFFFC"
definition syscall_ss :: "machine \<Rightarrow> u16" where "syscall_ss m = syscall_cs m + 8"
definition sysret_cs :: "machine \<Rightarrow> u16" where "sysret_cs m = (ucast (drop_bit 48 (m_msr m MSR_STAR)) + 16) OR 3"
definition sysret_ss :: "machine \<Rightarrow> u16" where "sysret_ss m = (ucast (drop_bit 48 (m_msr m MSR_STAR)) + 8) OR 3"

text \<open>The readings of the PIT say that the interval is over: one of them is zero or greater than the one before.\<close>

fun expires :: "u16 \<Rightarrow> u16 list \<Rightarrow> bool" where
  "expires before [] = False"
| "expires before (r # rs) = (r = 0 \<or> r > before \<or> expires r rs)"

text \<open>The messages that start a processor, and the processors that have to be started.\<close>

definition startup :: "u8 \<Rightarrow> (u32 \<times> u32) list" where
  "startup apicID = [(push_bit 24 (ucast apicID), 0xC500), (push_bit 24 (ucast apicID), 0x500), (push_bit 24 (ucast apicID), 0x8601)]"

definition waiting_cpus :: "PlatformCPU list \<Rightarrow> PlatformCPU list" where
  "waiting_cpus cs = filter (\<lambda>c. \<not> cpu_bootCPU c \<and> \<not> cpu_running c) cs"

definition responsive :: "hardware \<Rightarrow> bool" where
  "responsive hw \<longleftrightarrow> (\<forall>a low. hw_delivers hw a low) \<and> (\<forall>a. hw_starts hw a)"

text \<open>The processors after the loop.\<close>

definition started :: "PlatformCPU \<Rightarrow> PlatformCPU" where
  "started c = (if cpu_bootCPU c then c else c\<lparr>cpu_running := True\<rparr>)"

definition hardware_ex :: hardware where
  "hardware_ex = \<lparr>hw_cpuid = \<lambda>_. \<lparr>r_eax = 0, r_ebx = 1, r_ecx = 0, r_edx = 0xFFFFFFFF\<rparr>, hw_pit = [9000, 4000, 100, 0], hw_timerBefore = 0xFFFFFFF0,
     hw_timerAfter = 0xFFF0BDB0, hw_delivers = \<lambda>_ _. True, hw_starts = \<lambda>_. True, hw_devices = \<lambda>_ _. 0\<rparr>"

definition image_ex :: image where
  "image_ex = \<lparr>im_gdt = 0xFFFF800000110000, im_idt = 0xFFFF800000111000, im_syscallEntry = 0xFFFF800000102000, im_timerHandlerStub = 0xFFFF800000103000,
     im_apMain = 0xFFFF800000104000, im_irqStubs = \<lambda>_. 0\<rparr>"

definition machine_ex :: machine where
  "machine_ex = \<lparr>m_cr0 = 0x80000011, m_cr4 = 0x20, m_msr = \<lambda>_. 0, m_gdtr = (55, im_gdt image_ex), m_idtr = (4095, im_idt image_ex), m_cs = 1, m_tr = 0,
     m_irqs = True, m_gdts = \<lambda>_. bootGDT, m_tsses = Map.empty, m_infos = Map.empty, m_irqcmds = Map.empty, m_bootCPUInfo = 0,
     m_heap = [0x1010, 0x2010, 0x3010, 0xFFFF8F0000004010, 0x8010, 0x12010, 0x1C010],
     m_apic = apic0\<lparr>ac_cpus := [\<lparr>cpu_procID = 0, cpu_apicID = 0, cpu_bootCPU = True, cpu_running = True\<rparr>,
       \<lparr>cpu_procID = 1, cpu_apicID = 2, cpu_bootCPU = False, cpu_running = False\<rparr>]\<rparr>,
     m_vm = vm_ex, m_pagingRoot = 0x1000, m_low = ((0, 0), (0, 0)), m_apEntryVars = \<lambda>_. 0, m_running = 1, m_ports = [], m_sent = [], m_apicFrequency = 0\<rparr>"

lemma tss_base_roundtrip: "tss_base (tssLow tss g) (tssHigh tss) = tss"
proof (rule bit_word_eqI)
  fix n :: nat
  assume "n < LENGTH(64)"
  then consider "n < 16" | "16 \<le> n" "n < 24" | "24 \<le> n" "n < 32" | "32 \<le> n" "n < 48" | "48 \<le> n" "n < 64" by fastforce
  then show "bit (tss_base (tssLow tss g) (tssHigh tss)) n \<longleftrightarrow> bit tss n"
    by cases (auto simp: tss_base_def tssLow_def tssHigh_def Let_def bit_simps)
qed

lemma allocated_Cons [simp]: "m_heap m = p # ps \<Longrightarrow> p \<noteq> 0 \<Longrightarrow> allocated m = Some (p, m\<lparr>m_heap := ps\<rparr>)"
  by (simp add: allocated_def)

lemma tssSetup_spec:
  assumes "m_heap m = gdt # tss # stack # stack1 # stack2 # rest" "0 \<notin> {gdt, tss, stack, stack1, stack2}"
    "getKernelCPUInfo m = Some info"
  defines "old \<equiv> m_gdts m (snd (m_gdtr m))"
  shows "tssSetup m = Some (m\<lparr>m_gdts := (m_gdts m)(gdt := old[5 := tssLow tss (old ! 5), 6 := tssHigh tss]),
    m_gdtr := (fst (m_gdtr m), gdt), m_tsses := (m_tsses m)(tss \<mapsto> newTSS stack), m_cs := GDT_KERNEL_CODE, m_tr := 40, m_heap := rest,
    m_infos := (m_infos m)(m_msr m MSR_GS_BASE_KERNEL \<mapsto> info\<lparr>ci_kernelStack := stack1 + KENREL_STACK_SIZE - 16, ci_tss := tss, ci_kernelSwitchStack := stack2 + KENREL_STACK_SIZE div 2 - 16\<rparr>)\<rparr>)"
  using assms(1-3)
  by (simp add: tssSetup_def getKernelCPUInfo_def old_def GDT_TSS_LOW_def GDT_TSS_HIGH_def Let_def)

lemma lnmi_loop_cpus: "ac_cpus (snd (lnmi_loop i ls n a)) = ac_cpus a"
  by (induction i ls n a rule: lnmi_loop.induct) (simp_all add: lapicWrite_def)

lemma bootGDT_list:
  "bootGDT = [nullDescriptor, flatDescriptor 0x9A 0xA0, flatDescriptor 0x92 0x80, flatDescriptor 0xF2 0x80, flatDescriptor 0xFA 0xA0,
     nullDescriptor, nullDescriptor]"
  unfolding bootGDT_def by code_simp

lemma flat_segments:
  "code64 0 (flatDescriptor 0x9A 0xA0)" "data_segment 0 (flatDescriptor 0x92 0x80)"
  "data_segment 3 (flatDescriptor 0xF2 0x80)" "code64 3 (flatDescriptor 0xFA 0xA0)"
  by code_simp+

lemma star_selectors:
  assumes "m_msr m MSR_STAR = syscallSegments"
  shows "syscall_cs m = 8" "syscall_ss m = 16" "sysret_cs m = 0x23" "sysret_ss m = 0x1B"
proof -
  have "ucast (drop_bit 32 syscallSegments) AND (0xFFFC :: u16) = 8" "(ucast (drop_bit 48 syscallSegments) + 16) OR (3 :: u16) = 0x23"
    "(ucast (drop_bit 48 syscallSegments) + 8) OR (3 :: u16) = 0x1B" by code_simp+
  then show "syscall_cs m = 8" "syscall_ss m = 16" "sysret_cs m = 0x23" "sysret_ss m = 0x1B"
    by (simp_all add: syscall_cs_def syscall_ss_def sysret_cs_def sysret_ss_def assms)
qed

lemma syscallRegisters_sets:
  fixes hw im m
  defines "m' \<equiv> syscallRegisters hw im m"
  shows "m_msr m' MSR_STAR = syscallSegments" "m_msr m' MSR_LSTAR = im_syscallEntry im" "m_msr m' MSR_SFMASK = NOT 2"
    "bit (m_msr m' MSR_EFER) 0" "m_heap m' = m_heap m" "m_apic m' = m_apic m" "m_gdts m' = m_gdts m" "m_gdtr m' = m_gdtr m"
    "m_infos m' = m_infos m" "m_irqcmds m' = m_irqcmds m" "m_tsses m' = m_tsses m"
  unfolding m'_def syscallRegisters_def Let_def
  by (simp_all add: writeMSR_def MSR_EFER_SYSCALL_def bit_simps msr_defs)

text \<open>
  C30: on a processor that runs with the boot segments and is registered under its APIC number, \<open>smpCPUInfoSetup()\<close> leaves a state in which the kernel can be
  entered. The selectors that SYSCALL loads name 64-bit code and data of ring 0, those that SYSRET loads name code and data of ring 3 and are the ones that
  user threads start with; the entry point is \<open>syscallEntry\<close>, the instructions are enabled, and interrupts are masked on entry. The descriptor in the task
  register holds, scattered over its fields, the address of the new task state segment, with the new stack in it; and the processor finds its own
  index and its interrupt message.
\<close>

theorem smpCPUInfoSetup_ready:
  fixes m :: machine and hw :: hardware
  defines "apicID \<equiv> ucast (drop_bit 24 (r_ebx (hw_cpuid hw 1))) :: u8"
  assumes "m_gdts m (snd (m_gdtr m)) = bootGDT" "i < length (ac_cpus (m_apic m))" "cpu_apicID (ac_cpus (m_apic m) ! i) = apicID"
    "\<forall>j < i. cpu_apicID (ac_cpus (m_apic m) ! j) \<noteq> apicID"
    "m_heap m = [info, irqcmd, gdt, tss, stack, stack1, stack2] @ rest" "0 \<notin> {info, irqcmd, gdt, tss, stack, stack1, stack2}"
  shows "\<exists>m'. smpCPUInfoSetup hw im m = Some m' \<and>
    code64 0 (selected m' (syscall_cs m')) \<and> data_segment 0 (selected m' (syscall_ss m')) \<and>
    code64 3 (selected m' (sysret_cs m')) \<and> data_segment 3 (selected m' (sysret_ss m')) \<and>
    ucast (sysret_cs m') = push_bit 3 GDT_USER_CODE OR 3 \<and> ucast (sysret_ss m') = push_bit 3 GDT_USER_DATA OR 3 \<and>
    m_msr m' MSR_LSTAR = im_syscallEntry im \<and> bit (m_msr m' MSR_EFER) 0 \<and> bit (m_msr m' MSR_SFMASK) 9 \<and>
    tss_base (selected m' (m_tr m')) (selected m' (m_tr m' + 8)) = tss \<and> m_tsses m' tss = Some (newTSS stack) \<and>
    platformWhichCPU m' = Some i \<and> platformGetIRQCommand m' = Some (COMMAND_IRQ, sizeof_IRQCommand)"
proof -
  define r where "r = syscallRegisters hw im m"
  note R = syscallRegisters_sets [of hw im m, folded r_def]
  have idx: "cpuIndexOf apicID (m_apic r) = Some i"
    using assms(3-5) unfolding cpuIndexOf_def R by (intro find_Some_iff [THEN iffD2]) (auto intro!: exI [of _ i])
  define cpu where "cpu = ac_cpus (m_apic m) ! i"
  define r4 where "r4 = r\<lparr>m_heap := [gdt, tss, stack, stack1, stack2] @ rest, m_irqcmds := (m_irqcmds r)(irqcmd \<mapsto> (COMMAND_IRQ, sizeof_IRQCommand)),
     m_infos := (m_infos r)(info \<mapsto> \<lparr>ci_kernelStack = 0, ci_kernelSwitchStack = 0, ci_cpu = i, ci_uptime = 0, ci_tss = 0, ci_irqcmd = irqcmd, ci_cpuIndex = i\<rparr>)\<rparr>"
  define r5 where "r5 = writeMSR MSR_GS_BASE_KERNEL info (writeMSR MSR_GS_BASE 0 (writeMSR MSR_FS_BASE 0 r4))"
  define r6 where "r6 = (if cpu_bootCPU cpu then r5\<lparr>m_bootCPUInfo := info\<rparr> else r5)"
  have r6: "m_heap r6 = gdt # tss # stack # stack1 # stack2 # rest" "m_gdts r6 (snd (m_gdtr r6)) = bootGDT" "m_msr r6 MSR_GS_BASE_KERNEL = info"
    "m_infos r6 info = Some \<lparr>ci_kernelStack = 0, ci_kernelSwitchStack = 0, ci_cpu = i, ci_uptime = 0, ci_tss = 0, ci_irqcmd = irqcmd, ci_cpuIndex = i\<rparr>"
    "m_irqcmds r6 irqcmd = Some (COMMAND_IRQ, sizeof_IRQCommand)" "m_msr r6 MSR_STAR = syscallSegments"
    "m_msr r6 MSR_LSTAR = im_syscallEntry im" "m_msr r6 MSR_SFMASK = NOT 2" "bit (m_msr r6 MSR_EFER) 0"
    using R assms(2) by (simp_all add: r6_def r5_def r4_def writeMSR_def msr_defs)
  then obtain m7 where m7: "tssSetup r6 = Some m7" and t: "m7 = r6\<lparr>m_gdts := (m_gdts r6)(gdt := bootGDT[5 := tssLow tss (bootGDT ! 5), 6 := tssHigh tss]),
    m_gdtr := (fst (m_gdtr r6), gdt), m_tsses := (m_tsses r6)(tss \<mapsto> newTSS stack), m_cs := GDT_KERNEL_CODE, m_tr := 40, m_heap := rest,
    m_infos := (m_infos r6)(info \<mapsto> (the (m_infos r6 info))\<lparr>ci_kernelStack := stack1 + KENREL_STACK_SIZE - 16, ci_tss := tss, ci_kernelSwitchStack := stack2 + KENREL_STACK_SIZE div 2 - 16\<rparr>)\<rparr>"
    using tssSetup_spec [OF r6(1)] assms(7) by (simp add: getKernelCPUInfo_def)
  define m' where "m' = m7\<lparr>m_apic := snd (lnmiConfigure (cpu_procID cpu) (m_apic m7))\<rparr>"
  have step: "smpCPUInfoSetup hw im m = Some m'"
    using idx assms(6,7) R m7 [unfolded r6_def r5_def r4_def]
    by (simp add: smpCPUInfoSetup_def apicID_def Let_def r_def [symmetric] cpu_def m'_def split: if_splits)
  have star: "m_msr m' MSR_STAR = syscallSegments" using r6(6) by (simp add: m'_def t)
  note sel = star_selectors [OF star]
  have gdt: "m_gdts m' (snd (m_gdtr m')) = bootGDT[5 := tssLow tss (bootGDT ! 5), 6 := tssHigh tss]" by (simp add: m'_def t)
  have "code64 0 (selected m' 8)" "data_segment 0 (selected m' 16)" "code64 3 (selected m' 0x23)" "data_segment 3 (selected m' 0x1B)"
    "selected m' 40 = tssLow tss nullDescriptor" "selected m' 48 = tssHigh tss"
    unfolding selected_def gdt by (simp_all add: bootGDT_list flat_segments)
  moreover have "ucast (0x23 :: u16) = push_bit 3 GDT_USER_CODE OR 3" "ucast (0x1B :: u16) = push_bit 3 GDT_USER_DATA OR 3"
    by (simp_all add: GDT_USER_CODE_def GDT_USER_DATA_def)
  moreover have "m_msr m' MSR_LSTAR = im_syscallEntry im" "bit (m_msr m' MSR_EFER) 0" "bit (m_msr m' MSR_SFMASK) 9" "m_tsses m' tss = Some (newTSS stack)"
    "platformWhichCPU m' = Some i" "platformGetIRQCommand m' = Some (COMMAND_IRQ, sizeof_IRQCommand)" "m_tr m' = 40"
    using r6 by (simp_all add: m'_def t platformWhichCPU_def platformGetIRQCommand_def getKernelCPUInfo_def bit_simps)
  ultimately show ?thesis using step tss_base_roundtrip [of tss nullDescriptor] by (simp add: sel)
qed

section \<open>The timer\<close>

lemma pitWait_expires: "current \<le> old \<Longrightarrow> current \<noteq> 0 \<Longrightarrow> (\<exists>n. pitWait rs current old = Some n) \<longleftrightarrow> expires current rs"
proof (induction rs arbitrary: current old)
  case (Cons r rs)
  show ?case
  proof (cases "r \<le> current \<and> r \<noteq> 0")
    case True
    then show ?thesis using Cons.IH [of r current] Cons.prems by (auto simp: not_less)
  next
    case False
    then have "pitWait rs r current = Some 0" by (cases rs) auto
    then show ?thesis using False Cons.prems by (auto simp: not_le)
  qed
qed simp

lemma latch_simps [simp]: "m_apic (latch n m) = m_apic m" "m_msr (latch n m) = m_msr m"
  by (induction n arbitrary: m) (simp_all add: outb_def)

lemma timer_ticks:
  fixes a b :: u32
  assumes "b \<le> a"
  shows "unat (ucast a - ucast b :: u64) = unat a - unat b" "unat ((ucast a - ucast b :: u64) * 100) = (unat a - unat b) * 100"
proof -
  have w: "unat (ucast a :: u64) = unat a" "unat (ucast b :: u64) = unat b" 
    using unsigned_less [of a, where ?'a = nat] unsigned_less [of b, where ?'a = nat] by (simp_all add: unsigned_ucast_eq take_bit_nat_eq_self)
  have l: "unat a < 2 ^ 32" using unsigned_less [of a, where ?'a = nat] by simp
  have "ucast b \<le> (ucast a :: u64)" using assms by (simp add: word_le_nat_alt w)
  then show u: "unat (ucast a - ucast b :: u64) = unat a - unat b" by (simp add: unat_sub w)
  show "unat ((ucast a - ucast b :: u64) * 100) = (unat a - unat b) * 100"
    using l by (subst unat_mult_small) (simp_all add: u)
qed

lemma handler_offset:
  "ucast (ucast h :: u16) OR push_bit 16 (ucast (ucast (drop_bit 16 h) :: u16)) OR push_bit 32 (ucast (ucast (drop_bit 32 h) :: u32)) = (h :: u64)"
proof (rule bit_word_eqI)
  fix n :: nat
  assume "n < LENGTH(64)"
  then consider "n < 16" | "16 \<le> n" "n < 32" | "32 \<le> n" "n < 64" by fastforce
  then show "bit (ucast (ucast h :: u16) OR push_bit 16 (ucast (ucast (drop_bit 16 h) :: u16)) OR push_bit 32 (ucast (ucast (drop_bit 32 h) :: u32)) :: u64) n \<longleftrightarrow> bit h n"
    by cases (auto simp: bit_simps)
qed

text \<open>
  \<open>apicTimerInit()\<close> returns exactly when the PIT interval ends and the timer has counted at least two ticks in it. Then the local timer is periodic and
  unmasked, raises interrupt 0xFE, which leads to the timer's entry point, counts down from the number of ticks that were counted in a hundredth of a second,
  and \<open>apicTimerFrequency()\<close> is a hundred times that number.
\<close>

theorem apicTimerInit_programs:
  assumes "hw_timerAfter hw \<le> hw_timerBefore hw"
  defines "elapsed \<equiv> unat (hw_timerBefore hw) - unat (hw_timerAfter hw)"
  shows "(apicTimerInit hw im m \<noteq> None \<longleftrightarrow> expires pitFrequency (hw_pit hw) \<and> 2 \<le> elapsed) \<and>
    (\<forall>r m'. apicTimerInit hw im m = Some (r, m') \<longrightarrow>
      r = 0 \<and> lapicRead LAPIC_LVT_TIMER (m_apic m') = LAPIC_TIMER_PERIODIC OR 0xFE \<and>
      unat (lapicRead LAPIC_TIMER_INITIAL (m_apic m')) = elapsed \<and> unat (apicTimerFrequency m') = 100 * elapsed \<and>
      lapicRead LAPIC_TIMER_DIVIDE (m_apic m') = LAPIC_TIMER_DIVIDER_1 \<and>
      bit (m_msr m' MSR_LAPIC) 11 \<and>
      (let e = ac_idt (m_apic m') 0xFE in
        ucast (idt_offset_lo e) OR push_bit 16 (ucast (idt_offset_mi e)) OR push_bit 32 (ucast (idt_offset_hi e)) = im_timerHandlerStub im \<and>
        idt_segment e = 8 \<and> bit (idt_flags e) 15))"
proof -
  let ?F = "(ucast (hw_timerBefore hw) - ucast (hw_timerAfter hw) :: u64) * 100"
  have F: "unat ?F = elapsed * 100" unfolding elapsed_def by (rule timer_ticks(2) [OF assms(1)])
  have t32: "elapsed < 2 ^ 32" using unsigned_less [of "hw_timerBefore hw", where ?'a = nat] by (simp add: elapsed_def)
  have slow: "?F < PLATFORM_TIMER_FREQUENCY * 2 \<longleftrightarrow> elapsed < 2" unfolding word_less_nat_alt F by (auto simp: PLATFORM_TIMER_FREQUENCY_def)
  have count: "unat (ucast (?F div PLATFORM_TIMER_FREQUENCY) :: u32) = elapsed"
    using t32 unfolding unsigned_ucast_eq unat_div F by (simp add: PLATFORM_TIMER_FREQUENCY_def take_bit_nat_eq_self)
  have ex: "pitWait (hw_pit hw) pitFrequency pitFrequency \<noteq> None \<longleftrightarrow> expires pitFrequency (hw_pit hw)"
    using pitWait_expires [of pitFrequency pitFrequency "hw_pit hw"] by (simp add: pitFrequency_def)
  have lvt: "(LAPIC_TIMER_PERIODIC OR LAPIC_LVT_MASK OR of_nat LAPIC_TIMER_IRQ) AND NOT LAPIC_LVT_MASK = LAPIC_TIMER_PERIODIC OR 0xFE"
    by code_simp
  have seg: "push_bit 3 (ucast GDT_KERNEL_CODE) OR (PRIVILEGE_KERNEL AND 3) = (8 :: u16)"
    "bit (push_bit IDT_FLAGS_DPL_SHIFT (PRIVILEGE_KERNEL AND 3) OR push_bit IDT_FLAGS_TYPE_SHIFT (INTERRUPT_TYPE_INT AND 0x0F) OR IDT_FLAGS_VALID) 15"
    by code_simp+
  show ?thesis
  proof (cases "pitWait (hw_pit hw) pitFrequency pitFrequency")
    case None
    then show ?thesis using ex by (simp add: apicTimerInit_def Let_def)
  next
    case (Some polls)
    have en: "bit (m_msr (enableLapic m) MSR_LAPIC) 11"
      using and_exp_iff [of "m_msr m MSR_LAPIC" 11]
      by (auto simp: enableLapic_def Let_def onLapic_def writeMSR_def MSR_LAPIC_ENABLED_def bit_simps)
    show ?thesis
    proof (cases "elapsed < 2")
      case True
      then show ?thesis using Some slow by (simp add: apicTimerInit_def Let_def)
    next
      case False
      then show ?thesis
        using Some slow ex lvt count en seg F handler_offset [of "im_timerHandlerStub im"]
        by (simp add: apicTimerInit_def Let_def onLapic_def lapicWrite_def lapicRead_def lapic_defs installInterrupt_def
            apicTimerFrequency_def LAPIC_TIMER_IRQ_def outb_def)
    qed
  qed
qed

section \<open>The other processors\<close>

lemma sendIPI_responsive:
  assumes "responsive hw"
  shows "\<exists>m'. sendIPI hw i low m = Some m' \<and> m_sent m' = m_sent m @ [(push_bit 24 (ucast i), low)] \<and> ac_cpus (m_apic m') = ac_cpus (m_apic m) \<and>
    m_running m' = m_running m \<and> m_heap m' = m_heap m"
  using assms by (simp add: sendIPI_def responsive_def Let_def onLapic_def lapicWrite_def)

lemma bootAP_running:
  assumes "i < length (ac_cpus (m_apic m))" "cpu_bootCPU (ac_cpus (m_apic m) ! i) \<or> cpu_running (ac_cpus (m_apic m) ! i)"
  shows "bootAP hw i m = Some m"
  using assms by (simp add: bootAP_def platformGetCPU_def)

lemma bootAP_starts:
  assumes "responsive hw" "i < length (ac_cpus (m_apic m))" "m_heap m = stack # rest" "stack \<noteq> 0"
    "\<not> cpu_bootCPU (ac_cpus (m_apic m) ! i)" "\<not> cpu_running (ac_cpus (m_apic m) ! i)"
  shows "\<exists>m'. bootAP hw i m = Some m' \<and> m_sent m' = m_sent m @ startup (cpu_apicID (ac_cpus (m_apic m) ! i)) \<and>
    ac_cpus (m_apic m') = (ac_cpus (m_apic m))[i := started (ac_cpus (m_apic m) ! i)] \<and> m_running m' = Suc (m_running m) \<and> m_heap m' = rest"
proof -
  let ?c = "ac_cpus (m_apic m) ! i"
  let ?m = "m\<lparr>m_heap := rest, m_apEntryVars := (m_apEntryVars m)(AP_ENTRY_STACK_LOW := ucast (stack + AP_STACK_SIZE), AP_ENTRY_STACK_HIGH := ucast (drop_bit 32 (stack + AP_STACK_SIZE)))\<rparr>"
  obtain m1 where m1: "sendIPI hw (cpu_apicID ?c) 0xC500 ?m = Some m1" "m_sent m1 = m_sent m @ [(push_bit 24 (ucast (cpu_apicID ?c)), 0xC500)]"
    "ac_cpus (m_apic m1) = ac_cpus (m_apic m)" "m_running m1 = m_running m" "m_heap m1 = rest"
    using sendIPI_responsive [OF assms(1), of "cpu_apicID ?c" "0xC500" ?m] by auto
  obtain m2 where m2: "sendIPI hw (cpu_apicID ?c) 0x500 m1 = Some m2" "m_sent m2 = m_sent m1 @ [(push_bit 24 (ucast (cpu_apicID ?c)), 0x500)]"
    "ac_cpus (m_apic m2) = ac_cpus (m_apic m1)" "m_running m2 = m_running m1" "m_heap m2 = m_heap m1"
    using sendIPI_responsive [OF assms(1), of "cpu_apicID ?c" "0x500" m1] by auto
  obtain m3 where m3: "sendIPI hw (cpu_apicID ?c) 0x8601 m2 = Some m3" "m_sent m3 = m_sent m2 @ [(push_bit 24 (ucast (cpu_apicID ?c)), 0x8601)]"
    "ac_cpus (m_apic m3) = ac_cpus (m_apic m2)" "m_running m3 = m_running m2" "m_heap m3 = m_heap m2"
    using sendIPI_responsive [OF assms(1), of "cpu_apicID ?c" "0x8601" m2] by auto
  have low: "LAPIC_INT_CMD_INIT OR LAPIC_INT_CMD_LEVEL OR LAPIC_INT_CMD_LEVEL_ASSERT = 0xC500"
    "LAPIC_INT_CMD_INIT OR LAPIC_INT_CMD_LEVEL_DEASSERT = 0x500" "LAPIC_INT_CMD_STARTUP OR LAPIC_INT_CMD_LEVEL OR 0x01 = 0x8601" by code_simp+
  have "bootAP hw i m = Some (m3\<lparr>m_apic := (m_apic m3)\<lparr>ac_cpus := (ac_cpus (m_apic m3))[i := ?c\<lparr>cpu_running := True\<rparr>]\<rparr>, m_running := Suc (m_running m3)\<rparr>)"
    using assms m1(1) m2(1) m3(1) by (simp add: bootAP_def platformGetCPU_def Let_def low responsive_def)
  then show ?thesis using m1 m2 m3 assms(5) by (simp add: startup_def started_def)
qed

lemma bootAPs_loop:
  assumes "responsive hw" "set is \<subseteq> {..<length (ac_cpus (m_apic m))}" "distinct is" "m_heap m = stacks @ rest" "0 \<notin> set stacks"
    "length stacks = length (waiting_cpus (map ((!) (ac_cpus (m_apic m))) is))"
  shows "\<exists>m'. bootAPs hw is m = Some m' \<and>
    m_sent m' = m_sent m @ concat (map (startup \<circ> cpu_apicID) (waiting_cpus (map ((!) (ac_cpus (m_apic m))) is))) \<and>
    length (ac_cpus (m_apic m')) = length (ac_cpus (m_apic m)) \<and>
    (\<forall>j < length (ac_cpus (m_apic m)). ac_cpus (m_apic m') ! j = (if j \<in> set is then started (ac_cpus (m_apic m) ! j) else ac_cpus (m_apic m) ! j)) \<and>
    m_running m' = m_running m + length stacks \<and> m_heap m' = rest"
  using assms(2-)
proof (induction "is" arbitrary: m stacks)
  case Nil
  then show ?case by (simp add: waiting_cpus_def)
next
  case (Cons i "is")
  let ?cs = "ac_cpus (m_apic m)"
  have i: "i < length ?cs" "i \<notin> set is" using Cons.prems by auto
  show ?case
  proof (cases "cpu_bootCPU (?cs ! i) \<or> cpu_running (?cs ! i)")
    case True
    then have "started (?cs ! i) = ?cs ! i" by (cases "?cs ! i") (auto simp: started_def)
    moreover have "waiting_cpus (map ((!) ?cs) (i # is)) = waiting_cpus (map ((!) ?cs) is)" using True by (auto simp: waiting_cpus_def)
    ultimately show ?thesis
      using Cons.IH [of m stacks] Cons.prems bootAP_running [OF i(1) True, of hw] by (auto cong: conj_cong)
  next
    case False
    then have w: "waiting_cpus (map ((!) ?cs) (i # is)) = ?cs ! i # waiting_cpus (map ((!) ?cs) is)" by (simp add: waiting_cpus_def)
    then obtain s ss where s: "stacks = s # ss" "length ss = length (waiting_cpus (map ((!) ?cs) is))"
      using Cons.prems(5) by (cases stacks) auto
    obtain m1 where m1: "bootAP hw i m = Some m1" "m_sent m1 = m_sent m @ startup (cpu_apicID (?cs ! i))"
      "ac_cpus (m_apic m1) = ?cs[i := started (?cs ! i)]" "m_running m1 = Suc (m_running m)" "m_heap m1 = ss @ rest"
      using bootAP_starts [OF assms(1) i(1), of s "ss @ rest"] Cons.prems(3,4) s(1) False by auto
    have same: "map ((!) (ac_cpus (m_apic m1))) is = map ((!) ?cs) is" using i(2) by (intro map_cong) (auto simp: m1(3) intro: nth_list_update_neq)
    have l: "length (ac_cpus (m_apic m1)) = length ?cs" by (simp add: m1(3))
    obtain m2 where m2: "bootAPs hw is m1 = Some m2"
      "m_sent m2 = m_sent m1 @ concat (map (startup \<circ> cpu_apicID) (waiting_cpus (map ((!) ?cs) is)))"
      "length (ac_cpus (m_apic m2)) = length ?cs"
      "\<forall>j < length ?cs. ac_cpus (m_apic m2) ! j = (if j \<in> set is then started (ac_cpus (m_apic m1) ! j) else ac_cpus (m_apic m1) ! j)"
      "m_running m2 = m_running m1 + length ss" "m_heap m2 = rest"
      using Cons.IH [of m1 ss, unfolded same] Cons.prems(1,2,4) m1(5) s by (auto simp: l comp_def)
    have "ac_cpus (m_apic m2) ! j = (if j \<in> set (i # is) then started (?cs ! j) else ?cs ! j)" if "j < length ?cs" for j
      using m2(4) that i by (auto simp: m1(3) nth_list_update)
    then show ?thesis
      using m2 m1(1,2,4) s(1) by (intro exI [of _ m2]) (simp add: w [simplified] comp_def del: set_simps)
  qed
qed

text \<open>
  C32: when the processors react to the messages and there is memory for their stacks, the loop of \<open>smpBoot()\<close> starts all that are not running: each gets the three
  messages INIT, its end, and STARTUP with the page of the entry code, in this order and processor by processor in the order of registration; the
  boot processor gets none. Afterwards all are marked as running, and the count has grown by the number of those that were started.
\<close>

theorem bootAPs_start_all:
  assumes "responsive hw" "m_heap m = stacks @ rest" "0 \<notin> set stacks" "length stacks = length (waiting_cpus (ac_cpus (m_apic m)))"
  shows "\<exists>m'. bootAPs hw [0..<platformCountCPU (m_apic m)] m = Some m' \<and>
    m_sent m' = m_sent m @ concat (map (startup \<circ> cpu_apicID) (waiting_cpus (ac_cpus (m_apic m)))) \<and>
    ac_cpus (m_apic m') = map started (ac_cpus (m_apic m)) \<and> waiting_cpus (ac_cpus (m_apic m')) = [] \<and>
    m_running m' = m_running m + length stacks \<and> m_heap m' = rest"
proof -
  let ?cs = "ac_cpus (m_apic m)"
  have cs: "map ((!) ?cs) [0..<length ?cs] = ?cs" by (rule map_nth)
  obtain m' where m': "bootAPs hw [0..<length ?cs] m = Some m'" "m_sent m' = m_sent m @ concat (map (startup \<circ> cpu_apicID) (waiting_cpus ?cs))"
    "length (ac_cpus (m_apic m')) = length ?cs"
    "\<forall>j < length ?cs. ac_cpus (m_apic m') ! j = (if j \<in> set [0..<length ?cs] then started (?cs ! j) else ?cs ! j)"
    "m_running m' = m_running m + length stacks" "m_heap m' = rest"
    using bootAPs_loop [OF assms(1), of "[0..<length ?cs]" m stacks rest] assms(2-4) by (auto simp: cs atLeast0LessThan comp_def)
  have l: "ac_cpus (m_apic m') = map started ?cs" using m'(3,4) by (intro nth_equalityI) auto
  have "waiting_cpus (map started ?cs) = []" by (auto simp: waiting_cpus_def filter_empty_conv started_def)
  then show ?thesis using m' by (simp add: platformCountCPU_def l)
qed

lemma memcmp_prefix:
  "n \<le> length xs \<Longrightarrow> n = length ys \<Longrightarrow> \<exists>c. memcmp xs ys n = Some c \<and> (c = 0 \<longleftrightarrow> take n xs = ys)"
proof (induction xs ys n rule: memcmp.induct)
  case (2 a d1 b d2 n)
  then show ?case by (cases "a = b") (auto simp: word_uint_eq_iff)
qed auto

lemma strlen_string: "0 \<notin> set s \<Longrightarrow> strlen (s @ 0 # rest) = Some (length s)"
  by (induction s) auto

lemma quietWord_length: "length quietWord = 6"
  by (simp add: quietWord_def)

lemma quiet_loop_finds:
  assumes "\<forall>i \<in> set is. i + 6 \<le> length args"
  shows "quiet_loop args is = Some (\<exists>i \<in> set is. take 6 (drop i args) = quietWord)"
  using assms
proof (induction "is")
  case (Cons i "is")
  have "i + 6 \<le> length args" using Cons.prems by (rule bspec) simp
  then have "6 \<le> length (drop i args)" by simp
  moreover have "6 = length quietWord" by (rule quietWord_length [symmetric])
  ultimately obtain c where "memcmp (drop i args) quietWord 6 = Some c" "c = 0 \<longleftrightarrow> take 6 (drop i args) = quietWord"
    using memcmp_prefix by blast
  then show ?case using Cons by auto
qed simp

text \<open>
  The log is silenced exactly when the arguments contain the word after a blank and have at least nine characters.
\<close>

lemma quietRequested_iff:
  assumes "0 \<notin> set args"
  shows "quietRequested (args @ [0]) = Some (9 \<le> length args \<and> (\<exists>pre post. args = pre @ quietWord @ post))"
proof (cases "9 \<le> length args")
  case True
  have "(\<exists>i \<in> set [0..<Suc (length args - 6)]. take 6 (drop i (args @ [0])) = quietWord) \<longleftrightarrow>
    (\<exists>pre post. args = pre @ quietWord @ post)" (is "?L \<longleftrightarrow> ?R")
  proof
    assume ?L
    then obtain i where "i \<in> set [0..<Suc (length args - 6)]" and i: "take 6 (drop i (args @ [0])) = quietWord" ..
    then have "i \<le> length args - 6" by (simp only: set_upt atLeastLessThan_iff less_Suc_eq_le)
    with i have "take 6 (drop i args) = quietWord" using True by simp
    then have "args = take i args @ quietWord @ drop (i + 6) args"
      by (metis append_take_drop_id drop_drop add.commute)
    then show ?R by blast
  next
    assume ?R
    then obtain pre post where "args = pre @ quietWord @ post" by blast
    then show ?L by (intro bexI [of _ "length pre"]) (auto simp: quietWord_length simp del: upt_Suc)
  qed
  moreover have "\<forall>i \<in> set [0..<Suc (length args - 6)]. i + 6 \<le> length (args @ [0])" using True by (auto simp del: upt_Suc)
  ultimately have "quiet_loop (args @ [0]) [0..<Suc (length args - 6)] = Some (\<exists>pre post. args = pre @ quietWord @ post)"
    by (simp only: quiet_loop_finds)
  then show ?thesis using True strlen_string [OF assms, of "[]"] by (simp add: quietRequested_def del: upt_Suc)
next
  case False
  then show ?thesis using strlen_string [OF assms, of "[]"] by (simp add: quietRequested_def)
qed

section \<open>Examples\<close>

theorem smpCPUInfoSetup_ready_witness:
  "\<exists>m'. smpCPUInfoSetup hardware_ex image_ex machine_ex = Some m' \<and> code64 3 (selected m' (sysret_cs m')) \<and>
    tss_base (selected m' (m_tr m')) (selected m' (m_tr m' + 8)) = 0xFFFF8F0000004010 \<and> platformWhichCPU m' = Some 0"
proof -
  have "drop_bit 24 (1 :: u32) = 0" by code_simp
  then show ?thesis
    using smpCPUInfoSetup_ready [of machine_ex 0 hardware_ex "0x1010" "0x2010" "0x3010" "0xFFFF8F0000004010" "0x8010" "0x12010" "0x1C010" "[]" image_ex]
    by (auto simp: machine_ex_def hardware_ex_def)
qed

theorem apicTimerInit_programs_witness:
  "\<exists>m'. apicTimerInit hardware_ex image_ex machine_ex = Some (0, m') \<and> unat (lapicRead LAPIC_TIMER_INITIAL (m_apic m')) = 1000000"
proof -
  have "hw_timerAfter hardware_ex \<le> hw_timerBefore hardware_ex" "expires pitFrequency (hw_pit hardware_ex)"
    "unat (hw_timerBefore hardware_ex) - unat (hw_timerAfter hardware_ex) = 1000000"
    by (simp_all add: hardware_ex_def pitFrequency_def)
  then show ?thesis using apicTimerInit_programs [of hardware_ex image_ex machine_ex] by auto
qed

theorem bootAPs_start_all_witness:
  "\<exists>m'. bootAPs hardware_ex [0..<2] machine_ex = Some m' \<and> m_sent m' = startup 2 \<and> m_running m' = 2"
proof -
  have "responsive hardware_ex" "m_heap machine_ex = [0x1010] @ tl (m_heap machine_ex)" "length (waiting_cpus (ac_cpus (m_apic machine_ex))) = 1"
    "platformCountCPU (m_apic machine_ex) = 2" "waiting_cpus (ac_cpus (m_apic machine_ex)) = [\<lparr>cpu_procID = 1, cpu_apicID = 2, cpu_bootCPU = False, cpu_running = False\<rparr>]"
    "m_sent machine_ex = []" "m_running machine_ex = 1"
    by (simp_all add: responsive_def hardware_ex_def machine_ex_def waiting_cpus_def platformCountCPU_def)
  then show ?thesis using bootAPs_start_all [of hardware_ex machine_ex "[0x1010]" "tl (m_heap machine_ex)"] by auto
qed

end
