(* ===== verification/Heap.thy ===== *)
theory Heap
  imports Exec
begin

text \<open>
  The kernel's own heap, \<open>malloc()\<close> and its relatives of \<^verbatim>\<open>src/src/libc/stdlib.c\<close>, over the virtual memory manager, with \<open>vmmInit()\<close> and
  the pseudo-random numbers of the same file. A heap is the page tables and the bytes at virtual addresses; its memory is touched page by page, so that lazily allocated
  pages get their frames from the page fault handler, and a fault that is not served, which stops the kernel, is \<open>None\<close>. The other model of allocation in this
  development, fresh object numbers for C structures, abstracts from this one. The lock of the heap is taken and released within each call and left out.
\<close>

section \<open>Touching memory\<close>

record heap =
  hp_vm :: vm
  hp_mem :: "u64 \<Rightarrow> u8"

fun heapTouch :: "u32 \<Rightarrow> nat \<Rightarrow> vm \<Rightarrow> u64 \<Rightarrow> vm option" where
  "heapTouch access 0 v a = Some v"
| "heapTouch access (Suc n) v a =
     do { (s, _) \<leftarrow> vmmPageStatus v a;
          v1 \<leftarrow> (if s AND PLATFORM_PAGE_PRESENT \<noteq> 0 then Some v
                 else do { (r, v') \<leftarrow> vmmPageFault v a access; if r = 0 then Some v' else None });
          heapTouch access n v1 (a + PAGE_SIZE) }"

definition pagesOf :: "u64 \<Rightarrow> nat \<Rightarrow> nat" where
  "pagesOf a n = (if n = 0 then 0 else nat ((uint a mod 4096 + int n + 4095) div 4096))"

definition heapStore :: "u64 \<Rightarrow> u8 list \<Rightarrow> (u64 \<Rightarrow> u8) \<Rightarrow> u64 \<Rightarrow> u8" where
  "heapStore a bs m x = (if unat (x - a) < length bs then bs ! unat (x - a) else m x)"

definition heapWrite :: "u64 \<Rightarrow> u8 list \<Rightarrow> heap \<Rightarrow> heap option" where
  "heapWrite a bs h =
     do { v \<leftarrow> heapTouch VMM_PAGE_FAULT_WRITE (pagesOf a (length bs)) (hp_vm h) (pageBase a);
          Some (h\<lparr>hp_vm := v, hp_mem := heapStore a bs (hp_mem h)\<rparr>) }"

definition heapRead :: "u64 \<Rightarrow> nat \<Rightarrow> heap \<Rightarrow> (u8 list \<times> heap) option" where
  "heapRead a n h =
     do { v \<leftarrow> heapTouch 0 (pagesOf a n) (hp_vm h) (pageBase a);
          Some (map (\<lambda>i. hp_mem h (a + of_nat i)) [0..<n], h\<lparr>hp_vm := v\<rparr>) }"

section \<open>The allocator\<close>

definition heapPages :: "u64 \<Rightarrow> u64" where
  "heapPages n = (n + sizeof_mallocHeader + PAGE_SIZE - 1) div PAGE_SIZE"

text \<open>\<open>malloc()\<close>, \<open>umalloc()\<close> and \<open>uxmalloc()\<close> differ in the range and the permissions.\<close>

definition mallocIn :: "u64 \<Rightarrow> u64 \<Rightarrow> u32 \<Rightarrow> u64 \<Rightarrow> heap \<Rightarrow> (u64 \<times> heap) option" where
  "mallocIn base limit flags n h =
     (if n = 0 then Some (0, h) else do {
        (ptr, v) \<leftarrow> vmmAllocate (hp_vm h) base limit (heapPages n) flags;
        if ptr = 0 then Some (0, h\<lparr>hp_vm := v\<rparr>)
        else do {
          h1 \<leftarrow> heapWrite ptr (bytesOf n @ bytesOf (heapPages n)) (h\<lparr>hp_vm := v\<rparr>);
          (_, v') \<leftarrow> platformMapPage (hp_vm h1) (ptr + heapPages n * PAGE_SIZE) 0 0;
          Some (ptr + sizeof_mallocHeader, h1\<lparr>hp_vm := v'\<rparr>) } })"

definition malloc :: "u64 \<Rightarrow> heap \<Rightarrow> (u64 \<times> heap) option" where
  "malloc = mallocIn KERNEL_HEAP_BASE KERNEL_HEAP_LIMIT VMM_WRITE"

definition callocWith :: "(u64 \<Rightarrow> heap \<Rightarrow> (u64 \<times> heap) option) \<Rightarrow> u64 \<Rightarrow> u64 \<Rightarrow> heap \<Rightarrow> (u64 \<times> heap) option" where
  "callocWith alloc num n h =
     do { (ptr, h1) \<leftarrow> alloc (num * n) h;
          if ptr = 0 then Some (0, h1)
          else do { h2 \<leftarrow> heapWrite ptr (replicate (unat (num * n)) 0) h1; Some (ptr, h2) } }"

definition calloc :: "u64 \<Rightarrow> u64 \<Rightarrow> heap \<Rightarrow> (u64 \<times> heap) option" where
  "calloc = callocWith malloc"

definition ucalloc :: "u64 \<Rightarrow> u64 \<Rightarrow> heap \<Rightarrow> (u64 \<times> heap) option" where
  "ucalloc = callocWith (mallocIn USER_HEAP_BASE USER_HEAP_LIMIT (VMM_WRITE OR VMM_USER))"

definition free :: "u64 \<Rightarrow> heap \<Rightarrow> heap option" where
  "free ptr h =
     (if ptr = 0 then Some h else do {
        (bs, h1) \<leftarrow> heapRead (pageBase ptr + 8) 8 h;
        (_, v) \<leftarrow> vmmFree (hp_vm h1) (pageBase ptr) (fromBytes bs);
        Some (h1\<lparr>hp_vm := v\<rparr>) })"

definition reallocWith :: "(u64 \<Rightarrow> heap \<Rightarrow> (u64 \<times> heap) option) \<Rightarrow> u64 \<Rightarrow> u64 \<Rightarrow> heap \<Rightarrow> (u64 \<times> heap) option" where
  "reallocWith alloc ptr newSize h =
     (if newSize = 0 then Some (0, h)
      else if ptr = 0 then alloc newSize h
      else do {
        (newPtr, h1) \<leftarrow> alloc newSize h;
        if newPtr = 0 then Some (0, h1)
        else do {
          (bs, h2) \<leftarrow> heapRead (pageBase ptr) 8 h1;
          let oldSize = fromBytes bs;
          (data, h3) \<leftarrow> heapRead ptr (unat (if oldSize > newSize then newSize else oldSize)) h2;
          h4 \<leftarrow> heapWrite newPtr data h3;
          h5 \<leftarrow> free ptr h4;
          Some (newPtr, h5) } })"

definition realloc :: "u64 \<Rightarrow> u64 \<Rightarrow> heap \<Rightarrow> (u64 \<times> heap) option" where
  "realloc = reallocWith malloc"

definition urealloc :: "u64 \<Rightarrow> u64 \<Rightarrow> heap \<Rightarrow> (u64 \<times> heap) option" where
  "urealloc = reallocWith (mallocIn USER_HEAP_BASE USER_HEAP_LIMIT (VMM_WRITE OR VMM_USER))"

section \<open>Starting up\<close>

text \<open>\<open>vmmInit()\<close> halts the machine when the page tables cannot be set up.\<close>

definition vmmInit :: "bool \<Rightarrow> vm \<Rightarrow> vm option" where
  "vmmInit nx v = do { (r, v') \<leftarrow> platformPagingSetup nx v; if r \<noteq> 0 then None else Some v' }"

section \<open>Random numbers\<close>

definition RAND_MAX :: int where "RAND_MAX = 0x1FFFFFFF"

definition rand :: "kernel \<Rightarrow> int \<times> kernel" where
  "rand k =
     (let (r, k1) = platformRand k;
          v = sint (ucast (r XOR drop_bit 32 r) :: u32);
          w = (if v < 0 then int32 (v * - 1) else v)
      in (w smod (RAND_MAX + 1), k1))"

definition srand :: "u32 \<Rightarrow> kernel \<Rightarrow> kernel" where
  "srand s k = platformSeed (ucast s) k"

section \<open>Specification vocabulary\<close>

text \<open>
  The pages of the kernel heap in use are those below a frontier, an address as a natural number: every page between the base and the frontier has an entry, no page from there on has one.
\<close>

definition heap_base :: nat where "heap_base = 0xFFFF8F0000000000"
definition heap_top :: nat where "heap_top = 0xFFFF8FFFFFFFF000"

definition in_heap :: "u64 \<Rightarrow> bool" where
  "in_heap x \<longleftrightarrow> heap_base \<le> unat x \<and> unat x < heap_top + 4096"

definition heap_frontier :: "vm \<Rightarrow> nat \<Rightarrow> bool" where
  "heap_frontier v f \<longleftrightarrow> f mod 4096 = 0 \<and> heap_base \<le> f \<and> f \<le> heap_top + 4096 \<and>
     (\<forall>x. in_heap x \<longrightarrow> (pte v x \<noteq> 0 \<longleftrightarrow> unat x < f))"

definition heap_inv :: "heap \<Rightarrow> nat \<Rightarrow> bool" where
  "heap_inv h f \<longleftrightarrow> (\<exists>lv. paging_inv (hp_vm h) lv) \<and> heap_frontier (hp_vm h) f"

definition heap_size :: "u64 \<Rightarrow> bool" where "heap_size n \<longleftrightarrow> unat n \<le> 2 ^ 39"

text \<open>Runs of allocations, and the order of the blocks they give.\<close>

fun allocAll :: "(u64 \<Rightarrow> 's \<Rightarrow> (u64 \<times> 's) option) \<Rightarrow> u64 list \<Rightarrow> 's \<Rightarrow> (u64 list \<times> 's) option" where
  "allocAll alloc [] s = Some ([], s)"
| "allocAll alloc (n # ns) s = do { (p, s1) \<leftarrow> alloc n s; (ps, s2) \<leftarrow> allocAll alloc ns s1; Some (p # ps, s2) }"

definition block_before :: "u64 \<times> u64 \<Rightarrow> u64 \<times> u64 \<Rightarrow> bool" where
  "block_before b c \<longleftrightarrow> fst b = 0 \<or> fst c = 0 \<or> unat (fst b) + unat (snd b) \<le> unat (fst c)"

definition block_within :: "nat \<Rightarrow> nat \<Rightarrow> u64 \<times> u64 \<Rightarrow> bool" where
  "block_within f f' b \<longleftrightarrow> fst b = 0 \<or> f \<le> unat (fst b) \<and> unat (fst b) + unat (snd b) \<le> f'"

text \<open>An empty heap over 62 free physical pages.\<close>

definition pmm_heap_ex :: pmm where
  "pmm_heap_ex = \<lparr>pmmStat = \<lparr>highestPhysicalAddress = 0x40000, lowestUsableAddress = 0x1000,
     highestUsableAddress = 0x3FFFF, highestPage = 64, usablePages = 63, usedPages = 1,
     reservedPages = 0\<rparr>, pmmBitmap = (\<lambda>i. if i = 0 then 3 else 0), pmmBitmapSize = 8\<rparr>"

definition heap_ex :: heap where
  "heap_ex = \<lparr>hp_vm = \<lparr>vm_pmm = pmm_heap_ex, vm_mem = (\<lambda>_. 0), vm_cr3 = 0x1000\<rparr>, hp_mem = (\<lambda>_. 0)\<rparr>"

section \<open>Addresses of the heap\<close>

lemma heap_bounds: "unat KERNEL_HEAP_BASE = heap_base" "unat (pageBase KERNEL_HEAP_LIMIT) = heap_top" "pageBase KERNEL_HEAP_BASE = KERNEL_HEAP_BASE"
  by (simp_all add: layout_defs heap_base_def heap_top_def pageBase_def)

lemma heap_prefix: "in_heap x \<Longrightarrow> drop_bit 40 x = 0xFFFF8F"
proof -
  assume "in_heap x"
  then have "unat x div 2 ^ 40 = 0xFFFF8F" unfolding in_heap_def heap_base_def heap_top_def by (intro div_nat_eqI) simp_all
  then have "unat (drop_bit 40 x) = unat (0xFFFF8F :: u64)" by (simp add: drop_bit_eq_div unat_div)
  then show ?thesis by (simp only: word_unat_eq_iff)
qed

lemma heap_mappable: "in_heap x \<Longrightarrow> mappable x"
proof -
  assume "in_heap x"
  then have "bit (drop_bit 40 x) 0" unfolding heap_prefix [OF \<open>in_heap x\<close>] bit_0 by simp
  then have "bit x 40" by (simp add: bit_drop_bit_eq del: bit_0)
  then have "bit (pml4Index x) 1" by (simp add: pml4Index_def bit_simps)
  moreover have "\<not> bit (256 :: u64) 1" by simp
  ultimately show "mappable x" by (auto simp: mappable_def)
qed

lemma heap_path_inj:
  assumes "page_path x = page_path y" "in_heap x" "in_heap y"
  shows "pageBase x = pageBase y"
proof (rule bit_word_eqI)
  fix n
  have "bit x n = bit y n" if "12 \<le> n"
  proof (cases "n < 48")
    case True
    then show ?thesis using path_bits [OF assms(1) that] by simp
  next
    case False
    then have "bit (drop_bit 40 z) (n - 40) = bit z n" for z :: u64 by (simp add: bit_drop_bit_eq)
    then show ?thesis using heap_prefix [OF assms(2)] heap_prefix [OF assms(3)] by metis
  qed
  then show "bit (pageBase x) n = bit (pageBase y) n" by (auto simp: bit_pageBase)
qed

lemma heap_region: "region (pageBase KERNEL_HEAP_BASE) (pageBase KERNEL_HEAP_LIMIT)"
proof -
  have "mappable x" if "KERNEL_HEAP_BASE \<le> x" "x \<le> pageBase KERNEL_HEAP_LIMIT" for x
    using that heap_bounds by (intro heap_mappable) (simp add: in_heap_def word_le_nat_alt)
  then show ?thesis unfolding region_def heap_bounds(3) by (auto simp: layout_defs)
qed

lemma block_pages_set: "set (block_pages n a) = (\<lambda>i. a + of_nat i * PAGE_SIZE) ` {..<n}"
proof (induction n arbitrary: a)
  case (Suc n)
  have "{..<Suc n} = insert 0 (Suc ` {..<n})" by (auto simp: image_iff less_Suc_eq_0_disj)
  then show ?case using Suc by (simp add: image_image algebra_simps)
qed simp

lemma heap_address: "heap_base \<le> f \<Longrightarrow> f + i * 4096 < heap_top + 4096 \<Longrightarrow> unat (of_nat f + of_nat i * PAGE_SIZE :: u64) = f + i * 4096"
proof -
  assume f: "heap_base \<le> f" "f + i * 4096 < heap_top + 4096"
  then have u: "unat (of_nat f :: u64) = f" by (simp add: heap_top_def unsigned_of_nat take_bit_nat_eq_self)
  then show ?thesis using unat_plus_pages [of "of_nat f" i] f(2) by (simp add: heap_top_def)
qed

lemma pagesOf_nat: "pagesOf a n = (if n = 0 then 0 else (unat a mod 4096 + n + 4095) div 4096)"
proof -
  have "(uint a mod 4096 + int n + 4095) div 4096 = int ((unat a mod 4096 + n + 4095) div 4096)" by (simp add: zdiv_int zmod_int)
  then show ?thesis unfolding pagesOf_def by simp
qed

lemma floor_bounds: "x div 4096 * 4096 \<le> x \<and> x < x div 4096 * 4096 + (4096 :: nat)"
  using div_mult_mod_eq [of x 4096] mod_less_divisor [of 4096 x] by linarith

lemma page_floor: "f mod 4096 = 0 \<Longrightarrow> (f + i * 4096) div 4096 * 4096 = f + i * (4096 :: nat)"
  using div_mult_mod_eq [of "f + i * 4096" 4096] by simp

lemma page_floor_unique: "f mod 4096 = 0 \<Longrightarrow> f + i * 4096 \<le> x \<Longrightarrow> x < f + i * 4096 + 4096 \<Longrightarrow> x div 4096 * 4096 = f + i * (4096 :: nat)"
proof -
  assume f: "f mod 4096 = 0" and x: "f + i * 4096 \<le> x" "x < f + i * 4096 + 4096"
  obtain q where q: "f = q * 4096" using f by (auto simp: mod_eq_0_iff_dvd dvd_def mult.commute)
  have "x div 4096 = q + i" using x unfolding q by (intro div_nat_eqI) simp_all
  then show ?thesis by (simp add: q algebra_simps)
qed

lemma block_path:
  assumes f: "heap_base \<le> f" "f mod 4096 = 0" "f + k * 4096 \<le> heap_top + 4096" and x: "in_heap x"
  shows "page_path x \<in> page_path ` set (block_pages k (of_nat f)) \<longleftrightarrow> f \<le> unat x \<and> unat x < f + k * 4096"
proof
  assume "page_path x \<in> page_path ` set (block_pages k (of_nat f))"
  then obtain i where i: "i < k" "page_path x = page_path (of_nat f + of_nat i * PAGE_SIZE)" by (auto simp: block_pages_set)
  let ?y = "of_nat f + of_nat i * PAGE_SIZE :: u64"
  have y: "unat ?y = f + i * 4096" using f i(1) by (intro heap_address) simp_all
  then have "in_heap ?y" using f i(1) by (simp add: in_heap_def)
  then have "unat (pageBase x) = unat (pageBase ?y)" using heap_path_inj [OF i(2) x] by simp
  then have "unat x div 4096 * 4096 = (f + i * 4096) div 4096 * 4096" unfolding unat_pageBase y .
  then have "f + i * 4096 \<le> unat x \<and> unat x < f + i * 4096 + 4096" using page_floor [OF f(2), of i] floor_bounds [of "unat x"] by linarith
  then show "f \<le> unat x \<and> unat x < f + k * 4096" using i(1) by simp
next
  assume b: "f \<le> unat x \<and> unat x < f + k * 4096"
  define i where "i = (unat x - f) div 4096"
  have i: "f + i * 4096 \<le> unat x" "unat x < f + i * 4096 + 4096" "i < k" using b floor_bounds [of "unat x - f"] unfolding i_def by linarith+
  let ?y = "of_nat f + of_nat i * PAGE_SIZE :: u64"
  have y: "unat ?y = f + i * 4096" using f i(3) by (intro heap_address) simp_all
  have "unat (pageBase x) = f + i * 4096" unfolding unat_pageBase using page_floor_unique [OF f(2) i(1,2)] .
  then have "pageBase x = ?y" using y by (simp add: word_unat_eq_iff)
  then have "page_path x = page_path ?y" using page_path_pageBase [of x] by simp
  then show "page_path x \<in> page_path ` set (block_pages k (of_nat f))" using i(3) by (auto simp: block_pages_set)
qed

section \<open>First fit at the frontier\<close>

lemma heap_scan_list:
  assumes "unat h + 4096 \<le> 2 ^ 64"
  shows "KERNEL_HEAP_BASE # page_steps (KERNEL_HEAP_BASE + PAGE_SIZE) h =
    map (\<lambda>k. KERNEL_HEAP_BASE + of_nat k * PAGE_SIZE) [0..<Suc ((unat h - (heap_base + 4096) + 4095) div 4096)]"
proof -
  have u: "unat (KERNEL_HEAP_BASE + PAGE_SIZE) = heap_base + 4096" by (simp add: layout_defs heap_base_def)
  have s: "KERNEL_HEAP_BASE + PAGE_SIZE + of_nat k * PAGE_SIZE = KERNEL_HEAP_BASE + of_nat (Suc k) * PAGE_SIZE" for k
    by (simp add: distrib_right)
  show ?thesis
    unfolding page_steps_def u upt_conv_Cons [OF zero_less_Suc] unfolding map_Suc_upt [symmetric]
    by (simp only: s list.map map_map o_def semiring_1_class.of_nat_0 mult_zero_left add_0_right)
qed

lemma frontierD: "heap_frontier v f \<Longrightarrow> in_heap x \<Longrightarrow> pte v x = 0 \<longleftrightarrow> f \<le> unat x"
  unfolding heap_frontier_def by (blast intro: leI dest: leD)

lemma heap_block_free:
  assumes fr: "heap_frontier v f" and a: "heap_base \<le> a" "a mod 4096 = 0" "a + c * 4096 \<le> heap_top" and c: "0 < c"
  shows "block_free v c (of_nat a) \<longleftrightarrow> f \<le> a"
proof -
  have pg: "unat (of_nat a + of_nat i * PAGE_SIZE :: u64) = a + i * 4096" if "i < c" for i
    using that a by (intro heap_address) simp_all
  have "in_heap (of_nat a + of_nat i * PAGE_SIZE)" if "i < c" for i using that a pg [OF that] by (simp add: in_heap_def)
  then have "pte v (of_nat a + of_nat i * PAGE_SIZE) = 0 \<longleftrightarrow> f \<le> a + i * 4096" if "i < c" for i
    using that frontierD [OF fr] pg by simp
  then have "block_free v c (of_nat a) \<longleftrightarrow> (\<forall>i < c. f \<le> a + i * 4096)" by (auto simp: block_free_def block_pages_set)
  also have "\<dots> \<longleftrightarrow> f \<le> a" using c by (auto intro: trans_le_add1)
  finally show ?thesis .
qed

lemma heap_find:
  assumes fr: "heap_frontier v f" and c: "0 < unat c" "heap_base + unat c * 4096 \<le> heap_top"
    and found: "find (block_free v (unat c)) (KERNEL_HEAP_BASE # page_steps (KERNEL_HEAP_BASE + PAGE_SIZE) (pageBase KERNEL_HEAP_LIMIT - c * PAGE_SIZE)) = Some a"
  shows "a = of_nat f \<and> f + unat c * 4096 \<le> heap_top"
proof -
  let ?h = "pageBase KERNEL_HEAP_LIMIT - c * PAGE_SIZE" and ?p = "\<lambda>k. KERNEL_HEAP_BASE + of_nat k * PAGE_SIZE"
  define L where "L = Suc ((unat ?h - (heap_base + 4096) + 4095) div 4096)"
  have cc: "unat (c * PAGE_SIZE) = unat c * 4096" using c(2) by (simp add: layout_defs unat_word_ariths heap_top_def)
  then have h: "unat ?h = heap_top - unat c * 4096" using c(2) heap_bounds(2) by (simp add: unat_sub word_le_nat_alt)
  then have "unat ?h + 4096 \<le> 2 ^ 64" by (simp add: heap_top_def)
  from heap_scan_list [OF this] found have "find (block_free v (unat c)) (map ?p [0..<L]) = Some a" by (simp only: L_def)
  then obtain i where i: "i < L" "block_free v (unat c) (?p i)" "a = ?p i" "\<And>j. j < i \<Longrightarrow> \<not> block_free v (unat c) (?p j)"
    by (auto simp: find_Some_iff)
  have base: "KERNEL_HEAP_BASE = of_nat heap_base" by (simp add: layout_defs heap_base_def)
  have al: "heap_base mod 4096 = 0" "heap_top mod 4096 = 0" by (simp_all add: heap_base_def heap_top_def)
  have fit: "heap_base + i * 4096 + unat c * 4096 \<le> heap_top"
  proof (cases i)
    case (Suc j)
    then have "j < (heap_top - unat c * 4096 - (heap_base + 4096) + 4095) div 4096" using i(1) unfolding L_def h by simp
    then have "j * 4096 + 4096 \<le> heap_top - unat c * 4096 - (heap_base + 4096) + 4095"
      using floor_bounds [of "heap_top - unat c * 4096 - (heap_base + 4096) + 4095"] by linarith
    then show ?thesis using Suc c(2) by (simp add: heap_base_def heap_top_def)
  qed (use c(2) in simp)
  have free: "block_free v (unat c) (?p j) \<longleftrightarrow> f \<le> heap_base + j * 4096" if "j \<le> i" for j
    using heap_block_free [OF fr, of "heap_base + j * 4096" "unat c"] that fit al c(1) by (simp add: base layout_defs)
  have f: "f mod 4096 = 0" "heap_base \<le> f" using fr by (auto simp: heap_frontier_def)
  have "4096 dvd f - heap_base" using f(1) al(1) by (intro dvd_diff_nat) (simp_all add: mod_eq_0_iff_dvd)
  then obtain j where j: "f = heap_base + j * 4096" using f(2) by (metis dvdE le_add_diff_inverse mult.commute)
  have "f \<le> heap_base + i * 4096" using free i(2) by simp
  moreover have "\<not> f < heap_base + i * 4096" using free [of j] i(4) [of j] j by auto
  ultimately have "heap_base + i * 4096 = f" by simp
  then show ?thesis using i(3) fit by (auto simp: base layout_defs)
qed

section \<open>Moving the frontier\<close>

lemma frontier_block:
  assumes fr: "heap_frontier v f" and m: "maps_block v lv (block_pages k (of_nat f)) e v'" and e: "e \<noteq> 0"
    and k: "f + k * 4096 \<le> heap_top + 4096"
  shows "heap_frontier v' (f + k * 4096)"
proof -
  have f: "heap_base \<le> f" "f mod 4096 = 0" using fr by (auto simp: heap_frontier_def)
  have "pte v' x \<noteq> 0 \<longleftrightarrow> unat x < f + k * 4096" if "in_heap x" for x
    using maps_blockD(3) [OF m heap_mappable [OF that]] block_path [OF f k that] fr e that
    by (auto simp: heap_frontier_def)
  then show ?thesis using fr k by (simp add: heap_frontier_def)
qed

lemma frontier_page:
  assumes fr: "heap_frontier v f" and m: "maps_page v lv x e v'" and x: "in_heap x" "unat x < f" and e: "e \<noteq> 0"
  shows "heap_frontier v' f"
proof -
  have "pte v' y \<noteq> 0 \<longleftrightarrow> unat y < f" if "in_heap y" for y
  proof -
    have "page_path y = page_path x \<Longrightarrow> unat y < f"
    proof -
      assume "page_path y = page_path x"
      then have "unat y div 4096 * 4096 = unat x div 4096 * 4096" using heap_path_inj [OF _ that x(1)] unat_pageBase by metis
      moreover obtain q where "f = q * 4096" using fr by (auto simp: heap_frontier_def mod_eq_0_iff_dvd dvd_def mult.commute)
      ultimately have "unat x div 4096 < q" "unat y div 4096 = unat x div 4096" "f = q * 4096" using x(2) by (simp_all add: less_mult_imp_div_less)
      then show ?thesis using floor_bounds [of "unat y"] by linarith
    qed
    then show ?thesis using m heap_mappable [OF that] fr e that by (auto simp: maps_page_def heap_frontier_def)
  qed
  then show ?thesis using fr by (simp add: heap_frontier_def)
qed

lemma frontier_guard:
  assumes fr: "heap_frontier v f" and m: "maps_page v lv (of_nat f) e v'" and e: "e \<noteq> 0" and f: "f \<le> heap_top"
  shows "heap_frontier v' (f + 4096)"
proof (rule frontier_block [OF fr, of lv 1, simplified])
  show "maps_block v lv [of_nat f] e v'" using m by (simp add: maps_page_def maps_block_def)
qed (use e f in auto)

section \<open>One allocation\<close>

lemma heapPages_unat: "unat n \<le> 2 ^ 39 \<Longrightarrow> unat (heapPages n) = (unat n + 4111) div 4096"
proof -
  assume n: "unat n \<le> 2 ^ 39"
  have "heapPages n = (n + 4111) div 4096" unfolding heapPages_def sizeof_mallocHeader_def layout_defs by (simp add: add.commute)
  moreover have "unat (n + 4111) = unat n + 4111" using n by (simp add: unat_word_ariths)
  ultimately show ?thesis by (simp add: unat_div)
qed

lemma heapPages_room:
  assumes "unat n \<le> 2 ^ 39"
  shows "0 < unat (heapPages n)" "heap_base + unat (heapPages n) * 4096 \<le> heap_top" "unat n + 16 \<le> unat (heapPages n) * 4096"
  using assms floor_bounds [of "unat n + 4111"] unfolding heapPages_unat [OF assms]
  by (simp_all add: heap_base_def heap_top_def)

lemma heap_entry: "lazy_entry VMM_WRITE \<noteq> 0" "pageBase 0 OR entryFlags 0 \<noteq> 0"
  unfolding lazy_entry_def by (rule entry_nonzero, simp add: lazyFlags_def vmm_flags platform_flags)+

lemma served_entry: "frame OR entryFlags (f OR PLATFORM_PAGE_PRESENT) \<noteq> 0"
proof -
  have "bit (frame OR entryFlags (f OR PLATFORM_PAGE_PRESENT)) 0"
    unfolding bit_or_iff bit_entryFlags by (simp add: platform_flags)
  then show ?thesis by auto
qed

lemma heap_above: "in_heap x \<Longrightarrow> 4096 \<le> x"
  by (simp add: in_heap_def heap_base_def word_le_nat_alt)

text \<open>Touching pages below the frontier keeps it.\<close>

lemma heap_fault_frontier:
  assumes inv: "paging_inv v lv" and fr: "heap_frontier v f" and a: "in_heap a" "unat a < f"
    and fault: "vmmPageFault v a access = Some (0, v')"
  shows "\<exists>lv'. paging_inv v' lv' \<and> heap_frontier v' f"
proof -
  let ?f = "flagsOfEntry (pte v a) OR PLATFORM_PAGE_PRESENT"
  have e: "pte v a \<noteq> 0" using frontierD [OF fr a(1)] a(2) by simp
  have "vmmServeFault v (pageBase a) ?f = Some (0, v')"
    using fault vmmPageFault_eq [OF inv heap_mappable [OF a(1)], of access] by (simp split: if_splits)
  then obtain frame where m: "maps_page v lv a (frame OR entryFlags ?f) v'"
    using vmmServeFault_mapped [OF inv heap_mappable [OF a(1)] heap_above [OF a(1)] e, of ?f] by auto
  show ?thesis using maps_pageD [OF m] frontier_page [OF fr m a served_entry] by metis
qed

lemma heapTouch_frontier:
  assumes "heapTouch access k v a = Some v'" "paging_inv v lv" "heap_frontier v f" "heap_base \<le> unat a" "unat a + k * 4096 \<le> f"
  shows "\<exists>lv'. paging_inv v' lv' \<and> heap_frontier v' f"
  using assms
proof (induction k arbitrary: v a lv)
  case (Suc k)
  have top: "f \<le> heap_top + 4096" using Suc.prems(3) by (simp add: heap_frontier_def)
  then have a: "in_heap a" "unat a < f" using Suc.prems(4,5) by (simp_all add: in_heap_def)
  have u: "unat (a + PAGE_SIZE) = unat a + 4096" using Suc.prems(5) top by (intro unat_add_page) (simp add: heap_top_def)
  from Suc.prems(1) obtain v1 where
    v1: "v1 = v \<or> vmmPageFault v a access = Some (0, v1)" and t: "heapTouch access k v1 (a + PAGE_SIZE) = Some v'"
    by (auto split: Option.bind_splits if_splits) (blast | metis)+
  obtain lv1 where "paging_inv v1 lv1" "heap_frontier v1 f"
    using v1 Suc.prems(2,3) heap_fault_frontier [OF Suc.prems(2,3) a] by blast
  from Suc.IH [OF t this] show ?case using Suc.prems(4,5) u by simp
qed auto

lemma heapWrite_frontier:
  assumes "heapWrite a bs h = Some h'" "paging_inv (hp_vm h) lv" "heap_frontier (hp_vm h) f"
    and "heap_base \<le> unat a" "unat a + length bs \<le> f"
  shows "\<exists>lv'. paging_inv (hp_vm h') lv' \<and> heap_frontier (hp_vm h') f"
    "unat x < unat a \<Longrightarrow> hp_mem h' x = hp_mem h x"
proof -
  have top: "f \<le> heap_top + 4096" using assms(3) by (simp add: heap_frontier_def)
  obtain v where t: "heapTouch VMM_PAGE_FAULT_WRITE (pagesOf a (length bs)) (hp_vm h) (pageBase a) = Some v"
    and h': "h' = h\<lparr>hp_vm := v, hp_mem := heapStore a bs (hp_mem h)\<rparr>"
    using assms(1) by (auto simp: heapWrite_def split: Option.bind_splits)
  obtain q where q: "f = q * 4096" using assms(3) by (auto simp: heap_frontier_def mod_eq_0_iff_dvd dvd_def mult.commute)
  have base: "heap_base \<le> unat a div 4096 * 4096"
    using assms(4) div_le_mono [OF assms(4), of 4096] by (simp add: heap_base_def)
  have "unat a div 4096 * 4096 + pagesOf a (length bs) * 4096 \<le> f"
  proof (cases "length bs = 0")
    case False
    have "unat a mod 4096 + length bs + 4095 < 4096 * (q - unat a div 4096) + 4096"
      using assms(5) q div_mult_mod_eq [of "unat a" 4096] False unfolding diff_mult_distrib2 by linarith
    then have "(unat a mod 4096 + length bs + 4095) div 4096 < q - unat a div 4096 + 1" by (simp add: less_mult_imp_div_less)
    moreover have "unat a div 4096 < q" using assms(5) q False by (intro less_mult_imp_div_less) linarith
    ultimately have "unat a div 4096 + (unat a mod 4096 + length bs + 4095) div 4096 \<le> q" by linarith
    then show ?thesis using False q unfolding pagesOf_nat by simp
  next
    case True
    then show ?thesis using assms(5) floor_bounds [of "unat a"] by (simp add: pagesOf_nat)
  qed
  with heapTouch_frontier [OF t assms(2,3)] base
  show "\<exists>lv'. paging_inv (hp_vm h') lv' \<and> heap_frontier (hp_vm h') f" by (simp add: h' unat_pageBase)
  have "\<not> unat (x - a) < length bs" if lt: "unat x < unat a"
  proof -
    have "unat (x - a) = unat x + 2 ^ 64 - unat a" using lt by (simp add: unat_sub_if')
    then show ?thesis using assms(5) top by (simp add: heap_top_def)
  qed
  then show "unat x < unat a \<Longrightarrow> hp_mem h' x = hp_mem h x" by (simp add: h' heapStore_def)
qed

lemma vmmAllocate_heap:
  assumes inv: "paging_inv v lv" and fr: "heap_frontier v f" and n: "unat n \<le> 2 ^ 39"
  shows "\<exists>ptr v' lv' f'. vmmAllocate v KERNEL_HEAP_BASE KERNEL_HEAP_LIMIT (heapPages n) VMM_WRITE = Some (ptr, v') \<and>
    paging_inv v' lv' \<and> heap_frontier v' f' \<and> f \<le> f' \<and> f' \<le> f + unat (heapPages n) * 4096 \<and>
    (ptr = 0 \<or> ptr = of_nat f \<and> f' = f + unat (heapPages n) * 4096 \<and> f' \<le> heap_top \<and> pte v' ptr = lazy_entry VMM_WRITE)"
proof -
  let ?c = "unat (heapPages n)"
  note room = heapPages_room [OF n]
  have fit: "unat (pageBase KERNEL_HEAP_BASE) + ?c * 4096 \<le> unat (pageBase KERNEL_HEAP_LIMIT)"
    using room(2) by (simp add: heap_bounds)
  from vmmAllocate_find [OF inv heap_region fit, of VMM_WRITE] obtain ptr v' where
    r: "vmmAllocate v KERNEL_HEAP_BASE KERNEL_HEAP_LIMIT (heapPages n) VMM_WRITE = Some (ptr, v')" and
    out: "alloc_outcome v lv ?c (lazy_entry VMM_WRITE) (find (block_free v ?c)
        (KERNEL_HEAP_BASE # page_steps (KERNEL_HEAP_BASE + PAGE_SIZE) (pageBase KERNEL_HEAP_LIMIT - heapPages n * PAGE_SIZE))) ptr v'"
    unfolding heap_bounds(3) by blast
  have f: "heap_base \<le> f" "f mod 4096 = 0" using fr by (auto simp: heap_frontier_def)
  show ?thesis
  proof (cases "find (block_free v ?c) (KERNEL_HEAP_BASE # page_steps (KERNEL_HEAP_BASE + PAGE_SIZE) (pageBase KERNEL_HEAP_LIMIT - heapPages n * PAGE_SIZE))")
    case None
    then show ?thesis using r out inv fr by (auto simp: alloc_outcome_def)
  next
    case (Some st)
    note at = heap_find [OF fr room(1,2) Some]
    from out [unfolded Some at [THEN conjunct1] alloc_outcome_def option.case] show ?thesis
    proof (elim disjE conjE exE)
      assume p: "ptr = of_nat f" and m: "maps_block v lv (block_pages ?c (of_nat f)) (lazy_entry VMM_WRITE) v'"
      have "heap_frontier v' (f + ?c * 4096)" using at by (intro frontier_block [OF fr m heap_entry(1)]) simp
      moreover have "in_heap (of_nat f)" using f at heap_address [of f 0] by (simp add: in_heap_def)
      moreover have "of_nat f \<in> set (block_pages ?c (of_nat f))" using room(1) by (cases ?c) simp_all
      ultimately show ?thesis using r p at maps_blockD(1,3) [OF m] heap_mappable by fastforce
    next
      fix k assume p: "ptr = 0" and k: "k < ?c" and m: "maps_block v lv (block_pages k (of_nat f)) (lazy_entry VMM_WRITE) v'"
      have "heap_frontier v' (f + k * 4096)" using at k by (intro frontier_block [OF fr m heap_entry(1)]) simp
      moreover have "f + k * 4096 \<le> f + ?c * 4096" using k by simp
      ultimately show ?thesis using r p maps_blockD(1) [OF m] by (metis le_add1)
    qed
  qed
qed

lemma heap_guard:
  assumes inv: "paging_inv v lv" and fr: "heap_frontier v f" and f: "f \<le> heap_top"
  shows "\<exists>r v' lv' f'. platformMapPage v (of_nat f) 0 0 = Some (r, v') \<and> paging_inv v' lv' \<and> heap_frontier v' f' \<and> f \<le> f' \<and> f' \<le> f + 4096 \<and>
    (\<forall>access. vmmPageFault v' (of_nat f) access = Some (-1, v'))"
proof -
  have u: "unat (of_nat f :: u64) = f" using fr f heap_address [of f 0] by (simp add: heap_frontier_def)
  then have i: "in_heap (of_nat f)" using fr f by (simp add: in_heap_def heap_frontier_def)
  have no: "\<not> fault_allowed access (pageBase 0 OR entryFlags 0)" "\<not> fault_allowed access 0" for access
    by (simp_all add: fault_allowed_def entryFlags_def pageBase_def platform_flags pt_flags layout_defs swap_marks)
  from platformMapPage_spec [OF inv heap_mappable [OF i], of 0 0] show ?thesis
  proof (elim disjE exE conjE)
    fix v' assume r: "platformMapPage v (of_nat f) 0 0 = Some (canonical (pageBase (of_nat f)), v')"
      and m: "maps_page v lv (of_nat f) (pageBase 0 OR entryFlags 0) v'"
    obtain lv' where lv': "paging_inv v' lv'" "\<And>x. mappable x \<Longrightarrow> pte v' x = (if page_path x = page_path (of_nat f) then pageBase 0 OR entryFlags 0 else pte v x)"
      using maps_pageD [OF m] by metis
    then have "vmmPageFault v' (of_nat f) access = Some (-1, v')" for access
      using heap_mappable [OF i] no(1) by (simp add: vmmPageFault_eq [OF lv'(1)])
    then show ?thesis using r lv'(1) frontier_guard [OF fr m heap_entry(2) f] by (metis le_add1 order_refl)
  next
    fix v' assume r: "platformMapPage v (of_nat f) 0 0 = Some (0, v')" and m: "keeps_pages v lv v'"
    obtain lv' where lv': "paging_inv v' lv'" "\<And>x. mappable x \<Longrightarrow> pte v' x = pte v x" using keeps_pagesD [OF m] by metis
    have "pte v' (of_nat f) = 0" using lv'(2) heap_mappable [OF i] frontierD [OF fr i] u by simp
    then have "vmmPageFault v' (of_nat f) access = Some (-1, v')" for access
      using heap_mappable [OF i] no(2) by (simp add: vmmPageFault_eq [OF lv'(1)])
    moreover have "heap_frontier v' f" using fr lv'(2) heap_mappable by (simp add: heap_frontier_def)
    ultimately show ?thesis using r lv'(1) by (metis le_add1 order_refl)
  qed
qed

lemma serve_fails:
  assumes inv: "paging_inv v lv" and x: "mappable addr" "4096 \<le> addr" and e: "pte v addr \<noteq> 0"
    and r: "vmmServeFault v (pageBase addr) f = Some (r, v')" "r \<noteq> 0"
  shows "\<exists>pm. pmmAllocate (vm_pmm v) = Some (0, pm)"
proof (rule ccontr)
  assume no: "\<not> ?thesis"
  obtain a pm where al: "pmmAllocate (vm_pmm v) = Some (a, pm)" using pool.alloc_returns [OF paging_invD(1) [OF inv]] by blast
  with no have a: "a \<noteq> 0" by auto
  have "pte (v\<lparr>vm_pmm := pm\<rparr>) (pageBase addr) \<noteq> 0" using e pte_path [of "pageBase addr" addr v] by simp
  from platformMapPage_mapped [OF paging_inv_alloc [OF inv al a] _ this, of a f] x(1)
  obtain v1 where "platformMapPage (v\<lparr>vm_pmm := pm\<rparr>) (pageBase addr) a f = Some (canonical (pageBase addr), v1)" by auto
  then show False using r al a canonical_nonzero [OF pageBase_nonzero [OF x(2)]] by (simp add: vmmServeFault_def)
qed

lemma heap_first_write:
  assumes inv: "paging_inv v lv" and a: "in_heap a" and e: "pte v a = lazy_entry VMM_WRITE"
    and none: "heapTouch VMM_PAGE_FAULT_WRITE 1 v a = None"
  shows "\<exists>pm. pmmAllocate (vm_pmm v) = Some (0, pm)"
proof -
  have l: "lazy_entry VMM_WRITE = 0x8000000000400002"
    by (simp add: lazy_entry_def lazyFlags_def entryFlags_def pageBase_def layout_defs swap_marks vmm_flags platform_flags pt_flags)
  have b: "bit (0x8000000000400002::u64) 1" "\<not> bit (0x8000000000400002::u64) 0" "bit (VMM_PAGE_FAULT_WRITE) 2"
    "\<not> bit (VMM_PAGE_FAULT_WRITE) 0" "\<not> bit (VMM_PAGE_FAULT_WRITE) 1" "\<not> bit (VMM_PAGE_FAULT_WRITE) 3"
    using and_exp_iff [of "0x8000000000400002::u64" 1] and_exp_iff [of "0x8000000000400002::u64" 0] 
      and_exp_iff [of VMM_PAGE_FAULT_WRITE 0] and_exp_iff [of VMM_PAGE_FAULT_WRITE 1] 
      and_exp_iff [of VMM_PAGE_FAULT_WRITE 2] and_exp_iff [of VMM_PAGE_FAULT_WRITE 3] by (simp_all add: fault_flags)
  have allowed: "fault_allowed VMM_PAGE_FAULT_WRITE (pte v a)"
    unfolding fault_allowed_def e l using b by (simp add: pageBase_def layout_defs pt_flags swap_marks del: bit_0)
  let ?f = "flagsOfEntry (pte v a) OR PLATFORM_PAGE_PRESENT"
  have np: "flagsOfEntry (pte v a) AND PLATFORM_PAGE_PRESENT = 0" by (simp add: e l flagsOfEntry_def pt_flags platform_flags)
  have nz: "pte v a \<noteq> 0" using e heap_entry(1) by simp
  note st = vmmPageStatus_mapped [OF inv heap_mappable [OF a] nz]
  obtain r v' where s: "vmmServeFault v (pageBase a) ?f = Some (r, v')" "r = -1 \<or> r = 0"
    using vmmServeFault_mapped [OF inv heap_mappable [OF a] heap_above [OF a] nz, of ?f] by auto
  have fault: "vmmPageFault v a VMM_PAGE_FAULT_WRITE = Some (r, v')" using allowed s(1) vmmPageFault_eq [OF inv heap_mappable [OF a]] by simp
  have "r \<noteq> 0" using none st np fault by auto
  then show ?thesis using serve_fails [OF inv heap_mappable [OF a] heap_above [OF a] nz s(1)] by blast
qed

lemma heap_page0: "heap_frontier v f \<Longrightarrow> f \<le> heap_top \<Longrightarrow> unat (of_nat f :: u64) = f \<and> in_heap (of_nat f) \<and> pageBase (of_nat f :: u64) = of_nat f \<and> (of_nat f :: u64) \<noteq> 0"
proof -
  assume f: "heap_frontier v f" "f \<le> heap_top"
  then have u: "unat (of_nat f :: u64) = f" using heap_address [of f 0] by (simp add: heap_frontier_def)
  have "unat (pageBase (of_nat f :: u64)) = f" unfolding unat_pageBase u using f page_floor [of f 0] by (simp add: heap_frontier_def)
  then have "pageBase (of_nat f :: u64) = of_nat f" using u by (simp add: word_unat_eq_iff)
  moreover have "(of_nat f :: u64) \<noteq> 0" using u f(1) by (auto simp: heap_frontier_def heap_base_def)
  ultimately show ?thesis using u f by (simp add: in_heap_def heap_frontier_def)
qed

text \<open>
  A request of at most half a terabyte either stops the kernel, and then no physical page was left once the addresses were reserved, or returns. If it returns a block, the block
  begins sixteen bytes above the frontier, holds at least the bytes asked for below the new frontier, and any access to the page that follows its pages faults. In every case the page tables
  stay well formed and no byte below the frontier changes.
\<close>

lemma malloc_step:
  assumes inv: "paging_inv (hp_vm h) lv" and fr: "heap_frontier (hp_vm h) f" and n: "n \<noteq> 0" "unat n \<le> 2 ^ 39"
  shows "case malloc n h of
      None \<Rightarrow> \<exists>a v pm. vmmAllocate (hp_vm h) KERNEL_HEAP_BASE KERNEL_HEAP_LIMIT (heapPages n) VMM_WRITE = Some (a, v) \<and> pmmAllocate (vm_pmm v) = Some (0, pm)
    | Some (p, h') \<Rightarrow> (\<exists>lv' f'. paging_inv (hp_vm h') lv' \<and> heap_frontier (hp_vm h') f' \<and> f \<le> f' \<and> f' \<le> f + (unat (heapPages n) + 1) * 4096 \<and> (\<forall>x. unat x < f \<longrightarrow> hp_mem h' x = hp_mem h x) \<and>
        (p = 0 \<or> unat p = f + 16 \<and> unat p + unat n \<le> f' \<and>
          (\<forall>access. vmmPageFault (hp_vm h') (of_nat (f + unat (heapPages n) * 4096)) access = Some (-1, hp_vm h'))))"
proof -
  let ?c = "unat (heapPages n)" and ?bs = "bytesOf n @ bytesOf (heapPages n)"
  note room = heapPages_room [OF n(2)]
  from vmmAllocate_heap [OF inv fr n(2)] obtain ptr v lv1 f1 where
    al: "vmmAllocate (hp_vm h) KERNEL_HEAP_BASE KERNEL_HEAP_LIMIT (heapPages n) VMM_WRITE = Some (ptr, v)" and
    v: "paging_inv v lv1" "heap_frontier v f1" "f \<le> f1" "f1 \<le> f + ?c * 4096" and
    c: "ptr = 0 \<or> ptr = of_nat f \<and> f1 = f + ?c * 4096 \<and> f1 \<le> heap_top \<and> pte v ptr = lazy_entry VMM_WRITE" by blast
  show ?thesis
  proof (cases "ptr = 0")
    case True
    then have "malloc n h = Some (0, h\<lparr>hp_vm := v\<rparr>)" using al n(1) by (simp add: malloc_def mallocIn_def)
    then show ?thesis using v by (auto intro!: exI [of _ lv1] exI [of _ f1])
  next
    case False
    with c have p: "ptr = of_nat f" "f1 = f + ?c * 4096" "f1 \<le> heap_top" "pte v ptr = lazy_entry VMM_WRITE" by auto
    have f: "unat ptr = f" "in_heap ptr" "pageBase ptr = ptr" using heap_page0 [OF fr] p by auto
    have len: "length ?bs = 16" by (simp add: bytesOf_def)
    have "f mod 4096 = 0" using fr by (simp add: heap_frontier_def)
    then have one: "pagesOf ptr (length ?bs) = 1" using f(1) len by (simp add: pagesOf_nat)
    have ptr1: "ptr + heapPages n * PAGE_SIZE = of_nat f1" using p(1,2) by (simp add: layout_defs)
    have eq: "malloc n h = (case heapWrite ptr ?bs (h\<lparr>hp_vm := v\<rparr>) of None \<Rightarrow> None
      | Some h1 \<Rightarrow> (case platformMapPage (hp_vm h1) (of_nat f1) 0 0 of None \<Rightarrow> None | Some (_, v') \<Rightarrow> Some (ptr + 16, h1\<lparr>hp_vm := v'\<rparr>)))"
      using al n(1) False by (auto simp: malloc_def mallocIn_def ptr1 [unfolded layout_defs] layout_defs sizeof_mallocHeader_def split: option.split Option.bind_split)
    show ?thesis
    proof (cases "heapWrite ptr ?bs (h\<lparr>hp_vm := v\<rparr>)")
      case None
      then have "heapTouch VMM_PAGE_FAULT_WRITE 1 v ptr = None" unfolding heapWrite_def one f(3) by (simp del: heapTouch.simps One_nat_def split: Option.bind_splits)
      from heap_first_write [OF v(1) f(2) p(4) this] show ?thesis using None eq al by auto
    next
      case (Some h1)
      have b: "heap_base \<le> unat ptr" "unat ptr + length ?bs \<le> f1" using f room(3) p(2) len by (simp_all add: in_heap_def)
      from heapWrite_frontier(1) [OF Some _ _ b] v obtain lv2 where v2: "paging_inv (hp_vm h1) lv2" "heap_frontier (hp_vm h1) f1" by auto
      have mem: "unat x < f \<Longrightarrow> hp_mem h1 x = hp_mem h x" for x using heapWrite_frontier(2) [OF Some _ _ b] v f(1) by simp
      from heap_guard [OF v2 p(3)] obtain r v' lv' f' where g: "platformMapPage (hp_vm h1) (of_nat f1) 0 0 = Some (r, v')" "paging_inv v' lv'"
        "heap_frontier v' f'" "f1 \<le> f'" "f' \<le> f1 + 4096" "\<forall>access. vmmPageFault v' (of_nat f1) access = Some (-1, v')" by blast
      have m: "malloc n h = Some (ptr + 16, h1\<lparr>hp_vm := v'\<rparr>)" using eq Some g(1) by simp
      have "unat (ptr + 16) = f + 16" using f(1) b(2) len p(3) by (simp add: unat_word_ariths heap_top_def)
      then show ?thesis unfolding m using g mem v(3) room(3) p(2) by (auto intro!: exI [of _ lv'] exI [of _ f'])
    qed
  qed
qed

section \<open>Allocators that only move upwards\<close>

locale frontier_allocator =
  fixes alloc :: "u64 \<Rightarrow> 's \<Rightarrow> (u64 \<times> 's) option" and inv :: "'s \<Rightarrow> nat \<Rightarrow> bool" and ok :: "u64 \<Rightarrow> bool" and bytes :: "'s \<Rightarrow> u64 \<Rightarrow> u8"
  assumes alloc_moves: "inv s f \<Longrightarrow> ok n \<Longrightarrow> alloc n s = Some (p, s') \<Longrightarrow> \<exists>f'. inv s' f' \<and> f \<le> f' \<and> block_within f f' (p, n)"
    and alloc_keeps: "inv s f \<Longrightarrow> ok n \<Longrightarrow> alloc n s = Some (p, s') \<Longrightarrow> unat x < f \<Longrightarrow> bytes s' x = bytes s x"
begin

lemma allocAll_ordered:
  assumes "inv s f" "\<forall>n \<in> set ns. ok n" "allocAll alloc ns s = Some (ps, s')"
  shows "\<exists>f'. inv s' f' \<and> f \<le> f' \<and> length ps = length ns \<and> sorted_wrt block_before (zip ps ns) \<and>
    (\<forall>b \<in> set (zip ps ns). block_within f f' b) \<and> (\<forall>x. unat x < f \<longrightarrow> bytes s' x = bytes s x)"
  using assms
proof (induction ns arbitrary: s f ps)
  case (Cons n ns)
  then obtain p s1 qs where p: "alloc n s = Some (p, s1)" "allocAll alloc ns s1 = Some (qs, s')" "ps = p # qs"
    by (auto split: Option.bind_splits)
  from alloc_moves [OF Cons.prems(1) _ p(1)] Cons.prems(2) obtain f1 where f1: "inv s1 f1" "f \<le> f1" "block_within f f1 (p, n)" by auto
  from Cons.IH [OF f1(1) _ p(2)] Cons.prems(2) obtain f' where f': "inv s' f'" "f1 \<le> f'" "length qs = length ns"
    "sorted_wrt block_before (zip qs ns)" "\<forall>b \<in> set (zip qs ns). block_within f1 f' b" "\<forall>x. unat x < f1 \<longrightarrow> bytes s' x = bytes s1 x" by auto
  have "\<forall>b \<in> set (zip qs ns). block_before (p, n) b" using f1(3) f'(5) by (force simp: block_within_def block_before_def)
  moreover have "\<forall>b \<in> set (zip qs ns). block_within f f' b" using f1(2) f'(5) by (force simp: block_within_def)
  moreover have "block_within f f' (p, n)" using f1(3) f'(2) by (auto simp: block_within_def)
  moreover have "unat x < f \<longrightarrow> bytes s' x = bytes s x" for x using f1(2) f'(6) alloc_keeps [OF Cons.prems(1) _ p(1)] Cons.prems(2) by auto
  ultimately show ?case using f1(2) f'(1-4) p(3) by (intro exI [of _ f']) auto
qed auto

lemma allocAll_separate:
  assumes "inv s f" "\<forall>n \<in> set ns. ok n" "\<forall>n \<in> set ms. ok n" "allocAll alloc ns s = Some (ps, s1)" "allocAll alloc ms s1 = Some (qs, s2)"
  shows "sorted_wrt block_before (zip (ps @ qs) (ns @ ms))"
    "(p, n) \<in> set (zip ps ns) \<Longrightarrow> p \<noteq> 0 \<Longrightarrow> unat p \<le> unat x \<Longrightarrow> unat x < unat p + unat n \<Longrightarrow> bytes s2 x = bytes s1 x"
proof -
  from allocAll_ordered [OF assms(1,2,4)] obtain f1 where a: "inv s1 f1" "length ps = length ns"
    "sorted_wrt block_before (zip ps ns)" "\<forall>b \<in> set (zip ps ns). block_within f f1 b" by blast
  from allocAll_ordered [OF a(1) assms(3,5)] obtain f2 where b: 
    "sorted_wrt block_before (zip qs ms)" "\<forall>b \<in> set (zip qs ms). block_within f1 f2 b" "\<forall>x. unat x < f1 \<longrightarrow> bytes s2 x = bytes s1 x" by blast
  show "sorted_wrt block_before (zip (ps @ qs) (ns @ ms))"
    using a(2-4) b(1,2) by (force simp: sorted_wrt_append block_within_def block_before_def)
  show "(p, n) \<in> set (zip ps ns) \<Longrightarrow> p \<noteq> 0 \<Longrightarrow> unat p \<le> unat x \<Longrightarrow> unat x < unat p + unat n \<Longrightarrow> bytes s2 x = bytes s1 x"
    using a(4) b(3) by (force simp: block_within_def)
qed

end

section \<open>The kernel heap as such an allocator\<close>

lemma malloc_0: "malloc 0 h = Some (0, h)"
  by (simp add: malloc_def mallocIn_def)

lemma malloc_moves:
  assumes "heap_inv h f" "heap_size n" "malloc n h = Some (p, h')"
  shows "\<exists>f'. heap_inv h' f' \<and> f \<le> f' \<and> block_within f f' (p, n) \<and> (\<forall>x. unat x < f \<longrightarrow> hp_mem h' x = hp_mem h x)"
proof (cases "n = 0")
  case True
  then show ?thesis using assms by (auto simp: malloc_0 block_within_def)
next
  case False
  obtain lv where lv: "paging_inv (hp_vm h) lv" "heap_frontier (hp_vm h) f" using assms(1) by (auto simp: heap_inv_def)
  from malloc_step [OF lv False] assms(2) obtain lv' f' where "paging_inv (hp_vm h') lv'" "heap_frontier (hp_vm h') f'" "f \<le> f'"
    "\<forall>x. unat x < f \<longrightarrow> hp_mem h' x = hp_mem h x" "p = 0 \<or> unat p = f + 16 \<and> unat p + unat n \<le> f'"
    by (auto simp: heap_size_def assms(3))
  then show ?thesis by (auto simp: heap_inv_def block_within_def)
qed

interpretation km: frontier_allocator malloc heap_inv heap_size hp_mem
  by unfold_locales (use malloc_moves in blast)+

lemma calloc_moves:
  assumes inv: "heap_inv h f" and n: "heap_size n" and c: "calloc 1 n h = Some (p, h')"
  shows "\<exists>f'. heap_inv h' f' \<and> f \<le> f' \<and> block_within f f' (p, n) \<and> (\<forall>x. unat x < f \<longrightarrow> hp_mem h' x = hp_mem h x)"
proof -
  from c obtain h1 where m: "malloc n h = Some (p, h1)" and w: "if p = 0 then h' = h1 else heapWrite p (replicate (unat n) 0) h1 = Some h'"
    by (auto simp: calloc_def callocWith_def split: Option.bind_splits if_splits)
  from malloc_moves [OF inv n m] obtain f1 where f1: "heap_inv h1 f1" "f \<le> f1" "block_within f f1 (p, n)" "\<forall>x. unat x < f \<longrightarrow> hp_mem h1 x = hp_mem h x" by blast
  show ?thesis
  proof (cases "p = 0")
    case True
    then show ?thesis using w f1 by auto
  next
    case False
    then have w: "heapWrite p (replicate (unat n) 0) h1 = Some h'" and b: "f \<le> unat p" "unat p + length (replicate (unat n) (0::u8)) \<le> f1"
      using w f1(3) by (auto simp: block_within_def)
    obtain lv where lv: "paging_inv (hp_vm h1) lv" "heap_frontier (hp_vm h1) f1" using f1(1) by (auto simp: heap_inv_def)
    have base: "heap_base \<le> unat p" using b(1) inv by (auto simp: heap_inv_def heap_frontier_def)
    have "heap_inv h' f1" using heapWrite_frontier(1) [OF w lv base b(2)] by (auto simp: heap_inv_def)
    moreover have "hp_mem h' x = hp_mem h x" if "unat x < f" for x
      using heapWrite_frontier(2) [OF w lv base b(2)] f1(4) that b(1) by simp
    ultimately show ?thesis using f1(2,3) by blast
  qed
qed

interpretation kc: frontier_allocator "calloc 1" heap_inv heap_size hp_mem
  by unfold_locales (use calloc_moves in blast)+

section \<open>An empty heap\<close>

lemma heap_ex_paging: "paging_inv (hp_vm heap_ex) [0x1000 \<mapsto> 3]"
proof -
  have "pmm_inv pmm_heap_ex" by (simp add: pmm_inv_def pmm_heap_ex_def)
  moreover have "highestUsableAddress (pmmStat pmm_heap_ex) \<le> KERNEL_MMIO_LIMIT"
    by (simp add: pmm_heap_ex_def layout_defs)
  moreover have "pageBase 0x1000 = 0x1000" "(0x1000 :: u64) < KERNEL_MMIO_LIMIT"
    "page_used pmm_heap_ex (0x1000 div PAGE_SIZE)"
    by (simp_all add: pageBase_def layout_defs pmm_heap_ex_def page_used_def)
  moreover have "([0x1000 \<mapsto> (3::nat)]) T = Some k \<longleftrightarrow> T = 0x1000 \<and> k = 3" for T :: u64 and k
    by auto
  ultimately show ?thesis unfolding paging_inv_def by (simp add: heap_ex_def)
qed

lemma heap_ex_frontier: "heap_frontier (hp_vm heap_ex) heap_base"
proof -
  have "pte (hp_vm heap_ex) x = 0" for x by (simp add: pte_def reach_3 heap_ex_def Let_def)
  then show ?thesis by (auto simp: heap_frontier_def in_heap_def heap_base_def heap_top_def)
qed

lemma bind_code [code_unfold]: "Option.bind x f = (case x of None \<Rightarrow> None | Some y \<Rightarrow> f y)" by (cases x) simp_all

declare vmm_scan.simps [code] vmm_probe.simps [code] pmmAllocate_scan.simps [code]

lemma heap_ex_run: "map_option fst (allocAll malloc [100, 5000] heap_ex) = Some [0xFFFF8F0000000010, 0xFFFF8F0000002010]"
  by code_simp

section \<open>Theorems\<close>



text \<open>The page count wraps: the largest request there is gets one page.\<close>

lemma malloc_size_wraps: "heapPages (- 1) = 1"
  by (simp add: heapPages_def sizeof_mallocHeader_def layout_defs)

lemma rand_range: "0 \<le> fst (rand k) \<and> fst (rand k) \<le> RAND_MAX"
proof -
  define v where "v = sint (ucast (fst (platformRand k) XOR drop_bit 32 (fst (platformRand k))) :: u32)"
  define w where "w = (if v < 0 then int32 (v * - 1) else v)"
  have v: "- (2 ^ 31) \<le> v" "v < 2 ^ 31" using sint_range_size [of "ucast (fst (platformRand k) XOR drop_bit 32 (fst (platformRand k))) :: u32"] by (simp_all add: v_def word_size)
  have "0 \<le> w smod (RAND_MAX + 1) \<and> w smod (RAND_MAX + 1) \<le> RAND_MAX"
  proof (cases "v = - (2 ^ 31)")
    case True
    then have "w = - (2 ^ 31)" by (simp add: w_def int32_def)
    then show ?thesis by (simp add: RAND_MAX_def)
  next
    case False
    then have "0 \<le> w" using v by (simp add: w_def int32_def signed_take_bit_int_eq_self)
    then have "w smod (RAND_MAX + 1) = w mod (RAND_MAX + 1)" by (cases "w = 0") (simp_all add: RAND_MAX_def signed_modulo_int_def signed_divide_int_def minus_div_mult_eq_mod)
    then show ?thesis by (simp add: RAND_MAX_def)
  qed
  moreover have "fst (rand k) = w smod (RAND_MAX + 1)" unfolding rand_def w_def v_def by (simp add: Let_def split_beta)
  ultimately show ?thesis by simp
qed

end
