(* ===== verification/Startup.thy ===== *)
theory Startup
  imports Heap
begin

text \<open>
  Start-up of memory and what it leaves for the rest of the kernel: with enough physical pages, \<open>vmmInit()\<close> succeeds and the kernel heap that follows
  serves every request. The number of free pages is what each layer passes on to the next: a page costs one, a mapping at most three new tables.
\<close>

section \<open>Specification vocabulary\<close>

definition free_frames :: "pmm \<Rightarrow> u64 set" where
  "free_frames s = {a \<in> set (page_steps (lowestUsableAddress (pmmStat s)) (highestUsableAddress (pmmStat s))). \<not> page_used s (a div PAGE_SIZE)}"

definition frames :: "pmm \<Rightarrow> nat" where "frames s = card (free_frames s)"

text \<open>The pages of addresses a request takes, guard page included, and the physical pages it may cost: three tables for every page, and one page for the header.\<close>

definition pages_of_request :: "u64 \<Rightarrow> nat" where "pages_of_request n = unat (heapPages n) + 1"

definition frames_of_request :: "u64 \<Rightarrow> nat" where "frames_of_request n = 3 * pages_of_request n + 1"

text \<open>A machine with 256 KiB of memory, as its boot loader describes it.\<close>

definition boot_ex :: KernelBootInfo where
  "boot_ex = \<lparr>boot_highestPhysicalAddress = 0x40000,
     boot_memoryMap = [\<lparr>mm_base = 0, mm_len = 0x40000, mm_type = 1, mm_acpiAttributes = 1\<rparr>], boot_lowestFreeMemory = 0x1000\<rparr>"

definition vm_boot_ex :: vm where
  "vm_boot_ex = \<lparr>vm_pmm = pmmInit (\<lambda>_. 0) boot_ex, vm_mem = (\<lambda>_. 0), vm_cr3 = 0\<rparr>"

section \<open>Counting physical pages\<close>

lemma free_frames_aligned:
  assumes "pmm_inv s" "a \<in> free_frames s"
  shows "unat a mod 4096 = 0" "a \<noteq> 0"
proof -
  have h: "unat (highestUsableAddress (pmmStat s)) + 4096 \<le> 2 ^ 64" using assms(1) by (simp add: pmm_inv_def)
  have m: "a \<in> set (page_steps (lowestUsableAddress (pmmStat s)) (highestUsableAddress (pmmStat s)))" using assms(2) by (simp add: free_frames_def)
  note pm = page_steps_mem [OF m h]
  show "unat a mod 4096 = 0" using pm assms(1) by (auto simp: pmm_inv_def)
  show "a \<noteq> 0" using pm assms(1) by (auto simp: pmm_inv_def)
qed

lemma page_number_inj: "unat a mod 4096 = 0 \<Longrightarrow> unat b mod 4096 = 0 \<Longrightarrow> a div PAGE_SIZE = b div PAGE_SIZE \<Longrightarrow> a = (b :: u64)"
proof -
  assume a: "unat a mod 4096 = 0" "unat b mod 4096 = 0" and e: "a div PAGE_SIZE = b div PAGE_SIZE"
  have "unat (a div PAGE_SIZE) = unat (b div PAGE_SIZE)" using e by simp
  then have "unat a div 4096 = unat b div 4096" by (simp add: unat_div layout_defs)
  then show ?thesis using a div_mult_mod_eq [of "unat a" 4096] div_mult_mod_eq [of "unat b" 4096] by (simp add: word_unat_eq_iff)
qed

lemma frames_alloc:
  assumes inv: "pmm_inv s" and al: "pmmAllocate s = Some (a, s')"
  shows "frames s' = frames s - 1" "0 < frames s \<Longrightarrow> a \<noteq> 0"
proof -
  let ?xs = "page_steps (lowestUsableAddress (pmmStat s)) (highestUsableAddress (pmmStat s))"
  have c: "(a = 0 \<and> s' = s \<and> free_frames s = {}) \<or> (a \<in> free_frames s \<and> s' = mark_used s (a div PAGE_SIZE))"
  proof (cases "find (\<lambda>a. \<not> page_used s (a div PAGE_SIZE)) ?xs")
    case None
    then have "a = 0" "s' = s" using al unfolding pmmAllocate_find [OF inv] by simp_all
    moreover have "free_frames s = {}" using None by (auto simp: find_None_iff free_frames_def)
    ultimately show ?thesis by simp
  next
    case (Some x)
    then have "a = x" "s' = mark_used s (x div PAGE_SIZE)" using al unfolding pmmAllocate_find [OF inv] by auto
    moreover have "x \<in> free_frames s" using Some by (auto simp: find_Some_iff free_frames_def)
    ultimately show ?thesis by simp
  qed
  have fin: "finite (free_frames s)" by (simp add: free_frames_def)
  show "0 < frames s \<Longrightarrow> a \<noteq> 0" using c free_frames_aligned(2) [OF inv] by (auto simp: frames_def)
  show "frames s' = frames s - 1"
  proof (cases "a \<in> free_frames s \<and> s' = mark_used s (a div PAGE_SIZE)")
    case True
    then have "b div PAGE_SIZE = a div PAGE_SIZE \<longleftrightarrow> b = a" if "b \<in> free_frames s" for b
      using page_number_inj [of b a] free_frames_aligned(1) [OF inv, of a] free_frames_aligned(1) [OF inv, of b] that True by auto
    then have "free_frames s' = free_frames s - {a}" using True by (auto simp: free_frames_def)
    then show ?thesis using True fin by (simp add: frames_def)
  next
    case False
    then show ?thesis using c by (auto simp: frames_def)
  qed
qed

lemma frames_zero:
  assumes inv: "pmm_inv s" and al: "pmmAllocate s = Some (a, s')" and z: "frames s = 0"
  shows "a = 0"
proof (rule ccontr)
  assume a: "a \<noteq> 0"
  have "free_frames s = {}" using z by (simp add: frames_def free_frames_def)
  then have "find (\<lambda>a. \<not> page_used s (a div PAGE_SIZE)) (page_steps (lowestUsableAddress (pmmStat s)) (highestUsableAddress (pmmStat s))) = None"
    by (auto simp: find_None_iff free_frames_def)
  then show False using al a unfolding pmmAllocate_find [OF inv] by simp
qed

lemma ensureTable_frames:
  assumes inv: "paging_inv v lv" and ts: "table_slot lv T (Suc n) i" and e: "ensureTable v (vmmMMIO T True) i = Some (e, v')"
  shows "0 < frames (vm_pmm v) \<Longrightarrow> e \<noteq> 0" "frames (vm_pmm v) \<le> frames (vm_pmm v') + 1"
proof -
  have T: "T < KERNEL_MMIO_LIMIT" using ts paging_invD(6) [OF inv] by (auto simp: table_slot_def)
  have pinv: "pmm_inv (vm_pmm v)" using paging_invD(1) [OF inv] .
  obtain a pm where al: "pmmAllocate (vm_pmm v) = Some (a, pm)" using pool.alloc_returns [OF pinv] by blast
  note fa = frames_alloc [OF pinv al]
  have c: "(vm_mem v (slot T i) \<noteq> 0 \<and> e = vm_mem v (slot T i) \<and> v' = v) \<or> (e = a \<and> vm_pmm v' = pm)"
    using e al T by (auto simp: ensureTable_def mmio_access clearPage_def store_def split: if_splits Option.bind_splits)
  show "0 < frames (vm_pmm v) \<Longrightarrow> e \<noteq> 0" using c fa(2) by auto
  show "frames (vm_pmm v) \<le> frames (vm_pmm v') + 1" using c fa(1) by auto
qed

section \<open>Mappings with enough pages succeed\<close>

lemma platformMapPage_frames:
  assumes inv: "paging_inv v lv" and l: "mappable l" and fr: "3 \<le> frames (vm_pmm v)"
  shows "\<exists>v'. platformMapPage v l p f = Some (canonical (pageBase l), v') \<and> frames (vm_pmm v) \<le> frames (vm_pmm v') + 3"
proof -
  let ?I = "\<lambda>k. tableIndex k l"
  have ix: "pml4Index (pageBase l) = ?I 3" "pdpIndex (pageBase l) = ?I 2" "pdIndex (pageBase l) = ?I 1" "ptIndex (pageBase l) = ?I 0"
    by (simp_all add: index_simps)
  note mp = platformMapPage_def [of v l p f, unfolded Let_def ix]
  have s3: "table_slot lv (vm_cr3 v) (Suc 2) (?I 3)"
    using paging_invD(2) [OF inv] l by (simp add: table_slot_def mappable_def index_simps)
  from ensureTable_spec [OF inv s3] obtain e3 v1 where E3: "ensureTable v (vmmMMIO (vm_cr3 v) True) (?I 3) = Some (e3, v1)"
    and n3: "e3 \<noteq> 0 \<longrightarrow> (\<exists>lv'. extends v lv v1 lv' \<and> lv' (pageBase e3) = Some 2)" by blast
  note f3 = ensureTable_frames [OF inv s3 E3]
  then obtain lv1 where i1: "paging_inv v1 lv1" "lv1 (pageBase e3) = Some 2" using n3 fr by (auto dest: extendsD(1))
  have s2: "table_slot lv1 (pageBase e3) (Suc 1) (?I 2)" using i1(2) by (simp add: table_slot_def)
  from ensureTable_spec [OF i1(1) s2] obtain e2 v2 where E2: "ensureTable v1 (vmmMMIO (pageBase e3) True) (?I 2) = Some (e2, v2)"
    and n2: "e2 \<noteq> 0 \<longrightarrow> (\<exists>lv'. extends v1 lv1 v2 lv' \<and> lv' (pageBase e2) = Some 1)" by blast
  note f2 = ensureTable_frames [OF i1(1) s2 E2]
  then obtain lv2 where i2: "paging_inv v2 lv2" "lv2 (pageBase e2) = Some 1" using n2 fr f3 by (auto dest: extendsD(1))
  have s1: "table_slot lv2 (pageBase e2) (Suc 0) (?I 1)" using i2(2) by (simp add: table_slot_def)
  from ensureTable_spec [OF i2(1) s1] obtain e1 v3 where E1: "ensureTable v2 (vmmMMIO (pageBase e2) True) (?I 1) = Some (e1, v3)"
    and n1: "e1 \<noteq> 0 \<longrightarrow> (\<exists>lv'. extends v2 lv2 v3 lv' \<and> lv' (pageBase e1) = Some 0)" by blast
  note f1 = ensureTable_frames [OF i2(1) s1 E1]
  then obtain lv3 where i3: "paging_inv v3 lv3" "lv3 (pageBase e1) = Some 0" using n1 fr f3 f2 by (auto dest: extendsD(1))
  have nz: "e3 \<noteq> 0" "e2 \<noteq> 0" "e1 \<noteq> 0" using fr f3 f2 f1 by auto
  then show ?thesis using E3 E2 E1 f3 f2 f1 paging_invD(6) [OF i3] by (auto simp: mp mmio_access)
qed

lemma vmm_map_frames:
  assumes "paging_inv v lv" and "\<And>x. x \<in> set (block_pages n a) \<Longrightarrow> mappable x \<and> 4096 \<le> x" and "3 * n \<le> frames (vm_pmm v)"
  shows "\<exists>v'. vmm_map n v a f = Some (True, v') \<and> frames (vm_pmm v) \<le> frames (vm_pmm v') + 3 * n"
  using assms
proof (induction n arbitrary: v lv a)
  case (Suc n)
  have a: "mappable a" "canonical (pageBase a) \<noteq> 0"
    using Suc.prems(2) [of a] canonical_nonzero pageBase_nonzero by auto
  from platformMapPage_frames [OF Suc.prems(1) a(1), of VMM_PAGE_ALLOCATE f] Suc.prems(3) obtain v1 where
    v1: "platformMapPage v a VMM_PAGE_ALLOCATE f = Some (canonical (pageBase a), v1)" "frames (vm_pmm v) \<le> frames (vm_pmm v1) + 3" by auto
  from platformMapPage_spec [OF Suc.prems(1) a(1), of VMM_PAGE_ALLOCATE f] v1(1) a(2) obtain e where "maps_page v lv a e v1" by auto
  then obtain lv1 where lv1: "paging_inv v1 lv1" using maps_pageD by metis
  have "3 * n \<le> frames (vm_pmm v1)" using Suc.prems(3) v1(2) by simp
  from Suc.IH [OF lv1 _ this, of "a + PAGE_SIZE"] Suc.prems(2) obtain v2 where
    "vmm_map n v1 (a + PAGE_SIZE) f = Some (True, v2)" "frames (vm_pmm v1) \<le> frames (vm_pmm v2) + 3 * n" by fastforce
  then show ?case using v1 a(2) by auto
qed simp

text \<open>What the search of \<open>vmmAllocate()\<close> finds is what it maps.\<close>

lemma vmm_scan_maps:
  assumes inv: "paging_inv v lv" and r: "region base limit" and lim: "unat limit + 4096 \<le> 2 ^ 64"
    and e: "unat end + unat count * 4096 \<le> unat limit"
  shows "base \<le> start \<Longrightarrow> unat start + unat count * 4096 \<le> unat limit \<Longrightarrow>
    find (block_free v (unat count)) (start # page_steps (start + PAGE_SIZE) end) = Some st \<Longrightarrow>
    base \<le> st \<and> unat st + unat count * 4096 \<le> unat limit \<and>
    vmm_scan v start end count f = do { (ok, v') \<leftarrow> vmm_map (unat count) v st f; Some (if ok then st else 0, v') }"
proof (induction "unat end - unat start" arbitrary: start rule: less_induct)
  case less
  let ?n = "unat count" and ?stop = "start + count * PAGE_SIZE"
  note pages = region_block [OF r less.prems(1,2)]
  have stop: "unat ?stop = unat start + ?n * 4096" by (rule unat_block_end [OF less.prems(2)])
  obtain b where b: "vmm_probe v start ?stop = Some b" "b \<ge> ?stop \<longleftrightarrow> block_free v ?n start"
    using vmm_probe_block [OF inv _ _ stop] pages less.prems(2) lim by fastforce
  show ?case
  proof (cases "block_free v ?n start")
    case True
    then have st: "st = start" using less.prems(3) by simp
    show ?thesis unfolding st using True b less.prems(1,2) by (simp add: vmm_scan.simps [of v start])
  next
    case nofree: False
    have True: "start + PAGE_SIZE < end"
      using less.prems(3) nofree page_steps_empty [of "start + PAGE_SIZE" "end"] by (cases "start + PAGE_SIZE < end") auto
    have u: "unat (start + PAGE_SIZE) = unat start + 4096"
      using less.prems(2) lim nofree by (intro unat_add_page) (cases "?n", simp_all add: block_free_def)
    have h: "unat end + 4096 \<le> 2 ^ 64" using e lim by simp
    have "find (block_free v ?n) ((start + PAGE_SIZE) # page_steps (start + PAGE_SIZE + PAGE_SIZE) end) = Some st"
      using less.prems(3) nofree page_steps_cons [OF True h] by simp
    from less.hyps [OF _ _ _ this] True u e less.prems(1) nofree b show ?thesis
      by (simp add: vmm_scan.simps [of v start] word_less_nat_alt word_le_nat_alt)
  qed
qed

section \<open>A request with enough pages succeeds\<close>

lemma heap_find_room:
  assumes fr: "heap_frontier v f" and c: "0 < unat c" and room: "f + unat c * 4096 < heap_top"
  shows "find (block_free v (unat c)) (KERNEL_HEAP_BASE # page_steps (KERNEL_HEAP_BASE + PAGE_SIZE) (pageBase KERNEL_HEAP_LIMIT - c * PAGE_SIZE)) = Some (of_nat f)"
proof -
  let ?h = "pageBase KERNEL_HEAP_LIMIT - c * PAGE_SIZE" and ?p = "\<lambda>k. KERNEL_HEAP_BASE + of_nat k * PAGE_SIZE"
  let ?xs = "KERNEL_HEAP_BASE # page_steps (KERNEL_HEAP_BASE + PAGE_SIZE) ?h"
  have f: "f mod 4096 = 0" "heap_base \<le> f" using fr by (auto simp: heap_frontier_def)
  have fit: "heap_base + unat c * 4096 \<le> heap_top" using room f(2) by simp
  have cc: "unat (c * PAGE_SIZE) = unat c * 4096" using fit by (simp add: layout_defs unat_word_ariths heap_top_def)
  then have h: "unat ?h = heap_top - unat c * 4096" using fit heap_bounds(2) by (simp add: unat_sub word_le_nat_alt)
  then have h64: "unat ?h + 4096 \<le> 2 ^ 64" by (simp add: heap_top_def)
  have "4096 dvd f - heap_base" using f(1) by (intro dvd_diff_nat) (simp_all add: heap_base_def mod_eq_0_iff_dvd)
  then obtain j where j: "f = heap_base + j * 4096" using f(2) by (metis dvdE le_add_diff_inverse mult.commute)
  have "j < Suc ((unat ?h - (heap_base + 4096) + 4095) div 4096)"
  proof (cases j)
    case (Suc i)
    have "(i + 1) * 4096 \<le> unat ?h - (heap_base + 4096) + 4095" using room Suc unfolding j h by simp
    then have "i + 1 \<le> (unat ?h - (heap_base + 4096) + 4095) div 4096" by (simp add: less_eq_div_iff_mult_less_eq)
    then show ?thesis using Suc by simp
  qed simp
  then have "?p j \<in> set ?xs" unfolding heap_scan_list [OF h64] by (auto simp del: upt_Suc)
  moreover have "?p j = of_nat f" by (simp add: j layout_defs heap_base_def)
  moreover have "block_free v (unat c) (of_nat f)" using heap_block_free [OF fr f(2,1) _ c] room by simp
  ultimately have "find (block_free v (unat c)) ?xs \<noteq> None" by (metis find_None_iff)
  then obtain a where a: "find (block_free v (unat c)) ?xs = Some a" by blast
  from heap_find [OF fr c fit a] show ?thesis using a by simp
qed

lemma malloc_unfold:
  assumes "n \<noteq> 0" "vmmAllocate (hp_vm h) KERNEL_HEAP_BASE KERNEL_HEAP_LIMIT (heapPages n) VMM_WRITE = Some (ptr, v)" "ptr \<noteq> 0"
    and al: "pageBase ptr = ptr" "unat ptr mod 4096 = 0"
  shows "malloc n h = do { v1 \<leftarrow> heapTouch VMM_PAGE_FAULT_WRITE 1 v ptr; (_, v2) \<leftarrow> platformMapPage v1 (ptr + heapPages n * PAGE_SIZE) 0 0;
    Some (ptr + 16, h\<lparr>hp_vm := v2, hp_mem := heapStore ptr (bytesOf n @ bytesOf (heapPages n)) (hp_mem h)\<rparr>) }"
proof -
  have "pagesOf ptr (length (bytesOf n @ bytesOf (heapPages n))) = 1" using al(2) by (simp add: pagesOf_nat bytesOf_def)
  then show ?thesis using assms(1-3)
    by (simp add: malloc_def mallocIn_def heapWrite_def al(1) sizeof_mallocHeader_def del: heapTouch.simps One_nat_def split: option.split Option.bind_split)
qed

lemma heapTouch_frames:
  assumes inv: "paging_inv v lv" and a: "in_heap a" "pte v a \<noteq> 0" and t: "heapTouch access 1 v a = Some v'"
  shows "frames (vm_pmm v) \<le> frames (vm_pmm v') + 1"
proof -
  have "v' = v \<or> vmmPageFault v a access = Some (0, v')" using t by (auto split: Option.bind_splits if_splits)
  then show ?thesis
  proof
    let ?f = "flagsOfEntry (pte v a) OR PLATFORM_PAGE_PRESENT"
    assume "vmmPageFault v a access = Some (0, v')"
    then have s: "vmmServeFault v (pageBase a) ?f = Some (0, v')"
      using vmmPageFault_eq [OF inv heap_mappable [OF a(1)], of access] by (simp split: if_splits)
    obtain fa pm where al: "pmmAllocate (vm_pmm v) = Some (fa, pm)" using pool.alloc_returns [OF paging_invD(1) [OF inv]] by blast
    with s have nz: "fa \<noteq> 0" by (auto simp: vmmServeFault_def)
    have "pte (v\<lparr>vm_pmm := pm\<rparr>) (pageBase a) \<noteq> 0" using a(2) pte_path [of "pageBase a" a v] by simp
    from platformMapPage_mapped [OF paging_inv_alloc [OF inv al nz] _ this, of fa ?f] heap_mappable [OF a(1)] have "vm_pmm v' = pm"
      using s al nz by (auto simp: vmmServeFault_def)
    then show ?thesis using frames_alloc(1) [OF paging_invD(1) [OF inv] al] by simp
  qed simp
qed

lemma malloc_succeeds:
  assumes inv: "paging_inv (hp_vm h) lv" and fr: "heap_frontier (hp_vm h) f" and n: "n \<noteq> 0" "unat n \<le> 2 ^ 39"
    and room: "f + pages_of_request n * 4096 \<le> heap_top" and mem: "frames_of_request n \<le> frames (vm_pmm (hp_vm h))"
  shows "\<exists>p h'. malloc n h = Some (p, h') \<and> p \<noteq> 0 \<and> frames (vm_pmm (hp_vm h)) \<le> frames (vm_pmm (hp_vm h')) + frames_of_request n"
proof -
  let ?v = "hp_vm h" and ?c = "unat (heapPages n)"
  note hp = heapPages_room [OF n(2)]
  have room': "f + ?c * 4096 < heap_top" using room by (simp add: pages_of_request_def)
  let ?h = "pageBase KERNEL_HEAP_LIMIT - heapPages n * PAGE_SIZE"
  have cc: "unat (heapPages n * PAGE_SIZE) = ?c * 4096" using hp(2) by (simp add: layout_defs unat_word_ariths heap_top_def)
  then have e: "unat ?h + ?c * 4096 \<le> unat (pageBase KERNEL_HEAP_LIMIT)" using hp(2) heap_bounds(2) by (simp add: unat_sub word_le_nat_alt)
  have fit: "unat KERNEL_HEAP_BASE + ?c * 4096 \<le> unat (pageBase KERNEL_HEAP_LIMIT)" using hp(2) by (simp add: heap_bounds)
  from vmm_scan_maps [OF inv heap_region [unfolded heap_bounds(3)] pageBase_room e order_refl fit heap_find_room [OF fr hp(1) room'], of "lazyFlags VMM_WRITE"]
  have st: "KERNEL_HEAP_BASE \<le> of_nat f" "unat (of_nat f :: u64) + ?c * 4096 \<le> unat (pageBase KERNEL_HEAP_LIMIT)"
    and al: "vmmAllocate ?v KERNEL_HEAP_BASE KERNEL_HEAP_LIMIT (heapPages n) VMM_WRITE =
      do { (ok, v') \<leftarrow> vmm_map ?c ?v (of_nat f) (lazyFlags VMM_WRITE); Some (if ok then of_nat f else 0, v') }"
    by (simp_all add: vmmAllocate_def heap_bounds(3))
  have "3 * ?c \<le> frames (vm_pmm ?v)" using mem by (simp add: frames_of_request_def pages_of_request_def)
  from vmm_map_frames [OF inv _ this, of "of_nat f" "lazyFlags VMM_WRITE"] region_block [OF heap_region [unfolded heap_bounds(3)] st]
  obtain v1 where v1: "vmm_map ?c ?v (of_nat f) (lazyFlags VMM_WRITE) = Some (True, v1)" "frames (vm_pmm ?v) \<le> frames (vm_pmm v1) + 3 * ?c" by blast
  have al: "vmmAllocate ?v KERNEL_HEAP_BASE KERNEL_HEAP_LIMIT (heapPages n) VMM_WRITE = Some (of_nat f, v1)" using al v1(1) by simp
  have p0: "unat (of_nat f :: u64) = f" "in_heap (of_nat f)" "pageBase (of_nat f :: u64) = of_nat f" "(of_nat f :: u64) \<noteq> 0"
    using heap_page0 [OF fr] room' by auto
  from vmmAllocate_heap [OF inv fr n(2)] al p0(4) obtain lv1 where
    i1: "paging_inv v1 lv1" "heap_frontier v1 (f + ?c * 4096)" "pte v1 (of_nat f) = lazy_entry VMM_WRITE" by auto
  have "0 < frames (vm_pmm v1)" using v1(2) mem by (simp add: frames_of_request_def pages_of_request_def)
  then have "heapTouch VMM_PAGE_FAULT_WRITE 1 v1 (of_nat f) \<noteq> None"
    using heap_first_write [OF i1(1) p0(2) i1(3)] frames_alloc(2) [OF paging_invD(1) [OF i1(1)]] by blast
  then obtain v2 where t: "heapTouch VMM_PAGE_FAULT_WRITE 1 v1 (of_nat f) = Some v2" by blast
  have fr2: "frames (vm_pmm v1) \<le> frames (vm_pmm v2) + 1" using heapTouch_frames [OF i1(1) p0(2) _ t] i1(3) heap_entry(1) by simp
  have "\<exists>lv'. paging_inv v2 lv' \<and> heap_frontier v2 (f + ?c * 4096)"
    using heapTouch_frontier [OF t i1(1,2)] p0(1) fr hp(1) by (simp add: heap_frontier_def)
  then obtain lv2 where i2: "paging_inv v2 lv2" by blast
  let ?g = "of_nat f + heapPages n * PAGE_SIZE :: u64"
  have g: "?g = of_nat (f + ?c * 4096)" by (simp add: layout_defs)
  have "in_heap ?g" unfolding g using heap_page0 [of v1 "f + ?c * 4096"] i1(2) room' by simp
  from platformMapPage_frames [OF i2 heap_mappable [OF this], of 0 0] fr2 v1(2) mem obtain v3 where
    v3: "platformMapPage v2 ?g 0 0 = Some (canonical (pageBase ?g), v3)" "frames (vm_pmm v2) \<le> frames (vm_pmm v3) + 3"
    by (auto simp: frames_of_request_def pages_of_request_def)
  have "unat (of_nat f + 16 :: u64) = f + 16" using p0(1) room' by (simp add: unat_word_ariths heap_top_def)
  then have "(of_nat f + 16 :: u64) \<noteq> 0" by auto
  moreover have "f mod 4096 = 0" using fr by (simp add: heap_frontier_def)
  ultimately show ?thesis using malloc_unfold [OF n(1) al p0(4,3)] p0(1) t v3 fr2 v1(2)
    by (simp add: frames_of_request_def pages_of_request_def del: heapTouch.simps One_nat_def)
qed

lemma mallocs_succeed:
  assumes "heap_inv h f" "\<forall>n \<in> set ns. n \<noteq> 0 \<and> heap_size n"
    and "f + sum_list (map pages_of_request ns) * 4096 \<le> heap_top" "sum_list (map frames_of_request ns) \<le> frames (vm_pmm (hp_vm h))"
  shows "\<exists>ps h'. allocAll malloc ns h = Some (ps, h') \<and> 0 \<notin> set ps"
  using assms
proof (induction ns arbitrary: h f)
  case (Cons n ns)
  obtain lv where lv: "paging_inv (hp_vm h) lv" "heap_frontier (hp_vm h) f" using Cons.prems(1) by (auto simp: heap_inv_def)
  have n: "n \<noteq> 0" "unat n \<le> 2 ^ 39" using Cons.prems(2) by (auto simp: heap_size_def)
  have room: "f + pages_of_request n * 4096 + sum_list (map pages_of_request ns) * 4096 \<le> heap_top" using Cons.prems(3) by (simp add: algebra_simps)
  from malloc_succeeds [OF lv n] room Cons.prems(4) obtain p h1 where
    m: "malloc n h = Some (p, h1)" "p \<noteq> 0" "frames (vm_pmm (hp_vm h)) \<le> frames (vm_pmm (hp_vm h1)) + frames_of_request n" by auto
  from malloc_step [OF lv n] m(1) obtain f1 where f1: "heap_inv h1 f1" "f1 \<le> f + pages_of_request n * 4096"
    by (auto simp: heap_inv_def pages_of_request_def)
  from Cons.IH [OF f1(1)] Cons.prems(2,4) room f1(2) m(3) obtain ps h' where "allocAll malloc ns h1 = Some (ps, h')" "0 \<notin> set ps" by auto
  then show ?case using m by auto
qed simp

section \<open>The page tables of the kernel\<close>

lemma setupDirectories_frames:
  assumes "pmm_inv (vm_pmm v)" "n \<le> frames (vm_pmm v)"
  shows "\<exists>v'. setupDirectories n i D a v = Some (True, v') \<and> frames (vm_pmm v) \<le> frames (vm_pmm v') + n"
  using assms
proof (induction n arbitrary: i a v)
  case (Suc n)
  obtain pd pm where al: "pmmAllocate (vm_pmm v) = Some (pd, pm)" using pool.alloc_returns [OF Suc.prems(1)] by auto
  note fa = frames_alloc [OF Suc.prems(1) al] and inv = pool.alloc_inv [OF Suc.prems(1) al]
  let ?v = "fillDirectory 512 0 pd a (putEntry D (of_nat i) (pd OR PT_PAGE_PRESENT OR PT_PAGE_RW OR PT_PAGE_USER) (v\<lparr>vm_pmm := pm\<rparr>))"
  have pm: "vm_pmm ?v = pm" by (simp only: fillDirectory_other putEntry_other) simp
  have "n \<le> frames pm" using fa(1) Suc.prems(2) by simp
  from Suc.IH [of ?v "Suc i" "a + 512 * 0x200000"] inv this obtain v' where
    "setupDirectories n (Suc i) D (a + 512 * 0x200000) ?v = Some (True, v')" "frames pm \<le> frames (vm_pmm v') + n" unfolding pm by blast
  then show ?case using al fa Suc.prems(2) by (simp del: fillDirectory.simps)
qed simp

lemma vmmInit_frames:
  assumes inv: "pmm_inv (vm_pmm v)" and hi: "highestUsableAddress (pmmStat (vm_pmm v)) \<le> KERNEL_MMIO_LIMIT" and mem: "18 \<le> frames (vm_pmm v)"
  shows "\<exists>v' D. vmmInit True v = Some v' \<and> setup_inv v' (vm_cr3 v') D 16 \<and> frames (vm_pmm v) \<le> frames (vm_pmm v') + 18"
proof -
  obtain P pm1 where a1: "pmmAllocate (vm_pmm v) = Some (P, pm1)" using pool.alloc_returns [OF inv] by auto
  have inv1: "pmm_inv pm1" by (rule pool.alloc_inv [OF inv a1])
  obtain D pm2 where a2: "pmmAllocate pm1 = Some (D, pm2)" using pool.alloc_returns [OF inv1] by auto
  have inv2: "pmm_inv pm2" by (rule pool.alloc_inv [OF inv1 a2])
  note f1 = frames_alloc [OF inv a1] and f2 = frames_alloc [OF inv1 a2]
  let ?w = "putEntry P 256 (D OR PT_PAGE_PRESENT OR PT_PAGE_RW) (zeroPage D (zeroPage P (v\<lparr>vm_pmm := pm2\<rparr>)))"
  have w: "vm_pmm ?w = pm2" by simp
  have "16 \<le> frames pm2" using f1(1) f2(1) mem by simp
  from setupDirectories_frames [of ?w 16 0 D 0] inv2 this obtain v' where
    s: "setupDirectories 16 0 D 0 ?w = Some (True, v')" "frames pm2 \<le> frames (vm_pmm v') + 16" unfolding w by blast
  have m: "unat KERNEL_BASE_MAPPED = 16" by (simp add: layout_defs)
  have p: "platformPagingSetup True v = Some (0, v'\<lparr>vm_cr3 := P\<rparr>)"
    using a1 a2 f1 f2 mem s(1) by (auto simp: platformPagingSetup_def m)
  from platformPagingSetup_cases [OF inv hi] p obtain D' where "setup_inv (v'\<lparr>vm_cr3 := P\<rparr>) P D' 16" by auto
  then show ?thesis using p s(2) f1 f2 mem by (auto simp: vmmInit_def)
qed

lemma setup_heap:
  assumes "setup_inv v (vm_cr3 v) D n"
  shows "heap_inv \<lparr>hp_vm = v, hp_mem = b\<rparr> heap_base"
proof -
  have "pte v x = 0" if "in_heap x" for x
  proof -
    have "vm_mem v (slot (vm_cr3 v) (tableIndex 3 x)) = 0"
      using assms heap_mappable [OF that] tableIndex_less [of 3 x] by (auto simp: setup_inv_def mappable_def index_simps)
    then show ?thesis by (simp add: pte_def reach_3)
  qed
  then have "heap_frontier v heap_base" by (auto simp: heap_frontier_def in_heap_def heap_base_def heap_top_def)
  then show ?thesis using setup_paging_inv [OF assms] by (auto simp: heap_inv_def)
qed

section \<open>The physical pages after start-up\<close>

lemma pmmInitMarkContiguous_highest [simp]:
  "highestUsableAddress (pmmStat (pmmInitMarkContiguous s a c u)) = highestUsableAddress (pmmStat s)"
proof -
  have "highestUsableAddress (pmmStat (pmmInitMarkContiguous_loop n s a u)) = highestUsableAddress (pmmStat s)" for n
    by (induction n arbitrary: s a) (simp_all add: pmmInitMark_def Let_def)
  then show ?thesis by (simp add: pmmInitMarkContiguous_def)
qed

lemma fold_pmmInitEntry_highest:
  "\<forall>m \<in> set ms. mm_base m + mm_len m \<le> L \<Longrightarrow> highestUsableAddress (pmmStat s) \<le> L \<Longrightarrow>
   highestUsableAddress (pmmStat (fold pmmInitEntry ms s)) \<le> L"
proof (induction ms arbitrary: s)
  case (Cons m ms)
  have "mm_base m + mm_len m - 1 \<le> L" if "x < mm_base m + mm_len m" for x
  proof -
    have "unat (mm_base m + mm_len m - 1) = unat (mm_base m + mm_len m) - 1" using that by (auto simp: word_less_nat_alt unat_sub_if')
    moreover have "unat (mm_base m + mm_len m) \<le> unat L" using Cons.prems(1) by (simp add: word_le_nat_alt)
    ultimately show ?thesis by (simp add: word_le_nat_alt)
  qed
  then have "highestUsableAddress (pmmStat (pmmInitEntry m s)) \<le> L" using Cons.prems(2) by (auto simp: pmmInitEntry_def Let_def)
  then show ?case using Cons by simp
qed simp

lemma mark_run_highest [simp]: "highestUsableAddress (pmmStat (mark_run ps s)) = highestUsableAddress (pmmStat s)"
  by (induction ps arbitrary: s) simp_all

lemma pmmInit_inv:
  assumes "bootKernelPages boot \<noteq> 0" "\<forall>m \<in> set (boot_memoryMap boot). mm_base m + mm_len m \<le> KERNEL_MMIO_LIMIT"
  shows "pmm_inv (pmmInit mem boot)" "highestUsableAddress (pmmStat (pmmInit mem boot)) \<le> KERNEL_MMIO_LIMIT"
proof -
  show hi: "highestUsableAddress (pmmStat (pmmInit mem boot)) \<le> KERNEL_MMIO_LIMIT"
    using fold_pmmInitEntry_highest [OF assms(2)] by (simp add: pmmInit_def Let_def pmmMarkContiguous_snd)
  have "0 < unat (lowestUsableAddress (pmmStat (pmmInit mem boot)))" unfolding unat_lowest_pmmInit using assms(1) by (simp add: unat_gt_0)
  moreover have "unat (highestUsableAddress (pmmStat (pmmInit mem boot))) + 4096 \<le> 2 ^ 64"
    using hi by (simp add: word_le_nat_alt layout_defs)
  ultimately show "pmm_inv (pmmInit mem boot)" unfolding pmm_inv_def word_less_nat_alt unat_lowest_pmmInit by simp
qed

lemma frames_lower:
  assumes "pmm_inv s" and hi: "unat (lowestUsableAddress (pmmStat s)) + n * 4096 \<le> unat (highestUsableAddress (pmmStat s))"
    and free: "\<forall>k < n. \<not> page_used s ((lowestUsableAddress (pmmStat s) + of_nat k * PAGE_SIZE) div PAGE_SIZE)"
  shows "n \<le> frames s"
proof -
  let ?p = "\<lambda>k. lowestUsableAddress (pmmStat s) + of_nat k * PAGE_SIZE"
  have u: "unat (?p k) = unat (lowestUsableAddress (pmmStat s)) + k * 4096" if "k < n" for k
    using hi that u64_bound [of "highestUsableAddress (pmmStat s)"] by (intro unat_plus_pages) simp
  have "k < (unat (highestUsableAddress (pmmStat s)) - unat (lowestUsableAddress (pmmStat s)) + 4095) div 4096" if "k < n" for k
    using hi that by (simp add: Suc_le_eq [symmetric] less_eq_div_iff_mult_less_eq)
  then have "?p ` {..<n} \<subseteq> free_frames s" using free by (auto simp: free_frames_def page_steps_def)
  moreover have "inj_on ?p {..<n}" using u by (intro inj_onI) (metis add_left_cancel lessThan_iff mult_cancel2 zero_neq_numeral)
  moreover have "finite (free_frames s)" by (simp add: free_frames_def)
  ultimately show ?thesis using card_mono card_image by (metis card_lessThan frames_def)
qed

lemma boot_ex_frames: "25 \<le> frames (pmmInit (\<lambda>_. 0) boot_ex)"
proof -
  have k: "bootKernelPages boot_ex \<noteq> 0" by code_simp
  have m: "\<forall>m \<in> set (boot_memoryMap boot_ex). mm_base m + mm_len m \<le> KERNEL_MMIO_LIMIT" by code_simp
  have s: "lowestUsableAddress (pmmStat (pmmInit (\<lambda>_. 0) boot_ex)) = 0x2000" "highestUsableAddress (pmmStat (pmmInit (\<lambda>_. 0) boot_ex)) = 0x3FFFF" by code_simp+
  have "list_all (\<lambda>k. \<not> page_used (pmmInit (\<lambda>_. 0) boot_ex) ((0x2000 + of_nat k * PAGE_SIZE) div PAGE_SIZE)) [0..<25]" by code_simp
  then have free: "\<forall>k < 25. \<not> page_used (pmmInit (\<lambda>_. 0) boot_ex) ((0x2000 + of_nat k * PAGE_SIZE) div PAGE_SIZE)" unfolding list_all_iff by simp
  show ?thesis using free by (intro frames_lower [OF pmmInit_inv(1) [OF k m]]) (simp_all add: s)
qed

end
