(* ===== verification/Boot.thy ===== *)
theory Boot
  imports Servers Cpu Startup
begin

text \<open>
  The whole start of the kernel, \<open>platformMain()\<close> of \<^verbatim>\<open>platform/x86_64/main.c\<close>: the start-up functions of the components in their order, up to \<open>main()\<close>. The parameters of the
  components come together in \<open>surroundings\<close>: physical memory as the boot loader leaves it, the bytes where the page bitmap will be, the frame buffer, the memory that the terminal gets
  for its back buffer, the entry points in assembly code and of the two thread functions, and the random numbers. The two lines that are logged are left out. \<open>None\<close> is a machine that stops.
\<close>

section \<open>The entry point\<close>

record LoaderInfo = BootInfo +
  boot_width :: u16
  boot_height :: u16
  boot_bpp :: u8
  boot_framebuffer :: u64
  boot_pitch :: u32
  boot_arguments :: "u8 list"

record surroundings =
  sr_memory :: bytes
  sr_bitmap :: "u64 \<Rightarrow> u8"
  sr_screen :: "u8 list"
  sr_fresh :: "u8 list option"
  sr_exceptions :: "nat \<Rightarrow> u64"
  sr_random :: "nat \<Rightarrow> int list"
  sr_kernelThread :: u64
  sr_idleThread :: u64

definition MSR_EFER_NX_ENABLE :: u64 where "MSR_EFER_NX_ENABLE = 0x800"

text \<open>\<open>vmmInit()\<close> on the machine: \<open>platformPagingSetup()\<close> also asks for and enables no-execute pages, and remembers the root of the tables.\<close>

definition hasNX :: "hardware \<Rightarrow> bool" where
  "hasNX hw \<longleftrightarrow> bit (r_edx (hw_cpuid hw 0x80000001)) 20"

definition startPaging :: "hardware \<Rightarrow> pmm \<Rightarrow> machine \<Rightarrow> machine option" where
  "startPaging hw pm m =
     do { v \<leftarrow> vmmInit (hasNX hw) ((m_vm m)\<lparr>vm_pmm := pm\<rparr>);
          Some (writeMSR MSR_EFER (m_msr m MSR_EFER OR MSR_EFER_NX_ENABLE) (m\<lparr>m_vm := v, m_pagingRoot := vm_cr3 v\<rparr>)) }"

text \<open>The string in a zero-terminated array.\<close>

definition cstring :: "u8 list \<Rightarrow> string" where
  "cstring bs = map (\<lambda>b. char_of (unat b)) (takeWhile (\<lambda>b. b \<noteq> 0) bs)"

definition platformMain :: "surroundings \<Rightarrow> hardware \<Rightarrow> image \<Rightarrow> LoaderInfo \<Rightarrow> machine \<Rightarrow> kernel
    \<Rightarrow> (tty \<times> acpi \<times> modules \<times> string list \<times> machine \<times> kernel) option" where
  "platformMain sr hw im boot m k =
     do { quiet \<leftarrow> quietRequested (boot_arguments boot);
          let k1 = (if quiet then loggerSetVerbose False k else k);
          let (model, m1) = platformCPUSetup hw im m;
          t \<leftarrow> ttyInit (boot_width boot) (boot_height boot) (boot_bpp boot) (boot_pitch boot) (sr_screen sr);
          let m2 = m1\<lparr>m_apic := installExceptions (sr_exceptions sr) (m_apic m1)\<rparr>;
          let pm = pmmInit (sr_bitmap sr) (KernelBootInfo.truncate boot);
          m3 \<leftarrow> startPaging hw pm m2;
          t1 \<leftarrow> ttyCreateBackbuffer (sr_fresh sr) t;
          (_, s) \<leftarrow> acpiInit (sr_memory sr) (boot_acpiRSDP boot) acpi_start;
          (_, m4) \<leftarrow> apicInit hw im (sr_memory sr) s m3;
          let k2 = platformInitialSeed (of_nat (platformCountCPU (m_apic m4))) k1;
          disk \<leftarrow> ramdiskInit (sr_memory sr) (BootInfo.truncate boot);
          mods \<leftarrow> modulesInit (sr_memory sr) (BootInfo.truncate boot) modules_start;
          (argc, argv) \<leftarrow> parseBootArgs (cstring (boot_arguments boot));
          let k3 = k2\<lparr>k_vm := m_vm m4, k_apic := m_apic m4, k_pagingRoot := m_pagingRoot m4, k_ramdisk := disk, k_cpuModel := cstring model,
            k_tty := \<lparr>tty_w = boot_width boot, tty_h = boot_height boot, tty_bpp = boot_bpp boot, tty_pitch = boot_pitch boot, tty_fbhw = boot_framebuffer boot\<rparr>\<rparr>;
          k4 \<leftarrow> main (sr_random sr) (sr_kernelThread sr) (sr_idleThread sr) k3;
          Some (t1, s, mods, argv, m4, k4) }"

section \<open>Specification vocabulary\<close>

definition queued_thread :: "kernel \<Rightarrow> ptr \<Rightarrow> u64 \<Rightarrow> bool" where
  "queued_thread k p e \<longleftrightarrow> (\<exists>x t y. k_proc k p = Some x \<and> pr_threads x = [t] \<and> k_thread k t = Some y \<and>
     th_status y = THREAD_QUEUED \<and> cx_rip (th_context y) = e \<and> th_next y = 0 \<and> t \<noteq> 0 \<and> t < k_fresh k \<and> p < k_fresh k)"

definition used_pids :: "kernel \<Rightarrow> int set" where
  "used_pids k = {q. 0 \<le> q \<and> q < MAX_PID \<and> pidIsUsed k q}"

text \<open>A kernel in which threads with the entry points \<open>es\<close> were created, each in a process of its own.\<close>

definition starting :: "kernel \<Rightarrow> u64 list \<Rightarrow> bool" where
  "starting k es \<longleftrightarrow> \<not> k_lock k \<and> k_oom k = (\<lambda>_. False) \<and> k_fresh k \<noteq> 0 \<and> list_all2 (queued_thread k) (k_list k) es \<and>
     k_processes k = int (length es) \<and> k_threads k = int (length es) \<and> 0 \<in> used_pids k \<and> card (used_pids k) \<le> length es + 1 \<and>
     (\<exists>lv. paging_inv (k_vm k) lv) \<and> k_pagingRoot k < KERNEL_MMIO_LIMIT"

definition same_thread :: "Thread \<Rightarrow> Thread \<Rightarrow> bool" where
  "same_thread y y' \<longleftrightarrow> th_status y' = th_status y \<and> th_context y' = th_context y \<and> th_next y' = th_next y"

definition sliced :: "kernel \<Rightarrow> kernel \<Rightarrow> bool" where
  "sliced k k' \<longleftrightarrow> (\<exists>m. k' = k\<lparr>k_thread := m\<rparr> \<and> (\<forall>t. rel_option same_thread (k_thread k t) (m t)))"

definition created :: "int \<Rightarrow> ThreadContext \<Rightarrow> vm \<Rightarrow> kernel \<Rightarrow> kernel" where
  "created tid c v k =
     k\<lparr>k_lock := True, k_pidBitmap := k_pidBitmap (markPid tid k),
       k_list := (if k_processes k = 0 then [k_fresh k] else k_list k @ [k_fresh k]),
       k_proc := (k_proc k)(k_fresh k \<mapsto> process0\<lparr>pr_pid := tid, pr_command := ''kernel'', pr_threads := [k_fresh k + 2]\<rparr>),
       k_vm := v, k_fresh := Suc (Suc (Suc (Suc (Suc (k_fresh k))))),
       k_thread := (k_thread k)(k_fresh k + 2 \<mapsto> thread0\<lparr>th_pid := tid, th_tid := tid, th_context := c\<rparr>),
       k_processes := k_processes k + 1, k_threads := k_threads k + 1\<rparr>"

definition surroundings_ex :: surroundings where
  "surroundings_ex = \<lparr>sr_memory = (\<lambda>_. 0), sr_bitmap = (\<lambda>_. 0), sr_screen = replicate 64 0, sr_fresh = Some (replicate 64 0), sr_exceptions = (\<lambda>_. 0x1000),
     sr_random = (\<lambda>_. [1, 2, 3]), sr_kernelThread = 0x2000, sr_idleThread = 0x3000\<rparr>"

definition loader_ex :: LoaderInfo where
  "loader_ex = \<lparr>boot_highestPhysicalAddress = 0x40000,
     boot_memoryMap = [\<lparr>mm_base = 0, mm_len = 0x40000, mm_type = 1, mm_acpiAttributes = 1\<rparr>], boot_lowestFreeMemory = 0x1000,
     boot_acpiRSDP = 0xE0000, boot_ramdisk = 0, boot_ramdiskSize = 0, boot_moduleCount = 0, boot_modules = replicate 16 0, boot_moduleSizes = replicate 16 0,
     boot_width = 4, boot_height = 4, boot_bpp = 32, boot_framebuffer = 0xFD000000, boot_pitch = 16, boot_arguments = replicate 256 0\<rparr>"

section \<open>Creating kernel threads\<close>

lemma sliced_refl: "sliced k k"
  unfolding sliced_def by (intro exI [of _ "k_thread k"]) (simp add: same_thread_def option.rel_refl)

lemma sliced_trans: "sliced k k1 \<Longrightarrow> sliced k1 k2 \<Longrightarrow> sliced k k2"
proof -
  assume "sliced k k1" "sliced k1 k2"
  then obtain m1 m2 where m: "k1 = k\<lparr>k_thread := m1\<rparr>" "\<And>t. rel_option same_thread (k_thread k t) (m1 t)"
    "k2 = k1\<lparr>k_thread := m2\<rparr>" "\<And>t. rel_option same_thread (m1 t) (m2 t)" by (auto simp: sliced_def)
  have "rel_option same_thread (k_thread k t) (m2 t)" for t
    using m(2,4) [of t] by (cases "k_thread k t"; cases "m1 t"; cases "m2 t") (auto simp: same_thread_def)
  then show ?thesis using m unfolding sliced_def by (intro exI [of _ m2]) simp
qed

lemma sliced_queued: "sliced k k' \<Longrightarrow> queued_thread k p e \<Longrightarrow> queued_thread k' p e"
proof -
  assume s: "sliced k k'" and "queued_thread k p e"
  then obtain x t y where q: "k_proc k p = Some x" "pr_threads x = [t]" "k_thread k t = Some y" "th_status y = THREAD_QUEUED" "cx_rip (th_context y) = e" "th_next y = 0"
      "t \<noteq> 0" "t < k_fresh k" "p < k_fresh k" unfolding queued_thread_def by blast
  obtain m where m: "k' = k\<lparr>k_thread := m\<rparr>" "rel_option same_thread (k_thread k t) (m t)" using s unfolding sliced_def by blast
  from m(2) q(3) obtain y' where "m t = Some y'" "same_thread y y'" by (cases "m t") auto
  then show ?thesis using q m(1) unfolding queued_thread_def same_thread_def by (intro exI [of _ x] exI [of _ t] exI [of _ y']) simp
qed

lemma resetTime_sliced: "k_thread k t = Some y \<Longrightarrow> \<exists>k'. resetTime t k = Some k' \<and> sliced k k'"
  unfolding sliced_def
  by (auto simp: resetTime_ok with_slice_def Let_def same_thread_def option.rel_refl intro!: exI [of _ "(k_thread k)(t \<mapsto> with_slice y)"])

lemma adjust_processes_sliced:
  "list_all2 (queued_thread k) ps es \<Longrightarrow> \<exists>k'. adjust_processes ps k = Some k' \<and> sliced k k'"
proof (induction ps arbitrary: k es)
  case (Cons p ps)
  then obtain e es' where q: "queued_thread k p e" and r: "list_all2 (queued_thread k) ps es'" by (auto simp: list_all2_Cons1)
  obtain x t y where t: "k_proc k p = Some x" "pr_threads x = [t]" "k_thread k t = Some y" "th_status y = THREAD_QUEUED" "th_next y = 0" "t \<noteq> 0"
    using q by (auto simp: queued_thread_def)
  obtain k1 where k1: "resetTime t k = Some k1" "sliced k k1" using resetTime_sliced [OF t(3)] by blast
  have "threadChain k t = Some [t]" using t by (simp add: threadChain.simps [of k t] threadChain.simps [of k 0])
  then have "adjust_processes (p # ps) k = adjust_processes ps k1" using t k1(1) by simp
  moreover have "list_all2 (queued_thread k1) ps es'" using r sliced_queued [OF k1(2)] by (rule list_all2_mono)
  ultimately show ?case using Cons.IH sliced_trans [OF k1(2)] by metis
qed (use sliced_refl in auto)

lemma kthreadCreate_eq:
  assumes k: "\<not> k_lock k" "k_oom k = (\<lambda>_. False)" "k_fresh k \<noteq> 0" "k_processes k \<noteq> 0 \<longrightarrow> k_list k \<noteq> []"
    and pid: "k_processes k < MAX_PID" "k_threads k < MAX_PID" "pickPid rs k = Some tid" "tid \<noteq> 0"
    and sp: "platformCloneKernelSpace (k_pagingRoot k) (k_vm k) = Some (space, v)"
  shows "\<exists>c. cx_rip c = start \<and> kthreadCreate rs start arg k = do { k' \<leftarrow> schedAdjustTimeslice (created tid c v k); Some (tid, schedRelease k') }"
proof -
  have p: "pickPid rs (k\<lparr>k_lock := True\<rparr>) = Some tid" using pid(3) by (simp add: pickPid_first pidIsUsed_def)
  define c where "c = context0\<lparr>cx_rip := start, cx_rdi := arg, cx_rflags := 0x202, cx_cr3 := space - KERNEL_BASE_ADDRESS,
    cx_ioports := (\<lambda>i. if i < 8192 then 0xFF else 0), cx_cs := push_bit 3 GDT_KERNEL_CODE, cx_ss := push_bit 3 GDT_KERNEL_DATA,
    cx_rsp := 4 + of_nat (k_fresh k) + PLATFORM_THREAD_STACK\<rparr>"
  have "kthreadCreate rs start arg k = do { k' \<leftarrow> schedAdjustTimeslice (created tid c v k); Some (tid, schedRelease k') }"
    using k pid p sp
    by (simp add: kthreadCreate_def schedLock_def allocatePid_def kalloc_def platformCreateContext_def upd_proc_def upd_thread_def markPid_def Let_def
        created_def c_def)
  moreover have "cx_rip c = start" by (simp add: c_def)
  ultimately show ?thesis by blast
qed

lemma finite_used_pids [simp]: "finite (used_pids k)"
  by (rule finite_subset [of _ "{0..<MAX_PID}"]) (auto simp: used_pids_def)

lemma pickPid_unused:
  assumes "card (used_pids k) < card ((\<lambda>r. r mod MAX_PID) ` set rs)" "0 \<in> used_pids k"
  shows "\<exists>pid. pickPid rs k = Some pid \<and> 0 < pid \<and> pid < MAX_PID \<and> pid \<notin> used_pids k"
proof -
  have "\<not> (\<lambda>r. r mod MAX_PID) ` set rs \<subseteq> used_pids k" using assms(1) card_mono [OF finite_used_pids, of _ k] by (metis not_le)
  then obtain r where r: "r \<in> set rs" "r mod MAX_PID \<notin> used_pids k" by blast
  then have "\<not> pidIsUsed k (r mod MAX_PID)" by (auto simp: used_pids_def MAX_PID_def)
  then obtain pid where p: "pickPid rs k = Some pid" "\<not> pidIsUsed k pid" "pid \<in> (\<lambda>r. r mod MAX_PID) ` set rs"
    using find_some [of "map (\<lambda>r. r mod MAX_PID) rs" "\<lambda>pid. \<not> pidIsUsed k pid"] r(1) by (auto simp: pickPid_first)
  then have "0 \<le> pid" "pid < MAX_PID" by (auto simp: MAX_PID_def)
  moreover have "pid \<notin> used_pids k" using p(2) by (simp add: used_pids_def)
  moreover have "pid \<noteq> 0" using calculation assms(2) by auto
  ultimately show ?thesis using p(1) by auto
qed

lemma kthreadCreate_step:
  assumes s: "starting k es" and n: "int (length es) < MAX_PID" and rs: "length es + 1 < card ((\<lambda>r. r mod MAX_PID) ` set rs)"
  shows "\<exists>tid k'. kthreadCreate rs start arg k = Some (tid, k') \<and> starting k' (es @ [start]) \<and> k_apic k' = k_apic k"
proof -
  have k: "\<not> k_lock k" "k_oom k = (\<lambda>_. False)" "k_fresh k \<noteq> 0" "list_all2 (queued_thread k) (k_list k) es" "k_processes k = int (length es)"
    "k_threads k = int (length es)" "0 \<in> used_pids k" "card (used_pids k) \<le> length es + 1" "k_pagingRoot k < KERNEL_MMIO_LIMIT"
    using s by (auto simp: starting_def)
  obtain lv where lv: "paging_inv (k_vm k) lv" using s by (auto simp: starting_def)
  have ne: "k_processes k \<noteq> 0 \<longrightarrow> k_list k \<noteq> []" using k(4,5) by auto
  obtain tid where tid: "pickPid rs k = Some tid" "0 < tid" "tid < MAX_PID" "tid \<notin> used_pids k"
    using pickPid_unused [of k rs] k(7,8) rs by auto
  from platformCloneKernelSpace_copies [OF lv k(9)] lv obtain space v where
    sp: "platformCloneKernelSpace (k_pagingRoot k) (k_vm k) = Some (space, v)" "paging_inv v lv" by blast
  from kthreadCreate_eq [OF k(1-3) ne _ _ tid(1) _ sp(1), of start arg] tid(2) n k(5,6) obtain c where
    c: "cx_rip c = start" "kthreadCreate rs start arg k = do { k' \<leftarrow> schedAdjustTimeslice (created tid c v k); Some (tid, schedRelease k') }" by auto
  let ?k = "created tid c v k" and ?p = "k_fresh k"
  have lst: "k_list ?k = k_list k @ [?p]" using k(4,5) by (auto simp: created_def)
  have old: "queued_thread ?k q e" if q: "queued_thread k q e" for q e
  proof -
    obtain x t y where q: "k_proc k q = Some x" "pr_threads x = [t]" "k_thread k t = Some y" "th_status y = THREAD_QUEUED" "cx_rip (th_context y) = e" "th_next y = 0"
      "t \<noteq> 0" "t < k_fresh k" "q < k_fresh k" using q unfolding queued_thread_def by blast
    then show ?thesis unfolding queued_thread_def created_def by (intro exI [of _ x] exI [of _ t] exI [of _ y]) simp
  qed
  have new: "queued_thread ?k ?p start" unfolding queued_thread_def created_def using c(1) by (simp add: thread0_def)
  have all: "list_all2 (queued_thread ?k) (k_list ?k) (es @ [start])"
    unfolding lst using list_all2_mono [OF k(4) old] new by (simp add: list_all2_appendI)
  from adjust_processes_sliced [OF all] obtain k1 where k1: "adjust_processes (k_list ?k) ?k = Some k1" "sliced ?k k1" by blast
  have "schedAdjustTimeslice ?k = Some k1"
    using k1(1) all by (cases "k_list ?k") (auto simp: schedAdjustTimeslice_def queued_thread_def list_all2_Cons1)
  then have r: "kthreadCreate rs start arg k = Some (tid, schedRelease k1)" using c(2) by simp
  obtain m where m: "k1 = ?k\<lparr>k_thread := m\<rparr>" and same: "\<forall>t. rel_option same_thread (k_thread ?k t) (m t)" using k1(2) by (auto simp: sliced_def)
  have "schedRelease k1 = (schedRelease ?k)\<lparr>k_thread := m\<rparr>" unfolding m schedRelease_def by (rule kernel.equality) simp_all
  then have "sliced (schedRelease ?k) (schedRelease k1)" unfolding sliced_def using same by (intro exI [of _ m]) (simp add: schedRelease_def)
  then have q: "queued_thread (schedRelease k1) q e" if "queued_thread ?k q e" for q e
    using that sliced_queued [of "schedRelease ?k" "schedRelease k1"] by (simp add: queued_thread_def schedRelease_def)
  have "list_all2 (queued_thread (schedRelease k1)) (k_list (schedRelease k1)) (es @ [start])"
    using list_all2_mono [OF all q] by (simp add: m schedRelease_def)
  moreover have "pidIsUsed (schedRelease k1) q = pidIsUsed (markPid tid k) q" for q by (simp add: pidIsUsed_def m schedRelease_def created_def)
  then have u: "used_pids (schedRelease k1) = insert tid (used_pids k)" using tid(2,3) pidIsUsed_mark [of tid _ k] by (auto simp: used_pids_def)
  ultimately have "starting (schedRelease k1) (es @ [start])"
    unfolding starting_def u using k tid(4) sp(2) by (auto simp: m schedRelease_def created_def)
  moreover have "k_apic (schedRelease k1) = k_apic k" by (simp add: m schedRelease_def created_def)
  ultimately show ?thesis using r by blast
qed

section \<open>Start of the system\<close>

lemma createIdle_starts:
  assumes "starting k es" "int (length es + n) \<le> MAX_PID" "\<forall>i \<in> {1..n}. length es + n < card ((\<lambda>r. r mod MAX_PID) ` set (rs i))"
  shows "\<exists>k'. createIdle rs start n k = Some k' \<and> starting k' (es @ replicate n start)"
  using assms
proof (induction n arbitrary: k es)
  case (Suc n)
  have "length es + Suc n < card ((\<lambda>r. r mod MAX_PID) ` set (rs (Suc n)))" using Suc.prems(3) by simp
  then have "length es + 1 < card ((\<lambda>r. r mod MAX_PID) ` set (rs (Suc n)))" by simp
  from kthreadCreate_step [OF Suc.prems(1) _ this, of start 0] Suc.prems(2) obtain tid k1 where
    k1: "kthreadCreate (rs (Suc n)) start 0 k = Some (tid, k1)" "starting k1 (es @ [start])" by auto
  from Suc.IH [OF k1(2)] Suc.prems(2,3) obtain k' where "createIdle rs start n k1 = Some k'" "starting k' ((es @ [start]) @ replicate n start)" by auto
  then show ?case using k1(1) by auto
qed simp

lemma starting_scheduled:
  assumes "starting k es"
  shows "k_scheduling (setScheduling True k)" "\<not> k_lock (setScheduling True k)" "k_processes (setScheduling True k) = int (length es)"
    "list_all2 (queued_thread (setScheduling True k)) (k_list (setScheduling True k)) es"
proof -
  have "list_all2 (queued_thread (setScheduling True k)) (k_list k) es"
    using assms list_all2_mono [of "queued_thread k" "k_list k" es "queued_thread (setScheduling True k)"]
    unfolding starting_def by (auto simp: queued_thread_def setScheduling_def)
  then show "list_all2 (queued_thread (setScheduling True k)) (k_list (setScheduling True k)) es" by (simp add: setScheduling_def)
qed (use assms in \<open>simp_all add: starting_def setScheduling_def\<close>)

lemma main_starts:
  assumes "\<not> k_lock k" "k_oom k = (\<lambda>_. False)" "k_fresh k \<noteq> 0" "paging_inv (k_vm k) lv" "k_pagingRoot k < KERNEL_MMIO_LIMIT"
    and "platformCountCPU (k_apic k) = n" "int n < MAX_PID" "\<forall>i \<le> n. n + 1 < card ((\<lambda>r. r mod MAX_PID) ` set (rs i))"
  shows "\<exists>k'. Servers.main rs kernelEntry idleEntry k = Some (setScheduling True k') \<and> starting k' (kernelEntry # replicate n idleEntry)"
proof -
  let ?k2 = "k\<lparr>k_fresh := k_fresh k + 2, k_sockets := (\<lambda>_. 0), k_socketCount := 0, k_pidBitmap := (\<lambda>_. 0)(0 := 1), k_processes := 0, k_threads := 0, k_list := []\<rparr>"
  have init: "do { k1 \<leftarrow> socketInit k; schedInit k1 } = Some ?k2"
    using assms(2,3) by (simp add: socketInit_def schedInit_def kalloc_def Let_def)
  have "used_pids ?k2 = {0}"
    by (auto simp: used_pids_def pidIsUsed_bit MAX_PID_def bit_1_iff nat_byte_bit [of _ 0] split: if_splits)
  then have s: "starting ?k2 []" using assms(1-5) by (auto simp: starting_def)
  have "length ([] :: u64 list) + 1 < card ((\<lambda>r. r mod MAX_PID) ` set (rs 0))" using assms(8) by (auto simp: Suc_lessD)
  from kthreadCreate_step [OF s _ this, of kernelEntry 0] obtain tid k3 where
    k3: "kthreadCreate (rs 0) kernelEntry 0 ?k2 = Some (tid, k3)" "starting k3 [kernelEntry]" "k_apic k3 = k_apic k" by (auto simp: MAX_PID_def)
  from createIdle_starts [OF k3(2), of n rs idleEntry] assms(7,8) obtain k4 where
    k4: "createIdle rs idleEntry n k3 = Some k4" "starting k4 (kernelEntry # replicate n idleEntry)" by auto
  obtain k1 where k1: "socketInit k = Some k1" "schedInit k1 = Some ?k2" using init by (auto split: Option.bind_splits)
  have "Servers.main rs kernelEntry idleEntry k = Some (setScheduling True k4)"
    using k1 k3(1,3) k4(1) assms(6) by (simp add: main_def)
  with k4(2) show ?thesis by blast
qed

text \<open>
  C13: \<open>main()\<close> gets the system going. On a machine with \<open>n\<close> processors, if memory lasts and the random numbers of each draw have more than \<open>n + 1\<close> different values,
  \<open>main()\<close> switches the scheduler on with \<open>n + 1\<close> processes, the kernel's first and one idle process per processor, each with a single thread that waits for a processor at its entry point;
  the scheduler lock is free.
\<close>

theorem main_starts_threads:
  assumes "\<not> k_lock k" "k_oom k = (\<lambda>_. False)" "k_fresh k \<noteq> 0" "paging_inv (k_vm k) lv" "k_pagingRoot k < KERNEL_MMIO_LIMIT"
    and "platformCountCPU (k_apic k) = n" "int n < MAX_PID" "\<forall>i \<le> n. n + 1 < card ((\<lambda>r. r mod MAX_PID) ` set (rs i))"
  shows "\<exists>k'. Servers.main rs kernelEntry idleEntry k = Some k' \<and> k_scheduling k' \<and> \<not> k_lock k' \<and> k_processes k' = int n + 1 \<and>
    list_all2 (queued_thread k') (k_list k') (kernelEntry # replicate n idleEntry)"
proof -
  obtain k4 where k4: "Servers.main rs kernelEntry idleEntry k = Some (setScheduling True k4)" "starting k4 (kernelEntry # replicate n idleEntry)"
    using main_starts [OF assms] by blast
  then show ?thesis using starting_scheduled [OF k4(2)] by simp
qed

section \<open>When start-up stops\<close>

lemma setupDirectories_needs:
  assumes "pmm_inv (vm_pmm v)" "setupDirectories n i D a v = Some (True, v')"
  shows "n \<le> frames (vm_pmm v)"
  using assms
proof (induction n arbitrary: i a v)
  case (Suc n)
  obtain pd pm where al: "pmmAllocate (vm_pmm v) = Some (pd, pm)" using pool.alloc_returns [OF Suc.prems(1)] by auto
  let ?v = "fillDirectory 512 0 pd a (putEntry D (of_nat i) (pd OR PT_PAGE_PRESENT OR PT_PAGE_RW OR PT_PAGE_USER) (v\<lparr>vm_pmm := pm\<rparr>))"
  have pm: "vm_pmm ?v = pm" by (simp only: fillDirectory_other putEntry_other) simp
  have pd: "pd \<noteq> 0" and r: "setupDirectories n (Suc i) D (a + 512 * 0x200000) ?v = Some (True, v')"
    using Suc.prems(2) al by (auto split: if_splits simp del: fillDirectory.simps)
  have "n \<le> frames pm" using Suc.IH [OF _ r] pool.alloc_inv [OF Suc.prems(1) al] unfolding pm by blast
  moreover have "frames (vm_pmm v) \<noteq> 0" using frames_zero [OF Suc.prems(1) al] pd by blast
  ultimately show ?case using frames_alloc(1) [OF Suc.prems(1) al] by simp
qed simp

lemma vmmInit_needs:
  assumes inv: "pmm_inv (vm_pmm v)" and r: "vmmInit nx v = Some v'"
  shows "nx" "18 \<le> frames (vm_pmm v)"
proof -
  show nx: nx using r by (auto simp: vmmInit_def platformPagingSetup_def split: if_splits)
  obtain P pm1 where a1: "pmmAllocate (vm_pmm v) = Some (P, pm1)" using pool.alloc_returns [OF inv] by auto
  have inv1: "pmm_inv pm1" by (rule pool.alloc_inv [OF inv a1])
  obtain D pm2 where a2: "pmmAllocate pm1 = Some (D, pm2)" using pool.alloc_returns [OF inv1] by auto
  have inv2: "pmm_inv pm2" by (rule pool.alloc_inv [OF inv1 a2])
  let ?w = "putEntry P 256 (D OR PT_PAGE_PRESENT OR PT_PAGE_RW) (zeroPage D (zeroPage P (v\<lparr>vm_pmm := pm2\<rparr>)))"
  have m: "unat KERNEL_BASE_MAPPED = 16" by (simp add: layout_defs)
  have nz: "P \<noteq> 0" "D \<noteq> 0" and s: "\<exists>w. setupDirectories 16 0 D 0 ?w = Some (True, w)"
    using r a1 a2 nx by (auto simp: vmmInit_def platformPagingSetup_def m split: if_splits Option.bind_splits)
  have "16 \<le> frames pm2" using s setupDirectories_needs [of ?w] inv2 by auto
  moreover have "frames (vm_pmm v) \<noteq> 0" "frames pm1 \<noteq> 0" using frames_zero [OF inv a1] frames_zero [OF inv1 a2] nz by blast+
  ultimately show "18 \<le> frames (vm_pmm v)" using frames_alloc(1) [OF inv a1] frames_alloc(1) [OF inv1 a2] by simp
qed

text \<open>
  C38: start-up stops, and does not go on with a machine it cannot run on, when the processor has no no-execute pages, no access to the segment bases or no system call instruction, when fewer than
  18 physical pages are free, when the terminal gets no memory, or when the firmware has no description of the interrupt controllers.
\<close>

theorem platformMain_stops:
  assumes "\<not> hasNX hw \<or> \<not> bit (r_ebx (hw_cpuid hw 7)) 0 \<or> \<not> bit (r_edx (hw_cpuid hw 0x80000001)) 11 \<or> sr_fresh sr = None \<or>
     pmm_inv (pmmInit (sr_bitmap sr) (KernelBootInfo.truncate boot)) \<and> frames (pmmInit (sr_bitmap sr) (KernelBootInfo.truncate boot)) < 18 \<or>
     (\<forall>r s. acpiInit (sr_memory sr) (boot_acpiRSDP boot) acpi_start = Some (r, s) \<longrightarrow> acpiFindTable (sr_memory sr) s (map of_char ''APIC'') 0 = Some 0)"
  shows "platformMain sr hw im boot m k = None"
proof (rule ccontr)
  let ?pm = "pmmInit (sr_bitmap sr) (KernelBootInfo.truncate boot)"
  assume "platformMain sr hw im boot m k \<noteq> None"
  then obtain m2 m3 t t1 r s r' m4 where p: "startPaging hw ?pm m2 = Some m3" "ttyCreateBackbuffer (sr_fresh sr) t = Some t1"
    "acpiInit (sr_memory sr) (boot_acpiRSDP boot) acpi_start = Some (r, s)" "apicInit hw im (sr_memory sr) s m3 = Some (r', m4)"
    unfolding platformMain_def by (auto simp: Let_def split_beta split: Option.bind_splits)
  obtain v where "vmmInit (hasNX hw) ((m_vm m2)\<lparr>vm_pmm := ?pm\<rparr>) = Some v" using p(1) by (auto simp: startPaging_def split: Option.bind_splits)
  from vmmInit_needs [OF _ this] have "pmm_inv ?pm \<Longrightarrow> 18 \<le> frames ?pm" by simp
  moreover have "hasNX hw" using \<open>vmmInit (hasNX hw) _ = Some v\<close> by (auto simp: vmmInit_def platformPagingSetup_def split: if_splits)
  moreover have "bit (r_ebx (hw_cpuid hw 7)) 0 \<and> bit (r_edx (hw_cpuid hw 0x80000001)) 11 \<and> acpiFindTable (sr_memory sr) s (map of_char ''APIC'') 0 \<noteq> Some 0"
    using p(4) unfolding apicInit_def by (auto split: if_splits Option.bind_splits)
  moreover have "sr_fresh sr \<noteq> None" using p(2) by (auto simp: ttyCreateBackbuffer_def split: Option.bind_splits)
  ultimately show False using assms p(3) by auto
qed

theorem main_starts_threads_witness:
  "\<exists>k'. Servers.main (\<lambda>_. [1, 2, 3]) 0x1000 0x2000 kernel0 = Some k' \<and> k_scheduling k' \<and> k_processes k' = 2"
proof -
  have r: "(0 :: u64) < KERNEL_MMIO_LIMIT" by (simp add: layout_defs)
  have c: "card ((\<lambda>r. r mod MAX_PID) ` set [1, 2, 3]) = 3" by (simp add: MAX_PID_def)
  from main_starts_threads [where k = kernel0 and lv = "[0x1000 \<mapsto> 3]" and n = 1 and rs = "\<lambda>_. [1, 2, 3]" and kernelEntry = "0x1000" and idleEntry = "0x2000"] vm_ex_inv r c show ?thesis
    by (auto simp: kernel0_def platformCountCPU_def apic0_def MAX_PID_def)
qed

theorem platformMain_stops_witness:
  "platformMain surroundings_ex (hardware_ex\<lparr>hw_cpuid := (\<lambda>_. \<lparr>r_eax = 0, r_ebx = 0, r_ecx = 0, r_edx = 0\<rparr>)\<rparr>) image_ex loader_ex machine_ex kernel0 = None"
  by (rule platformMain_stops) (simp add: hasNX_def)

end
