(* ===== verification/Bringup.thy ===== *)
theory Bringup
  imports Boot
begin

text \<open>
  A complete start of the kernel. On a machine with one processor whose firmware, boot loader and devices keep to their formats, \<open>platformMain()\<close> runs through all components and
  ends in \<open>main()\<close> with the scheduler on. The premises are those of the single components, collected in \<open>suitable\<close>.
\<close>

section \<open>Specification vocabulary\<close>

text \<open>A MADT table with the entries \<open>es\<close> at a physical address, and the processors it lists as enabled.\<close>

definition madt_at :: "bytes \<Rightarrow> u64 \<Rightarrow> madt_entry list \<Rightarrow> bool" where
  "madt_at M a es \<longleftrightarrow> (let n = 44 + length (concat (map madt_bytes es)) in
     in_window a n \<and> number_at M (a + 4) 4 = of_nat n \<and> drop 44 (bytes_at M a n) = concat (map madt_bytes es) \<and> list_all madt_valid es)"

fun enabled_cpus :: "u8 \<Rightarrow> madt_entry list \<Rightarrow> PlatformCPU list" where
  "enabled_cpus bsp [] = []"
| "enabled_cpus bsp (LocalApic proc i True # es) = \<lparr>cpu_procID = proc, cpu_apicID = i, cpu_bootCPU = (i = bsp), cpu_running = (i = bsp)\<rparr> # enabled_cpus bsp es"
| "enabled_cpus bsp (e # es) = enabled_cpus bsp es"

fun is_ioapic :: "madt_entry \<Rightarrow> bool" where
  "is_ioapic (IoApic i base gsi) = True"
| "is_ioapic e = False"

text \<open>The number by which the running processor identifies itself.\<close>

definition boot_apic :: "hardware \<Rightarrow> u8" where
  "boot_apic hw = ucast (drop_bit 24 (r_ebx (hw_cpuid hw 1)))"

text \<open>What start-up needs of the processor and its timers, of the firmware, and of the boot loader and the screen.\<close>

definition able :: "hardware \<Rightarrow> bool" where
  "able hw \<longleftrightarrow> hasNX hw \<and> bit (r_ebx (hw_cpuid hw 7)) 0 \<and> bit (r_edx (hw_cpuid hw 0x80000001)) 11 \<and>
     expires pitFrequency (hw_pit hw) \<and> unat (hw_timerAfter hw) + 2 \<le> unat (hw_timerBefore hw)"

definition uniprocessor :: "hardware \<Rightarrow> bytes \<Rightarrow> u64 \<Rightarrow> bool" where
  "uniprocessor hw M rsdp \<longleftrightarrow> (\<exists>tabs madt rest es. described M rsdp tabs \<and> tables_signed M (map of_char ''APIC'') tabs = madt # rest \<and> madt_at M madt es \<and>
     (\<exists>c. enabled_cpus (boot_apic hw) es = [c] \<and> cpu_apicID c = boot_apic hw) \<and> list_ex is_ioapic es)"

definition screen_fits :: "LoaderInfo \<Rightarrow> u8 list \<Rightarrow> u8 list option \<Rightarrow> bool" where
  "screen_fits boot screen fresh \<longleftrightarrow> 4 * unat (boot_width boot) \<le> unat (boot_pitch boot) \<and> unat (boot_pitch boot) * unat (boot_height boot) < 2 ^ 32 \<and>
     unat (boot_pitch boot) * unat (boot_height boot) \<le> length screen \<and> (\<exists>new. fresh = Some new \<and> length new = length screen)"

definition loaded :: "bytes \<Rightarrow> (u64 \<Rightarrow> u8) \<Rightarrow> LoaderInfo \<Rightarrow> string \<Rightarrow> bool" where
  "loaded M bitmap boot args \<longleftrightarrow>
     bootKernelPages (KernelBootInfo.truncate boot) \<noteq> 0 \<and> (\<forall>m \<in> set (boot_memoryMap boot). mm_base m + mm_len m \<le> KERNEL_MMIO_LIMIT) \<and>
     18 \<le> frames (pmmInit bitmap (KernelBootInfo.truncate boot)) \<and> (\<exists>ms. modules_at M (BootInfo.truncate boot) ms) \<and>
     in_window (boot_ramdisk boot) (unat (boot_ramdiskSize boot)) \<and>
     (\<exists>rest. boot_arguments boot = map of_char args @ 0 # rest) \<and> list_all (\<lambda>c. c \<noteq> CHR 0x00) args"

definition fresh_kernel :: "kernel \<Rightarrow> bool" where
  "fresh_kernel k \<longleftrightarrow> \<not> k_lock k \<and> k_oom k = (\<lambda>_. False) \<and> k_fresh k \<noteq> 0"

definition fresh_machine :: "machine \<Rightarrow> bool" where
  "fresh_machine m \<longleftrightarrow> ac_cpus (m_apic m) = [] \<and> 7 \<le> length (m_heap m) \<and> 0 \<notin> set (take 7 (m_heap m))"

text \<open>What the set-up of the boot processor leaves alone.\<close>

definition same_setup :: "machine \<Rightarrow> machine \<Rightarrow> bool" where
  "same_setup m m' \<longleftrightarrow> m_vm m' = m_vm m \<and> m_pagingRoot m' = m_pagingRoot m \<and> ac_cpus (m_apic m') = ac_cpus (m_apic m) \<and> ac_ioapics (m_apic m') = ac_ioapics (m_apic m)"

text \<open>Firmware with an RSDP, an RSDT, and a MADT that lists one processor and one I/O APIC; a loader that found it, and a machine before its start.\<close>

definition madt_ex :: "madt_entry list" where
  "madt_ex = [LocalApic 0 0 True, IoApic 2 (0, 0, 0xC0, 0xFE) 0]"

definition firmware_uni_ex :: bytes where
  "firmware_uni_ex a =
     (let image = replicate 16 0 @ [0x40, 0x10, 0, 0] @ replicate 44 0 @ map of_char ''RSDT'' @ [40, 0, 0, 0] @ replicate 28 0 @ [0x80, 0x10, 0, 0] @ replicate 24 0 @
        map of_char ''APIC'' @ [64, 0, 0, 0] @ replicate 28 0 @ [0, 0, 0xE0, 0xFE, 1, 0, 0, 0] @ concat (map madt_bytes madt_ex)
      in if 0x1000 \<le> a \<and> unat (a - 0x1000) < length image then image ! unat (a - 0x1000) else 0)"

definition loader_uni_ex :: LoaderInfo where
  "loader_uni_ex = loader_ex\<lparr>boot_acpiRSDP := 0x1000, boot_arguments := map of_char ''lux quiet'' @ replicate 247 0\<rparr>"

definition machine_start_ex :: machine where
  "machine_start_ex = machine_ex\<lparr>m_apic := apic0\<lparr>ac_cpus := []\<rparr>\<rparr>"

section \<open>The interrupt controllers\<close>

lemma madt_note_cpus:
  "ac_cpus (madt_note hw bsp e a) = ac_cpus a @ enabled_cpus bsp [e]" "length (ac_ioapics (madt_note hw bsp e a)) = length (ac_ioapics a) + (if is_ioapic e then 1 else 0)"
  by (induction hw bsp e a rule: madt_note.induct)
    (auto simp: platformRegisterCPU_def ioapicRegister_def overrideIRQRegister_def lnmiRegister_def Let_def)

lemma enabled_cpus_Cons: "enabled_cpus bsp (e # es) = enabled_cpus bsp [e] @ enabled_cpus bsp es"
  by (cases "(bsp, e # es)" rule: enabled_cpus.cases) auto

lemma madt_fold:
  "ac_cpus (foldl (\<lambda>a e. madt_note hw bsp e a) a es) = ac_cpus a @ enabled_cpus bsp es"
  "ac_ioapics a \<noteq> [] \<or> list_ex is_ioapic es \<Longrightarrow> ac_ioapics (foldl (\<lambda>a e. madt_note hw bsp e a) a es) \<noteq> []"
proof (induction es arbitrary: a)
  case (Cons e es)
  {
    case 1
    show ?case using Cons(1) by (simp add: madt_note_cpus(1) enabled_cpus_Cons [of bsp e es])
  next
    case 2
    have "ac_ioapics (madt_note hw bsp e a) \<noteq> [] \<or> list_ex is_ioapic es"
      using 2 madt_note_cpus(2) [of hw bsp e a] by (auto split: if_splits)
    then show ?case using Cons(2) by simp
  }
qed simp_all

lemma madt_reads:
  assumes "madt_at M a es"
  defines "n \<equiv> 44 + length (concat (map madt_bytes es))"
  shows "vmmMMIO a True = a + KERNEL_MMIO_BASE" "vmmMMIO a True \<noteq> 0" "\<exists>x. peekWord 4 M (a + KERNEL_MMIO_BASE + 36) = Some x"
    "\<exists>x. peekWord 4 M (a + KERNEL_MMIO_BASE + 40) = Some x"
    "peekWord 4 M (a + KERNEL_MMIO_BASE + 4) = Some (of_nat n)" "unat (of_nat n :: u64) = n"
    "\<exists>hdr. length hdr = 44 \<and> peekBytes M (a + KERNEL_MMIO_BASE) n = Some (hdr @ concat (map madt_bytes es))"
proof -
  have w: "in_window a n" and d: "drop 44 (bytes_at M a n) = concat (map madt_bytes es)" and l: "number_at M (a + 4) 4 = of_nat n"
    using assms by (simp_all add: madt_at_def Let_def)
  have r: "in_window a (k + i)" if "k + i \<le> 44" for k i using in_window_mono [OF w] that by (simp add: n_def)
  show "vmmMMIO a True = a + KERNEL_MMIO_BASE" "vmmMMIO a True \<noteq> 0" using window_pointer [OF w] by (simp_all add: n_def)
  show "\<exists>x. peekWord 4 M (a + KERNEL_MMIO_BASE + 36) = Some x" using peekWord_window [of a 36 4 M] r [of 36 4] by simp
  show "\<exists>x. peekWord 4 M (a + KERNEL_MMIO_BASE + 40) = Some x" using peekWord_window [of a 40 4 M] r [of 40 4] by simp
  show "peekWord 4 M (a + KERNEL_MMIO_BASE + 4) = Some (of_nat n)" using peekWord_window [of a 4 4 M] r [of 4 4] l by simp
  have "n \<le> 2 ^ 34" using w by (simp add: in_window_def)
  then show "unat (of_nat n :: u64) = n" by (simp add: unsigned_of_nat take_bit_nat_eq_self)
  have "bytes_at M a n = take 44 (bytes_at M a n) @ concat (map madt_bytes es)" using d by (metis append_take_drop_id)
  moreover have "peekBytes M (a + KERNEL_MMIO_BASE) n = Some (bytes_at M a n)" using peekBytes_window [of a 0 n M] w by simp
  moreover have "length (take 44 (bytes_at M a n)) = 44" by (simp add: n_def)
  ultimately show "\<exists>hdr. length hdr = 44 \<and> peekBytes M (a + KERNEL_MMIO_BASE) n = Some (hdr @ concat (map madt_bytes es))" by metis
qed

lemma lnmi_loop_ioapics: "ac_ioapics (snd (lnmi_loop i ls n a)) = ac_ioapics a"
  by (induction i ls n a rule: lnmi_loop.induct) (simp_all add: lapicWrite_def)

lemma smpCPUInfoSetup_runs:
  assumes "cpuIndexOf (boot_apic hw) (m_apic m) = Some i" "7 \<le> length (m_heap m)" "0 \<notin> set (take 7 (m_heap m))"
  shows "\<exists>m'. smpCPUInfoSetup hw im m = Some m' \<and> same_setup m m'"
proof -
  obtain info irqcmd gdt tss stack stack1 stack2 rest where h: "m_heap m = info # irqcmd # gdt # tss # stack # stack1 # stack2 # rest"
    using assms(2) by (auto simp: numeral_eq_Suc Suc_le_length_iff)
  have nz: "0 \<notin> {info, irqcmd, gdt, tss, stack, stack1, stack2}" using assms(3) h by simp
  note R = syscallRegisters_sets [of hw im m]
  have same: "m_vm (syscallRegisters hw im m) = m_vm m" "m_pagingRoot (syscallRegisters hw im m) = m_pagingRoot m"
    by (simp_all add: syscallRegisters_def Let_def writeMSR_def)
  show ?thesis
    using assms(1) nz h unfolding smpCPUInfoSetup_def boot_apic_def [symmetric] same_setup_def
    by (simp add: Let_def R same allocated_def tssSetup_def getKernelCPUInfo_def writeMSR_def lnmiConfigure_def lnmi_loop_cpus lnmi_loop_ioapics split: if_splits)
qed

lemma enableLapic_same: "same_setup m (enableLapic m)"
  by (simp add: enableLapic_def Let_def onLapic_def lapicWrite_def writeMSR_def same_setup_def)

lemma latch_same: "m_vm (latch n m) = m_vm m" "m_pagingRoot (latch n m) = m_pagingRoot m"
  by (induction n arbitrary: m) (simp_all add: outb_def)

lemma apicTimerInit_runs:
  assumes "able hw"
  shows "\<exists>m'. apicTimerInit hw im m = Some (0, m') \<and> same_setup m m'"
proof -
  have "hw_timerAfter hw \<le> hw_timerBefore hw" "2 \<le> unat (hw_timerBefore hw) - unat (hw_timerAfter hw)" "expires pitFrequency (hw_pit hw)"
    using assms by (auto simp: able_def word_le_nat_alt)
  with apicTimerInit_programs [of hw im m] obtain m' where m': "apicTimerInit hw im m = Some (0, m')" by fastforce
  moreover have "same_setup m m'"
    using m' enableLapic_same [of m]
    by (auto simp: apicTimerInit_def Let_def onLapic_def lapicWrite_def installInterrupt_def LAPIC_TIMER_IRQ_def outb_def latch_same same_setup_def
        split: if_splits Option.bind_splits)
  ultimately show ?thesis by blast
qed

lemma maskAll_cpus: "ac_cpus (maskAll js a) = ac_cpus a"
  by (induction js a rule: maskAll.induct) (simp_all add: ioapicMask_def ioapicWrite_def Let_def split: option.splits)

lemma setupAll_cpus: "ac_cpus (setupAll is a) = ac_cpus a"
  by (induction "is" a rule: setupAll.induct) (simp_all add: ioapicSetup_def Let_def maskAll_cpus)

lemma installStubs_cpus: "ac_cpus (installStubs is stubs a) = ac_cpus a"
  by (induction "is" stubs a rule: installStubs.induct) (simp_all add: installInterrupt_def)

lemma ioapicInit_runs:
  assumes "ac_ioapics a \<noteq> []"
  shows "\<exists>n a'. ioapicInit stubs a = Some (n, a') \<and> ac_cpus a' = ac_cpus a"
  using assms by (simp add: ioapicInit_def Let_def installStubs_cpus setupAll_cpus)

lemma apicInit_runs:
  assumes hw: "able hw" and tabs: "lists M s tabs" "tables_signed M (map of_char ''APIC'') tabs = madt # rest" and madt: "madt_at M madt es"
    and cpu: "enabled_cpus (boot_apic hw) es = [c]" "cpu_apicID c = boot_apic hw" and io: "list_ex is_ioapic es" and m: "fresh_machine m"
  shows "\<exists>m'. apicInit hw im M s m = Some (0, m') \<and> m_vm m' = m_vm m \<and> m_pagingRoot m' = m_pagingRoot m \<and> ac_cpus (m_apic m') = [c]"
proof -
  note r = madt_reads [OF madt]
  have find: "acpiFindTable M s (map of_char ''APIC'') 0 = Some (madt + KERNEL_MMIO_BASE)"
    using acpiFindTable_signed [OF tabs(1), of "map of_char ''APIC''" 0] tabs(2) r(1) by simp
  obtain base legacy hdr where p: "peekWord 4 M (madt + KERNEL_MMIO_BASE + 36) = Some base" "peekWord 4 M (madt + KERNEL_MMIO_BASE + 40) = Some legacy"
    "length hdr = 44" "peekBytes M (madt + KERNEL_MMIO_BASE) (44 + length (concat (map madt_bytes es))) = Some (hdr @ concat (map madt_bytes es))" using r by blast
  define m1 where "m1 = m\<lparr>m_apic := (m_apic m)\<lparr>ac_localAPICBase := base\<rparr>\<rparr>"
  define m2 where "m2 = (if legacy AND MADT_LEGACY_PIC_PRESENT \<noteq> 0 then outb 0xA1 0xFF (outb 0x21 0xFF m1) else m1)"
  define a where "a = foldl (\<lambda>a e. madt_note (hw_devices hw) (boot_apic hw) e a) (m_apic m2) es"
  have scan: "madtScan (hw_devices hw) (boot_apic hw) (hdr @ concat (map madt_bytes es)) 44 (m_apic m2) = Some a"
    using madtScan_entries [of es "hw_devices hw" "boot_apic hw" hdr "m_apic m2"] madt p(3) by (simp add: a_def madt_at_def Let_def)
  have m2: "m_vm m2 = m_vm m" "m_pagingRoot m2 = m_pagingRoot m" "m_heap m2 = m_heap m" "ac_cpus (m_apic m2) = []"
    using m by (simp_all add: m2_def m1_def outb_def fresh_machine_def)
  have a: "ac_cpus a = [c]" "ac_ioapics a \<noteq> []" using m2(4) cpu(1) io by (simp_all add: a_def madt_fold)
  have "cpuIndexOf (boot_apic hw) (m_apic (m2\<lparr>m_apic := a\<rparr>)) = Some 0" using a(1) cpu(2) by (simp add: cpuIndexOf_def)
  from smpCPUInfoSetup_runs [OF this, of im] m m2(3) obtain m3 where
    m3: "smpCPUInfoSetup hw im (m2\<lparr>m_apic := a\<rparr>) = Some m3" "same_setup (m2\<lparr>m_apic := a\<rparr>) m3" by (auto simp: fresh_machine_def)
  obtain m4 where m4: "apicTimerInit hw im m3 = Some (0, m4)" "same_setup m3 m4" using apicTimerInit_runs [OF hw] by blast
  have s4: "m_vm m4 = m_vm m" "m_pagingRoot m4 = m_pagingRoot m" "ac_cpus (m_apic m4) = [c]" "ac_ioapics (m_apic m4) \<noteq> []"
    using m3(2) m4(2) m2 a by (simp_all add: same_setup_def)
  have smp: "smpBoot hw im m4 = Some (1, m4)" using s4(3) by (simp add: smpBoot_def platformCountCPU_def)
  obtain n a' where a': "ioapicInit (im_irqStubs im) (m_apic m4) = Some (n, a')" "ac_cpus a' = [c]" using ioapicInit_runs [OF s4(4)] s4(3) by metis
  have "apicInit hw im M s m = Some (0, m4\<lparr>m_apic := a'\<rparr>)"
    using hw r(1,2,5,6) find p scan [unfolded m2_def m1_def] m3(1) [unfolded m2_def m1_def] m4(1) smp a'(1) unfolding apicInit_def able_def boot_apic_def [symmetric]
    by (cases "legacy AND MADT_LEGACY_PIC_PRESENT = 0") (simp_all add: Let_def)
  then show ?thesis using s4 a'(2) by simp
qed

section \<open>The terminal, the arguments and the memory\<close>

lemma tty_runs:
  assumes "screen_fits boot screen fresh"
  shows "\<exists>t t1. ttyInit (boot_width boot) (boot_height boot) (boot_bpp boot) (boot_pitch boot) screen = Some t \<and> ttyCreateBackbuffer fresh t = Some t1"
proof -
  let ?p = "unat (boot_pitch boot)" and ?h = "unat (boot_height boot)" and ?w = "unat (boot_width boot)"
  have f: "4 * ?w \<le> ?p" "?p * ?h < 2 ^ 32" "?p * ?h \<le> length screen" using assms by (simp_all add: screen_fits_def)
  obtain new where new: "fresh = Some new" "length new = length screen" using assms by (auto simp: screen_fits_def)
  have "0 + i * ?p + 4 * ?w \<le> length screen" if "i < ?h" for i
  proof -
    have "Suc i * ?p \<le> ?h * ?p" using that by (intro mult_le_mono1) simp
    then show ?thesis using f by (simp add: algebra_simps)
  qed
  then obtain fb where fb: "fillLines ?h ?w 0 ?p (ttyColors ! 0) screen = Some fb" "length fb = length screen"
    using fillLines_fits [of ?h 0 ?p ?w screen "ttyColors ! 0"] by blast
  have u: "unat (ucast (boot_height boot) :: u32) = ?h"
    using unsigned_less [of "boot_height boot", where ?'a = nat] by (simp add: unsigned_ucast_eq take_bit_nat_eq_self)
  have "unat (boot_pitch boot * ucast (boot_height boot)) = ?p * ?h" using f(2) by (simp add: unat_word_ariths u)
  then show ?thesis using fb new f(3) by (simp add: ttyInit_def ttyCreateBackbuffer_def copyRange_def frameSize_def)
qed

lemma quietRequested_runs:
  assumes "0 \<notin> set args"
  shows "\<exists>q. quietRequested (args @ 0 # rest) = Some q"
proof -
  have "\<forall>i \<in> set [0..<Suc (length args - 6)]. i + 6 \<le> length (args @ 0 # rest)" if "9 \<le> length args" using that by (auto simp del: upt_Suc)
  then show ?thesis using quiet_loop_finds strlen_string [OF assms, of rest] by (auto simp: quietRequested_def simp del: upt_Suc)
qed

lemma cstring_chars:
  assumes "list_all (\<lambda>c. c \<noteq> CHR 0x00) s"
  shows "cstring (map of_char s @ 0 # rest) = s" "0 \<notin> set (map of_char s :: u8 list)"
proof -
  have u: "char_of (unat (of_char c :: u8)) = c" for c
  proof -
    have "unat (of_nat (of_char c) :: u8) = of_char c" using nat_of_char_less_256 [of c] by (simp add: unsigned_of_nat take_bit_nat_eq_self)
    then show ?thesis by (simp add: of_nat_of_char)
  qed
  have z: "c = CHR 0x00" if "(of_char c :: u8) = 0" for c using u [of c] that by (simp add: char_of_def)
  show n: "0 \<notin> set (map of_char s :: u8 list)" using assms z by (induction s) auto
  have "takeWhile (\<lambda>b. b \<noteq> 0) (map of_char s @ 0 # rest) = map of_char s" using n by (subst takeWhile_append2) auto
  then show "cstring (map of_char s @ 0 # rest) = s" by (simp add: cstring_def comp_def u)
qed

lemma ramdiskInit_runs:
  assumes "in_window (boot_ramdisk boot) (unat (boot_ramdiskSize boot))"
  shows "\<exists>disk. ramdiskInit M boot = Some disk"
proof (cases "boot_ramdiskSize boot = 0")
  case False
  then have "0 < unat (boot_ramdiskSize boot)" by (simp add: unat_gt_0)
  from window_pointer(1) [OF assms this] show ?thesis using peekBytes_window [of "boot_ramdisk boot" 0 _ M] assms by (simp add: ramdiskInit_def)
qed (simp add: ramdiskInit_def)

lemma startPaging_runs:
  assumes "able hw" "bootKernelPages boot \<noteq> 0" "\<forall>m \<in> set (boot_memoryMap boot). mm_base m + mm_len m \<le> KERNEL_MMIO_LIMIT" "18 \<le> frames (pmmInit mem boot)"
  shows "\<exists>m'. startPaging hw (pmmInit mem boot) m = Some m' \<and> m_apic m' = m_apic m \<and> m_heap m' = m_heap m \<and>
    (\<exists>lv. paging_inv (m_vm m') lv) \<and> m_pagingRoot m' < KERNEL_MMIO_LIMIT"
proof -
  let ?v = "(m_vm m)\<lparr>vm_pmm := pmmInit mem boot\<rparr>"
  from vmmInit_frames [of ?v] pmmInit_inv [OF assms(2,3), of mem] assms(4) obtain v D where
    v: "vmmInit True ?v = Some v" "setup_inv v (vm_cr3 v) D 16" by auto
  have "heap_inv \<lparr>hp_vm = v, hp_mem = \<lambda>_. 0\<rparr> heap_base" by (rule setup_heap [OF v(2)])
  then have "\<exists>lv. paging_inv v lv" by (simp add: heap_inv_def)
  moreover have "vm_cr3 v < KERNEL_MMIO_LIMIT" using v(2) by (auto simp: setup_inv_def table_page_def)
  ultimately show ?thesis using v(1) assms(1) by (simp add: startPaging_def able_def writeMSR_def)
qed

lemma installExceptions_cpus: "ac_cpus (installExceptions stubs a) = ac_cpus a"
  by (simp add: installExceptions_def installInterrupt_def)

section \<open>The whole start\<close>


section \<open>A machine that starts\<close>

lemma uniprocessor_ex: "uniprocessor hardware_ex firmware_uni_ex 0x1000"
proof -
  have "root_table firmware_uni_ex 0x1040 4 [0x1080]" unfolding root_table_def by (simp add: in_window_def) code_simp
  moreover have "number_at firmware_uni_ex (0x1000 + 15) 1 = 0" "number_at firmware_uni_ex (0x1000 + 16) 4 = 0x1040" by code_simp+
  ultimately have d: "described firmware_uni_ex 0x1000 [0x1080]" by (simp add: described_def in_window_def)
  have t: "tables_signed firmware_uni_ex (map of_char ''APIC'') [0x1080] = 0x1080 # []" by code_simp
  have l: "length (concat (map madt_bytes madt_ex)) = 20" by code_simp
  have "number_at firmware_uni_ex (0x1080 + 4) 4 = of_nat (44 + 20)" "drop 44 (bytes_at firmware_uni_ex 0x1080 (44 + 20)) = concat (map madt_bytes madt_ex)"
    "list_all madt_valid madt_ex" by code_simp+
  then have m: "madt_at firmware_uni_ex 0x1080 madt_ex" unfolding madt_at_def l Let_def by (simp add: in_window_def)
  have b: "boot_apic hardware_ex = 0" by code_simp
  have c: "enabled_cpus (boot_apic hardware_ex) madt_ex = [\<lparr>cpu_procID = 0, cpu_apicID = 0, cpu_bootCPU = True, cpu_running = True\<rparr>]"
    unfolding b by (simp add: madt_ex_def)
  have "list_ex is_ioapic madt_ex" by (simp add: madt_ex_def)
  with d t m c b show ?thesis unfolding uniprocessor_def by (metis PlatformCPU.select_convs(2))
qed

lemma loaded_ex: "loaded firmware_uni_ex (\<lambda>_. 0) loader_uni_ex ''lux quiet''"
proof -
  have b: "KernelBootInfo.truncate loader_uni_ex = boot_ex" by (simp add: loader_uni_ex_def loader_ex_def boot_ex_def KernelBootInfo.defs)
  have k: "bootKernelPages boot_ex \<noteq> 0" by code_simp
  have m: "\<forall>m \<in> set (boot_memoryMap boot_ex). mm_base m + mm_len m \<le> KERNEL_MMIO_LIMIT" by code_simp
  have mm: "boot_memoryMap loader_uni_ex = boot_memoryMap boot_ex" by (simp add: loader_uni_ex_def loader_ex_def boot_ex_def)
  have ms: "modules_at firmware_uni_ex (BootInfo.truncate loader_uni_ex) []" by (simp add: modules_at_def loader_uni_ex_def loader_ex_def BootInfo.defs)
  have r: "in_window (boot_ramdisk loader_uni_ex) (unat (boot_ramdiskSize loader_uni_ex))" by (simp add: loader_uni_ex_def loader_ex_def in_window_def)
  have a: "boot_arguments loader_uni_ex = map of_char ''lux quiet'' @ 0 # replicate 246 0" by (simp add: loader_uni_ex_def numeral_eq_Suc)
  show ?thesis unfolding loaded_def b mm using k m boot_ex_frames ms r a by auto
qed


end
