(* ===== verification/Spec2Isabelle.thy ===== *)
theory Spec2Isabelle
  imports Prelude Physical Paging Virtual KState Sched Signal Fifo IO Clock Files Procs Memory Libc Console Apic Exec Irq Requests Dispatch Syscalls Servers Firmware Cpu Heap Startup Boot Bringup
begin

text \<open>
  \<^bold>\<open>lux, a microkernel for x86-64.\<close>
  The kernel under \<^verbatim>\<open>src/src\<close> manages memory, processes and messages; files, devices and everything
  else are servers in user space. This development translates its C code into HOL functions and proves
  what makes each part correct. Theories, in the order in which they build on each other:

  \<^item> \<^verbatim>\<open>Prelude\<close>: widths of the C integers, the error numbers of \<^verbatim>\<open>errno.h\<close>, the address space
    of \<^verbatim>\<open>platform/mmap.h\<close>, and facts on words and pages.
  \<^item> \<^verbatim>\<open>Physical\<close>: the bitmap of physical pages (\<^verbatim>\<open>memory/physical.c\<close>), from the memory map of the
    boot loader to single pages and contiguous blocks. The locale \<open>page_pool\<close> states what its clients rely on.
  \<^item> \<^verbatim>\<open>Paging\<close>: the four levels of page tables (\<^verbatim>\<open>platform/x86_64/cpu/paging.c\<close>) as words of physical memory, with
    the invariant \<open>paging_inv\<close> that the tables form a tree; \<^verbatim>\<open>Virtual\<close>: lazy allocation, release and page faults
    (\<^verbatim>\<open>memory/virtual.c\<close>); \<^verbatim>\<open>Heap\<close>: \<open>malloc()\<close> and its relatives (\<^verbatim>\<open>libc/stdlib.c\<close>). The locale
    \<open>frontier_allocator\<close> has the argument that an allocator which only moves upwards gives out disjoint blocks.
  \<^item> \<^verbatim>\<open>Startup\<close>: how many physical pages \<open>vmmInit()\<close> and the requests to the heap take, and that they succeed when so many are free.
  \<^item> \<^verbatim>\<open>KState\<close>: the structures of the kernel's headers as records in stores that map pointers to objects, and
    the state \<open>kernel\<close> that all further parts share.
  \<^item> \<^verbatim>\<open>Sched\<close>, \<^verbatim>\<open>Procs\<close>: identifiers, process and thread tables, exit, wait, sleep, creation, fork, the run
    queue and the switch (\<^verbatim>\<open>sched/\<close>, \<^verbatim>\<open>platform/x86_64/sched/\<close>); \<^verbatim>\<open>Exec\<close>: the ELF loader and
    the exec calls; \<^verbatim>\<open>Signal\<close>: signal sets, queues, default actions, dispatch and return (\<^verbatim>\<open>ipc/signal.c\<close>).
  \<^item> \<^verbatim>\<open>Fifo\<close>: the locale \<open>fifo\<close> of queues that lose and reorder nothing, with one interpretation on socket
    connections in \<^verbatim>\<open>IO\<close> and one on the queue of system calls in \<^verbatim>\<open>Requests\<close>.
  \<^item> \<^verbatim>\<open>IO\<close>, \<^verbatim>\<open>Files\<close>, \<^verbatim>\<open>Memory\<close>: descriptors and local sockets (\<^verbatim>\<open>io.c\<close>, \<^verbatim>\<open>ipc/\<close>), the file calls, which
    become messages to a server (\<^verbatim>\<open>file.c\<close>, \<^verbatim>\<open>dirent.c\<close>, \<^verbatim>\<open>cwd.c\<close>), and the memory calls of programs
    (\<^verbatim>\<open>memory/brk.c\<close>, \<^verbatim>\<open>mmap.c\<close>, \<^verbatim>\<open>mmio.c\<close>).
  \<^item> \<^verbatim>\<open>Requests\<close>, \<^verbatim>\<open>Dispatch\<close>, \<^verbatim>\<open>Syscalls\<close>: the queue of system calls, one wrapper per call with the check of
    user pointers, the dispatch table, and both ends of the queue (\<^verbatim>\<open>syscalls/\<close>).
  \<^item> \<^verbatim>\<open>Servers\<close>: the messages of servers, the answers that complete waiting system calls, and the loop of the
    kernel thread (\<^verbatim>\<open>servers/\<close>, \<^verbatim>\<open>main.c\<close>).
  \<^item> \<^verbatim>\<open>Apic\<close>, \<^verbatim>\<open>Irq\<close>, \<^verbatim>\<open>Cpu\<close>: interrupt controllers and the MADT table, handlers of drivers and exceptions, and the set-up
    of the processors (\<^verbatim>\<open>platform/x86_64/apic/\<close>, \<^verbatim>\<open>cpu/\<close>, \<^verbatim>\<open>irq.c\<close>).
  \<^item> \<^verbatim>\<open>Firmware\<close>, \<^verbatim>\<open>Libc\<close>, \<^verbatim>\<open>Clock\<close>, \<^verbatim>\<open>Console\<close>: ACPI tables and boot modules, strings and numbers with the boot arguments and
    the ramdisk, the real-time clock and the random numbers, and the terminal with formatted output and the log.
  \<^item> \<^verbatim>\<open>Boot\<close>: \<open>platformMain()\<close> of \<^verbatim>\<open>platform/x86_64/main.c\<close>, the start-up functions of all the parts in their order, up to \<open>main()\<close>; \<^verbatim>\<open>Bringup\<close>: that it runs to its end on a
    machine with one processor whose firmware, boot loader and devices keep to their formats.

  \<^bold>\<open>How the parts work together.\<close> A program traps into \<open>syscallHandle()\<close>. A few groups of calls run at once; the rest wait in the queue, from which
  a kernel thread takes them with \<open>syscallProcess()\<close> and runs the wrapper. A wrapper that needs a server sends it a
  message over a socket and leaves the caller blocked; the server's answer arrives over the same socket, is taken by \<open>serverIdle()\<close> and completes the request
  in \<open>handleSyscallResponse()\<close>, which writes into the caller's memory and wakes it for \<open>schedule()\<close>. The memory calls, the loader
  and every access of the kernel to user memory go through \<open>vmmAllocate()\<close> and \<open>vmmPageFault()\<close>, these through the page tables, and
  these through the physical pages.

  \<^bold>\<open>How to read the model.\<close> Functions keep the names of the source. A function that changes state takes it as its last or first argument and returns it. A loop
  of the source is a function of its own, named after the function it is in.
  \<open>None\<close> is a run that does not come back: a null or stray pointer, an access outside an array, a halt of the machine, a lock that is
  never released, a loop without end. Loops that end by a count are recursive in the count; loops that end by a condition on words or pointers are
  \<^theory_text>\<open>partial_function (option)\<close>, and theorems say when they return. There is no fuel. Machine words keep their width, so
  sums wrap around as in C. Error numbers are negative integers as in the source.

  \<^bold>\<open>Parameters.\<close> What is not C code of the kernel is an argument: \<open>rs\<close>, the values of the random generator where the number of draws matters; \<open>sigstub\<close>, the assembled
  signal trampoline; \<open>junk\<close>, the content of fresh memory; \<open>oom\<close> in the state, which allocations of C structures fail; \<open>env\<close>, these together for the system calls;
  \<open>parse\<close>, the layout of messages; \<open>hardware\<close> and \<open>image\<close>, the answers of devices and the addresses of the linker; functions \<open>hw\<close> for device registers;
  \<open>surroundings\<close>, what the start-up finds: the memory as the boot loader leaves it, the frame buffer, the entry points in assembly code.

  \<^bold>\<open>What is proved.\<close> The claims are numbered C1, C2 and so on in the text in front of each theorem; a witness applies each claim that has premises to a concrete state.
  Memory: first fit and invariants of the page allocators, mapping and reading back, page faults that serve only permitted accesses, disjoint heap blocks with guard pages.
  Scheduling: fresh identifiers, the effect of exit and wait, sleepers that wake on time, the order of the run queue. Messages: both queues refine the
  first-in first-out contract, accepting, opening, answering and dropping. Signals: handler and return, groups. System calls: undefined calls, pointer checks.
  Start-up: reserved pages, the window of the kernel, ACPI tables and modules, the MADT scan, the other processors; the heap
  serves requests when the memory map declares enough pages, \<open>main()\<close> queues one thread per processor and the kernel's own, and an unsuitable
  machine stops while a suitable one with a single processor starts. Library: the ramdisk, the clock, formatted output and the terminal.
  Where the code does not do what it means to, a theorem states what it does, and the list of findings names it.

  \<^bold>\<open>Not modelled.\<close> The assembly files (entry stubs, context switch, port access, locks, copies): their effect is part of the C functions that call them. Races between processors: a
  call is one step, locks are flags, and what a second processor does in between is not considered. The translation cache and memory caches: a change of the page tables
  takes effect at once, as after the invalidation the code executes. \<open>platformHalt()\<close>, which waits for an interrupt. \<open>ttyRemapFramebuffer()\<close>, which
  replaces a pointer to the screen by one to the same memory. Functions of one line that return an identifier or a static variable which the model reads from its record. Log output
  outside of \<^verbatim>\<open>Console\<close>.
\<close>

section \<open>From the memory map to the heap\<close>

text \<open>
  C11: from the boot loader's memory map to a working heap. When the map declares enough memory, all of it below the
  end of the kernel's window, then the page tables of the kernel can be set up, and every request of a sequence that fits into the heap gets a
  block of its own, the blocks lying one behind the other.
\<close>

theorem boot_serves_requests:
  assumes "bootKernelPages boot \<noteq> 0" and "\<forall>m \<in> set (boot_memoryMap boot). mm_base m + mm_len m \<le> KERNEL_MMIO_LIMIT"
    and "vm_pmm v = pmmInit mem boot" and "\<forall>n \<in> set ns. n \<noteq> 0 \<and> heap_size n"
    and "heap_base + sum_list (map pages_of_request ns) * 4096 \<le> heap_top" and "18 + sum_list (map frames_of_request ns) \<le> frames (pmmInit mem boot)"
  shows "\<exists>v' ps h. vmmInit True v = Some v' \<and> allocAll malloc ns \<lparr>hp_vm = v', hp_mem = bytes\<rparr> = Some (ps, h) \<and>
    length ps = length ns \<and> 0 \<notin> set ps \<and> sorted_wrt block_before (zip ps ns)"
proof -
  note inv = pmmInit_inv [OF assms(1,2), of mem]
  from vmmInit_frames [of v] inv assms(3,6) obtain v' D where v': "vmmInit True v = Some v'" "setup_inv v' (vm_cr3 v') D 16"
    "frames (vm_pmm v) \<le> frames (vm_pmm v') + 18" by auto
  let ?h = "\<lparr>hp_vm = v', hp_mem = bytes\<rparr>"
  have hi: "heap_inv ?h heap_base" by (rule setup_heap [OF v'(2)])
  have "sum_list (map frames_of_request ns) \<le> frames (vm_pmm (hp_vm ?h))" using v'(3) assms(3,6) by simp
  from mallocs_succeed [OF hi assms(4,5) this] obtain ps h where p: "allocAll malloc ns ?h = Some (ps, h)" "0 \<notin> set ps" by blast
  have "\<forall>n \<in> set ns. heap_size n" using assms(4) by simp
  from km.allocAll_ordered [OF hi this p(1)] show ?thesis using v'(1) p by blast
qed

theorem boot_serves_requests_witness:
  "\<exists>v' p h. vmmInit True vm_boot_ex = Some v' \<and> allocAll malloc [100] \<lparr>hp_vm = v', hp_mem = (\<lambda>_. 0)\<rparr> = Some ([p], h) \<and> p \<noteq> 0"
proof -
  have k: "bootKernelPages boot_ex \<noteq> 0" by code_simp
  have m: "\<forall>m \<in> set (boot_memoryMap boot_ex). mm_base m + mm_len m \<le> KERNEL_MMIO_LIMIT" by code_simp
  have v: "vm_pmm vm_boot_ex = pmmInit (\<lambda>_. 0) boot_ex" by (simp add: vm_boot_ex_def)
  have pg: "unat (heapPages 100) = 1" by (simp add: heapPages_unat)
  from boot_serves_requests [OF k m v, of "[100]" "\<lambda>_. 0"] boot_ex_frames show ?thesis
    by (auto simp: heap_size_def pages_of_request_def frames_of_request_def pg heap_base_def heap_top_def length_Suc_conv simp del: allocAll.simps)
qed

end
